(* ===== verification/Rust_Prelude.thy ===== *)
theory Rust_Prelude
  imports Main "HOL-Library.Word"
begin

text \<open>
  The vocabulary that every component of the development shares.

  \<^item> Machine integers: \<open>u8\<close> to \<open>u64\<close> and \<open>usize\<close> (the drivers are modelled for a
    64-bit target) are words.
  \<^item> Results: a Rust function that can fail returns \<^typ>\<open>'a\<close> or an error, and it can also
    panic (a failed \<open>assert!\<close>, an out-of-range slice, an \<open>unwrap\<close> of nothing). Loops that
    the source does not bound (polling a device) carry fuel, and running out of it is a value
    of its own, so that it is never mistaken for a result.
  \<^item> Effects: an operation on mutable state of type \<open>'s\<close> is a function
    \<open>'s \<Rightarrow> ('a, 'e) res \<times> 's\<close>; \<open>bind_m\<close> is the \<open>?\<close> operator.
  \<^item> Memory: slices of bytes are lists, packed structures are the concatenation of the
    little-endian images of their fields.
\<close>

unbundle bit_operations_syntax

named_theorems res_defs \<open>definitions of the result and state monad\<close>
named_theorems bytes_simps \<open>length and bit-level facts on byte images\<close>

type_synonym u8 = "8 word"
type_synonym u16 = "16 word"
type_synonym u32 = "32 word"
type_synonym u64 = "64 word"
type_synonym bytes = "u8 list"

subsection \<open>Results\<close>

datatype ('a, 'e) res = Ok 'a | Err 'e | Panic | NoFuel

fun bind_r :: "('a, 'e) res \<Rightarrow> ('a \<Rightarrow> ('b, 'e) res) \<Rightarrow> ('b, 'e) res" where
  "bind_r (Ok a) f = f a"
| "bind_r (Err e) f = Err e"
| "bind_r Panic f = Panic"
| "bind_r NoFuel f = NoFuel"

fun map_res :: "('a \<Rightarrow> 'b) \<Rightarrow> ('a, 'e) res \<Rightarrow> ('b, 'e) res" where
  "map_res f (Ok a) = Ok (f a)"
| "map_res f (Err e) = Err e"
| "map_res f Panic = Panic"
| "map_res f NoFuel = NoFuel"

fun map_err :: "('e \<Rightarrow> 'f) \<Rightarrow> ('a, 'e) res \<Rightarrow> ('a, 'f) res" where
  "map_err f (Ok a) = Ok a"
| "map_err f (Err e) = Err (f e)"
| "map_err f Panic = Panic"
| "map_err f NoFuel = NoFuel"

fun is_ok :: "('a, 'e) res \<Rightarrow> bool" where
  "is_ok (Ok _) = True"
| "is_ok _ = False"

text \<open>The error numbers that the drivers return; those of the kernel are passed on.\<close>

datatype errno = EBADF | EINVAL | EIO | ENOENT | EACCES | EISDIR | ENOTDIR | EWOULDBLOCK | EAGAIN
  | ENOSYS | EOVERFLOW | EPROTO | ENOLCK | EBADFD | ENOMEM | EBADMSG
  | ESPIPE | EPERM | ENODEV | EBUSY | EEXIST | ENXIO | Errno nat

lemma bind_r_eq_Ok [simp]: "bind_r r f = Ok b \<longleftrightarrow> (\<exists>a. r = Ok a \<and> f a = Ok b)"
  by (cases r) auto

lemma map_res_eq_Ok [simp]: "map_res f r = Ok b \<longleftrightarrow> (\<exists>a. r = Ok a \<and> b = f a)"
  by (cases r) auto

lemma map_err_eq_Ok [simp]: "map_err f r = Ok b \<longleftrightarrow> r = Ok b"
  by (cases r) auto

lemma bind_r_assoc: "bind_r (bind_r r f) g = bind_r r (\<lambda>x. bind_r (f x) g)"
  by (cases r) auto

lemma is_ok_iff: "is_ok r \<longleftrightarrow> (\<exists>a. r = Ok a)"
  by (cases r) auto

subsection \<open>State passing with results\<close>

type_synonym ('s, 'a, 'e) st = "'s \<Rightarrow> ('a, 'e) res \<times> 's"

definition return_m :: "'a \<Rightarrow> ('s, 'a, 'e) st" where
  "return_m a = (\<lambda>s. (Ok a, s))"

definition fail_m :: "'e \<Rightarrow> ('s, 'a, 'e) st" where
  "fail_m e = (\<lambda>s. (Err e, s))"

definition panic_m :: "('s, 'a, 'e) st" where
  "panic_m = (\<lambda>s. (Panic, s))"

definition bind_m :: "('s, 'a, 'e) st \<Rightarrow> ('a \<Rightarrow> ('s, 'b, 'e) st) \<Rightarrow> ('s, 'b, 'e) st" where
  "bind_m m f = (\<lambda>s. case m s of
      (Ok a, s') \<Rightarrow> f a s'
    | (Err e, s') \<Rightarrow> (Err e, s')
    | (Panic, s') \<Rightarrow> (Panic, s')
    | (NoFuel, s') \<Rightarrow> (NoFuel, s'))"

definition then_m :: "('s, 'a, 'e) st \<Rightarrow> ('s, 'b, 'e) st \<Rightarrow> ('s, 'b, 'e) st" where
  "then_m m k = bind_m m (\<lambda>_. k)"

lemmas st_defs = return_m_def fail_m_def panic_m_def bind_m_def then_m_def

lemma bind_m_Ok:
  "bind_m m f s = (Ok b, t) \<longleftrightarrow> (\<exists>a s'. m s = (Ok a, s') \<and> f a s' = (Ok b, t))"
  by (auto simp: bind_m_def split: prod.splits res.splits)

lemma bind_m_return [simp]: "bind_m (return_m a) f = f a"
  by (simp add: bind_m_def return_m_def)

lemma bind_m_assoc: "bind_m (bind_m m f) g = bind_m m (\<lambda>x. bind_m (f x) g)"
  by (rule ext) (auto simp: bind_m_def split: prod.splits res.splits)

text \<open>
  A property of all states an operation can end in (whatever its result is), and of the final
  states only on success. These are the two triples the component proofs compose.
\<close>

definition keeps :: "('s \<Rightarrow> bool) \<Rightarrow> ('s, 'a, 'e) st \<Rightarrow> bool" where
  "keeps P m \<longleftrightarrow> (\<forall>s. P s \<longrightarrow> P (snd (m s)))"

lemma keepsI [intro?]: "(\<And>s. P s \<Longrightarrow> P (snd (m s))) \<Longrightarrow> keeps P m"
  by (simp add: keeps_def)

lemma keepsD: "keeps P m \<Longrightarrow> P s \<Longrightarrow> P (snd (m s))"
  by (simp add: keeps_def)

lemma keeps_return [simp, intro]: "keeps P (return_m a)"
  by (simp add: keeps_def return_m_def)

lemma keeps_fail [simp, intro]: "keeps P (fail_m e)"
  by (simp add: keeps_def fail_m_def)

lemma keeps_panic [simp, intro]: "keeps P panic_m"
  by (simp add: keeps_def panic_m_def)

lemma keeps_bind [intro]:
  assumes m: "keeps P m" and f: "\<And>a. keeps P (f a)"
  shows "keeps P (bind_m m f)"
proof
  fix s assume P: "P s"
  obtain r s' where ms: "m s = (r, s')" by fastforce
  with keepsD [OF m P] have "P s'" by simp
  then show "P (snd (bind_m m f s))"
    using f [THEN keepsD] by (cases r) (simp_all add: bind_m_def ms)
qed

lemma keeps_then [intro]: "keeps P m \<Longrightarrow> keeps P k \<Longrightarrow> keeps P (then_m m k)"
  by (auto simp: then_m_def)

text \<open>An operation repeated \<open>k\<close> times, with the results in order.\<close>

fun repeat_m :: "nat \<Rightarrow> ('s, 'a, 'e) st \<Rightarrow> ('s, 'a list, 'e) st" where
  "repeat_m 0 m = return_m []"
| "repeat_m (Suc k) m = bind_m m (\<lambda>a. bind_m (repeat_m k m) (\<lambda>as. return_m (a # as)))"

lemma repeat_m_total:
  assumes "\<And>s. P s \<Longrightarrow> m s = (Ok (out s), step s)" and "\<And>s. P s \<Longrightarrow> P (step s)" and "P s"
  shows "repeat_m k m s = (Ok (map (\<lambda>j. out ((step ^^ j) s)) [0..<k]), (step ^^ k) s)"
  using assms(3)
proof (induction k arbitrary: s)
  case (Suc k)
  then show ?case
    by (simp add: bind_m_def return_m_def assms map_upt_Suc funpow_swap1 del: upt_Suc)
qed (simp add: return_m_def)

text \<open>
  Destructors. A value in scope is dropped when the block is left, on every path
  (\<open>finally_m\<close>), or only when it was not moved into the result (\<open>on_failure_m\<close>). The result of
  the destructor is ignored.
\<close>

definition finally_m :: "('s, 'a, 'e) st \<Rightarrow> ('s, 'b, 'f) st \<Rightarrow> ('s, 'a, 'e) st" where
  "finally_m m d = (\<lambda>s. case m s of (r, s') \<Rightarrow> (r, snd (d s')))"

definition on_failure_m :: "('s, 'a, 'e) st \<Rightarrow> ('s, 'b, 'f) st \<Rightarrow> ('s, 'a, 'e) st" where
  "on_failure_m m d = (\<lambda>s. case m s of (r, s') \<Rightarrow> (r, if is_ok r then s' else snd (d s')))"

lemma finally_m_Ok:
  "finally_m m d s = (Ok a, t) \<longleftrightarrow> (\<exists>s'. m s = (Ok a, s') \<and> t = snd (d s'))"
  by (auto simp: finally_m_def split: prod.splits)

lemma on_failure_m_Ok: "on_failure_m m d s = (Ok a, t) \<longleftrightarrow> m s = (Ok a, t)"
  by (auto simp: on_failure_m_def split: prod.splits)

lemma fst_finally_m [simp]: "fst (finally_m m d s) = fst (m s)"
  by (simp add: finally_m_def split: prod.split)

lemma fst_on_failure_m [simp]: "fst (on_failure_m m d s) = fst (m s)"
  by (simp add: on_failure_m_def split: prod.split)

text \<open>
  Adapters: a result without effect, the conversion of an error, and an operation on one part of
  the state, such as a buffer that is passed along by mutable reference.
\<close>

definition of_res :: "('a, 'e) res \<Rightarrow> ('s, 'a, 'e) st" where
  "of_res r = (\<lambda>s. (r, s))"

definition ok_or :: "'e \<Rightarrow> 'a option \<Rightarrow> ('s, 'a, 'e) st" where
  "ok_or e x = (case x of None \<Rightarrow> fail_m e | Some a \<Rightarrow> return_m a)"

definition map_err_m :: "('e \<Rightarrow> 'f) \<Rightarrow> ('s, 'a, 'e) st \<Rightarrow> ('s, 'a, 'f) st" where
  "map_err_m f m = (\<lambda>s. case m s of (r, s') \<Rightarrow> (map_err f r, s'))"

definition on_fst :: "('s, 'a, 'e) st \<Rightarrow> ('s \<times> 't, 'a, 'e) st" where
  "on_fst m = (\<lambda>(s, t). case m s of (r, s') \<Rightarrow> (r, (s', t)))"

lemma ok_or_simps [simp]: "ok_or e None = fail_m e" "ok_or e (Some a) = return_m a"
  by (simp_all add: ok_or_def)

lemma map_err_m_Ok: "map_err_m f m s = (Ok a, t) \<longleftrightarrow> m s = (Ok a, t)"
  by (auto simp: map_err_m_def split: prod.splits)

lemma on_fst_Ok: "on_fst m (s, b) = (Ok a, t) \<longleftrightarrow> (\<exists>s'. m s = (Ok a, s') \<and> t = (s', b))"
  by (auto simp: on_fst_def split: prod.splits)

lemma keeps_of_res [simp, intro]: "keeps P (of_res r)"
  by (simp add: keeps_def of_res_def)

lemma keeps_ok_or [simp, intro]: "keeps P (ok_or e x)"
  by (cases x) auto

lemma keeps_map_err [intro]: "keeps P m \<Longrightarrow> keeps P (map_err_m f m)"
  by (auto simp: keeps_def map_err_m_def split: prod.split)

lemma keeps_finally:
  assumes "keeps P m" and "keeps P d"
  shows "keeps P (finally_m m d)"
  using assms by (auto simp: keeps_def finally_m_def split: prod.split)

lemma keeps_on_fst [intro]: "keeps P m \<Longrightarrow> keeps (\<lambda>(s, t). P s) (on_fst m)"
  by (auto simp: keeps_def on_fst_def split: prod.split)

lemma keeps_on_fst_snd [intro]: "keeps (\<lambda>(s, t). Q t) (on_fst m)"
  by (auto simp: keeps_def on_fst_def split: prod.split)

subsection \<open>Slices\<close>

definition subslice :: "nat \<Rightarrow> nat \<Rightarrow> 'a list \<Rightarrow> 'a list" where
  "subslice off n xs = take n (drop off xs)"

lemma length_subslice [simp]: "length (subslice off n xs) = min n (length xs - off)"
  by (simp add: subslice_def min.commute)

lemma nth_subslice [simp]: "i < n \<Longrightarrow> off + i < length xs \<Longrightarrow> subslice off n xs ! i = xs ! (off + i)"
  by (simp add: subslice_def)

lemma subslice_all [simp]: "length xs \<le> n \<Longrightarrow> subslice 0 n xs = xs"
  by (simp add: subslice_def)

lemma subslice_0_size [simp]: "subslice off 0 xs = []"
  by (simp add: subslice_def)

lemma subslice_append_adjacent:
  "subslice off m xs @ subslice (off + m) n xs = subslice off (m + n) xs"
  by (simp add: subslice_def take_add add.commute)

lemma subslice_slice:
  "i + n \<le> m \<Longrightarrow> subslice i n (subslice off m xs) = subslice (off + i) n xs"
  by (simp add: subslice_def drop_take add.commute)

text \<open>\<open>buf[off..off + len].copy_from_slice(src)\<close>, for a range that is inside the buffer.\<close>

definition blit :: "'a list \<Rightarrow> nat \<Rightarrow> 'a list \<Rightarrow> 'a list" where
  "blit buf off src = take off buf @ src @ drop (off + length src) buf"

lemma length_blit [simp]:
  "off + length src \<le> length buf \<Longrightarrow> length (blit buf off src) = length buf"
  by (simp add: blit_def)

lemma subslice_blit [simp]:
  "off + length src \<le> length buf \<Longrightarrow> subslice off (length src) (blit buf off src) = src"
  by (simp add: blit_def subslice_def)

text \<open>Bytes copied to the start of a buffer that is at least as long.\<close>

definition fill_buffer :: "bytes \<Rightarrow> bytes \<Rightarrow> bytes" where
  "fill_buffer buf d = take (length buf) d @ drop (length d) buf"

lemma length_fill_buffer [simp]: "length (fill_buffer buf d) = length buf"
  by (simp add: fill_buffer_def)

subsection \<open>Little-endian images of machine integers\<close>

definition le_bytes :: "nat \<Rightarrow> 'a::len word \<Rightarrow> bytes" where
  "le_bytes n w = map (\<lambda>i. ucast (drop_bit (8 * i) w)) [0..<n]"

fun from_le :: "bytes \<Rightarrow> 'a::len word" where
  "from_le [] = 0"
| "from_le (b # bs) = ucast b OR push_bit 8 (from_le bs)"

text \<open>\<open>to_be\<close> and \<open>from_be\<close> of the \<open>n\<close>-byte integer types, on a little-endian target.\<close>

definition swap_bytes :: "nat \<Rightarrow> 'a::len word \<Rightarrow> 'a word" where
  "swap_bytes n w = from_le (rev (le_bytes n w))"

lemma length_le_bytes [simp, bytes_simps]: "length (le_bytes n w) = n"
  by (simp add: le_bytes_def)

lemma nth_le_bytes [bytes_simps]: "i < n \<Longrightarrow> le_bytes n w ! i = ucast (drop_bit (8 * i) w)"
  by (simp add: le_bytes_def)

lemma bit_from_le [bytes_simps]:
  "bit (from_le bs :: 'a::len word) k \<longleftrightarrow>
     k < LENGTH('a) \<and> k div 8 < length bs \<and> bit (bs ! (k div 8)) (k mod 8)"
proof (induction bs arbitrary: k)
  case Nil
  then show ?case by simp
next
  case (Cons b bs)
  show ?case
  proof (cases "k < 8")
    case True
    then show ?thesis
      by (auto simp: bit_simps)
  next
    case False
    then have "k div 8 = Suc ((k - 8) div 8)" and "k mod 8 = (k - 8) mod 8"
      by (simp_all add: le_div_geq le_mod_geq)
    with False Cons.IH [of "k - 8"] show ?thesis
      by (auto simp: bit_simps dest: bit_imp_le_length)
  qed
qed

lemma from_le_le_bytes:
  fixes w :: "'a::len word"
  assumes "LENGTH('a) = 8 * n"
  shows "from_le (le_bytes n w) = w"
proof (rule bit_word_eqI)
  fix k assume k: "k < LENGTH('a)"
  then have "k div 8 < n" using assms by auto
  moreover have "8 * (k div 8) + k mod 8 = k" by simp
  ultimately show "bit (from_le (le_bytes n w) :: 'a word) k = bit w k"
    using k by (simp add: bytes_simps bit_simps)
qed

lemma le_bytes_from_le:
  fixes bs :: bytes
  assumes "LENGTH('a::len) = 8 * length bs"
  shows "le_bytes (length bs) (from_le bs :: 'a word) = bs"
proof (rule nth_equalityI)
  show "length (le_bytes (length bs) (from_le bs :: 'a word)) = length bs" by simp
next
  fix i assume "i < length (le_bytes (length bs) (from_le bs :: 'a word))"
  then have i: "i < length bs" by simp
  show "le_bytes (length bs) (from_le bs :: 'a word) ! i = bs ! i"
  proof (rule bit_word_eqI)
    fix k assume "k < LENGTH(8)"
    then have "k < 8" by simp
    moreover from this i have "8 * i + k < 8 * length bs" by linarith
    ultimately show "bit (le_bytes (length bs) (from_le bs :: 'a word) ! i) k = bit (bs ! i) k"
      using i assms by (simp add: bytes_simps bit_simps)
  qed
qed

lemma le_bytes_swap_bytes:
  fixes w :: "'a::len word"
  assumes "LENGTH('a) = 8 * n"
  shows "le_bytes n (swap_bytes n w) = rev (le_bytes n w)"
  using le_bytes_from_le [of "rev (le_bytes n w)", where 'a = 'a] assms
  by (simp add: swap_bytes_def)

lemma swap_bytes_involution:
  fixes w :: "'a::len word"
  assumes "LENGTH('a) = 8 * n"
  shows "swap_bytes n (swap_bytes n w) = w"
  using assms by (simp add: swap_bytes_def [of n "swap_bytes n w"] le_bytes_swap_bytes
    from_le_le_bytes)

text \<open>The instances for the integer types of the drivers.\<close>

lemma from_le_le_bytes_sized [simp]:
  fixes a :: u16 and b :: u32 and c :: u64 and d :: u8
  shows "from_le (le_bytes 1 d) = d" "from_le (le_bytes 2 a) = a" "from_le (le_bytes 4 b) = b"
    "from_le (le_bytes 8 c) = c"
  by (simp_all add: from_le_le_bytes)

lemma swap_bytes_sized [simp]:
  fixes a :: u16 and b :: u32 and c :: u64
  shows "swap_bytes 2 (swap_bytes 2 a) = a" "swap_bytes 4 (swap_bytes 4 b) = b"
    "swap_bytes 8 (swap_bytes 8 c) = c"
  by (simp_all add: swap_bytes_involution)

lemma le_bytes_swap_sized [simp]:
  fixes a :: u16 and b :: u32 and c :: u64
  shows "le_bytes 2 (swap_bytes 2 a) = rev (le_bytes 2 a)"
    "le_bytes 4 (swap_bytes 4 b) = rev (le_bytes 4 b)"
    "le_bytes 8 (swap_bytes 8 c) = rev (le_bytes 8 c)"
  by (simp_all add: le_bytes_swap_bytes)

subsection \<open>Small facts on words\<close>

definition bool_word :: "bool \<Rightarrow> 'a::len word" where
  "bool_word b = (if b then 1 else 0)"

lemma bit_bool_word [simp]: "bit (bool_word b :: 'a::len word) k \<longleftrightarrow> b \<and> k = 0"
  by (auto simp: bool_word_def bit_1_iff)

lemma bool_word_simps [simp]: "bool_word True = 1" "bool_word False = 0"
  by (simp_all add: bool_word_def)

text \<open>A boolean shifted to bit \<open>k\<close>: \<open>u32::from(b) << k\<close>.\<close>

definition flag_at :: "nat \<Rightarrow> bool \<Rightarrow> 'a::len word" where
  "flag_at k b = push_bit k (bool_word b)"

lemma bit_flag_at [simp]: "bit (flag_at k b :: 'a::len word) n \<longleftrightarrow> b \<and> n = k \<and> k < LENGTH('a)"
  by (auto simp: flag_at_def bit_push_bit_iff)

lemma unat_of_nat_u32: "n < 2 ^ 32 \<Longrightarrow> unat (of_nat n :: u32) = n"
  by (simp add: unat_of_nat take_bit_nat_eq_self)

lemma unat_of_nat_u64: "n < 2 ^ 64 \<Longrightarrow> unat (of_nat n :: u64) = n"
  by (simp add: unat_of_nat)

lemma unat_plus_u64:
  assumes "unat a + n < 2 ^ 64"
  shows "unat (a + of_nat n :: u64) = unat a + n"
proof -
  have "unat (of_nat n :: u64) = n" using assms by (intro unat_of_nat_u64) simp
  then show ?thesis using assms by (simp add: unat_word_ariths(1))
qed

lemma unat_u16_less: "unat (b :: u16) < 65536"
  using unsigned_less [of b] by simp

lemma unat_ucast_u16:
  "unat (ucast (b :: u16) :: u32) = unat b" "unat (ucast b :: u64) = unat b"
  by (simp_all add: unsigned_ucast_eq take_bit_nat_eq_self_iff unat_u16_less
    order_less_trans [OF unat_u16_less])

text \<open>A mask of one bit tests that bit.\<close>

lemma and_one_eq_one_iff: "(w :: 'a::len word) AND 1 = 1 \<longleftrightarrow> bit w 0"
  by (simp add: and_one_eq bit_0 odd_iff_mod_2_eq_one)

lemma and_mask_D: "(w :: 'a::len word) AND mask n = w \<Longrightarrow> bit w k \<Longrightarrow> k < n"
  by (metis bit_and_iff bit_mask_iff)

lemma and_mask_I:
  fixes w :: "'a::len word"
  assumes "\<And>k. bit w k \<Longrightarrow> k < n"
  shows "w AND mask n = w"
  using assms by (intro bit_word_eqI) (auto simp: bit_simps)

text \<open>The bits of the low masks that the drivers use.\<close>

lemma low_masks:
  "(3 :: 'a::len word) = mask 2" "(7 :: 'a word) = mask 3" "(15 :: 'a word) = mask 4"
  "(31 :: 'a word) = mask 5" "(63 :: 'a word) = mask 6" "(127 :: 'a word) = mask 7"
  "(255 :: 'a word) = mask 8" "(1023 :: 'a word) = mask 10" "(65535 :: 'a word) = mask 16"
  "(131071 :: 'a word) = mask 17" "(16777215 :: 'a word) = mask 24"
  by (simp_all add: mask_eq_exp_minus_1)

lemma bit_low_masks:
  "bit (3 :: 'a::len word) k \<longleftrightarrow> k < LENGTH('a) \<and> k < 2"
  "bit (7 :: 'a word) k \<longleftrightarrow> k < LENGTH('a) \<and> k < 3"
  "bit (15 :: 'a word) k \<longleftrightarrow> k < LENGTH('a) \<and> k < 4"
  "bit (31 :: 'a word) k \<longleftrightarrow> k < LENGTH('a) \<and> k < 5"
  "bit (63 :: 'a word) k \<longleftrightarrow> k < LENGTH('a) \<and> k < 6"
  "bit (127 :: 'a word) k \<longleftrightarrow> k < LENGTH('a) \<and> k < 7"
  "bit (255 :: 'a word) k \<longleftrightarrow> k < LENGTH('a) \<and> k < 8"
  "bit (1023 :: 'a word) k \<longleftrightarrow> k < LENGTH('a) \<and> k < 10"
  "bit (65535 :: 'a word) k \<longleftrightarrow> k < LENGTH('a) \<and> k < 16"
  "bit (131071 :: 'a word) k \<longleftrightarrow> k < LENGTH('a) \<and> k < 17"
  "bit (16777215 :: 'a word) k \<longleftrightarrow> k < LENGTH('a) \<and> k < 24"
  by (simp_all only: low_masks bit_mask_iff possible_bit_word)

text \<open>Two's complement wrap-around of 64-bit signed sums.\<close>

definition i64_wrap :: "int \<Rightarrow> int" where
  "i64_wrap x = (x + 2 ^ 63) mod 2 ^ 64 - 2 ^ 63"

lemma i64_wrap_id [simp]: "- (2 ^ 63) \<le> x \<Longrightarrow> x < 2 ^ 63 \<Longrightarrow> i64_wrap x = x"
  by (simp add: i64_wrap_def)

end
