(* ===== verification/Block_IO.thy ===== *)
theory Block_IO
  imports Rust_Prelude
begin

text \<open>
  The block layer shared by the disk drivers, \<open>storage/driver-block/src/lib.rs\<close>: the function
  \<open>block_read\<close>, which serves a read at any byte offset and of any length out of whole-block
  reads, and the seekable reader \<open>Device\<close> through which \<open>DiskWrapper::pt\<close> shows a disk to the
  partition parser. The disk itself is a parameter: a value of \<open>disk_ops\<close>, one function per
  method of the trait \<open>Disk\<close> that the reader calls.
\<close>

subsection \<open>block\_read\<close>

definition u64_max :: nat where
  "u64_max = 2 ^ 64 - 1"

text \<open>
  The callback \<open>read_fn\<close> gets a block number and the block buffer and leaves the block in the
  buffer; it may keep state of its own.
\<close>

type_synonym ('s, 'e) read_fn = "nat \<Rightarrow> bytes \<Rightarrow> 's \<Rightarrow> (unit, 'e) res \<times> bytes \<times> 's"

text \<open>
  The loop of \<open>block_read\<close>. \<open>filled\<close> is the part of \<open>buf\<close> already written and \<open>curr_buf\<close> is
  \<open>curr_buf\<close>, so the whole buffer is \<open>filled @ curr_buf\<close>. The result also gives the final contents
  of \<open>buf\<close> and \<open>block_bytes\<close>. A block size of zero makes the remainder panic, and so does a
  block buffer that is shorter than the bytes taken from it.
\<close>

function block_read_loop ::
  "nat \<Rightarrow> ('s, 'e) read_fn \<Rightarrow> nat \<Rightarrow> bytes \<Rightarrow> bytes \<Rightarrow> nat \<Rightarrow> bytes \<Rightarrow> 's
     \<Rightarrow> (nat, 'e) res \<times> bytes \<times> bytes \<times> 's" where
  "block_read_loop blksize read_fn curr_offset filled curr_buf total_read block_bytes s =
     (if curr_buf = [] then (Ok total_read, filled, block_bytes, s)
      else if blksize = 0 then (Panic, filled @ curr_buf, block_bytes, s)
      else
        let blk_offset = curr_offset mod blksize;
            to_copy = min (length curr_buf) (blksize - blk_offset)
        in case read_fn (curr_offset div blksize) block_bytes s of
             (Ok _, block_bytes', s') \<Rightarrow>
               if length block_bytes' < blk_offset + to_copy
               then (Panic, filled @ curr_buf, block_bytes', s')
               else block_read_loop blksize read_fn ((curr_offset + to_copy) mod 2 ^ 64)
                      (filled @ subslice blk_offset to_copy block_bytes') (drop to_copy curr_buf)
                      (total_read + to_copy) block_bytes' s'
           | (Err e, block_bytes', s') \<Rightarrow> (Err e, filled @ curr_buf, block_bytes', s')
           | (Panic, block_bytes', s') \<Rightarrow> (Panic, filled @ curr_buf, block_bytes', s')
           | (NoFuel, block_bytes', s') \<Rightarrow> (NoFuel, filled @ curr_buf, block_bytes', s'))"
  by pat_completeness auto
termination
proof (relation "measure (\<lambda>(_, _, _, _, curr_buf, _, _, _). length curr_buf)", goal_cases)
  case 1
  show ?case by simp
next
  case (2 blksize read_fn curr_offset filled curr_buf total_read block_bytes s)
  then show ?case by auto
qed

declare block_read_loop.simps [simp del]

definition block_read ::
  "nat \<Rightarrow> nat \<Rightarrow> bytes \<Rightarrow> bytes \<Rightarrow> ('s, 'e) read_fn \<Rightarrow> 's
     \<Rightarrow> (nat, 'e) res \<times> bytes \<times> bytes \<times> 's" where
  "block_read offset blksize buf block_bytes read_fn s =
     (if length buf = 0 then (Ok 0, buf, block_bytes, s)
      else
        let to_copy = min (offset + length buf) u64_max - offset
        in case block_read_loop blksize read_fn offset [] (take to_copy buf) 0 block_bytes s of
             (r, buf', block_bytes', s') \<Rightarrow> (r, buf' @ drop to_copy buf, block_bytes', s'))"

subsection \<open>The disk and the seekable reader\<close>

text \<open>
  \<open>Disk::block_length\<close>, \<open>Disk::size\<close> and \<open>Disk::read\<close>. A read answers the number of bytes, or
  nothing when the disk is busy, or an error number, and leaves its data in the buffer.
\<close>

record 'd disk_ops =
  disk_block_length :: "'d \<Rightarrow> (nat, errno) res \<times> 'd"
  disk_size :: "'d \<Rightarrow> nat \<times> 'd"
  disk_read :: "nat \<Rightarrow> bytes \<Rightarrow> 'd \<Rightarrow> (nat option, errno) res \<times> bytes \<times> 'd"

text \<open>
  The closure \<open>read_block\<close>. The disk is polled until it answers; \<open>fuel\<close> bounds the polls.
\<close>

fun read_block_poll :: "nat \<Rightarrow> 'd disk_ops \<Rightarrow> nat \<Rightarrow> ('d, errno) read_fn" where
  "read_block_poll 0 D blksize block block_bytes d = (NoFuel, block_bytes, d)"
| "read_block_poll (Suc fuel) D blksize block block_bytes d =
     (case disk_read D block block_bytes d of
        (Ok (Some n), block_bytes', d') \<Rightarrow>
          (if n = length block_bytes' \<and> n = blksize then Ok () else Panic, block_bytes', d')
      | (Ok None, block_bytes', d') \<Rightarrow> read_block_poll fuel D blksize block block_bytes' d'
      | (Err e, block_bytes', d') \<Rightarrow> (Err e, block_bytes', d')
      | (Panic, block_bytes', d') \<Rightarrow> (Panic, block_bytes', d')
      | (NoFuel, block_bytes', d') \<Rightarrow> (NoFuel, block_bytes', d'))"

definition read_block :: "nat \<Rightarrow> 'd disk_ops \<Rightarrow> nat \<Rightarrow> nat \<Rightarrow> ('d, errno) read_fn" where
  "read_block fuel D blksize size_in_blocks block block_bytes d =
     (if size_in_blocks \<le> block then (Err EOVERFLOW, block_bytes, d)
      else read_block_poll fuel D blksize block block_bytes d)"

record 'd device =
  dev_disk :: 'd
  dev_offset :: nat
  dev_block_bytes :: bytes

datatype seek_from = Start nat | Current int | End int

datatype io_error = TooLarge | Os errno

definition seek :: "'d disk_ops \<Rightarrow> seek_from \<Rightarrow> ('d device, nat, io_error) st" where
  "seek D from dev =
     (case disk_size D (dev_disk dev) of (disk_sz, d1) \<Rightarrow>
        if 2 ^ 63 \<le> disk_sz then (Err TooLarge, dev\<lparr>dev_disk := d1\<rparr>)
        else
          (case (case from of
               Start new_pos \<Rightarrow>
                 (case disk_size D d1 of (disk_sz2, d2) \<Rightarrow> (min disk_sz2 new_pos, d2))
             | Current new_pos \<Rightarrow>
                 (nat (max 0 (min (int disk_sz)
                    (i64_wrap (i64_wrap (int (dev_offset dev)) + new_pos)))), d1)
             | End new_pos \<Rightarrow>
                 (nat (max 0 (min (i64_wrap (int disk_sz + new_pos)) (int disk_sz))), d1))
           of (off, d2) \<Rightarrow> (Ok off, dev\<lparr>dev_disk := d2, dev_offset := off\<rparr>)))"

text \<open>
  \<open>Read for Device\<close>: the number of bytes read or the error, and the buffer after the call.
\<close>

definition device_read ::
  "nat \<Rightarrow> 'd disk_ops \<Rightarrow> bytes \<Rightarrow> 'd device \<Rightarrow> (nat, errno) res \<times> bytes \<times> 'd device" where
  "device_read fuel D buf dev =
     (case disk_block_length D (dev_disk dev) of
        (Ok blksize, d1) \<Rightarrow>
          (case disk_size D d1 of (disk_sz, d2) \<Rightarrow>
             if blksize = 0 then (Panic, buf, dev\<lparr>dev_disk := d2\<rparr>)
             else
               (case block_read (dev_offset dev) blksize buf (dev_block_bytes dev)
                       (read_block fuel D blksize (disk_sz div blksize)) d2 of
                  (r, buf', bb, d3) \<Rightarrow>
                    (r, buf', dev\<lparr>dev_disk := d3, dev_block_bytes := bb,
                       dev_offset := (case r of Ok n \<Rightarrow> (dev_offset dev + n) mod 2 ^ 64
                                              | _ \<Rightarrow> dev_offset dev)\<rparr>)))
      | (Err e, d1) \<Rightarrow> (Err e, buf, dev\<lparr>dev_disk := d1\<rparr>)
      | (Panic, d1) \<Rightarrow> (Panic, buf, dev\<lparr>dev_disk := d1\<rparr>)
      | (NoFuel, d1) \<Rightarrow> (NoFuel, buf, dev\<lparr>dev_disk := d1\<rparr>))"

subsection \<open>The contract of a block source\<close>

text \<open>
  What \<open>block_read\<close> relies on: on states that satisfy \<open>inv\<close>, reading one of the \<open>nblocks\<close>
  blocks of \<open>img\<close> fills the block buffer with that block, and reading any other block is an
  error that leaves the buffer's size alone.
\<close>

locale block_source =
  fixes read_fn :: "('s, 'e) read_fn"
    and inv :: "'s \<Rightarrow> bool"
    and img :: bytes
    and blksize nblocks :: nat
    and beyond :: 'e
  assumes blksize_pos: "inv s \<Longrightarrow> 0 < blksize"
    and image_size: "inv s \<Longrightarrow> length img = nblocks * blksize"
    and read_ok: "inv s \<Longrightarrow> b < nblocks \<Longrightarrow> length bb = blksize \<Longrightarrow>
      \<exists>s'. inv s' \<and> read_fn b bb s = (Ok (), subslice (b * blksize) blksize img, s')"
    and read_beyond: "inv s \<Longrightarrow> nblocks \<le> b \<Longrightarrow> length bb = blksize \<Longrightarrow>
      \<exists>s' bb'. inv s' \<and> length bb' = blksize \<and> read_fn b bb s = (Err beyond, bb', s')"
begin

lemma subslice_of_block:
  assumes "inv s" and "off div blksize < nblocks" and "n \<le> blksize - off mod blksize"
  shows "subslice (off mod blksize) n (subslice (off div blksize * blksize) blksize img)
    = subslice off n img"
proof -
  from assms(3) mod_less_divisor [OF blksize_pos [OF assms(1)], of off]
  have "off mod blksize + n \<le> blksize" by linarith
  then show ?thesis by (simp add: subslice_slice)
qed

lemma block_in_range:
  assumes "inv s" and "off + n \<le> length img" and "0 < n"
  shows "off div blksize < nblocks"
  using assms image_size [OF assms(1)] by (simp add: div_less_iff_less_mult blksize_pos)

lemma block_end:
  assumes "inv s" and "off div blksize < nblocks" and "n \<le> blksize - off mod blksize"
  shows "off + n \<le> length img"
proof -
  from assms(2) have "Suc (off div blksize) * blksize \<le> nblocks * blksize"
    by (intro mult_le_mono1) simp
  then have "off div blksize * blksize + blksize \<le> nblocks * blksize" by simp
  moreover have "off = off div blksize * blksize + off mod blksize" by simp
  moreover from mod_less_divisor [OF blksize_pos [OF assms(1)], of off] assms(3)
  have "off mod blksize + n \<le> blksize" by linarith
  ultimately show ?thesis using image_size [OF assms(1)] by linarith
qed

text \<open>One turn of the loop, on a block of the img.\<close>

lemma block_read_loop_step:
  assumes "inv s" and "length bb = blksize" and "curr_buf \<noteq> []"
    and blk: "off div blksize < nblocks" and "off + length curr_buf < 2 ^ 64"
  defines "n \<equiv> min (length curr_buf) (blksize - off mod blksize)"
  shows "\<exists>s' bb'. inv s' \<and> length bb' = blksize \<and>
    block_read_loop blksize read_fn off filled curr_buf tot bb s
      = block_read_loop blksize read_fn (off + n) (filled @ subslice off n img)
          (drop n curr_buf) (tot + n) bb' s'"
proof -
  have pos: "0 < blksize" by (rule blksize_pos [OF assms(1)])
  then have n: "n \<le> length curr_buf" "n \<le> blksize - off mod blksize"
    by (auto simp: n_def)
  let ?b = "subslice (off div blksize * blksize) blksize img"
  obtain s' where s': "inv s'" "read_fn (off div blksize) bb s = (Ok (), ?b, s')"
    using read_ok [OF assms(1) blk assms(2)] by blast
  have "off mod blksize + (blksize - off mod blksize) \<le> blksize"
    using pos by (simp add: mod_less_divisor [THEN less_imp_le_nat])
  with block_end [OF assms(1), of "off div blksize * blksize" blksize] blk pos
  have len: "length ?b = blksize" by simp
  have "off mod blksize + n \<le> blksize"
    using n(2) mod_less_divisor [OF pos, of off] by linarith
  then have "block_read_loop blksize read_fn off filled curr_buf tot bb s
      = block_read_loop blksize read_fn (off + n) (filled @ subslice off n img)
          (drop n curr_buf) (tot + n) ?b s'"
    using assms(3,5) pos s'(2) n len
    by (simp add: block_read_loop.simps [of blksize read_fn off] Let_def n_def [symmetric]
          subslice_of_block [OF assms(1) blk])
  with s'(1) len show ?thesis by blast
qed

lemma block_read_loop_ok:
  assumes "inv s" and "length bb = blksize" and "off + length curr_buf \<le> length img"
    and "off + length curr_buf < 2 ^ 64"
  shows "\<exists>s' bb'. inv s' \<and> length bb' = blksize \<and>
    block_read_loop blksize read_fn off filled curr_buf tot bb s
      = (Ok (tot + length curr_buf), filled @ subslice off (length curr_buf) img, bb', s')"
  using assms
proof (induction "length curr_buf" arbitrary: off filled curr_buf tot bb s rule: less_induct)
  case less
  show ?case
  proof (cases "curr_buf = []")
    case True
    with less.prems show ?thesis by (auto simp: block_read_loop.simps)
  next
    case False
    define n where "n = min (length curr_buf) (blksize - off mod blksize)"
    with False blksize_pos [OF less.prems(1)] have n: "0 < n" "n \<le> length curr_buf"
      by auto
    with less.prems(3) have blk: "off div blksize < nblocks"
      by (intro block_in_range [OF less.prems(1), of off n]) auto
    obtain s' bb' where step: "inv s'" "length bb' = blksize"
      "block_read_loop blksize read_fn off filled curr_buf tot bb s
        = block_read_loop blksize read_fn (off + n) (filled @ subslice off n img)
            (drop n curr_buf) (tot + n) bb' s'"
      using block_read_loop_step [OF less.prems(1,2) False blk less.prems(4)]
      unfolding n_def by blast
    have "\<exists>s'' bb''. inv s'' \<and> length bb'' = blksize \<and>
      block_read_loop blksize read_fn (off + n) (filled @ subslice off n img)
          (drop n curr_buf) (tot + n) bb' s'
      = (Ok (tot + n + length (drop n curr_buf)), (filled @ subslice off n img)
          @ subslice (off + n) (length (drop n curr_buf)) img, bb'', s'')"
      using n less.prems(3,4) step(1,2) by (intro less.hyps) auto
    with n show ?thesis
      by (simp add: step(3) subslice_append_adjacent)
  qed
qed

lemma block_read_loop_beyond:
  assumes "inv s" and "length bb = blksize" and "length img < off + length curr_buf"
    and "curr_buf \<noteq> []" and "off + length curr_buf < 2 ^ 64"
  shows "\<exists>s' bb' buf'. inv s' \<and> length bb' = blksize \<and>
    block_read_loop blksize read_fn off filled curr_buf tot bb s = (Err beyond, buf', bb', s')"
  using assms
proof (induction "length curr_buf" arbitrary: off filled curr_buf tot bb s rule: less_induct)
  case less
  have pos: "0 < blksize" by (rule blksize_pos [OF less.prems(1)])
  show ?case
  proof (cases "off div blksize < nblocks")
    case False
    then obtain s' bb' where "inv s'" "length bb' = blksize"
      "read_fn (off div blksize) bb s = (Err beyond, bb', s')"
      using read_beyond [OF less.prems(1) _ less.prems(2)] by (meson not_less)
    with pos less.prems(4) show ?thesis
      by (simp add: block_read_loop.simps [of blksize read_fn off])
  next
    case blk: True
    define n where "n = min (length curr_buf) (blksize - off mod blksize)"
    with less.prems(4) pos have n: "0 < n" "n \<le> length curr_buf" "n \<le> blksize - off mod blksize"
      by auto
    from block_end [OF less.prems(1) blk n(3)] less.prems(3) have rest: "n < length curr_buf"
      by linarith
    obtain s' bb' where step: "inv s'" "length bb' = blksize"
      "block_read_loop blksize read_fn off filled curr_buf tot bb s
        = block_read_loop blksize read_fn (off + n) (filled @ subslice off n img)
            (drop n curr_buf) (tot + n) bb' s'"
      using block_read_loop_step [OF less.prems(1,2,4) blk less.prems(5)]
      unfolding n_def by blast
    show ?thesis
      unfolding step(3) using n rest less.prems(3,5) step(1,2) by (intro less.hyps) auto
  qed
qed

lemma block_read_ok:
  assumes "inv s" and "length bb = blksize" and "off + length buf \<le> length img"
    and "off + length buf < 2 ^ 64"
  shows "\<exists>s' bb'. inv s' \<and> length bb' = blksize \<and>
    block_read off blksize buf bb read_fn s
      = (Ok (length buf), subslice off (length buf) img, bb', s')"
proof (cases "buf = []")
  case True
  with assms show ?thesis by (auto simp: block_read_def)
next
  case False
  have "min (off + length buf) u64_max - off = length buf"
    using assms(4) by (simp add: u64_max_def)
  with False block_read_loop_ok [OF assms, of "[]" 0] show ?thesis
    by (auto simp: block_read_def)
qed

lemma block_read_beyond:
  assumes "inv s" and "length bb = blksize" and "length img < off + length buf"
    and "buf \<noteq> []" and "off + length buf < 2 ^ 64"
  shows "\<exists>s' bb' buf'. inv s' \<and> length bb' = blksize \<and>
    block_read off blksize buf bb read_fn s = (Err beyond, buf', bb', s')"
proof -
  have "min (off + length buf) u64_max - off = length buf"
    using assms(5) by (simp add: u64_max_def)
  with block_read_loop_beyond [OF assms, of "[]" 0] assms(4) show ?thesis
    by (auto simp: block_read_def)
qed

end

subsection \<open>A disk seen through the polling closure is a block source\<close>

text \<open>
  The documented contract of the trait \<open>Disk\<close>, for a disk that holds \<open>img\<close>: in the states
  \<open>ready\<close>, the block length and the size are those of the img, and reading a block either
  delivers it or answers that the disk is busy; \<open>busy\<close> counts down on every busy answer and
  stays below the fuel.
\<close>

definition disk_contract ::
  "'d disk_ops \<Rightarrow> nat \<Rightarrow> bytes \<Rightarrow> nat \<Rightarrow> ('d \<Rightarrow> bool) \<Rightarrow> ('d \<Rightarrow> nat) \<Rightarrow> bool" where
  "disk_contract D fuel img blksize ready busy \<longleftrightarrow>
     0 < blksize \<and> blksize dvd length img \<and> length img < 2 ^ 63 \<and>
     (\<forall>d. ready d \<longrightarrow> busy d < fuel
        \<and> (\<exists>d'. ready d' \<and> disk_block_length D d = (Ok blksize, d'))
        \<and> (\<exists>d'. ready d' \<and> disk_size D d = (length img, d'))
        \<and> (\<forall>b bb. b < length img div blksize \<longrightarrow> length bb = blksize \<longrightarrow>
             (\<exists>d'. ready d' \<and>
                disk_read D b bb d = (Ok (Some blksize), subslice (b * blksize) blksize img, d'))
           \<or> (\<exists>d' bb'. ready d' \<and> busy d' < busy d \<and> length bb' = blksize \<and>
                disk_read D b bb d = (Ok None, bb', d'))))"

lemma subslice_block_length:
  assumes "blksize dvd length img" and "b < length img div blksize"
  shows "length (subslice (b * blksize) blksize img) = blksize"
proof -
  from assms(2) have "Suc b * blksize \<le> length img div blksize * blksize"
    by (intro mult_le_mono1) simp
  with assms(1) have "b * blksize + blksize \<le> length img" by simp
  then show ?thesis by simp
qed

lemma read_block_poll_ok:
  assumes "disk_contract D fuel img blksize ready busy" and "b < length img div blksize"
    and "ready d" and "length bb = blksize" and "busy d < n"
  shows "\<exists>d'. ready d' \<and>
    read_block_poll n D blksize b bb d = (Ok (), subslice (b * blksize) blksize img, d')"
  using assms(3-5)
proof (induction n arbitrary: d bb)
  case 0
  then show ?case by simp
next
  case (Suc n)
  have len: "length (subslice (b * blksize) blksize img) = blksize"
    using assms(1,2) by (intro subslice_block_length) (auto simp: disk_contract_def)
  consider (data) d' where "ready d'"
      "disk_read D b bb d = (Ok (Some blksize), subslice (b * blksize) blksize img, d')"
    | (busy) d' bb' where "ready d'" "busy d' < busy d" "length bb' = blksize"
      "disk_read D b bb d = (Ok None, bb', d')"
    using assms(1,2) Suc.prems(1,2) unfolding disk_contract_def by blast
  then show ?case
  proof cases
    case data
    with len show ?thesis by auto
  next
    case busy
    with Suc.IH [of d' bb'] Suc.prems(3) show ?thesis by simp
  qed
qed

interpretation rb: block_source "read_block fuel D blksize nblocks"
  "\<lambda>d. disk_contract D fuel img blksize ready busy \<and> ready d \<and> nblocks = length img div blksize"
  img blksize nblocks EOVERFLOW for fuel D blksize nblocks img ready busy
proof unfold_locales
  fix d b and bb :: bytes
  assume inv: "disk_contract D fuel img blksize ready busy \<and> ready d \<and>
    nblocks = length img div blksize"
  then show "0 < blksize" and "length img = nblocks * blksize"
    by (auto simp: disk_contract_def)
  assume len: "length bb = blksize"
  from inv have "busy d < fuel" by (auto simp: disk_contract_def)
  with inv len read_block_poll_ok [of D fuel img blksize ready busy b d bb fuel]
  show "b < nblocks \<Longrightarrow> \<exists>d'. (disk_contract D fuel img blksize ready busy \<and> ready d' \<and>
      nblocks = length img div blksize) \<and>
      read_block fuel D blksize nblocks b bb d = (Ok (), subslice (b * blksize) blksize img, d')"
    by (auto simp: read_block_def)
  show "nblocks \<le> b \<Longrightarrow> \<exists>d' bb'. (disk_contract D fuel img blksize ready busy \<and> ready d' \<and>
      nblocks = length img div blksize) \<and> length bb' = blksize \<and>
      read_block fuel D blksize nblocks b bb d = (Err EOVERFLOW, bb', d')"
    using inv len by (auto simp: read_block_def)
qed

subsection \<open>Properties of the seekable reader\<close>

text \<open>
  Block device property C1. On a disk that holds \<open>img\<close>, a read through the seekable reader at
  any byte offset and of any length inside the disk, aligned to blocks or not, returns the whole
  length, fills the buffer with exactly those bytes of the image, and advances the offset by it;
  the reader is then in a state from which the same holds again.
\<close>

theorem device_read_correct:
  assumes contract: "disk_contract D fuel img blksize ready busy"
    and "ready (dev_disk dev)" and "length (dev_block_bytes dev) = blksize"
    and "dev_offset dev + length buf \<le> length img"
  shows "\<exists>dev'. device_read fuel D buf dev
      = (Ok (length buf), subslice (dev_offset dev) (length buf) img, dev')
    \<and> dev_offset dev' = dev_offset dev + length buf
    \<and> ready (dev_disk dev') \<and> length (dev_block_bytes dev') = blksize"
proof -
  from contract have pos: "0 < blksize" and small: "length img < 2 ^ 63"
    by (auto simp: disk_contract_def)
  from contract assms(2) obtain d1 d2 where d: "ready d2"
    "disk_block_length D (dev_disk dev) = (Ok blksize, d1)" "disk_size D d1 = (length img, d2)"
    unfolding disk_contract_def by meson
  have "\<exists>d3 bb. (disk_contract D fuel img blksize ready busy \<and> ready d3 \<and>
        length img div blksize = length img div blksize) \<and> length bb = blksize \<and>
      block_read (dev_offset dev) blksize buf (dev_block_bytes dev)
        (read_block fuel D blksize (length img div blksize)) d2
      = (Ok (length buf), subslice (dev_offset dev) (length buf) img, bb, d3)"
    using contract d(1) assms(3,4) small by (intro rb.block_read_ok) auto
  with d pos assms(4) small show ?thesis by (auto simp: device_read_def)
qed

text \<open>
  A read that would cross the end of the disk is refused with
  \<open>EOVERFLOW\<close> and leaves the offset where it was.
\<close>

theorem device_read_beyond_end:
  assumes contract: "disk_contract D fuel img blksize ready busy"
    and "ready (dev_disk dev)" and "length (dev_block_bytes dev) = blksize"
    and "length img < dev_offset dev + length buf" and "buf \<noteq> []"
    and "dev_offset dev + length buf < 2 ^ 64"
  shows "\<exists>buf' dev'. device_read fuel D buf dev = (Err EOVERFLOW, buf', dev')
    \<and> dev_offset dev' = dev_offset dev"
proof -
  from contract have pos: "0 < blksize" by (auto simp: disk_contract_def)
  from contract assms(2) obtain d1 d2 where d: "ready d2"
    "disk_block_length D (dev_disk dev) = (Ok blksize, d1)" "disk_size D d1 = (length img, d2)"
    unfolding disk_contract_def by meson
  have "\<exists>d3 bb buf'. (disk_contract D fuel img blksize ready busy \<and> ready d3 \<and>
        length img div blksize = length img div blksize) \<and> length bb = blksize \<and>
      block_read (dev_offset dev) blksize buf (dev_block_bytes dev)
        (read_block fuel D blksize (length img div blksize)) d2 = (Err EOVERFLOW, buf', bb, d3)"
    using contract d(1) assms by (intro rb.block_read_beyond) auto
  with d pos show ?thesis by (auto simp: device_read_def)
qed

text \<open>The position a seek asks for, before it is clamped to the disk.\<close>

fun seek_target :: "nat \<Rightarrow> nat \<Rightarrow> seek_from \<Rightarrow> int" where
  "seek_target disk_sz off (Start p) = int p"
| "seek_target disk_sz off (Current p) = int off + p"
| "seek_target disk_sz off (End p) = int disk_sz + p"

text \<open>
  As long as the requested position is a signed 64-bit number, a seek
  succeeds and moves to that position clamped to the range from 0 to the size of the disk; so
  the reader never stands outside the disk.
\<close>

theorem seek_clamps:
  assumes contract: "disk_contract D fuel img blksize ready busy"
    and "ready (dev_disk dev)" and "dev_offset dev \<le> length img"
    and "- (2 ^ 63) \<le> seek_target (length img) (dev_offset dev) from"
    and "seek_target (length img) (dev_offset dev) from < 2 ^ 63"
  shows "\<exists>dev'. seek D from dev = (Ok (dev_offset dev'), dev') \<and> ready (dev_disk dev')
    \<and> int (dev_offset dev')
        = max 0 (min (int (length img)) (seek_target (length img) (dev_offset dev) from))"
proof -
  from contract have small: "length img < 2 ^ 63" by (auto simp: disk_contract_def)
  from contract assms(2) obtain d1 d2 where d: "ready d1" "ready d2"
    "disk_size D (dev_disk dev) = (length img, d1)" "disk_size D d1 = (length img, d2)"
    unfolding disk_contract_def by metis
  with small assms(3-5) show ?thesis
    by (cases "from") (auto simp: seek_def min.commute)
qed

subsection \<open>Witnesses\<close>

text \<open>A disk in memory that answers busy once before every block.\<close>

definition memory_disk :: "bytes \<Rightarrow> nat \<Rightarrow> nat disk_ops" where
  "memory_disk img blksize = \<lparr>disk_block_length = (\<lambda>d. (Ok blksize, d)),
     disk_size = (\<lambda>d. (length img, d)),
     disk_read = (\<lambda>b bb d. if d = 0 then (Ok (Some blksize), subslice (b * blksize) blksize img, 1)
                            else (Ok None, bb, d - 1))\<rparr>"

lemma memory_disk_contract:
  assumes "0 < blksize" and "blksize dvd length img" and "length img < 2 ^ 63"
  shows "disk_contract (memory_disk img blksize) 2 img blksize (\<lambda>d. d \<le> 1) (\<lambda>d. d)"
  using assms by (auto simp: disk_contract_def memory_disk_def)

definition sample_image :: bytes where
  "sample_image = [10, 11, 12, 13, 14, 15, 16, 17]"

lemma sample_disk_contract:
  "disk_contract (memory_disk sample_image 4) 2 sample_image 4 (\<lambda>d. d \<le> 1) (\<lambda>d. d)"
proof -
  have "length sample_image = 8" by (simp add: sample_image_def)
  then show ?thesis by (intro memory_disk_contract) simp_all
qed

theorem device_read_correct_witness:
  "\<exists>dev'. device_read 2 (memory_disk sample_image 4) [0, 0, 0]
      \<lparr>dev_disk = 0, dev_offset = 2, dev_block_bytes = [0, 0, 0, 0]\<rparr>
    = (Ok 3, [12, 13, 14], dev') \<and> dev_offset dev' = 5"
  using device_read_correct [OF sample_disk_contract,
      of "\<lparr>dev_disk = 0, dev_offset = 2, dev_block_bytes = [0, 0, 0, 0]\<rparr>" "[0, 0, 0]"]
  by (auto simp: subslice_def sample_image_def)

theorem device_read_beyond_end_witness:
  "\<exists>buf' dev'. device_read 2 (memory_disk sample_image 4) [0, 0, 0]
      \<lparr>dev_disk = 0, dev_offset = 6, dev_block_bytes = [0, 0, 0, 0]\<rparr>
    = (Err EOVERFLOW, buf', dev') \<and> dev_offset dev' = 6"
  using device_read_beyond_end [OF sample_disk_contract,
      of "\<lparr>dev_disk = 0, dev_offset = 6, dev_block_bytes = [0, 0, 0, 0]\<rparr>" "[0, 0, 0]"]
  by (auto simp: sample_image_def)

theorem seek_clamps_witness:
  "\<exists>dev'. seek (memory_disk sample_image 4) (End (- 3))
      \<lparr>dev_disk = 0, dev_offset = 6, dev_block_bytes = [0, 0, 0, 0]\<rparr> = (Ok (dev_offset dev'), dev')
    \<and> dev_offset dev' = 5"
  using seek_clamps [OF sample_disk_contract,
      of "\<lparr>dev_disk = 0, dev_offset = 6, dev_block_bytes = [0, 0, 0, 0]\<rparr>" "End (- 3)"]
  by (auto simp: sample_image_def)

end
