(* ===== verification/Dma_Mem.thy ===== *)
theory Dma_Mem
  imports Rust_Prelude
begin

text \<open>
  Memory that a device can reach: \<open>common/src/dma.rs\<close> (physically contiguous buffers) and
  \<open>common/src/sgl.rs\<close> (scatter-gather lists). The memory scheme and the system calls are the
  record \<open>mem_ops\<close>, a parameter. Sizes and offsets are natural numbers with the overflow check
  of \<open>checked_mul\<close> and the wrap-around of \<open>next_multiple_of\<close> written out; addresses are words.
\<close>

record 'm mem_ops =
  mem_contiguous_fd :: "('m, u64, errno) st"
  mem_mmap :: "u64 option \<Rightarrow> nat \<Rightarrow> u64 \<Rightarrow> ('m, u64, errno) st"
  mem_munmap :: "u64 \<Rightarrow> nat \<Rightarrow> ('m, unit, errno) st"
  mem_virttophys :: "u64 \<Rightarrow> ('m, u64, errno) st"
  mem_close :: "u64 \<Rightarrow> ('m, unit, errno) st"

definition page_size :: nat where
  "page_size = 4096"

definition next_multiple_of :: "nat \<Rightarrow> nat \<Rightarrow> nat" where
  "next_multiple_of a b = (let r = a mod b in if r = 0 then a else (a + (b - r)) mod 2 ^ 64)"

subsection \<open>Contiguous buffers\<close>

text \<open>The buffer with its physical and virtual address and its contents as a list of elements.\<close>

record 'a dma =
  dma_phys :: u64
  dma_aligned_len :: nat
  dma_virt :: u64
  dma_data :: "'a list"

definition alloc_and_map :: "'m mem_ops \<Rightarrow> nat \<Rightarrow> ('m, u64 \<times> u64, errno) st" where
  "alloc_and_map K len =
     (if len mod page_size \<noteq> 0 then panic_m
      else bind_m (mem_contiguous_fd K) (\<lambda>fd.
        finally_m
          (bind_m (mem_mmap K None len fd) (\<lambda>virt.
           bind_m (mem_virttophys K virt) (\<lambda>phys.
           return_m (phys, virt))))
          (mem_close K fd)))"

text \<open>
  \<open>Dma::zeroed_slice\<close> of \<open>count\<close> elements of \<open>size_of\<close> bytes whose zero pattern is \<open>z\<close>;
  \<open>Dma::zeroed\<close> is the case of one element.
\<close>

definition zeroed_slice :: "'m mem_ops \<Rightarrow> nat \<Rightarrow> 'a \<Rightarrow> nat \<Rightarrow> ('m, 'a dma, errno) st" where
  "zeroed_slice K size_of z count =
     (if count * size_of \<ge> 2 ^ 64 then panic_m
      else
        let aligned_len = next_multiple_of (count * size_of) page_size
        in bind_m (alloc_and_map K aligned_len) (\<lambda>(phys, virt).
             return_m \<lparr>dma_phys = phys, dma_aligned_len = aligned_len, dma_virt = virt,
                       dma_data = replicate count z\<rparr>))"

definition zeroed :: "'m mem_ops \<Rightarrow> nat \<Rightarrow> 'a \<Rightarrow> ('m, 'a dma, errno) st" where
  "zeroed K size_of z =
     (let aligned_len = next_multiple_of size_of page_size
      in bind_m (alloc_and_map K aligned_len) (\<lambda>(phys, virt).
           return_m \<lparr>dma_phys = phys, dma_aligned_len = aligned_len, dma_virt = virt,
                     dma_data = [z]\<rparr>))"

definition dma_drop :: "'m mem_ops \<Rightarrow> 'a dma \<Rightarrow> ('m, unit, errno) st" where
  "dma_drop K d = mem_munmap K (dma_virt d) (dma_aligned_len d)"

subsection \<open>Scatter-gather lists\<close>

record chunk =
  chunk_offset :: nat
  chunk_phys :: u64
  chunk_virt :: u64
  chunk_length :: nat

record sgl =
  sgl_virt :: u64
  sgl_aligned_length :: nat
  sgl_unaligned_length :: nat
  sgl_chunks :: "chunk list"

definition max_alloc_size :: nat where
  "max_alloc_size = 2 ^ 22"

function double_until :: "nat \<Rightarrow> nat \<Rightarrow> nat" where
  "double_until p n = (if n \<le> p \<or> p = 0 then p else double_until (2 * p) n)"
  by pat_completeness auto
termination by (relation "measure (\<lambda>(p, n). n - p)") auto

declare double_until.simps [simp del]

definition next_power_of_two :: "nat \<Rightarrow> nat" where
  "next_power_of_two n = double_until 1 n"

text \<open>The length of the chunk at the front of \<open>rest\<close> bytes.\<close>

definition sgl_chunk_length :: "nat \<Rightarrow> nat" where
  "sgl_chunk_length rest =
     (let preferred = next_power_of_two (min rest max_alloc_size)
      in if preferred > rest then preferred div 2 else preferred)"

lemma double_until_power:
  "p = 2 ^ k \<Longrightarrow> \<exists>j \<ge> k. double_until p n = 2 ^ j \<and> n \<le> 2 ^ j \<and> (k < j \<longrightarrow> 2 ^ (j - 1) < n)"
proof (induction p n arbitrary: k rule: double_until.induct)
  case (1 p n)
  show ?case
  proof (cases "n \<le> p")
    case True
    then have "double_until p n = p" by (simp add: double_until.simps [of p n])
    with True show ?thesis using 1(2) by auto
  next
    case False
    with 1(2) have pos: "\<not> (n \<le> p \<or> p = 0)" by simp
    from 1(2) have "2 * p = 2 ^ Suc k" by simp
    from 1(1) [OF pos this] obtain j where j: "Suc k \<le> j" "double_until (2 * p) n = 2 ^ j" "n \<le> 2 ^ j"
      "Suc k < j \<longrightarrow> 2 ^ (j - 1) < n" by blast
    from j(1,4) False 1(2) have "2 ^ (j - 1) < n" by (cases "j = Suc k") auto
    with j pos show ?thesis by (intro exI [of _ j]) (simp add: double_until.simps [of p n])
  qed
qed

text \<open>A chunk is the largest power of two that fits, at most the allocation limit.\<close>

lemma sgl_chunk_length_power:
  assumes "0 < rest"
  shows "\<exists>j \<le> 22. sgl_chunk_length rest = 2 ^ j \<and> 2 ^ j \<le> rest \<and> (rest < 2 ^ Suc j \<or> j = 22)"
proof -
  obtain j where j: "next_power_of_two (min rest max_alloc_size) = 2 ^ j"
      "min rest max_alloc_size \<le> 2 ^ j" "0 < j \<longrightarrow> 2 ^ (j - 1) < min rest max_alloc_size"
    using double_until_power [of 1 0 "min rest max_alloc_size"]
    by (auto simp: next_power_of_two_def)
  have "j \<le> 22"
  proof (rule ccontr)
    assume "\<not> j \<le> 22"
    with j(3) have "2 ^ (j - 1) < (2 ^ 22 :: nat)" by (simp add: max_alloc_size_def)
    then have "j - 1 < 22" by (rule power_less_imp_less_exp [rotated]) simp
    then show False using \<open>\<not> j \<le> 22\<close> by simp
  qed
  show ?thesis
  proof (cases "2 ^ j > rest")
    case True
    with assms have "0 < j" by (cases j) auto
    then obtain i where i: "j = Suc i" by (cases j) auto
    with True j \<open>j \<le> 22\<close> show ?thesis
      by (intro exI [of _ i]) (auto simp: sgl_chunk_length_def Let_def)
  next
    case False
    have "rest < 2 ^ Suc j \<or> j = 22"
    proof (cases "rest \<le> max_alloc_size")
      case True
      with j(2) False show ?thesis by (simp add: min_def)
    next
      case big: False
      with j(2) have "(2::nat) ^ 22 \<le> 2 ^ j" by (simp add: max_alloc_size_def)
      then have "22 \<le> j" by (rule power_le_imp_le_exp [rotated]) simp
      with \<open>j \<le> 22\<close> show ?thesis by simp
    qed
    with False j(1) \<open>j \<le> 22\<close> show ?thesis
      by (intro exI [of _ j]) (auto simp: sgl_chunk_length_def Let_def)
  qed
qed

lemma sgl_chunk_length_pos: "0 < rest \<Longrightarrow> 0 < sgl_chunk_length rest"
  using sgl_chunk_length_power [of rest] by auto

lemma sgl_chunk_length_le: "0 < rest \<Longrightarrow> sgl_chunk_length rest \<le> rest"
  using sgl_chunk_length_power [of rest] by auto

lemma sgl_chunk_length_max:
  assumes "0 < rest"
  shows "sgl_chunk_length rest \<le> max_alloc_size"
proof -
  obtain j where "j \<le> 22" "sgl_chunk_length rest = 2 ^ j"
    using sgl_chunk_length_power [OF assms] by blast
  then show ?thesis unfolding max_alloc_size_def by (simp only: power_increasing)
qed

lemma sgl_chunk_length_pages:
  assumes "page_size dvd rest" "0 < rest"
  shows "page_size dvd sgl_chunk_length rest"
proof -
  obtain j where j: "j \<le> 22" "sgl_chunk_length rest = 2 ^ j" "rest < 2 ^ Suc j \<or> j = 22"
    using sgl_chunk_length_power [OF assms(2)] by blast
  have "2 ^ 12 \<le> rest" using dvd_imp_le [OF assms] by (simp add: page_size_def)
  have "12 < Suc j" if "(2::nat) ^ 12 < 2 ^ Suc j"
    using that by (rule power_less_imp_less_exp [rotated]) simp
  with j(3) \<open>2 ^ 12 \<le> rest\<close> have "12 \<le> j" by linarith
  then have "(2::nat) ^ 12 dvd 2 ^ j" by (rule le_imp_power_dvd)
  then show ?thesis using j(2) by (simp add: page_size_def)
qed

function sgl_loop ::
  "'m mem_ops \<Rightarrow> u64 \<Rightarrow> u64 \<Rightarrow> nat \<Rightarrow> nat \<Rightarrow> nat \<Rightarrow> chunk list \<Rightarrow> ('m, chunk list, errno) st" where
  "sgl_loop K virt fd aligned_length unaligned_length offset chunks =
     (if offset < aligned_length then
        let len = sgl_chunk_length (aligned_length - offset)
        in bind_m (mem_mmap K (Some (virt + of_nat offset)) len fd) (\<lambda>_.
           bind_m (mem_virttophys K (virt + of_nat offset)) (\<lambda>phys.
             sgl_loop K virt fd aligned_length unaligned_length (offset + len)
               (chunks @ [\<lparr>chunk_offset = offset, chunk_phys = phys,
                           chunk_virt = virt + of_nat offset,
                           chunk_length = min (unaligned_length - offset) len\<rparr>])))
      else return_m chunks)"
  by pat_completeness auto
termination
  by (relation "measure (\<lambda>(K, virt, fd, al, ul, off, cs). al - off)")
    (auto intro!: diff_less_mono2 simp: sgl_chunk_length_pos)

declare sgl_loop.simps [simp del]

definition sgl_new :: "'m mem_ops \<Rightarrow> nat \<Rightarrow> ('m, sgl, errno) st" where
  "sgl_new K unaligned_length =
     (if unaligned_length = 0 then fail_m EINVAL
      else
        let aligned_length = next_multiple_of unaligned_length page_size
        in bind_m (mem_mmap K None aligned_length (- 1)) (\<lambda>virt.
           on_failure_m
             (bind_m (mem_contiguous_fd K) (\<lambda>fd.
              finally_m
                (bind_m (sgl_loop K virt fd aligned_length unaligned_length 0 []) (\<lambda>chunks.
                 return_m \<lparr>sgl_virt = virt, sgl_aligned_length = aligned_length,
                           sgl_unaligned_length = unaligned_length, sgl_chunks = chunks\<rparr>))
                (mem_close K fd)))
             (mem_munmap K virt aligned_length)))"

definition sgl_drop :: "'m mem_ops \<Rightarrow> sgl \<Rightarrow> ('m, unit, errno) st" where
  "sgl_drop K g = mem_munmap K (sgl_virt g) (sgl_aligned_length g)"

subsection \<open>What the chunks of a scatter-gather list cover\<close>

definition chunk_span :: "chunk \<Rightarrow> nat list" where
  "chunk_span c = [chunk_offset c..<chunk_offset c + chunk_length c]"

text \<open>The state of the loop: the chunks so far cover the bytes before \<open>offset\<close>.\<close>

definition chunks_upto :: "u64 \<Rightarrow> nat \<Rightarrow> nat \<Rightarrow> chunk list \<Rightarrow> bool" where
  "chunks_upto virt n offset cs \<longleftrightarrow>
     concat (map chunk_span cs) = [0..<min offset n]
     \<and> list_all (\<lambda>c. 0 < chunk_length c \<and> chunk_length c \<le> max_alloc_size
                     \<and> page_size dvd chunk_offset c
                     \<and> chunk_virt c = virt + of_nat (chunk_offset c)) cs"

lemma chunks_upto_step:
  assumes "chunks_upto virt n offset cs" and "page_size dvd offset" and "offset < n"
    and "0 < len" and "len \<le> max_alloc_size"
  shows "chunks_upto virt n (offset + len)
    (cs @ [\<lparr>chunk_offset = offset, chunk_phys = phys, chunk_virt = virt + of_nat offset,
            chunk_length = min (n - offset) len\<rparr>])"
proof -
  have "min (offset + len) n = offset + min (n - offset) len" using assms(3) by simp
  then have "[0..<offset] @ [offset..<offset + min (n - offset) len] = [0..<min (offset + len) n]"
    by (simp only: upt_add_eq_append [of 0 offset "min (n - offset) len", simplified])
  with assms show ?thesis
    by (auto simp: chunks_upto_def chunk_span_def)
qed

lemma sgl_loop_chunks:
  assumes "sgl_loop K virt fd al n offset cs m = (Ok cs', m')"
    and "chunks_upto virt n offset cs"
    and "page_size dvd al" and "page_size dvd offset" and "offset \<le> al"
    and "n \<le> al" and "al < n + page_size"
  shows "chunks_upto virt n al cs'"
  using assms
proof (induction K virt fd al n offset cs arbitrary: m rule: sgl_loop.induct)
  case (1 K virt fd al n offset cs)
  show ?case
  proof (cases "offset < al")
    case False
    with 1(2,3,6) show ?thesis by (simp add: sgl_loop.simps return_m_def)
  next
    case True
    let ?len = "sgl_chunk_length (al - offset)"
    have rest: "page_size dvd al - offset" "0 < al - offset"
      using 1(4,5) True by (simp_all add: dvd_diff_nat)
    have len: "0 < ?len" "?len \<le> max_alloc_size" "page_size dvd ?len" "?len \<le> al - offset"
      using rest by (simp_all add: sgl_chunk_length_pos sgl_chunk_length_max
        sgl_chunk_length_pages sgl_chunk_length_le)
    have "page_size \<le> al - offset" using rest dvd_imp_le by blast
    then have "offset < n" using 1(8) True by linarith
    from 1(2) True obtain phys m1 where
      rec: "sgl_loop K virt fd al n (offset + ?len)
        (cs @ [\<lparr>chunk_offset = offset, chunk_phys = phys, chunk_virt = virt + of_nat offset,
                chunk_length = min (n - offset) ?len\<rparr>]) m1 = (Ok cs', m')"
      by (subst (asm) sgl_loop.simps) (auto simp: Let_def bind_m_Ok)
    show ?thesis
    proof (rule 1(1) [OF True refl rec])
      show "chunks_upto virt n (offset + ?len)
        (cs @ [\<lparr>chunk_offset = offset, chunk_phys = phys, chunk_virt = virt + of_nat offset,
                chunk_length = min (n - offset) ?len\<rparr>])"
        by (rule chunks_upto_step [OF 1(3,5) \<open>offset < n\<close> len(1,2)])
    qed (use 1 len True in \<open>simp_all add: dvd_add\<close>)
  qed
qed

lemma next_multiple_of_page:
  assumes "n + page_size \<le> 2 ^ 64"
  shows "page_size dvd next_multiple_of n page_size" "n \<le> next_multiple_of n page_size"
    "next_multiple_of n page_size < n + page_size"
proof -
  have p: "0 < page_size" by (simp add: page_size_def)
  have r: "n mod page_size < page_size" using p by simp
  have *: "next_multiple_of n page_size
    = (if n mod page_size = 0 then n else n + (page_size - n mod page_size))"
    using assms r by (simp add: next_multiple_of_def Let_def)
  have "(n + (page_size - n mod page_size)) mod page_size = 0" if "n mod page_size \<noteq> 0"
  proof -
    have "n + (page_size - n mod page_size) = page_size * (n div page_size) + page_size"
      using r by (metis add.assoc le_add_diff_inverse less_imp_le mult_div_mod_eq)
    then show ?thesis by simp
  qed
  then show "page_size dvd next_multiple_of n page_size" by (auto simp: *)
  show "n \<le> next_multiple_of n page_size" "next_multiple_of n page_size < n + page_size"
    using p r by (auto simp: *)
qed

text \<open>
  property C6. The chunks of a new scatter-gather list, in their order, cover the bytes of the
  buffer one after another without a gap or an overlap; every chunk is non-empty, no longer
  than the largest allocation, starts at a page boundary of the buffer and records the virtual
  address of its first byte.
\<close>

theorem sgl_chunks_partition:
  assumes "sgl_new K n m = (Ok g, m')" and "n + page_size \<le> 2 ^ 64"
  shows "sgl_unaligned_length g = n
    \<and> concat (map chunk_span (sgl_chunks g)) = [0..<n]
    \<and> list_all (\<lambda>c. 0 < chunk_length c \<and> chunk_length c \<le> max_alloc_size
                    \<and> page_size dvd chunk_offset c
                    \<and> chunk_virt c = sgl_virt g + of_nat (chunk_offset c)) (sgl_chunks g)"
proof -
  let ?al = "next_multiple_of n page_size"
  from assms(1) obtain virt fd cs m1 m2 where
    loop: "sgl_loop K virt fd ?al n 0 [] m1 = (Ok cs, m2)"
    and g: "g = \<lparr>sgl_virt = virt, sgl_aligned_length = ?al, sgl_unaligned_length = n,
                 sgl_chunks = cs\<rparr>"
    by (auto simp: sgl_new_def fail_m_def return_m_def Let_def bind_m_Ok finally_m_Ok
        on_failure_m_Ok split: if_splits)
  have "chunks_upto virt n ?al cs"
    using next_multiple_of_page [OF assms(2)]
    by (intro sgl_loop_chunks [OF loop]) (simp_all add: chunks_upto_def)
  then show ?thesis
    using next_multiple_of_page(2) [OF assms(2)] by (simp add: g chunks_upto_def min_absorb2)
qed

text \<open>A kernel that hands out the same window and never fails.\<close>

definition sample_mem :: "unit mem_ops" where
  "sample_mem = \<lparr>mem_contiguous_fd = return_m 3, mem_mmap = (\<lambda>a n fd. return_m 0x10000),
     mem_munmap = (\<lambda>v n. return_m ()), mem_virttophys = (\<lambda>v. return_m (v + 0x1000)),
     mem_close = (\<lambda>fd. return_m ())\<rparr>"

lemma sample_sgl:
  "sgl_new sample_mem 9000 () = (Ok \<lparr>sgl_virt = 0x10000, sgl_aligned_length = 12288,
     sgl_unaligned_length = 9000, sgl_chunks =
       [\<lparr>chunk_offset = 0, chunk_phys = 0x11000, chunk_virt = 0x10000, chunk_length = 8192\<rparr>,
        \<lparr>chunk_offset = 8192, chunk_phys = 0x13000, chunk_virt = 0x12000, chunk_length = 808\<rparr>]\<rparr>, ())"
  by (simp add: sgl_new_def sample_mem_def next_multiple_of_def page_size_def st_defs
    finally_m_def on_failure_m_def sgl_loop.simps sgl_chunk_length_def max_alloc_size_def
    next_power_of_two_def double_until.simps)

theorem sgl_chunks_partition_witness:
  "concat (map chunk_span
     [\<lparr>chunk_offset = 0, chunk_phys = 0x11000, chunk_virt = 0x10000, chunk_length = 8192\<rparr>,
      \<lparr>chunk_offset = 8192, chunk_phys = 0x13000, chunk_virt = 0x12000, chunk_length = 808\<rparr>])
   = [0..<9000]"
  using sgl_chunks_partition [OF sample_sgl] by (simp add: page_size_def)

end
