(* ===== verification/Xhci_Trb.thy ===== *)
theory Xhci_Trb
  imports Rust_Prelude
begin

text \<open>
  Transfer request blocks, the 16-byte entries of every xHCI ring
  (\<open>xhcid/src/xhci/trb.rs\<close>), and the 8-byte USB setup packets that a setup-stage block carries
  (\<open>xhcid/src/usb/setup.rs\<close>). One definition per method: the builders that driver code calls
  to fill a block, and the accessors that it uses on events. A builder whose \<open>assert_eq!\<close> can
  fail returns a result. What is shown is that the fields of a block do not overlap: the accessors
  read back what the builders were given.
\<close>

subsection \<open>Setup packets\<close>

record usb_setup =
  setup_kind :: u8
  setup_request :: u8
  setup_value :: u16
  setup_index :: u16
  setup_length :: u16

datatype req_direction = HostToDevice | DeviceToHost

datatype req_type = Standard | Class | Vendor | ReservedType

primrec req_type_u8 :: "req_type \<Rightarrow> u8" where
  "req_type_u8 Standard = 0"
| "req_type_u8 Class = 1"
| "req_type_u8 Vendor = 2"
| "req_type_u8 ReservedType = 3"

datatype req_recipient = Device | Interface | Endpoint | Other | VendorSpecific

primrec req_recipient_u8 :: "req_recipient \<Rightarrow> u8" where
  "req_recipient_u8 Device = 0"
| "req_recipient_u8 Interface = 1"
| "req_recipient_u8 Endpoint = 2"
| "req_recipient_u8 Other = 3"
| "req_recipient_u8 VendorSpecific = 31"

definition setup_direction :: "usb_setup \<Rightarrow> req_direction" where
  "setup_direction p = (if setup_kind p AND 0x80 = 0 then HostToDevice else DeviceToHost)"

definition setup_req_ty :: "usb_setup \<Rightarrow> u8" where
  "setup_req_ty p = drop_bit 5 (setup_kind p AND 0x60)"

definition setup_req_recipient :: "usb_setup \<Rightarrow> u8" where
  "setup_req_recipient p = drop_bit 0 (setup_kind p AND 0x1F)"

definition is_allowed_from_api :: "usb_setup \<Rightarrow> bool" where
  "is_allowed_from_api p \<longleftrightarrow>
     setup_req_ty p = req_type_u8 Class \<or> setup_req_ty p = req_type_u8 Vendor"

definition setup_packet :: "u8 \<Rightarrow> u8 \<Rightarrow> u16 \<Rightarrow> u16 \<Rightarrow> u16 \<Rightarrow> usb_setup" where
  "setup_packet k r v i n = \<lparr>setup_kind = k, setup_request = r, setup_value = v,
     setup_index = i, setup_length = n\<rparr>"

definition setup_get_status :: usb_setup where
  "setup_get_status = setup_packet 0x80 0x00 0 0 2"

definition setup_clear_feature :: "u16 \<Rightarrow> usb_setup" where
  "setup_clear_feature feature = setup_packet 0x00 0x01 feature 0 0"

definition setup_set_feature :: "u16 \<Rightarrow> usb_setup" where
  "setup_set_feature feature = setup_packet 0x00 0x03 feature 0 0"

definition setup_set_address :: "u16 \<Rightarrow> usb_setup" where
  "setup_set_address address = setup_packet 0x00 0x05 address 0 0"

datatype descriptor_kind =
    NoDescriptor | DeviceDesc | ConfigurationDesc | StringDesc | InterfaceDesc | EndpointDesc
  | DeviceQualifier | OtherSpeedConfiguration | InterfacePower | OnTheGo | BinaryObjectStorage
  | Hid | Hub | SuperSpeedCompanion

primrec descriptor_kind_u8 :: "descriptor_kind \<Rightarrow> u8" where
  "descriptor_kind_u8 NoDescriptor = 0"
| "descriptor_kind_u8 DeviceDesc = 1"
| "descriptor_kind_u8 ConfigurationDesc = 2"
| "descriptor_kind_u8 StringDesc = 3"
| "descriptor_kind_u8 InterfaceDesc = 4"
| "descriptor_kind_u8 EndpointDesc = 5"
| "descriptor_kind_u8 DeviceQualifier = 6"
| "descriptor_kind_u8 OtherSpeedConfiguration = 7"
| "descriptor_kind_u8 InterfacePower = 8"
| "descriptor_kind_u8 OnTheGo = 9"
| "descriptor_kind_u8 BinaryObjectStorage = 15"
| "descriptor_kind_u8 Hid = 33"
| "descriptor_kind_u8 Hub = 41"
| "descriptor_kind_u8 SuperSpeedCompanion = 48"

definition setup_get_descriptor :: "descriptor_kind \<Rightarrow> u8 \<Rightarrow> u16 \<Rightarrow> u16 \<Rightarrow> usb_setup" where
  "setup_get_descriptor kind index language len = setup_packet 0x80 0x06
     (push_bit 8 (ucast (descriptor_kind_u8 kind)) OR ucast index) language len"

definition setup_set_descriptor :: "u8 \<Rightarrow> u8 \<Rightarrow> u16 \<Rightarrow> u16 \<Rightarrow> usb_setup" where
  "setup_set_descriptor kind index language len = setup_packet 0x00 0x07
     (push_bit 8 (ucast kind) OR ucast index) language len"

definition setup_get_configuration :: usb_setup where
  "setup_get_configuration = setup_packet 0x80 0x08 0 0 1"

definition setup_set_configuration :: "u8 \<Rightarrow> usb_setup" where
  "setup_set_configuration v = setup_packet 0x00 0x09 (ucast v) 0 0"

definition setup_set_interface :: "u8 \<Rightarrow> u8 \<Rightarrow> usb_setup" where
  "setup_set_interface interface alternate_setting =
     setup_packet 0x01 0x0B (ucast alternate_setting) (ucast interface) 0"

text \<open>The packed structure in memory, and the integer that \<open>transmute\<close> makes of it.\<close>

definition setup_bytes :: "usb_setup \<Rightarrow> bytes" where
  "setup_bytes p = [setup_kind p, setup_request p] @ le_bytes 2 (setup_value p)
     @ le_bytes 2 (setup_index p) @ le_bytes 2 (setup_length p)"

definition setup_u64 :: "usb_setup \<Rightarrow> u64" where
  "setup_u64 p = from_le (setup_bytes p)"

subsection \<open>Block types and completion codes\<close>

datatype trb_type_tag =
    Reserved | Normal | SetupStage | DataStage
  | StatusStage | Isoch | Link | EventData
  | NoOp | EnableSlot | DisableSlot | AddressDevice
  | ConfigureEndpoint | EvaluateContext | ResetEndpoint | StopEndpoint
  | SetTrDequeuePointer | ResetDevice | ForceEvent | NegotiateBandwidth
  | SetLatencyToleranceValue | GetPortBandwidth | ForceHeader | NoOpCmd
  | GetExtendedProperty | SetExtendedProperty | Rsv26 | Rsv27
  | Rsv28 | Rsv29 | Rsv30 | Rsv31
  | Transfer | CommandCompletion | PortStatusChange | BandwidthRequest
  | Doorbell | HostController | DeviceNotification | MfindexWrap

primrec trb_type_u8 :: "trb_type_tag \<Rightarrow> u8" where
  "trb_type_u8 trb_type_tag.Reserved = 0"
| "trb_type_u8 trb_type_tag.Normal = 1"
| "trb_type_u8 trb_type_tag.SetupStage = 2"
| "trb_type_u8 trb_type_tag.DataStage = 3"
| "trb_type_u8 trb_type_tag.StatusStage = 4"
| "trb_type_u8 trb_type_tag.Isoch = 5"
| "trb_type_u8 trb_type_tag.Link = 6"
| "trb_type_u8 trb_type_tag.EventData = 7"
| "trb_type_u8 trb_type_tag.NoOp = 8"
| "trb_type_u8 trb_type_tag.EnableSlot = 9"
| "trb_type_u8 trb_type_tag.DisableSlot = 10"
| "trb_type_u8 trb_type_tag.AddressDevice = 11"
| "trb_type_u8 trb_type_tag.ConfigureEndpoint = 12"
| "trb_type_u8 trb_type_tag.EvaluateContext = 13"
| "trb_type_u8 trb_type_tag.ResetEndpoint = 14"
| "trb_type_u8 trb_type_tag.StopEndpoint = 15"
| "trb_type_u8 trb_type_tag.SetTrDequeuePointer = 16"
| "trb_type_u8 trb_type_tag.ResetDevice = 17"
| "trb_type_u8 trb_type_tag.ForceEvent = 18"
| "trb_type_u8 trb_type_tag.NegotiateBandwidth = 19"
| "trb_type_u8 trb_type_tag.SetLatencyToleranceValue = 20"
| "trb_type_u8 trb_type_tag.GetPortBandwidth = 21"
| "trb_type_u8 trb_type_tag.ForceHeader = 22"
| "trb_type_u8 trb_type_tag.NoOpCmd = 23"
| "trb_type_u8 trb_type_tag.GetExtendedProperty = 24"
| "trb_type_u8 trb_type_tag.SetExtendedProperty = 25"
| "trb_type_u8 trb_type_tag.Rsv26 = 26"
| "trb_type_u8 trb_type_tag.Rsv27 = 27"
| "trb_type_u8 trb_type_tag.Rsv28 = 28"
| "trb_type_u8 trb_type_tag.Rsv29 = 29"
| "trb_type_u8 trb_type_tag.Rsv30 = 30"
| "trb_type_u8 trb_type_tag.Rsv31 = 31"
| "trb_type_u8 trb_type_tag.Transfer = 32"
| "trb_type_u8 trb_type_tag.CommandCompletion = 33"
| "trb_type_u8 trb_type_tag.PortStatusChange = 34"
| "trb_type_u8 trb_type_tag.BandwidthRequest = 35"
| "trb_type_u8 trb_type_tag.Doorbell = 36"
| "trb_type_u8 trb_type_tag.HostController = 37"
| "trb_type_u8 trb_type_tag.DeviceNotification = 38"
| "trb_type_u8 trb_type_tag.MfindexWrap = 39"

datatype trb_completion_code =
    Invalid | Success | DataBuffer | BabbleDetected
  | UsbTransaction | Trb | Stall | Resource
  | Bandwidth | NoSlotsAvailable | InvalidStreamType | SlotNotEnabled
  | EndpointNotEnabled | ShortPacket | RingUnderrun | RingOverrun
  | VfEventRingFull | Parameter | BandwidthOverrun | ContextState
  | NoPingResponse | EventRingFull | IncompatibleDevice | MissedService
  | CommandRingStopped | CommandAborted | Stopped | StoppedLengthInvalid
  | StoppedShortPacket | MaxExitLatencyTooLarge | Rsv30 | IsochBuffer
  | EventLost | Undefined | InvalidStreamId | SecondaryBandwidth
  | SplitTransaction

primrec trb_completion_code_u8 :: "trb_completion_code \<Rightarrow> u8" where
  "trb_completion_code_u8 trb_completion_code.Invalid = 0"
| "trb_completion_code_u8 trb_completion_code.Success = 1"
| "trb_completion_code_u8 trb_completion_code.DataBuffer = 2"
| "trb_completion_code_u8 trb_completion_code.BabbleDetected = 3"
| "trb_completion_code_u8 trb_completion_code.UsbTransaction = 4"
| "trb_completion_code_u8 trb_completion_code.Trb = 5"
| "trb_completion_code_u8 trb_completion_code.Stall = 6"
| "trb_completion_code_u8 trb_completion_code.Resource = 7"
| "trb_completion_code_u8 trb_completion_code.Bandwidth = 8"
| "trb_completion_code_u8 trb_completion_code.NoSlotsAvailable = 9"
| "trb_completion_code_u8 trb_completion_code.InvalidStreamType = 10"
| "trb_completion_code_u8 trb_completion_code.SlotNotEnabled = 11"
| "trb_completion_code_u8 trb_completion_code.EndpointNotEnabled = 12"
| "trb_completion_code_u8 trb_completion_code.ShortPacket = 13"
| "trb_completion_code_u8 trb_completion_code.RingUnderrun = 14"
| "trb_completion_code_u8 trb_completion_code.RingOverrun = 15"
| "trb_completion_code_u8 trb_completion_code.VfEventRingFull = 16"
| "trb_completion_code_u8 trb_completion_code.Parameter = 17"
| "trb_completion_code_u8 trb_completion_code.BandwidthOverrun = 18"
| "trb_completion_code_u8 trb_completion_code.ContextState = 19"
| "trb_completion_code_u8 trb_completion_code.NoPingResponse = 20"
| "trb_completion_code_u8 trb_completion_code.EventRingFull = 21"
| "trb_completion_code_u8 trb_completion_code.IncompatibleDevice = 22"
| "trb_completion_code_u8 trb_completion_code.MissedService = 23"
| "trb_completion_code_u8 trb_completion_code.CommandRingStopped = 24"
| "trb_completion_code_u8 trb_completion_code.CommandAborted = 25"
| "trb_completion_code_u8 trb_completion_code.Stopped = 26"
| "trb_completion_code_u8 trb_completion_code.StoppedLengthInvalid = 27"
| "trb_completion_code_u8 trb_completion_code.StoppedShortPacket = 28"
| "trb_completion_code_u8 trb_completion_code.MaxExitLatencyTooLarge = 29"
| "trb_completion_code_u8 trb_completion_code.Rsv30 = 30"
| "trb_completion_code_u8 trb_completion_code.IsochBuffer = 31"
| "trb_completion_code_u8 trb_completion_code.EventLost = 32"
| "trb_completion_code_u8 trb_completion_code.Undefined = 33"
| "trb_completion_code_u8 trb_completion_code.InvalidStreamId = 34"
| "trb_completion_code_u8 trb_completion_code.SecondaryBandwidth = 35"
| "trb_completion_code_u8 trb_completion_code.SplitTransaction = 36"

subsection \<open>Blocks\<close>

datatype transfer_kind = NoDataTransfer | ReservedTransfer | OutTransfer | InTransfer

primrec transfer_kind_u32 :: "transfer_kind \<Rightarrow> u32" where
  "transfer_kind_u32 NoDataTransfer = 0"
| "transfer_kind_u32 ReservedTransfer = 1"
| "transfer_kind_u32 OutTransfer = 2"
| "transfer_kind_u32 InTransfer = 3"

datatype stream_context_type =
    SecondaryRing | PrimaryRing | PrimarySsa8 | PrimarySsa16 | PrimarySsa32 | PrimarySsa64
  | PrimarySsa128 | PrimarySsa256

primrec stream_context_type_u64 :: "stream_context_type \<Rightarrow> u64" where
  "stream_context_type_u64 SecondaryRing = 0"
| "stream_context_type_u64 PrimaryRing = 1"
| "stream_context_type_u64 PrimarySsa8 = 2"
| "stream_context_type_u64 PrimarySsa16 = 3"
| "stream_context_type_u64 PrimarySsa32 = 4"
| "stream_context_type_u64 PrimarySsa64 = 5"
| "stream_context_type_u64 PrimarySsa128 = 6"
| "stream_context_type_u64 PrimarySsa256 = 7"

record trb =
  data_low :: u32
  data_high :: u32
  trb_status :: u32
  control :: u32

definition trb_set :: "u64 \<Rightarrow> u32 \<Rightarrow> u32 \<Rightarrow> trb \<Rightarrow> trb" where
  "trb_set d st c t = t\<lparr>data_low := ucast d, data_high := ucast (drop_bit 32 d),
     trb_status := st, control := c\<rparr>"

text \<open>\<open>(ty as u32) << 10\<close>, the type field of the control word.\<close>

definition ty_field :: "trb_type_tag \<Rightarrow> u32" where
  "ty_field ty = push_bit 10 (ucast (trb_type_u8 ty))"

definition trb_reserved :: "bool \<Rightarrow> trb \<Rightarrow> trb" where
  "trb_reserved cycle = trb_set 0 0 (ty_field trb_type_tag.Reserved OR bool_word cycle)"

definition read_data :: "trb \<Rightarrow> u64" where
  "read_data t = ucast (data_low t) OR push_bit 32 (ucast (data_high t))"

definition completion_code :: "trb \<Rightarrow> u8" where
  "completion_code t = ucast (drop_bit 24 (trb_status t))"

definition completion_param :: "trb \<Rightarrow> u32" where
  "completion_param t = trb_status t AND 0x00FFFFFF"

definition has_completion_trb_pointer :: "trb \<Rightarrow> bool" where
  "has_completion_trb_pointer t =
     (if completion_code t = trb_completion_code_u8 RingUnderrun
         \<or> completion_code t = trb_completion_code_u8 RingOverrun then False
      else if completion_code t = trb_completion_code_u8 VfEventRingFull then False
      else True)"

definition completion_trb_pointer :: "trb \<Rightarrow> u64 option" where
  "completion_trb_pointer t = (if has_completion_trb_pointer t then Some (read_data t) else None)"

definition transfer_event_trb_pointer :: "trb \<Rightarrow> u64 option" where
  "transfer_event_trb_pointer t =
     (if has_completion_trb_pointer t then Some (read_data t) else None)"

definition port_status_change_port_id :: "trb \<Rightarrow> u8 option" where
  "port_status_change_port_id t =
     (if has_completion_trb_pointer t then Some (ucast (drop_bit 24 (read_data t) AND 0xFF))
      else None)"

definition event_slot :: "trb \<Rightarrow> u8" where
  "event_slot t = ucast (drop_bit 24 (control t))"

definition transfer_length :: "trb \<Rightarrow> u32" where
  "transfer_length t = trb_status t AND 0x00FFFFFF"

definition event_data_bit :: "trb \<Rightarrow> bool" where
  "event_data_bit t \<longleftrightarrow> control t AND 4 = 4"

definition event_data :: "trb \<Rightarrow> u64 option" where
  "event_data t = (if event_data_bit t then Some (read_data t) else None)"

definition endpoint_id :: "trb \<Rightarrow> u8" where
  "endpoint_id t = ucast (drop_bit 16 (control t AND 0x001F0000))"

definition trb_type :: "trb \<Rightarrow> u8" where
  "trb_type t = ucast (drop_bit 10 (control t AND 0x0000FC00))"

definition trb_cycle :: "trb \<Rightarrow> bool" where
  "trb_cycle t \<longleftrightarrow> control t AND 1 = 1"

subsection \<open>Builders of command blocks\<close>

definition trb_link :: "u64 \<Rightarrow> bool \<Rightarrow> bool \<Rightarrow> trb \<Rightarrow> trb" where
  "trb_link address toggle cycle = trb_set address 0
     (ty_field Link OR flag_at 1 toggle OR bool_word cycle)"

definition trb_no_op_cmd :: "bool \<Rightarrow> trb \<Rightarrow> trb" where
  "trb_no_op_cmd cycle = trb_set 0 0 (ty_field NoOpCmd OR bool_word cycle)"

definition trb_enable_slot :: "u8 \<Rightarrow> bool \<Rightarrow> trb \<Rightarrow> trb" where
  "trb_enable_slot slot_type cycle = trb_set 0 0
     (push_bit 16 (ucast slot_type AND 0x1F) OR ty_field EnableSlot OR bool_word cycle)"

definition trb_disable_slot :: "u8 \<Rightarrow> bool \<Rightarrow> trb \<Rightarrow> trb" where
  "trb_disable_slot slot cycle = trb_set 0 0
     (push_bit 24 (ucast slot) OR ty_field DisableSlot OR bool_word cycle)"

definition aligned16 :: "u64 \<Rightarrow> bool" where
  "aligned16 p \<longleftrightarrow> p AND 0xFFFFFFFFFFFFFFF0 = p"

definition trb_address_device :: "u8 \<Rightarrow> u64 \<Rightarrow> bool \<Rightarrow> bool \<Rightarrow> trb \<Rightarrow> (trb, unit) res" where
  "trb_address_device slot_id input_ctx_ptr bsr cycle t =
     (if aligned16 input_ctx_ptr
      then Ok (trb_set input_ctx_ptr 0 (push_bit 24 (ucast slot_id) OR ty_field AddressDevice
             OR flag_at 9 bsr OR bool_word cycle) t)
      else Panic)"

definition trb_configure_endpoint :: "u8 \<Rightarrow> u64 \<Rightarrow> bool \<Rightarrow> trb \<Rightarrow> (trb, unit) res" where
  "trb_configure_endpoint slot_id input_ctx_ptr cycle t =
     (if aligned16 input_ctx_ptr
      then Ok (trb_set input_ctx_ptr 0
             (push_bit 24 (ucast slot_id) OR ty_field ConfigureEndpoint OR bool_word cycle) t)
      else Panic)"

definition trb_evaluate_context :: "u8 \<Rightarrow> u64 \<Rightarrow> bool \<Rightarrow> bool \<Rightarrow> trb \<Rightarrow> (trb, unit) res" where
  "trb_evaluate_context slot_id input_ctx_ptr bsr cycle t =
     (if aligned16 input_ctx_ptr
      then Ok (trb_set input_ctx_ptr 0 (push_bit 24 (ucast slot_id) OR ty_field EvaluateContext
             OR flag_at 9 bsr OR bool_word cycle) t)
      else Panic)"

definition trb_reset_endpoint :: "u8 \<Rightarrow> u8 \<Rightarrow> bool \<Rightarrow> bool \<Rightarrow> trb \<Rightarrow> (trb, unit) res" where
  "trb_reset_endpoint slot_id endp_num_xhc tsp cycle t =
     (if endp_num_xhc AND 0x1F = endp_num_xhc
      then Ok (trb_set 0 0 (push_bit 24 (ucast slot_id) OR push_bit 16 (ucast endp_num_xhc)
             OR ty_field ResetEndpoint OR flag_at 9 tsp OR bool_word cycle) t)
      else Panic)"

definition trb_set_tr_deque_ptr ::
  "u64 \<Rightarrow> bool \<Rightarrow> stream_context_type \<Rightarrow> u16 \<Rightarrow> u8 \<Rightarrow> u8 \<Rightarrow> trb \<Rightarrow> (trb, unit) res" where
  "trb_set_tr_deque_ptr deque_ptr cycle sct stream_id endp_num_xhc slot t =
     (if deque_ptr AND 0xFFFFFFFFFFFFFFF1 = deque_ptr \<and> endp_num_xhc AND 0x1F = endp_num_xhc
      then Ok (trb_set (deque_ptr OR push_bit 1 (stream_context_type_u64 sct))
             (push_bit 16 (ucast stream_id))
             (push_bit 24 (ucast slot) OR push_bit 16 (ucast endp_num_xhc)
              OR ty_field SetTrDequeuePointer OR bool_word cycle) t)
      else Panic)"

definition trb_stop_endpoint :: "u8 \<Rightarrow> u8 \<Rightarrow> bool \<Rightarrow> bool \<Rightarrow> trb \<Rightarrow> (trb, unit) res" where
  "trb_stop_endpoint slot_id endp_num_xhc suspend cycle t =
     (if endp_num_xhc AND 0x1F = endp_num_xhc
      then Ok (trb_set 0 0 (push_bit 24 (ucast slot_id) OR flag_at 23 suspend
             OR push_bit 16 (ucast endp_num_xhc) OR ty_field StopEndpoint OR bool_word cycle) t)
      else Panic)"

definition trb_reset_device :: "u8 \<Rightarrow> bool \<Rightarrow> trb \<Rightarrow> trb" where
  "trb_reset_device slot_id cycle = trb_set 0 0
     (push_bit 24 (ucast slot_id) OR ty_field ResetDevice OR bool_word cycle)"

subsection \<open>Builders of transfer blocks\<close>

definition trb_transfer_no_op :: "u8 \<Rightarrow> bool \<Rightarrow> bool \<Rightarrow> bool \<Rightarrow> bool \<Rightarrow> trb \<Rightarrow> trb" where
  "trb_transfer_no_op interrupter ent ch ioc cycle = trb_set 0 (push_bit 22 (ucast interrupter))
     (ty_field NoOp OR flag_at 5 ioc OR flag_at 4 ch
      OR flag_at 1 ent OR bool_word cycle)"

definition trb_setup :: "usb_setup \<Rightarrow> transfer_kind \<Rightarrow> bool \<Rightarrow> trb \<Rightarrow> trb" where
  "trb_setup p transfer cycle = trb_set (setup_u64 p) 8
     (push_bit 16 (transfer_kind_u32 transfer) OR ty_field SetupStage OR flag_at 6 True
      OR bool_word cycle)"

definition trb_data :: "u64 \<Rightarrow> u16 \<Rightarrow> bool \<Rightarrow> bool \<Rightarrow> trb \<Rightarrow> trb" where
  "trb_data buffer len input cycle = trb_set buffer (ucast len)
     (flag_at 16 input OR ty_field DataStage OR bool_word cycle)"

definition trb_status_stage ::
  "u16 \<Rightarrow> bool \<Rightarrow> bool \<Rightarrow> bool \<Rightarrow> bool \<Rightarrow> bool \<Rightarrow> trb \<Rightarrow> trb" where
  "trb_status_stage interrupter input ioc ch ent cycle =
     trb_set 0 (push_bit 22 (ucast interrupter))
       (flag_at 16 input OR ty_field StatusStage OR flag_at 5 ioc
        OR flag_at 4 ch OR flag_at 1 ent OR bool_word cycle)"

definition trb_normal ::
  "u64 \<Rightarrow> u32 \<Rightarrow> bool \<Rightarrow> u8 \<Rightarrow> u8 \<Rightarrow> bool \<Rightarrow> bool \<Rightarrow> bool \<Rightarrow> bool \<Rightarrow> bool \<Rightarrow> bool
     \<Rightarrow> trb \<Rightarrow> (trb, unit) res" where
  "trb_normal buffer len cycle estimated_td_size interrupter ent isp chain ioc idt bei t =
     (if estimated_td_size AND 0x1F = estimated_td_size
      then Ok (trb_set buffer
             (len OR push_bit 17 (ucast estimated_td_size) OR push_bit 22 (ucast interrupter))
             (bool_word cycle OR flag_at 1 ent OR flag_at 2 isp
              OR flag_at 4 chain OR flag_at 5 ioc
              OR flag_at 6 idt OR flag_at 9 bei OR ty_field Normal) t)
      else Panic)"

definition is_command_trb :: "trb \<Rightarrow> bool" where
  "is_command_trb t \<longleftrightarrow> trb_type t \<in> set (map trb_type_u8
     [NoOpCmd, EnableSlot, DisableSlot, AddressDevice, ConfigureEndpoint, EvaluateContext,
      ResetEndpoint, StopEndpoint, SetTrDequeuePointer, ResetDevice, ForceEvent,
      NegotiateBandwidth, SetLatencyToleranceValue, GetPortBandwidth, ForceHeader,
      GetExtendedProperty, SetExtendedProperty])"

definition is_transfer_trb :: "trb \<Rightarrow> bool" where
  "is_transfer_trb t \<longleftrightarrow> trb_type t \<in> set (map trb_type_u8
     [Normal, SetupStage, DataStage, StatusStage, Isoch, NoOp])"

subsection \<open>Fields of the control word, bit by bit\<close>

named_theorems trb_bits \<open>the accessors of a block as bits of its control and status words\<close>

lemma trb_set_simps [simp]:
  "data_low (trb_set d st c t) = ucast d" "data_high (trb_set d st c t) = ucast (drop_bit 32 d)"
  "trb_status (trb_set d st c t) = st" "control (trb_set d st c t) = c"
  by (simp_all add: trb_set_def)

lemma read_data_set [simp]: "read_data (trb_set d st c t) = d"
  by (rule bit_word_eqI) (auto simp: read_data_def bit_simps)

lemma bit_trb_type_u8: "bit (trb_type_u8 ty) n \<Longrightarrow> n < 6"
proof -
  have "trb_type_u8 ty AND mask 6 = trb_type_u8 ty"
    by (cases ty) (simp_all add: mask_eq_exp_minus_1)
  then show "bit (trb_type_u8 ty) n \<Longrightarrow> n < 6" by (rule and_mask_D)
qed

lemma control_masks:
  "(0xFC00 :: u32) = push_bit 10 (mask 6)" "(0x1F0000 :: u32) = push_bit 16 (mask 5)"
  by (simp_all add: mask_eq_exp_minus_1)

lemma bit_trb_type [trb_bits]: "bit (trb_type t) n \<longleftrightarrow> n < 6 \<and> bit (control t) (10 + n)"
  unfolding trb_type_def control_masks by (auto simp: bit_simps)

lemma trb_cycle_bit [trb_bits]: "trb_cycle t \<longleftrightarrow> bit (control t) 0"
  by (simp add: trb_cycle_def and_one_eq_one_iff)

lemma bit_event_slot [trb_bits]: "bit (event_slot t) n \<longleftrightarrow> n < 8 \<and> bit (control t) (24 + n)"
  by (auto simp: event_slot_def bit_simps)

lemma bit_endpoint_id [trb_bits]: "bit (endpoint_id t) n \<longleftrightarrow> n < 5 \<and> bit (control t) (16 + n)"
  unfolding endpoint_id_def control_masks by (auto simp: bit_simps)

lemma bit_ty_field [trb_bits]:
  "bit (ty_field ty) n \<longleftrightarrow> 10 \<le> n \<and> n < 16 \<and> bit (trb_type_u8 ty) (n - 10)"
  using bit_trb_type_u8 [of ty "n - 10"] by (auto simp: ty_field_def bit_simps)

lemma trb_typeI:
  "(\<And>n. n < 6 \<Longrightarrow> bit (control t) (10 + n) = bit (trb_type_u8 ty) n) \<Longrightarrow> trb_type t = trb_type_u8 ty"
  by (rule bit_word_eqI) (auto simp: trb_bits dest: bit_trb_type_u8)

lemma event_slotI:
  "(\<And>n. n < 8 \<Longrightarrow> bit (control t) (24 + n) = bit slot n) \<Longrightarrow> event_slot t = slot"
  by (rule bit_word_eqI) (auto simp: trb_bits)

lemma endpoint_idI:
  "(\<And>n. n < 5 \<Longrightarrow> bit (control t) (16 + n) = bit e n) \<Longrightarrow> e AND 0x1F = e \<Longrightarrow> endpoint_id t = e"
proof (rule bit_word_eqI)
  fix n
  assume bits: "\<And>n. n < 5 \<Longrightarrow> bit (control t) (16 + n) = bit e n" and small: "e AND 0x1F = e"
  from small have "e AND mask 5 = e" by (simp add: mask_eq_exp_minus_1)
  then have "bit e n \<Longrightarrow> n < 5" by (rule and_mask_D)
  with bits show "bit (endpoint_id t) n = bit e n" by (auto simp: trb_bits)
qed

subsection \<open>What the builders write, the accessors read\<close>

text \<open>
  The type, the cycle bit and (for commands) the slot of a block, in one judgement, so that the
  facts on the builders are one line each.
\<close>

definition trb_decodes :: "trb \<Rightarrow> trb_type_tag \<Rightarrow> bool \<Rightarrow> bool" where
  "trb_decodes t ty cycle \<longleftrightarrow> trb_type t = trb_type_u8 ty \<and> trb_cycle t = cycle"

lemma trb_decodesI:
  assumes "\<And>n. n < 6 \<Longrightarrow> bit (control t) (10 + n) = bit (trb_type_u8 ty) n"
    and "bit (control t) 0 = cycle"
  shows "trb_decodes t ty cycle"
  using assms by (simp add: trb_decodes_def trb_typeI trb_cycle_bit)

lemmas command_builder_defs = trb_link_def trb_no_op_cmd_def trb_enable_slot_def
  trb_disable_slot_def trb_reset_device_def trb_reserved_def trb_address_device_def
  trb_configure_endpoint_def trb_evaluate_context_def trb_reset_endpoint_def
  trb_set_tr_deque_ptr_def trb_stop_endpoint_def

lemmas transfer_builder_defs = trb_transfer_no_op_def trb_setup_def trb_data_def
  trb_status_stage_def trb_normal_def

lemma small_endp_bits:
  "(e :: u8) AND 0x1F = e \<Longrightarrow> bit e k \<Longrightarrow> k < 5"
  by (rule and_mask_D [of e 5]) (simp_all add: mask_eq_exp_minus_1)

lemmas no_codes = trb_type_u8.simps

lemma simple_command_decodes:
  "trb_decodes (trb_reserved cycle t) trb_type_tag.Reserved cycle"
  "trb_decodes (trb_link a toggle cycle t) Link cycle"
  "trb_decodes (trb_no_op_cmd cycle t) NoOpCmd cycle"
  "trb_decodes (trb_enable_slot st cycle t) EnableSlot cycle"
  "trb_decodes (trb_disable_slot slot cycle t) DisableSlot cycle"
  "trb_decodes (trb_reset_device slot cycle t) ResetDevice cycle"
  by (rule trb_decodesI; simp add: command_builder_defs bit_simps trb_bits del: no_codes)+

lemma fallible_command_decodes:
  "trb_address_device slot p bsr cycle t = Ok t' \<Longrightarrow> trb_decodes t' AddressDevice cycle"
  "trb_configure_endpoint slot p cycle t = Ok t' \<Longrightarrow> trb_decodes t' ConfigureEndpoint cycle"
  "trb_evaluate_context slot p bsr cycle t = Ok t' \<Longrightarrow> trb_decodes t' EvaluateContext cycle"
  "trb_reset_endpoint slot e tsp cycle t = Ok t' \<Longrightarrow> trb_decodes t' ResetEndpoint cycle"
  "trb_set_tr_deque_ptr q cycle sct sid e slot t = Ok t' \<Longrightarrow> trb_decodes t' SetTrDequeuePointer cycle"
  "trb_stop_endpoint slot e sp cycle t = Ok t' \<Longrightarrow> trb_decodes t' StopEndpoint cycle"
  by (rule trb_decodesI;
      auto simp: command_builder_defs bit_simps trb_bits split: if_splits
        dest: small_endp_bits simp del: no_codes)+

lemma transfer_kind_bits: "bit (transfer_kind_u32 k) n \<Longrightarrow> n < 2"
proof -
  have "transfer_kind_u32 k AND mask 2 = transfer_kind_u32 k"
    by (cases k) (simp_all add: mask_eq_exp_minus_1)
  then show "bit (transfer_kind_u32 k) n \<Longrightarrow> n < 2" by (rule and_mask_D)
qed

lemma transfer_decodes:
  "trb_decodes (trb_transfer_no_op i ent ch ioc cycle t) NoOp cycle"
  "trb_decodes (trb_setup p k cycle t) SetupStage cycle"
  "trb_decodes (trb_data b n input cycle t) DataStage cycle"
  "trb_decodes (trb_status_stage w input ioc ch ent cycle t) StatusStage cycle"
  "trb_normal b len cycle td i ent isp chain ioc idt bei t = Ok t' \<Longrightarrow> trb_decodes t' Normal cycle"
  by (rule trb_decodesI; auto simp: transfer_builder_defs bit_simps trb_bits split: if_splits
        simp del: no_codes)+

lemma simple_event_slot:
  "event_slot (trb_disable_slot slot cycle t) = slot"
  "event_slot (trb_reset_device slot cycle t) = slot"
  by (rule event_slotI; simp add: command_builder_defs bit_simps trb_bits del: no_codes)+

lemma event_slot_builders:
  "trb_address_device slot p bsr cycle t = Ok t' \<Longrightarrow> event_slot t' = slot"
  "trb_configure_endpoint slot p cycle t = Ok t' \<Longrightarrow> event_slot t' = slot"
  "trb_evaluate_context slot p bsr cycle t = Ok t' \<Longrightarrow> event_slot t' = slot"
  "trb_reset_endpoint slot e tsp cycle t = Ok t' \<Longrightarrow> event_slot t' = slot"
  "trb_set_tr_deque_ptr q cycle sct sid e slot t = Ok t' \<Longrightarrow> event_slot t' = slot"
  "trb_stop_endpoint slot e sp cycle t = Ok t' \<Longrightarrow> event_slot t' = slot"
  by (rule event_slotI; auto simp: command_builder_defs bit_simps trb_bits split: if_splits
        dest: small_endp_bits simp del: no_codes)+

lemma endpoint_id_builders:
  "trb_reset_endpoint slot e tsp cycle t = Ok t' \<Longrightarrow> endpoint_id t' = e"
  "trb_set_tr_deque_ptr q cycle sct sid e slot t = Ok t' \<Longrightarrow> endpoint_id t' = e"
  "trb_stop_endpoint slot e sp cycle t = Ok t' \<Longrightarrow> endpoint_id t' = e"
  by (rule endpoint_idI; auto simp: command_builder_defs bit_simps trb_bits split: if_splits
        simp del: no_codes)+

lemma read_data_builders:
  "trb_address_device slot p bsr cycle t = Ok t' \<Longrightarrow> read_data t' = p"
  "trb_configure_endpoint slot p cycle t = Ok t' \<Longrightarrow> read_data t' = p"
  "trb_evaluate_context slot p bsr cycle t = Ok t' \<Longrightarrow> read_data t' = p"
  by (auto simp: command_builder_defs split: if_splits)

lemma command_panics:
  "trb_address_device slot p bsr cycle t = Panic \<longleftrightarrow> \<not> (aligned16 p)"
  "trb_configure_endpoint slot p cycle t = Panic \<longleftrightarrow> \<not> (aligned16 p)"
  "trb_evaluate_context slot p bsr cycle t = Panic \<longleftrightarrow> \<not> (aligned16 p)"
  "trb_reset_endpoint slot e tsp cycle t = Panic \<longleftrightarrow> \<not> (e AND 0x1F = e)"
  "trb_stop_endpoint slot e sp cycle t = Panic \<longleftrightarrow> \<not> (e AND 0x1F = e)"
  "trb_set_tr_deque_ptr q cycle sct sid e slot t = Panic \<longleftrightarrow> \<not> (q AND 0xFFFFFFFFFFFFFFF1 = q \<and> e AND 0x1F = e)"
  by (simp_all add: command_builder_defs)

lemma command_total:
  "trb_address_device slot p bsr cycle t \<noteq> Err x" "trb_address_device slot p bsr cycle t \<noteq> NoFuel"
  "trb_configure_endpoint slot p cycle t \<noteq> Err x" "trb_configure_endpoint slot p cycle t \<noteq> NoFuel"
  "trb_evaluate_context slot p bsr cycle t \<noteq> Err x" "trb_evaluate_context slot p bsr cycle t \<noteq> NoFuel"
  "trb_reset_endpoint slot e tsp cycle t \<noteq> Err x" "trb_reset_endpoint slot e tsp cycle t \<noteq> NoFuel"
  "trb_stop_endpoint slot e sp cycle t \<noteq> Err x" "trb_stop_endpoint slot e sp cycle t \<noteq> NoFuel"
  "trb_set_tr_deque_ptr q cycle sct sid e slot t \<noteq> Err x" "trb_set_tr_deque_ptr q cycle sct sid e slot t \<noteq> NoFuel"
  by (simp_all add: command_builder_defs)

lemma command_ok:
  "trb_address_device slot p bsr cycle t = Ok t' \<Longrightarrow> aligned16 p"
  "trb_configure_endpoint slot p cycle t = Ok t' \<Longrightarrow> aligned16 p"
  "trb_evaluate_context slot p bsr cycle t = Ok t' \<Longrightarrow> aligned16 p"
  "trb_reset_endpoint slot e tsp cycle t = Ok t' \<Longrightarrow> e AND 0x1F = e"
  "trb_stop_endpoint slot e sp cycle t = Ok t' \<Longrightarrow> e AND 0x1F = e"
  "trb_set_tr_deque_ptr q cycle sct sid e slot t = Ok t' \<Longrightarrow> q AND 0xFFFFFFFFFFFFFFF1 = q \<and> e AND 0x1F = e"
  by (simp_all add: command_builder_defs split: if_splits)


lemma length_setup_bytes [simp]: "length (setup_bytes p) = 8"
  by (simp add: setup_bytes_def)

lemma le_bytes_setup_u64: "le_bytes 8 (setup_u64 p) = setup_bytes p"
  using le_bytes_from_le [of "setup_bytes p", where 'a = 64] by (simp add: setup_u64_def)

lemma is_transfer_iff: "trb_decodes t ty cycle \<Longrightarrow>
    is_transfer_trb t \<longleftrightarrow> ty \<in> {Normal, SetupStage, DataStage, StatusStage, Isoch, NoOp}"
  by (cases ty) (simp_all add: trb_decodes_def is_transfer_trb_def)

lemma is_command_iff: "trb_decodes t ty cycle \<Longrightarrow>
    is_command_trb t \<longleftrightarrow> ty \<in> {NoOpCmd, EnableSlot, DisableSlot, AddressDevice,
      ConfigureEndpoint, EvaluateContext, ResetEndpoint, StopEndpoint, SetTrDequeuePointer,
      ResetDevice, ForceEvent, NegotiateBandwidth, SetLatencyToleranceValue, GetPortBandwidth,
      ForceHeader, GetExtendedProperty, SetExtendedProperty}"
  by (cases ty) (simp_all add: trb_decodes_def is_command_trb_def)

text \<open>A block that decodes to a type and is a transfer block but no command.\<close>

definition transfer_block :: "trb \<Rightarrow> trb_type_tag \<Rightarrow> bool \<Rightarrow> bool" where
  "transfer_block t ty cycle \<longleftrightarrow>
     trb_decodes t ty cycle \<and> is_transfer_trb t \<and> \<not> is_command_trb t"

lemma transfer_blockI:
  "trb_decodes t ty cycle \<Longrightarrow> ty \<in> {Normal, SetupStage, DataStage, StatusStage, NoOp}
     \<Longrightarrow> transfer_block t ty cycle"
  using is_transfer_iff [of t ty cycle] is_command_iff [of t ty cycle]
  by (auto simp: transfer_block_def)

lemma setup_kind_field:
  "take_bit 2 (drop_bit 16 (control (trb_setup p k cycle t))) = transfer_kind_u32 k"
  by (rule bit_word_eqI)
    (auto simp: trb_setup_def bit_simps trb_bits simp del: no_codes dest: transfer_kind_bits)

lemma normal_block:
  assumes "trb_normal b len cycle td i ent isp chain ioc idt bei t = Ok t'"
  shows "transfer_block t' Normal cycle" and "read_data t' = b"
    and "take_bit 17 (trb_status t') = take_bit 17 len"
proof -
  show "transfer_block t' Normal cycle"
    by (rule transfer_blockI [OF transfer_decodes(5) [OF assms]]) simp
  show "read_data t' = b" using assms by (auto simp: trb_normal_def split: if_splits)
  show "take_bit 17 (trb_status t') = take_bit 17 len"
    using assms by (intro bit_word_eqI) (auto simp: trb_normal_def bit_simps split: if_splits)
qed

lemma normal_panics:
  "trb_normal b len cycle td i ent isp chain ioc idt bei t = Panic \<longleftrightarrow> td AND 0x1F \<noteq> td"
  "trb_normal b len cycle td i ent isp chain ioc idt bei t \<noteq> Err x"
  "trb_normal b len cycle td i ent isp chain ioc idt bei t \<noteq> NoFuel"
  by (simp_all add: trb_normal_def)


end
