(* ===== verification/Ring_Cursor.thy ===== *)
theory Ring_Cursor
  imports Rust_Prelude
begin

text \<open>
  The interface that the ring buffers of the drivers share. Drivers and devices talk through
  fixed-size arrays in which one side produces and the other consumes, both moving a cursor that
  wraps around; some rings also flip a bit (the cycle bit of xHCI, the phase tag of NVMe) on every
  wrap, so that the consumer can tell new entries from old ones. \<open>ring_cursor\<close> states what one
  step of such a cursor does and \<open>phased_cursor\<close> adds the bit; what follows for a sequence of
  steps is proved once here. The xHCI rings and the NVMe queues interpret them.
\<close>

text \<open>The test-and-reset form of a wrapping increment.\<close>

lemma suc_mod_cases: "i < n \<Longrightarrow> (if i + 1 < n then i + 1 else 0) = (i + 1) mod (n :: nat)"
proof (cases "i + 1 < n")
  case False
  moreover assume "i < n"
  ultimately have "n = i + 1" by linarith
  then show ?thesis by simp
qed simp

text \<open>Positions less than one turn apart are in different slots.\<close>

lemma mod_distinct: "k < n \<Longrightarrow> n < k + m \<Longrightarrow> k mod m \<noteq> n mod (m::nat)"
  by (metis add.commute add_diff_inverse_nat less_diff_conv2 less_imp_le_nat
    linorder_not_less mod_eq_dvd_iff_nat nat_dvd_not_less zero_less_diff)

locale ring_cursor =
  fixes advance :: "'r \<Rightarrow> 'r"
    and slot :: "'r \<Rightarrow> nat"
    and capacity :: "'r \<Rightarrow> nat"
    and valid :: "'r \<Rightarrow> bool"
  assumes slot_less: "valid r \<Longrightarrow> slot r < capacity r"
    and valid_advance: "valid r \<Longrightarrow> valid (advance r)"
    and capacity_advance: "valid r \<Longrightarrow> capacity (advance r) = capacity r"
    and slot_advance: "valid r \<Longrightarrow> slot (advance r) = (slot r + 1) mod capacity r"
begin

lemma capacity_pos: "valid r \<Longrightarrow> 0 < capacity r"
  using slot_less by (metis less_nat_zero_code not_gr_zero)

lemma funpow_valid: "valid r \<Longrightarrow> valid ((advance ^^ n) r)"
  by (induction n) (auto intro: valid_advance)

lemma funpow_capacity: "valid r \<Longrightarrow> capacity ((advance ^^ n) r) = capacity r"
  by (induction n) (auto simp: capacity_advance funpow_valid)

lemma funpow_slot: "valid r \<Longrightarrow> slot ((advance ^^ n) r) = (slot r + n) mod capacity r"
proof (induction n)
  case 0
  then show ?case by (simp add: slot_less)
next
  case (Suc n)
  then show ?case
    by (simp add: slot_advance [OF funpow_valid] funpow_capacity mod_Suc_eq)
qed

text \<open>No slot is visited twice within one turn of the ring, and one turn visits every slot.\<close>

lemma slots_inj:
  assumes "valid r" and "m < n" and "n < m + capacity r"
  shows "slot ((advance ^^ m) r) \<noteq> slot ((advance ^^ n) r)"
proof
  assume "slot ((advance ^^ m) r) = slot ((advance ^^ n) r)"
  then have "(slot r + m) mod capacity r = (slot r + n) mod capacity r"
    using assms(1) by (simp add: funpow_slot)
  then have "capacity r dvd (slot r + n) - (slot r + m)"
    by (metis mod_eq_dvd_iff_nat nat_le_linear add_le_cancel_left assms(2) less_imp_le_nat)
  then have "capacity r dvd n - m" by simp
  moreover have "0 < n - m" "n - m < capacity r" using assms(2,3) by auto
  ultimately show False using nat_dvd_not_less by blast
qed

lemma slots_cover:
  assumes "valid r" and "k < capacity r"
  shows "\<exists>n < capacity r. slot ((advance ^^ n) r) = k"
proof -
  define n where "n = (k + capacity r - slot r) mod capacity r"
  have s: "slot r < capacity r" by (rule slot_less [OF assms(1)])
  have "(slot r + n) mod capacity r = (slot r + (k + capacity r - slot r)) mod capacity r"
    by (simp add: n_def mod_add_right_eq)
  also from s have "slot r + (k + capacity r - slot r) = k + capacity r" by simp
  finally have "(slot r + n) mod capacity r = k" using assms(2) by simp
  moreover have "n < capacity r" using capacity_pos [OF assms(1)] by (simp add: n_def)
  ultimately show ?thesis using assms(1) by (auto simp: funpow_slot)
qed

end

locale phased_cursor = ring_cursor +
  fixes phase :: "'a \<Rightarrow> bool"
  assumes phase_advance: "valid r \<Longrightarrow>
    phase (advance r) = (if slot r + 1 = capacity r then \<not> phase r else phase r)"
begin

lemma funpow_phase:
  "valid r \<Longrightarrow> phase ((advance ^^ n) r) = (phase r = even ((slot r + n) div capacity r))"
proof (induction n)
  case 0
  then show ?case by (simp add: slot_less)
next
  case (Suc n)
  let ?c = "capacity r"
  have c: "0 < ?c" by (rule capacity_pos [OF Suc.prems])
  have split: "Suc (slot r + n) div ?c
    = (slot r + n) div ?c + (if Suc ((slot r + n) mod ?c) = ?c then 1 else 0)"
    using c by (simp add: div_Suc mod_Suc split: if_splits)
  show ?case
    using Suc c by (simp add: phase_advance [OF funpow_valid] funpow_slot funpow_capacity split)
qed

text \<open>A full turn comes back to the same slot with the other phase.\<close>

lemma full_turn:
  assumes "valid r"
  shows "slot ((advance ^^ capacity r) r) = slot r"
    and "phase ((advance ^^ capacity r) r) = (\<not> phase r)"
  using assms capacity_pos [OF assms] slot_less [OF assms]
  by (simp_all add: funpow_slot funpow_phase div_add_self2)

end

end
