(* ===== verification/Xhci_Ring.thy ===== *)
theory Xhci_Ring
  imports Xhci_Trb Ring_Cursor Dma_Mem
begin

text \<open>
  The rings of transfer request blocks of the xHCI driver: \<open>xhcid/src/xhci/ring.rs\<close> (command and
  transfer rings, with a link block in the last slot), \<open>event.rs\<close> (the event ring and its
  segment table) and the context structures of \<open>context.rs\<close>. A \<open>&mut Trb\<close> into a ring is the
  index of the block.

  The loop of \<open>next_index\<close> carries fuel: a linked ring of one block would turn in it forever, and
  two rounds are enough for every ring that has a slot besides the link. The controller's side of
  a ring is the specification \<open>hw_consume\<close>.
\<close>

subsection \<open>Rings\<close>

record ring =
  ring_link :: bool
  ring_trbs :: "trb dma"
  ring_i :: nat
  ring_cycle :: bool

definition zero_trb :: trb where
  "zero_trb = \<lparr>data_low = 0, data_high = 0, trb_status = 0, control = 0\<rparr>"

definition size_of_trb :: nat where
  "size_of_trb = 16"

definition alloc_dma_zeroed_unsized_raw ::
  "'m mem_ops \<Rightarrow> bool \<Rightarrow> nat \<Rightarrow> 'a \<Rightarrow> nat \<Rightarrow> ('m, 'a dma, errno) st" where
  "alloc_dma_zeroed_unsized_raw K ac64 size_of z count = zeroed_slice K size_of z count"

definition ring_new :: "'m mem_ops \<Rightarrow> bool \<Rightarrow> nat \<Rightarrow> bool \<Rightarrow> ('m, ring, errno) st" where
  "ring_new K ac64 len link =
     bind_m (alloc_dma_zeroed_unsized_raw K ac64 size_of_trb zero_trb len) (\<lambda>trbs.
     return_m \<lparr>ring_link = link, ring_trbs = trbs, ring_i = 0, ring_cycle = link\<rparr>)"

definition ring_len :: "ring \<Rightarrow> nat" where
  "ring_len r = length (dma_data (ring_trbs r))"

definition ring_get :: "ring \<Rightarrow> nat \<Rightarrow> trb" where
  "ring_get r j = dma_data (ring_trbs r) ! j"

definition ring_put :: "nat \<Rightarrow> trb \<Rightarrow> ring \<Rightarrow> ring" where
  "ring_put j t r = r\<lparr>ring_trbs := (ring_trbs r)\<lparr>dma_data := (dma_data (ring_trbs r))[j := t]\<rparr>\<rparr>"

definition ring_register :: "ring \<Rightarrow> u64" where
  "ring_register r =
     (dma_phys (ring_trbs r) + of_nat (size_of_trb * ring_i r)) OR bool_word (ring_cycle r)"

fun next_index :: "nat \<Rightarrow> (ring, nat, unit) st" where
  "next_index 0 r = (NoFuel, r)"
| "next_index (Suc fuel) r =
     (let i = ring_i r; r1 = r\<lparr>ring_i := i + 1\<rparr>
      in if ring_i r1 \<ge> ring_len r1 then
           let r2 = r1\<lparr>ring_i := 0\<rparr>
           in if ring_link r2 then
                if i < ring_len r2 then
                  next_index fuel
                    ((ring_put i (trb_link (dma_phys (ring_trbs r2)) True (ring_cycle r2)
                        (ring_get r2 i)) r2)\<lparr>ring_cycle := \<not> ring_cycle r2\<rparr>)
                else (Panic, r2)
              else (Ok i, r2)
         else (Ok i, r1))"

definition ring_next :: "nat \<Rightarrow> (ring, nat \<times> bool, unit) st" where
  "ring_next fuel = bind_m (next_index fuel) (\<lambda>i r.
     if i < ring_len r then (Ok (i, ring_cycle r), r) else (Panic, r))"

text \<open>The endless iterator: its state is the index of the next block.\<close>

definition ring_iter :: "ring \<Rightarrow> nat" where
  "ring_iter r = ring_i r"

definition iter_next :: "ring \<Rightarrow> (nat, trb, unit) st" where
  "iter_next r i =
     (if ring_len r = 0 then (Panic, i)
      else let i' = (i + 1) mod ring_len r
           in if i < ring_len r then (Ok (ring_get r i), i') else (Panic, i'))"

definition ac64_mask :: "bool \<Rightarrow> u64" where
  "ac64_mask ac64 = (if ac64 then 0xFFFFFFFFFFFFFFFF else 0xFFFFFFFF)"

definition phys_addr_to_index :: "ring \<Rightarrow> bool \<Rightarrow> u64 \<Rightarrow> (nat option, unit) res" where
  "phys_addr_to_index r ac64 paddr =
     (let base = dma_phys (ring_trbs r) AND ac64_mask ac64
      in if paddr < base then Ok None
         else let offset = unat (paddr - base)
              in if offset mod size_of_trb \<noteq> 0 then Panic
                 else let index = offset div size_of_trb
                      in if index > ring_len r then Ok None else Ok (Some index))"

definition phys_addr_to_entry :: "ring \<Rightarrow> bool \<Rightarrow> u64 \<Rightarrow> (trb option, unit) res" where
  "phys_addr_to_entry r ac64 paddr =
     bind_r (phys_addr_to_index r ac64 paddr) (\<lambda>x. case x of
       None \<Rightarrow> Ok None
     | Some index \<Rightarrow> if index < ring_len r then Ok (Some (ring_get r index)) else Panic)"

text \<open>The two borrowing variants return the index of the block they borrow.\<close>

definition phys_addr_to_entry_ref :: "ring \<Rightarrow> bool \<Rightarrow> u64 \<Rightarrow> (nat option, unit) res" where
  "phys_addr_to_entry_ref r ac64 paddr =
     bind_r (phys_addr_to_index r ac64 paddr) (\<lambda>x. case x of
       None \<Rightarrow> Ok None
     | Some index \<Rightarrow> if index < ring_len r then Ok (Some index) else Panic)"

definition start_virt_addr :: "ring \<Rightarrow> u64" where
  "start_virt_addr r = dma_virt (ring_trbs r)"

definition end_virt_addr :: "ring \<Rightarrow> u64" where
  "end_virt_addr r = start_virt_addr r + of_nat (size_of_trb * ring_len r)"

definition trb_phys_ptr :: "ring \<Rightarrow> bool \<Rightarrow> u64 \<Rightarrow> (u64, unit) res" where
  "trb_phys_ptr r ac64 ptr =
     (if ptr < dma_virt (ring_trbs r)
         \<or> ptr > dma_virt (ring_trbs r) + of_nat (ring_len r * size_of_trb) then Panic
      else Ok ((dma_phys (ring_trbs r) AND ac64_mask ac64) + (ptr - dma_virt (ring_trbs r))))"

subsection \<open>The event ring\<close>

record event_ring_ste =
  ste_address_low :: u32
  ste_address_high :: u32
  ste_size :: u16

record event_ring =
  er_ste :: "event_ring_ste dma"
  er_ring :: ring

definition event_ring_new :: "'m mem_ops \<Rightarrow> bool \<Rightarrow> ('m, event_ring, errno) st" where
  "event_ring_new K ac64 =
     bind_m (alloc_dma_zeroed_unsized_raw K ac64 16
              \<lparr>ste_address_low = 0, ste_address_high = 0, ste_size = 0\<rparr> 1) (\<lambda>ste.
     on_failure_m
       (bind_m (ring_new K ac64 256 False) (\<lambda>r.
        return_m
          \<lparr>er_ste = ste\<lparr>dma_data := (dma_data ste)[0 :=
              \<lparr>ste_address_low = ucast (dma_phys (ring_trbs r)),
               ste_address_high = ucast (drop_bit 32 (dma_phys (ring_trbs r))),
               ste_size = of_nat (ring_len r)\<rparr>]\<rparr>,
           er_ring = r\<rparr>))
       (dma_drop K ste))"

definition event_ring_next :: "nat \<Rightarrow> (event_ring, nat, unit) st" where
  "event_ring_next fuel e =
     (case ring_next fuel (er_ring e) of (x, r) \<Rightarrow> (map_res fst x, e\<lparr>er_ring := r\<rparr>))"

definition erdp :: "event_ring \<Rightarrow> u64" where
  "erdp e = ring_register (er_ring e) AND 0xFFFFFFFFFFFFFFF0"

definition erstba :: "event_ring \<Rightarrow> u64" where
  "erstba e = dma_phys (er_ste e)"

subsection \<open>One step of a ring\<close>

lemma ring_put_simps [simp]:
  "ring_len (ring_put j t r) = ring_len r" "ring_i (ring_put j t r) = ring_i r"
  "ring_cycle (ring_put j t r) = ring_cycle r" "ring_link (ring_put j t r) = ring_link r"
  "dma_phys (ring_trbs (ring_put j t r)) = dma_phys (ring_trbs r)"
  by (simp_all add: ring_put_def ring_len_def)

lemma ring_len_update [simp]:
  "ring_len (r\<lparr>ring_i := i\<rparr>) = ring_len r" "ring_len (r\<lparr>ring_cycle := c\<rparr>) = ring_len r"
  by (simp_all add: ring_len_def)

lemma ring_get_update [simp]:
  "ring_get (r\<lparr>ring_i := i\<rparr>) j = ring_get r j" "ring_get (r\<lparr>ring_cycle := c\<rparr>) j = ring_get r j"
  by (simp_all add: ring_get_def)

lemma ring_get_put [simp]:
  "j < ring_len r \<Longrightarrow> ring_get (ring_put j t r) k = (if k = j then t else ring_get r k)"
  by (auto simp: ring_get_def ring_put_def ring_len_def nth_list_update)

text \<open>A ring whose cursor is inside it and which has a slot besides the link.\<close>

definition ring_wf :: "ring \<Rightarrow> bool" where
  "ring_wf r \<longleftrightarrow> ring_i r < ring_len r \<and> (ring_link r \<longrightarrow> 2 \<le> ring_len r)"

definition link_block :: "ring \<Rightarrow> trb" where
  "link_block r = trb_link (dma_phys (ring_trbs r)) True (ring_cycle r)
     (ring_get r (ring_len r - 1))"

text \<open>A linked ring wraps lazily: at the last slot it writes the link and starts over.\<close>

definition ring_wrap :: "ring \<Rightarrow> ring" where
  "ring_wrap r = (if ring_link r \<and> Suc (ring_i r) = ring_len r
     then (ring_put (ring_i r) (link_block r) r)\<lparr>ring_i := 0, ring_cycle := \<not> ring_cycle r\<rparr>
     else r)"

definition ring_advance :: "ring \<Rightarrow> ring" where
  "ring_advance r = (let w = ring_wrap r
     in w\<lparr>ring_i := (if ring_i w + 1 < ring_len w then ring_i w + 1 else 0)\<rparr>)"

lemma ring_wrap_simps [simp]:
  "ring_len (ring_wrap r) = ring_len r" "ring_link (ring_wrap r) = ring_link r"
  by (simp_all add: ring_wrap_def)

lemma ring_wrap_i:
  "ring_i (ring_wrap r) = (if ring_link r \<and> Suc (ring_i r) = ring_len r then 0 else ring_i r)"
  "ring_cycle (ring_wrap r) =
     (if ring_link r \<and> Suc (ring_i r) = ring_len r then \<not> ring_cycle r else ring_cycle r)"
  by (simp_all add: ring_wrap_def)

lemma next_index_inside:
  assumes "ring_i r < ring_len r" and "\<not> (ring_link r \<and> Suc (ring_i r) = ring_len r)"
  shows "next_index (Suc f) r =
    (Ok (ring_i r), r\<lparr>ring_i := (if ring_i r + 1 < ring_len r then ring_i r + 1 else 0)\<rparr>)"
  using assms by (auto simp: Let_def)

lemma next_index_link:
  assumes "ring_link r" and "Suc (ring_i r) = ring_len r"
  shows "next_index (Suc f) r = next_index f (ring_wrap r)"
proof -
  have "ring_wrap r = (ring_put (ring_i r) (trb_link (dma_phys (ring_trbs r)) True (ring_cycle r)
      (ring_get r (ring_i r))) (r\<lparr>ring_i := 0\<rparr>))\<lparr>ring_cycle := \<not> ring_cycle r\<rparr>"
  proof -
    have "ring_len r - 1 = ring_i r" using assms(2) by simp
    then show ?thesis
      unfolding ring_wrap_def link_block_def ring_put_def using assms by (cases r) simp
  qed
  moreover have "ring_i r < ring_len r" using assms(2) by simp
  ultimately show ?thesis using assms by (simp add: Let_def)
qed

lemma next_index_eq:
  assumes "ring_wf r" and "2 \<le> fuel"
  shows "next_index fuel r = (Ok (ring_i (ring_wrap r)), ring_advance r)"
proof -
  obtain f where f: "fuel = Suc (Suc f)" using assms(2) that [of "fuel - 2"] by simp
  show ?thesis
  proof (cases "ring_link r \<and> Suc (ring_i r) = ring_len r")
    case True
    have i: "ring_i (ring_wrap r) < ring_len (ring_wrap r)"
      "\<not> (ring_link (ring_wrap r) \<and> Suc (ring_i (ring_wrap r)) = ring_len (ring_wrap r))"
      using assms(1) True by (auto simp: ring_wf_def ring_wrap_i)
    show ?thesis
      unfolding f next_index_link [OF conjunct1 [OF True] conjunct2 [OF True]]
        next_index_inside [OF i] ring_advance_def Let_def ..
  next
    case False
    then have w: "ring_wrap r = r" by (auto simp: ring_wrap_def)
    have "ring_i r < ring_len r" using assms(1) by (simp add: ring_wf_def)
    then show ?thesis
      unfolding f next_index_inside [OF _ False] ring_advance_def Let_def w by (simp only: next_index_inside [OF _ False])
  qed
qed

lemma ring_next_eq:
  assumes "ring_wf r" and "2 \<le> fuel"
  shows "ring_next fuel r = (Ok (ring_i (ring_wrap r), ring_cycle (ring_wrap r)), ring_advance r)"
proof -
  have "ring_i (ring_wrap r) < ring_len r" using assms(1) by (auto simp: ring_wrap_i ring_wf_def)
  then show ?thesis
    by (simp add: ring_next_def bind_m_def next_index_eq [OF assms]) (simp add: ring_advance_def Let_def)
qed

subsection \<open>The cursor of a ring\<close>

lemma ring_wf_advance: "ring_wf r \<Longrightarrow> ring_wf (ring_advance r)"
  by (auto simp: ring_wf_def ring_advance_def ring_wrap_i Let_def)

text \<open>Without a link the cursor runs through all slots.\<close>

lemma ring_advance_simps [simp]:
  "ring_len (ring_advance r) = ring_len r" "ring_link (ring_advance r) = ring_link r"
  "dma_phys (ring_trbs (ring_advance r)) = dma_phys (ring_trbs r)"
  by (simp_all add: ring_advance_def Let_def) (simp add: ring_wrap_def)

lemma ring_advance_nolink:
  assumes "\<not> ring_link r"
  shows "ring_advance r = r\<lparr>ring_i := (if ring_i r + 1 < ring_len r then ring_i r + 1 else 0)\<rparr>"
  using assms by (simp add: ring_advance_def ring_wrap_def)

interpretation event_cursor: ring_cursor ring_advance ring_i ring_len
  "\<lambda>r. ring_wf r \<and> \<not> ring_link r"
proof unfold_locales
  fix r assume r: "ring_wf r \<and> \<not> ring_link r"
  show i: "ring_i r < ring_len r" using r by (simp add: ring_wf_def)
  have "ring_i (ring_advance r) = (if ring_i r + 1 < ring_len r then ring_i r + 1 else 0)"
    using r by (simp add: ring_advance_nolink)
  then show "ring_i (ring_advance r) = (ring_i r + 1) mod ring_len r"
    unfolding suc_mod_cases [OF i] .
  show "ring_len (ring_advance r) = ring_len r"
    using r by (simp add: ring_advance_nolink)
  show "ring_wf (ring_advance r) \<and> \<not> ring_link (ring_advance r)"
    using r ring_wf_advance by simp
qed

text \<open>
  With a link it runs through all slots but the last, and the cycle bit that the next block gets
  flips on every turn.
\<close>

definition ring_slot :: "ring \<Rightarrow> nat" where
  "ring_slot r = ring_i (ring_wrap r)"

definition ring_phase :: "ring \<Rightarrow> bool" where
  "ring_phase r = ring_cycle (ring_wrap r)"

definition ring_slots :: "ring \<Rightarrow> nat" where
  "ring_slots r = ring_len r - 1"

lemma ring_advance_i:
  "ring_wf r \<Longrightarrow> ring_link r \<Longrightarrow> ring_i (ring_advance r) = Suc (ring_slot r)"
  "ring_cycle (ring_advance r) = ring_phase r"
  by (auto simp: ring_advance_def ring_slot_def ring_phase_def Let_def ring_wrap_i ring_wf_def)

interpretation link_cursor: phased_cursor ring_advance ring_slot ring_slots
  "\<lambda>r. ring_wf r \<and> ring_link r" ring_phase
proof unfold_locales
  fix r assume r: "ring_wf r \<and> ring_link r"
  then have i: "ring_i (ring_advance r) = Suc (ring_slot r)" by (simp add: ring_advance_i)
  show s: "ring_slot r < ring_slots r"
    using r by (auto simp: ring_slot_def ring_slots_def ring_wrap_i ring_wf_def)
  show "ring_wf (ring_advance r) \<and> ring_link (ring_advance r)"
    using r ring_wf_advance by simp
  show "ring_slots (ring_advance r) = ring_slots r" by (simp add: ring_slots_def)
  have last: "Suc (Suc (ring_slot r)) = ring_len r \<longleftrightarrow> Suc (ring_slot r) = ring_slots r"
    using s by (auto simp: ring_slots_def)
  show "ring_slot (ring_advance r) = (ring_slot r + 1) mod ring_slots r"
    using r s last i by (simp add: ring_slot_def [of "ring_advance r"] ring_wrap_i mod_Suc)
  show "ring_phase (ring_advance r) =
    (if ring_slot r + 1 = ring_slots r then \<not> ring_phase r else ring_phase r)"
    using r last i ring_advance_i(2) by (simp add: ring_phase_def [of "ring_advance r"] ring_wrap_i)
qed

lemma ring_new_Ok:
  assumes "ring_new K ac64 len link m = (Ok r, m')"
  shows "ring_link r = link" "ring_len r = len" "ring_i r = 0" "ring_cycle r = link"
    "j < len \<Longrightarrow> ring_get r j = zero_trb"
  using assms
  by (auto simp: ring_new_def alloc_dma_zeroed_unsized_raw_def zeroed_slice_def Let_def bind_m_Ok
      return_m_def panic_m_def ring_len_def ring_get_def split: if_splits)

lemma ring_new_wf:
  assumes "ring_new K ac64 len link m = (Ok r, m')" and "0 < len" and "link \<longrightarrow> 2 \<le> len"
  shows "ring_wf r"
  using ring_new_Ok [OF assms(1)] assms(2,3) by (simp add: ring_wf_def)

text \<open>
  The calls of \<open>next\<close> on a new linked ring of \<open>len\<close> blocks hand out the slots
  0, 1, ..., \<open>len - 2\<close> over and over, with a cycle bit that is set in the first turn and flips with
  every turn; the last slot, which holds the link, is never handed out, and no call fails.
\<close>

theorem linked_ring_slots:
  assumes "ring_new K ac64 len True m = (Ok r, m')" and "2 \<le> len" and "2 \<le> fuel"
  shows "fst (repeat_m k (ring_next fuel) r)
    = Ok (map (\<lambda>j. (j mod (len - 1), even (j div (len - 1)))) [0..<k])"
proof -
  let ?P = "\<lambda>r. ring_wf r \<and> ring_link r"
  have P: "?P r" using ring_new_wf [OF assms(1)] ring_new_Ok(1) [OF assms(1)] assms(2) by simp
  have start: "ring_slot r = 0" "ring_phase r" "ring_slots r = len - 1"
    using ring_new_Ok [OF assms(1)] assms(2)
    by (auto simp: ring_slot_def ring_phase_def ring_slots_def ring_wrap_i)
  have "repeat_m k (ring_next fuel) r
    = (Ok (map (\<lambda>j. (ring_slot ((ring_advance ^^ j) r), ring_phase ((ring_advance ^^ j) r))) [0..<k]),
       (ring_advance ^^ k) r)"
    using P
    by (intro repeat_m_total [where P = ?P and m = "ring_next fuel"
          and out = "\<lambda>r. (ring_slot r, ring_phase r)"])
      (simp_all add: ring_next_eq assms(3) ring_slot_def ring_phase_def ring_wf_advance)
  then show ?thesis
    by (simp add: link_cursor.funpow_slot [OF P] link_cursor.funpow_phase [OF P] start)
qed

lemma sample_ring: "ring_new sample_mem True 4 True () =
  (Ok \<lparr>ring_link = True, ring_trbs = \<lparr>dma_phys = 0x11000, dma_aligned_len = 4096,
       dma_virt = 0x10000, dma_data = replicate 4 zero_trb\<rparr>, ring_i = 0, ring_cycle = True\<rparr>, ())"
  by (simp add: ring_new_def alloc_dma_zeroed_unsized_raw_def zeroed_slice_def alloc_and_map_def
    sample_mem_def next_multiple_of_def page_size_def size_of_trb_def st_defs finally_m_def)

theorem linked_ring_slots_witness:
  "fst (repeat_m 5 (ring_next 2)
     \<lparr>ring_link = True, ring_trbs = \<lparr>dma_phys = 0x11000, dma_aligned_len = 4096,
        dma_virt = 0x10000, dma_data = replicate 4 zero_trb\<rparr>, ring_i = 0, ring_cycle = True\<rparr>)
   = Ok [(0, True), (1, True), (2, True), (0, False), (1, False)]"
  using linked_ring_slots [OF sample_ring, of 2 5] by (simp add: upt_rec)

subsection \<open>The controller's side of a ring\<close>

text \<open>
  The consumer of a command or transfer ring (xHCI section 4.9): it fetches the block at its
  dequeue index if the cycle bit is its consumer cycle state, and follows a link, whose toggle
  bit (bit 1 of the control word) flips that state.
\<close>

definition hw_fetch :: "ring \<Rightarrow> nat \<times> bool \<Rightarrow> trb option" where
  "hw_fetch r p = (let t = ring_get r (fst p) in if trb_cycle t = snd p then Some t else None)"

definition hw_consume :: "ring \<Rightarrow> nat \<times> bool \<Rightarrow> trb option \<times> (nat \<times> bool)" where
  "hw_consume r p = (case hw_fetch r p of
      None \<Rightarrow> (None, p)
    | Some t \<Rightarrow>
        if trb_type t = trb_type_u8 Link then
          let p' = (unat (read_data t - dma_phys (ring_trbs r)) div size_of_trb,
                    snd p \<noteq> bit (control t) 1)
          in case hw_fetch r p' of
               None \<Rightarrow> (None, p')
             | Some t' \<Rightarrow> (Some t', (Suc (fst p'), snd p'))
        else (Some t, (Suc (fst p), snd p)))"

text \<open>
  The driver's side: take the next slot and let a builder fill it, as every caller of
  \<open>Ring::next\<close> does. A builder sets the cycle bit it is given and does not write a link.
\<close>

definition ring_push :: "nat \<Rightarrow> (bool \<Rightarrow> trb \<Rightarrow> trb) \<Rightarrow> (ring, trb, unit) st" where
  "ring_push fuel f = bind_m (ring_next fuel) (\<lambda>(i, cycle) r.
     let t = f cycle (ring_get r i) in (Ok t, ring_put i t r))"

definition block_builder :: "(bool \<Rightarrow> trb \<Rightarrow> trb) \<Rightarrow> bool" where
  "block_builder f \<longleftrightarrow> (\<forall>c t. trb_cycle (f c t) = c \<and> trb_type (f c t) \<noteq> trb_type_u8 Link)"

text \<open>
  The interleavings of driver and controller, next to the queue of blocks that are written and
  not yet consumed. The driver is responsible for not having more blocks outstanding than slots.
\<close>

inductive ring_steps :: "nat \<Rightarrow> ring \<times> (nat \<times> bool) \<times> trb list \<Rightarrow> ring \<times> (nat \<times> bool) \<times> trb list \<Rightarrow> bool"
  for fuel where
  start: "ring_steps fuel s s"
| push: "ring_steps fuel s (r, p, q) \<Longrightarrow> block_builder f \<Longrightarrow> length q < ring_slots r
    \<Longrightarrow> ring_push fuel f r = (Ok t, r') \<Longrightarrow> ring_steps fuel s (r', p, q @ [t])"
| consume: "ring_steps fuel s (r, p, q) \<Longrightarrow> hw_consume r p = (x, p')
    \<Longrightarrow> ring_steps fuel s (r, p', tl q)"

inductive_cases ring_steps_cases: "ring_steps fuel s t"

text \<open>
  The state after \<open>length h\<close> blocks were written: the last turn's blocks are in their slots, the
  slots not yet used are zero, and the link slot carries the cycle of the turn before.
\<close>

definition written :: "nat \<Rightarrow> trb list \<Rightarrow> ring \<Rightarrow> bool" where
  "written m h r \<longleftrightarrow>
     ring_link r \<and> ring_len r = Suc m \<and> 0 < m
     \<and> (case length h of
          0 \<Rightarrow> ring_i r = 0 \<and> ring_cycle r
        | Suc n \<Rightarrow> ring_i r = Suc (n mod m) \<and> ring_cycle r = even (n div m))
     \<and> (\<forall>k < length h. length h \<le> k + m \<longrightarrow> ring_get r (k mod m) = h ! k)
     \<and> (\<forall>j < m. length h \<le> j \<longrightarrow> ring_get r j = zero_trb)
     \<and> (if length h \<le> m then ring_get r m = zero_trb
        else trb_type (ring_get r m) = trb_type_u8 Link \<and> bit (control (ring_get r m)) 1
             \<and> read_data (ring_get r m) = dma_phys (ring_trbs r)
             \<and> trb_cycle (ring_get r m) = odd ((length h - 1) div m))
     \<and> (\<forall>k < length h. trb_cycle (h ! k) = even (k div m)
                       \<and> trb_type (h ! k) \<noteq> trb_type_u8 Link)"

definition consumed :: "nat \<Rightarrow> nat \<Rightarrow> nat \<times> bool \<Rightarrow> bool" where
  "consumed m c p \<longleftrightarrow>
     (case c of 0 \<Rightarrow> p = (0, True) | Suc n \<Rightarrow> p = (Suc (n mod m), even (n div m)))"

lemma Suc_turn:
  assumes "0 < (m::nat)"
  shows "Suc (n mod m) < m \<Longrightarrow> Suc n mod m = Suc (n mod m) \<and> Suc n div m = n div m"
    and "\<not> Suc (n mod m) < m \<Longrightarrow> Suc (n mod m) = m \<and> Suc n mod m = 0 \<and> Suc n div m = Suc (n div m)"
proof -
  have "n mod m < m" using assms by simp
  then show "Suc (n mod m) < m \<Longrightarrow> Suc n mod m = Suc (n mod m) \<and> Suc n div m = n div m"
    and "\<not> Suc (n mod m) < m \<Longrightarrow> Suc (n mod m) = m \<and> Suc n mod m = 0 \<and> Suc n div m = Suc (n div m)"
    by (auto simp: mod_Suc div_Suc)
qed

lemma trb_link_facts:
  "trb_type (trb_link a True c t) = trb_type_u8 Link" "trb_cycle (trb_link a True c t) = c"
  "bit (control (trb_link a True c t)) 1" "read_data (trb_link a True c t) = a"
  using simple_command_decodes(2) [of a True c t]
  by (simp_all add: trb_decodes_def del: no_codes)
    (simp_all add: trb_link_def bit_simps del: no_codes)

lemma ring_get_advance:
  assumes "ring_wf r"
  shows "ring_get (ring_advance r) j =
    (if ring_link r \<and> Suc (ring_i r) = ring_len r \<and> j = ring_i r then link_block r else ring_get r j)"
  using assms by (simp add: ring_advance_def Let_def ring_wrap_def ring_wf_def)

lemma written_cursor:
  assumes "written m h r"
  shows "ring_wf r" "ring_slot r = length h mod m" "ring_phase r = even (length h div m)"
    "Suc (ring_i r) = ring_len r \<longleftrightarrow> 0 < length h \<and> length h mod m = 0"
proof -
  have m: "0 < m" "ring_len r = Suc m" "ring_link r" using assms by (simp_all add: written_def)
  have *: "ring_i r \<le> m \<and> (ring_i r = m \<longleftrightarrow> 0 < length h \<and> length h mod m = 0)
    \<and> ring_slot r = length h mod m \<and> ring_phase r = even (length h div m)"
  proof (cases "length h")
    case 0
    then show ?thesis using assms m
      by (simp add: written_def ring_slot_def ring_phase_def ring_wrap_i)
  next
    case (Suc n)
    then have i: "ring_i r = Suc (n mod m)" "ring_cycle r = even (n div m)"
      using assms by (simp_all add: written_def)
    show ?thesis
      using Suc_turn [OF m(1), of n] m i Suc
      by (cases "Suc (n mod m) < m") (auto simp: ring_slot_def ring_phase_def ring_wrap_i)
  qed
  then show "ring_wf r" using m by (simp add: ring_wf_def)
  from * m show "ring_slot r = length h mod m" "ring_phase r = even (length h div m)"
    "Suc (ring_i r) = ring_len r \<longleftrightarrow> 0 < length h \<and> length h mod m = 0" by simp_all
qed

lemma written_push:
  assumes w: "written m h r" and f: "block_builder f" and fuel: "2 \<le> fuel"
  shows "\<exists>t r'. ring_push fuel f r = (Ok t, r') \<and> written m (h @ [t]) r'"
proof -
  let ?n = "length h"
  let ?t = "f (even (?n div m)) (ring_get (ring_advance r) (?n mod m))"
  let ?r = "ring_put (?n mod m) ?t (ring_advance r)"
  note cur = written_cursor [OF w]
  have m: "0 < m" "ring_len r = Suc m" "ring_link r" using w by (simp_all add: written_def)
  have push: "ring_push fuel f r = (Ok ?t, ?r)"
    using cur fuel by (simp add: ring_push_def bind_m_def ring_next_eq ring_slot_def ring_phase_def
        Let_def)
  have nm: "?n mod m < m" using m(1) by simp
  have get: "ring_get ?r j = (if j = ?n mod m then ?t
      else if j = m \<and> 0 < ?n \<and> ?n mod m = 0 then link_block r else ring_get r j)" for j
    using cur m nm by (auto simp: ring_get_advance)
  have "written m (h @ [?t]) ?r"
    unfolding written_def
  proof (intro conjI allI impI)
    show "ring_link ?r" "ring_len ?r = Suc m" "0 < m" using m by simp_all
    show "case length (h @ [?t]) of 0 \<Rightarrow> ring_i ?r = 0 \<and> ring_cycle ?r
        | Suc n \<Rightarrow> ring_i ?r = Suc (n mod m) \<and> ring_cycle ?r = even (n div m)"
      using cur m by (simp add: ring_advance_i)
  next
    fix k assume k: "k < length (h @ [?t])" "length (h @ [?t]) \<le> k + m"
    show "ring_get ?r (k mod m) = (h @ [?t]) ! k"
    proof (cases "k = ?n")
      case True
      then show ?thesis by (simp add: get)
    next
      case False
      with k have "k < ?n" "?n < k + m" by simp_all
      then have "k mod m \<noteq> ?n mod m" by (rule mod_distinct)
      moreover have "k mod m \<noteq> m" using m(1) by (metis mod_less_divisor nat_neq_iff)
      moreover have "ring_get r (k mod m) = h ! k"
        using \<open>k < ?n\<close> \<open>?n < k + m\<close> w by (simp add: written_def)
      ultimately show ?thesis
        using \<open>k < ?n\<close> by (simp add: get nth_append)
    qed
  next
    fix j assume j: "j < m" "length (h @ [?t]) \<le> j"
    then have "j \<noteq> ?n mod m" "j \<noteq> m" by auto
    moreover have "ring_get r j = zero_trb" using w j by (simp add: written_def)
    ultimately show "ring_get ?r j = zero_trb" unfolding get by simp
  next
    show "if length (h @ [?t]) \<le> m then ring_get ?r m = zero_trb
      else trb_type (ring_get ?r m) = trb_type_u8 Link \<and> bit (control (ring_get ?r m)) 1
           \<and> read_data (ring_get ?r m) = dma_phys (ring_trbs ?r)
           \<and> trb_cycle (ring_get ?r m) = odd ((length (h @ [?t]) - 1) div m)"
    proof (cases "0 < ?n \<and> ?n mod m = 0")
      case True
      then obtain n where n: "?n = Suc n" by (cases ?n) auto
      have "m \<le> ?n" using True by (metis mod_less not_less not_less_zero)
      moreover have "\<not> Suc (n mod m) < m" using Suc_turn(1) [OF m(1), of n] True n by auto
      then have "?n div m = Suc (n div m)" using Suc_turn(2) [OF m(1), of n] n by simp
      moreover have "ring_cycle r = even (n div m)" using w n by (simp add: written_def)
      moreover have "ring_get ?r m = link_block r" unfolding get using True nm by simp
      ultimately show ?thesis
        using True by (simp add: link_block_def trb_link_facts [simplified] del: ring_get_put)
    next
      case False
      then have "ring_get ?r m = ring_get r m" using nm by (auto simp: get)
      moreover have "?n \<le> m \<Longrightarrow> ?n < m" using False m(1) by (cases "?n = m") auto
      moreover have "?n div m = (?n - 1) div m" if big: "\<not> ?n \<le> m"
      proof -
        obtain n where n: "?n = Suc n" using big by (cases ?n) auto
        show ?thesis using Suc_turn [OF m(1), of n] False n by (cases "Suc (n mod m) < m") auto
      qed
      ultimately show ?thesis
        using w by (cases "?n \<le> m") (simp_all add: written_def del: no_codes ring_get_put)
    qed
  next
    fix k assume k: "k < length (h @ [?t])"
    then show "trb_cycle ((h @ [?t]) ! k) = even (k div m)"
      "trb_type ((h @ [?t]) ! k) \<noteq> trb_type_u8 Link"
      using w f by (auto simp: nth_append written_def block_builder_def less_Suc_eq simp del: no_codes)
  qed
  with push show ?thesis by blast
qed

lemma zero_trb_cycle [simp]: "\<not> trb_cycle zero_trb"
  by (simp add: trb_cycle_bit zero_trb_def)

lemma hw_consume_none: "trb_cycle (ring_get r (fst p)) \<noteq> snd p \<Longrightarrow> hw_consume r p = (None, p)"
  by (simp add: hw_consume_def hw_fetch_def)

lemma hw_consume_some:
  "trb_cycle (ring_get r (fst p)) = snd p \<Longrightarrow> trb_type (ring_get r (fst p)) \<noteq> trb_type_u8 Link
    \<Longrightarrow> hw_consume r p = (Some (ring_get r (fst p)), (Suc (fst p), snd p))"
  by (simp add: hw_consume_def hw_fetch_def del: no_codes)

lemma consume_empty:
  assumes w: "written m h r" and c: "consumed m (length h) p"
  shows "hw_consume r p = (None, p)"
proof (rule hw_consume_none)
  have m: "0 < m" using w by (simp add: written_def)
  show "trb_cycle (ring_get r (fst p)) \<noteq> snd p"
  proof (cases "length h")
    case 0
    then show ?thesis using w c m by (simp add: written_def consumed_def)
  next
    case (Suc n)
    then have p: "p = (Suc (n mod m), even (n div m))" using c by (simp add: consumed_def)
    show ?thesis
    proof (cases "Suc (n mod m) < m")
      case False
      then have e: "Suc (n mod m) = m" using Suc_turn(2) [OF m] by blast
      have "n div m = 0" if "Suc n \<le> m" using that by simp
      then show ?thesis using w e Suc by (cases "Suc n \<le> m") (auto simp: written_def p)
    next
      case True
      note t = Suc_turn(1) [OF m True]
      show ?thesis
      proof (cases "Suc n < m")
        case True
        then show ?thesis using w Suc t by (simp add: written_def p)
      next
        case False
        let ?k = "Suc n - m"
        have k: "?k < Suc n" "Suc n \<le> ?k + m" "?k mod m = Suc n mod m" "Suc n div m = Suc (?k div m)"
          using False m by (simp_all add: le_mod_geq le_div_geq)
        then have "ring_get r (Suc n mod m) = h ! ?k" "trb_cycle (h ! ?k) = even (?k div m)"
          using w Suc by (auto simp: written_def)
        moreover have "n div m = Suc (?k div m)" using t k(4) by simp
        ultimately show ?thesis using t by (simp add: p)
      qed
    qed
  qed
qed

lemma consume_next:
  assumes w: "written m h r" and c: "consumed m c p" and cn: "c < length h" "length h \<le> c + m"
  shows "\<exists>p'. hw_consume r p = (Some (h ! c), p') \<and> consumed m (Suc c) p'"
proof -
  have m: "0 < m" using w by (simp add: written_def)
  have get: "ring_get r (c mod m) = h ! c" "trb_cycle (h ! c) = even (c div m)"
    "trb_type (h ! c) \<noteq> trb_type_u8 Link"
    using w cn by (auto simp: written_def)
  have direct: ?thesis if "p = (c mod m, even (c div m))"
    using that get hw_consume_some [of r p] by (simp add: consumed_def del: no_codes)
  show ?thesis
  proof (cases c)
    case 0
    then show ?thesis using direct c by (simp add: consumed_def)
  next
    case (Suc n)
    then have p: "p = (Suc (n mod m), even (n div m))" using c by (simp add: consumed_def)
    show ?thesis
    proof (cases "Suc (n mod m) < m")
      case True
      then show ?thesis using direct Suc_turn(1) [OF m True] p Suc by simp
    next
      case False
      note t = Suc_turn(2) [OF m False]
      have "m \<le> c" using t Suc by (metis Suc_le_mono Suc_leI mod_less_eq_dividend)
      then have big: "\<not> length h \<le> m" using cn by simp
      have "c div m \<le> (length h - 1) div m" using cn by (intro div_le_mono) simp
      moreover have "(length h - 1) div m < Suc (c div m)"
      proof -
        have "c = m * (c div m)" using t Suc by (metis add.right_neutral mult_div_mod_eq)
        then have "length h - 1 < m * Suc (c div m)" using cn m by simp
        then show ?thesis using m by (simp add: div_less_iff_less_mult mult.commute)
      qed
      ultimately have "(length h - 1) div m = Suc (n div m)" using t Suc by simp
      then have link: "trb_type (ring_get r m) = trb_type_u8 Link" "bit (control (ring_get r m)) 1"
        "read_data (ring_get r m) = dma_phys (ring_trbs r)" "trb_cycle (ring_get r m) = even (n div m)"
        using w big by (auto simp: written_def simp del: no_codes)
      have "hw_consume r p = (Some (h ! c), (Suc 0, odd (n div m)))"
        using link get t Suc p by (simp add: hw_consume_def hw_fetch_def Let_def del: no_codes)
      then show ?thesis using t Suc by (simp add: consumed_def)
    qed
  qed
qed

lemma ring_steps_written:
  assumes "ring_steps fuel s s'" and "s = (r\<^sub>0, (0, True), [])" and "written m [] r\<^sub>0"
    and "2 \<le> fuel"
  shows "\<exists>h c. written m h (fst s') \<and> consumed m c (fst (snd s')) \<and> c \<le> length h
    \<and> length h \<le> c + m \<and> snd (snd s') = drop c h"
  using assms
proof (induction rule: ring_steps.induct)
  case (start s)
  then show ?case by (intro exI [of _ "[]"] exI [of _ 0]) (simp add: consumed_def)
next
  case (push s r p q f t r')
  then obtain h c where inv: "written m h r" "consumed m c p" "c \<le> length h" "length h \<le> c + m"
    "q = drop c h" by auto
  from written_push [OF inv(1) \<open>block_builder f\<close> \<open>2 \<le> fuel\<close>] push(4)
  have "written m (h @ [t]) r'" by simp
  moreover have "length h < c + m" using push(3) inv by (auto simp: ring_slots_def written_def)
  ultimately show ?case
    using inv by (intro exI [of _ "h @ [t]"] exI [of _ c]) simp
next
  case (consume s r p q x p')
  then obtain h c where inv: "written m h r" "consumed m c p" "c \<le> length h" "length h \<le> c + m"
    "q = drop c h" by auto
  show ?case
  proof (cases "c = length h")
    case True
    then have "p' = p" "q = []" using consume_empty [OF inv(1)] inv consume(2) by auto
    then show ?thesis using inv True by (intro exI [of _ h] exI [of _ c]) simp
  next
    case False
    then have "consumed m (Suc c) p'" using consume_next [OF inv(1,2)] inv consume(2) by fastforce
    moreover have "tl q = drop (Suc c) h" using inv by (simp add: tl_drop drop_Suc)
    ultimately show ?thesis
      using inv False by (intro exI [of _ h] exI [of _ "Suc c"]) simp
  qed
qed

text \<open>
  xHCI property C5. A linked ring is a first-in first-out queue between driver and controller: in
  every interleaving from a new ring in which the driver never has more blocks outstanding than
  the ring has slots, the controller's next fetch is the oldest block that the driver wrote and
  that was not fetched yet, and nothing when there is none; and the driver can always write the
  next block.
\<close>

theorem linked_ring_fifo:
  assumes "ring_new K ac64 len True m = (Ok r\<^sub>0, m')" and "2 \<le> len" and "2 \<le> fuel"
    and "ring_steps fuel (r\<^sub>0, (0, True), []) (r, p, q)"
  shows "fst (hw_consume r p) = (case q of [] \<Rightarrow> None | t # q' \<Rightarrow> Some t)
    \<and> (block_builder f \<longrightarrow> is_ok (fst (ring_push fuel f r)))"
proof -
  have "written (len - 1) [] r\<^sub>0"
    using ring_new_Ok [OF assms(1)] assms(2) by (simp add: written_def)
  from ring_steps_written [OF assms(4) refl this assms(3)] obtain h c where
    inv: "written (len - 1) h r" "consumed (len - 1) c p" "c \<le> length h" "length h \<le> c + (len - 1)"
      "q = drop c h" by auto
  have "fst (hw_consume r p) = (case q of [] \<Rightarrow> None | t # q' \<Rightarrow> Some t)"
  proof (cases "c = length h")
    case True
    then show ?thesis using consume_empty [OF inv(1)] inv by simp
  next
    case False
    then have "q = h ! c # drop (Suc c) h" using inv by (simp add: Cons_nth_drop_Suc)
    moreover obtain p' where "hw_consume r p = (Some (h ! c), p')"
      using consume_next [OF inv(1,2)] False inv(3,4) by fastforce
    ultimately show ?thesis by simp
  qed
  moreover have "is_ok (fst (ring_push fuel f r))" if "block_builder f"
    using written_push [OF inv(1) that assms(3)] by (auto simp: is_ok_iff)
  ultimately show ?thesis by blast
qed

text \<open>Two commands written to a new ring of three blocks, the first of them fetched.\<close>

definition sample_ring4 :: ring where
  "sample_ring4 = \<lparr>ring_link = True, ring_trbs = \<lparr>dma_phys = 0x11000, dma_aligned_len = 4096,
     dma_virt = 0x10000, dma_data = replicate 4 zero_trb\<rparr>, ring_i = 0, ring_cycle = True\<rparr>"

lemma no_op_builder: "block_builder trb_no_op_cmd"
  using simple_command_decodes(3) by (auto simp: block_builder_def trb_decodes_def)

lemma sample_steps:
  "\<exists>r p q. ring_steps 2 (sample_ring4, (0, True), []) (r, p, q) \<and> q \<noteq> []"
proof -
  have w: "written 3 [] sample_ring4" using ring_new_Ok [OF sample_ring]
    by (simp add: written_def sample_ring4_def)
  obtain t r where "ring_push 2 trb_no_op_cmd sample_ring4 = (Ok t, r)"
    using written_push [OF w no_op_builder, of 2] by auto
  then have "ring_steps 2 (sample_ring4, (0, True), []) (r, (0, True), [] @ [t])"
    by (intro ring_steps.push [OF ring_steps.start no_op_builder])
      (simp_all add: ring_slots_def ring_len_def sample_ring4_def)
  then show ?thesis by auto
qed

theorem linked_ring_fifo_witness:
  "\<exists>r p q. ring_steps 2 (sample_ring4, (0, True), []) (r, p, q) \<and> q \<noteq> []
     \<and> fst (hw_consume r p) = Some (hd q)"
proof -
  obtain r p q where s: "ring_steps 2 (sample_ring4, (0, True), []) (r, p, q)" "q \<noteq> []"
    using sample_steps by blast
  with linked_ring_fifo [OF sample_ring, of 2 r p q, folded sample_ring4_def]
  have "fst (hw_consume r p) = Some (hd q)" by (cases q) auto
  with s show ?thesis by blast
qed

subsection \<open>Addresses of blocks\<close>

text \<open>
  The physical address of a block, for rings that do not wrap around the address space: it is what
  the code computes, it is found again, and it grows with the index.
\<close>

definition block_addr :: "ring \<Rightarrow> bool \<Rightarrow> nat \<Rightarrow> u64" where
  "block_addr r ac64 i = (dma_phys (ring_trbs r) AND ac64_mask ac64) + of_nat (size_of_trb * i)"

definition ring_mapped :: "ring \<Rightarrow> bool \<Rightarrow> bool" where
  "ring_mapped r ac64 \<longleftrightarrow> unat (dma_virt (ring_trbs r)) + size_of_trb * ring_len r < 2 ^ 64
     \<and> unat (dma_phys (ring_trbs r) AND ac64_mask ac64) + size_of_trb * ring_len r < 2 ^ 64"

lemma block_addr_facts:
  assumes "i < ring_len r" and "ring_mapped r ac64"
  shows unat_block_addr: "unat (block_addr r ac64 i)
      = unat (dma_phys (ring_trbs r) AND ac64_mask ac64) + size_of_trb * i"
    and trb_phys_ptr_block: "trb_phys_ptr r ac64 (start_virt_addr r + of_nat (size_of_trb * i))
      = Ok (block_addr r ac64 i)"
    and phys_addr_to_index_block: "phys_addr_to_index r ac64 (block_addr r ac64 i) = Ok (Some i)"
proof -
  let ?b = "dma_phys (ring_trbs r) AND ac64_mask ac64" and ?v = "dma_virt (ring_trbs r)"
  let ?o = "of_nat (size_of_trb * i) :: u64" and ?l = "of_nat (ring_len r * size_of_trb) :: u64"
  have bounds: "unat ?v + size_of_trb * ring_len r < 2 ^ 64" "unat ?b + size_of_trb * ring_len r < 2 ^ 64"
    using assms(2) by (simp_all only: ring_mapped_def)
  have io: "size_of_trb * i < size_of_trb * ring_len r" using assms(1) by (simp add: size_of_trb_def)
  have o: "unat ?o = size_of_trb * i" "unat ?l = ring_len r * size_of_trb"
  proof -
    have "size_of_trb * i < 2 ^ 64" "ring_len r * size_of_trb < 2 ^ 64"
      using bounds io by (simp_all only: mult.commute [of "ring_len r"])
    then show "unat ?o = size_of_trb * i" "unat ?l = ring_len r * size_of_trb"
      by (simp_all only: unat_of_nat_u64)
  qed
  have v: "unat (?v + ?o) = unat ?v + size_of_trb * i"
      "unat (?v + ?l) = unat ?v + ring_len r * size_of_trb"
      "unat (?b + ?o) = unat ?b + size_of_trb * i"
    using bounds io by (intro unat_plus_u64; simp only: mult.commute [of "ring_len r"])+
  show "unat (block_addr r ac64 i) = unat ?b + size_of_trb * i"
    using v(3) by (simp only: block_addr_def)
  show "trb_phys_ptr r ac64 (start_virt_addr r + ?o) = Ok (block_addr r ac64 i)"
    using v io
    by (simp add: trb_phys_ptr_def start_virt_addr_def word_less_nat_alt block_addr_def del: of_nat_mult)
  show "phys_addr_to_index r ac64 (block_addr r ac64 i) = Ok (Some i)"
    using v o assms(1)
    by (simp add: phys_addr_to_index_def Let_def word_less_nat_alt block_addr_def del: of_nat_mult)
      (simp add: size_of_trb_def)
qed

text \<open>
  Taking the physical address of a block of the ring and looking that address
  up in the ring gives back the block, for every block of the ring.
\<close>

theorem phys_ptr_lookup:
  assumes "i < ring_len r" and "ring_mapped r ac64"
  shows "bind_r (trb_phys_ptr r ac64 (start_virt_addr r + of_nat (size_of_trb * i)))
      (phys_addr_to_entry r ac64) = Ok (Some (ring_get r i))"
  using assms by (simp add: trb_phys_ptr_block phys_addr_to_entry_def phys_addr_to_index_block
    del: of_nat_mult)

theorem phys_ptr_lookup_witness:
  "bind_r (trb_phys_ptr sample_ring4 True (start_virt_addr sample_ring4 + of_nat (size_of_trb * 2)))
      (phys_addr_to_entry sample_ring4 True) = Ok (Some (ring_get sample_ring4 2))"
  by (rule phys_ptr_lookup)
    (simp_all add: ring_mapped_def sample_ring4_def ring_len_def size_of_trb_def ac64_mask_def)

text \<open>
  The address just past the ring is not rejected, although it is outside its
  bounds: \<open>phys_addr_to_index\<close> answers the index one past the last block, and the lookup of the
  block at that address panics.
\<close>

theorem phys_addr_past_end:
  assumes "unat (dma_phys (ring_trbs r) AND ac64_mask ac64) + size_of_trb * ring_len r < 2 ^ 64"
  shows "phys_addr_to_index r ac64
      ((dma_phys (ring_trbs r) AND ac64_mask ac64) + of_nat (size_of_trb * ring_len r))
      = Ok (Some (ring_len r))
    \<and> phys_addr_to_entry r ac64
      ((dma_phys (ring_trbs r) AND ac64_mask ac64) + of_nat (size_of_trb * ring_len r)) = Panic"
proof -
  let ?b = "dma_phys (ring_trbs r) AND ac64_mask ac64"
  let ?o = "of_nat (size_of_trb * ring_len r) :: u64"
  have o: "unat ?o = size_of_trb * ring_len r" using assms by (intro unat_of_nat_u64) simp
  have "unat (?b + ?o) = unat ?b + size_of_trb * ring_len r"
    by (rule unat_plus_u64 [OF assms])
  then have "phys_addr_to_index r ac64 (?b + ?o) = Ok (Some (ring_len r))"
    using o by (simp add: phys_addr_to_index_def Let_def word_less_nat_alt del: of_nat_mult)
      (simp add: size_of_trb_def)
  then show ?thesis by (simp add: phys_addr_to_entry_def del: of_nat_mult)
qed

theorem phys_addr_past_end_witness:
  "phys_addr_to_entry sample_ring4 True (0x11000 + 0x40) = Panic"
  using phys_addr_past_end [of sample_ring4 True]
  by (simp add: sample_ring4_def ring_len_def size_of_trb_def ac64_mask_def)

end
