(* ===== verification/Xhci_Context.thy ===== *)
theory Xhci_Context
  imports Xhci_Ring
begin

text \<open>
  The context structures that the xHCI driver shares with the controller
  (\<open>xhcid/src/xhci/context.rs\<close>): slot, endpoint, device and input contexts, the device context
  base address array, the stream context arrays and the scratchpad buffers. Reserved words are
  left out of the records: the driver never reads or writes them.
\<close>

record slot_context =
  slot_a :: u32
  slot_b :: u32
  slot_c :: u32
  slot_d :: u32

definition slot_state :: "slot_context \<Rightarrow> u8" where
  "slot_state s = ucast (drop_bit 27 (slot_d s AND 0xF8000000))"

datatype slot_state_tag = EnabledOrDisabled | DefaultState | Addressed | Configured

primrec slot_state_u8 :: "slot_state_tag \<Rightarrow> u8" where
  "slot_state_u8 EnabledOrDisabled = 0"
| "slot_state_u8 DefaultState = 1"
| "slot_state_u8 Addressed = 2"
| "slot_state_u8 Configured = 3"

record endpoint_context =
  ep_a :: u32
  ep_b :: u32
  ep_trl :: u32
  ep_trh :: u32
  ep_c :: u32

record device_context =
  dev_slot :: slot_context
  dev_endpoints :: "endpoint_context list"

definition zero_device_context :: device_context where
  "zero_device_context =
     \<lparr>dev_slot = \<lparr>slot_a = 0, slot_b = 0, slot_c = 0, slot_d = 0\<rparr>,
      dev_endpoints = replicate 31 \<lparr>ep_a = 0, ep_b = 0, ep_trl = 0, ep_trh = 0, ep_c = 0\<rparr>\<rparr>"

definition size_of_device_context :: nat where
  "size_of_device_context = 1024"

subsection \<open>The device context base address array\<close>

record device_context_list =
  dcbaa :: "u64 list dma"
  dcl_contexts :: "device_context dma list"

text \<open>The array is one element of 256 entries.\<close>

definition dcbaa_entries :: "u64 list dma \<Rightarrow> u64 list" where
  "dcbaa_entries d = hd (dma_data d)"

definition dcbaa_write :: "nat \<Rightarrow> u64 \<Rightarrow> u64 list dma \<Rightarrow> u64 list dma" where
  "dcbaa_write i a d = d\<lparr>dma_data := [(dcbaa_entries d)[i := a]]\<rparr>"

fun drop_all :: "'m mem_ops \<Rightarrow> 'a dma list \<Rightarrow> ('m, unit, errno) st" where
  "drop_all K [] = return_m ()"
| "drop_all K (d # ds) = (\<lambda>m. drop_all K ds (snd (dma_drop K d m)))"

fun dcl_loop ::
  "'m mem_ops \<Rightarrow> bool \<Rightarrow> nat \<Rightarrow> u64 list dma \<Rightarrow> device_context dma list
    \<Rightarrow> ('m, u64 list dma \<times> device_context dma list, errno) st" where
  "dcl_loop K ac64 0 arr contexts = return_m (arr, contexts)"
| "dcl_loop K ac64 (Suc left) arr contexts =
     bind_m (on_failure_m (zeroed K size_of_device_context zero_device_context)
              (drop_all K contexts)) (\<lambda>context.
     if length contexts < length (dcbaa_entries arr) then
       dcl_loop K ac64 left (dcbaa_write (length contexts) (dma_phys context) arr)
         (contexts @ [context])
     else panic_m)"

definition device_context_list_new ::
  "'m mem_ops \<Rightarrow> bool \<Rightarrow> u8 \<Rightarrow> ('m, device_context_list, errno) st" where
  "device_context_list_new K ac64 max_slots =
     bind_m (zeroed K 2048 (replicate 256 0)) (\<lambda>arr.
     on_failure_m
       (bind_m (dcl_loop K ac64 (unat max_slots) arr []) (\<lambda>(arr', contexts).
        return_m \<lparr>dcbaa = arr', dcl_contexts = contexts\<rparr>))
       (dma_drop K arr))"

definition dcbaap :: "device_context_list \<Rightarrow> u64" where
  "dcbaap l = dma_phys (dcbaa l)"

subsection \<open>Stream contexts\<close>

record stream_context =
  sc_trl :: u32
  sc_trh :: u32
  sc_edtla :: u32

record stream_context_array =
  sca_contexts :: "stream_context dma"
  sca_rings :: "u16 \<rightharpoonup> ring"

definition stream_context_array_new ::
  "'m mem_ops \<Rightarrow> bool \<Rightarrow> nat \<Rightarrow> ('m, stream_context_array, errno) st" where
  "stream_context_array_new K ac64 count =
     bind_m (alloc_dma_zeroed_unsized_raw K ac64 16
              \<lparr>sc_trl = 0, sc_trh = 0, sc_edtla = 0\<rparr> count) (\<lambda>c.
     return_m \<lparr>sca_contexts = c, sca_rings = Map.empty\<rparr>)"

definition add_ring ::
  "'m mem_ops \<Rightarrow> bool \<Rightarrow> u16 \<Rightarrow> bool \<Rightarrow> stream_context_array
    \<Rightarrow> ('m, stream_context_array, errno) st" where
  "add_ring K ac64 stream_id link arr =
     (if stream_id = 0 then panic_m
      else bind_m (ring_new K ac64 16 link) (\<lambda>r.
        let pointer = ring_register r; i = unat stream_id
        in if pointer AND NOT 0xE \<noteq> pointer
              \<or> length (dma_data (sca_contexts arr)) \<le> i then panic_m
           else
             let c = dma_data (sca_contexts arr) ! i;
                 c' = c\<lparr>sc_trl := ucast pointer OR
                          push_bit 1 (ucast (stream_context_type_u64 PrimaryRing)),
                        sc_trh := ucast (drop_bit 32 pointer)\<rparr>
             in return_m
                  (arr\<lparr>sca_contexts := (sca_contexts arr)\<lparr>dma_data :=
                         (dma_data (sca_contexts arr))[i := c']\<rparr>,
                       sca_rings := (sca_rings arr)(stream_id \<mapsto> r)\<rparr>)))"

definition sca_register :: "stream_context_array \<Rightarrow> u64" where
  "sca_register arr = dma_phys (sca_contexts arr)"

subsection \<open>Scratchpad buffers\<close>

record scratchpad_buffer_entry =
  value_low :: u32
  value_high :: u32

definition set_addr :: "u64 \<Rightarrow> scratchpad_buffer_entry \<Rightarrow> scratchpad_buffer_entry" where
  "set_addr addr e = e\<lparr>value_low := ucast addr, value_high := ucast (drop_bit 32 addr)\<rparr>"

record scratchpad_buffer_array =
  sba_entries :: "scratchpad_buffer_entry dma"
  sba_pages :: "bytes dma list"

fun scratchpad_pages ::
  "'m mem_ops \<Rightarrow> scratchpad_buffer_entry list
    \<Rightarrow> ('m, scratchpad_buffer_entry list \<times> bytes dma list, errno) st" where
  "scratchpad_pages K [] = return_m ([], [])"
| "scratchpad_pages K (e # es) =
     bind_m (zeroed K page_size (replicate page_size 0)) (\<lambda>d.
     if unat (dma_phys d) mod page_size \<noteq> 0 then panic_m
     else on_failure_m
            (bind_m (scratchpad_pages K es) (\<lambda>(es', ds).
             return_m (set_addr (dma_phys d) e # es', d # ds)))
            (dma_drop K d))"

definition scratchpad_buffer_array_new ::
  "'m mem_ops \<Rightarrow> bool \<Rightarrow> u16 \<Rightarrow> ('m, scratchpad_buffer_array, errno) st" where
  "scratchpad_buffer_array_new K ac64 entries =
     bind_m (alloc_dma_zeroed_unsized_raw K ac64 8 \<lparr>value_low = 0, value_high = 0\<rparr>
              (unat entries)) (\<lambda>e.
     on_failure_m
       (bind_m (scratchpad_pages K (dma_data e)) (\<lambda>(es, pages).
        return_m \<lparr>sba_entries = e\<lparr>dma_data := es\<rparr>, sba_pages = pages\<rparr>))
       (dma_drop K e))"

definition sba_register :: "scratchpad_buffer_array \<Rightarrow> u64" where
  "sba_register a = dma_phys (sba_entries a)"

subsection \<open>What the arrays hold\<close>

lemma zeroed_Ok: "zeroed K n z m = (Ok d, m') \<Longrightarrow> dma_data d = [z]"
  by (auto simp: zeroed_def Let_def bind_m_Ok return_m_def)

lemma dcl_loop_entries:
  assumes "dcl_loop K ac64 n arr cs m = (Ok (arr', cs'), m')"
    and "take (length cs) (dcbaa_entries arr) = map dma_phys cs"
  shows "length cs' = length cs + n
    \<and> length (dcbaa_entries arr') = length (dcbaa_entries arr)
    \<and> take (length cs') (dcbaa_entries arr') = map dma_phys cs'
    \<and> drop (length cs') (dcbaa_entries arr') = drop (length cs') (dcbaa_entries arr)"
  using assms
proof (induction n arbitrary: arr cs m)
  case 0
  then show ?case by (simp add: return_m_def)
next
  case (Suc n)
  then obtain c m1 where c: "length cs < length (dcbaa_entries arr)"
    and rec: "dcl_loop K ac64 n (dcbaa_write (length cs) (dma_phys c) arr) (cs @ [c]) m1
      = (Ok (arr', cs'), m')"
    by (auto simp: bind_m_Ok panic_m_def split: if_splits)
  have e: "dcbaa_entries (dcbaa_write (length cs) (dma_phys c) arr)
    = (dcbaa_entries arr)[length cs := dma_phys c]"
    by (simp add: dcbaa_write_def dcbaa_entries_def)
  have "take (length (cs @ [c])) ((dcbaa_entries arr)[length cs := dma_phys c])
    = map dma_phys (cs @ [c])"
    using Suc.prems(2) c by (simp add: take_Suc_conv_app_nth)
  from Suc.IH [OF rec] this e show ?case by auto
qed

text \<open>
  After \<open>DeviceContextList::new\<close> with \<open>max_slots\<close> slots there are that many
  device contexts and the base address array holds their physical addresses at the indices
  0 to \<open>max_slots - 1\<close> and zero from there on; so the entry of the highest slot number,
  \<open>max_slots\<close>, is not set and there is no context with that index.
\<close>

theorem device_context_entries:
  assumes "device_context_list_new K ac64 max_slots m = (Ok l, m')"
  shows "length (dcl_contexts l) = unat max_slots
    \<and> dcbaa_entries (dcbaa l)
      = map dma_phys (dcl_contexts l) @ replicate (256 - unat max_slots) 0"
proof -
  from assms obtain arr m1 where z: "zeroed K 2048 (replicate 256 0) m = (Ok arr, m1)"
    and rest: "bind_m (dcl_loop K ac64 (unat max_slots) arr []) (\<lambda>(arr', contexts).
        return_m \<lparr>dcbaa = arr', dcl_contexts = contexts\<rparr>) m1 = (Ok l, m')"
    by (auto simp: device_context_list_new_def bind_m_Ok [of "zeroed _ _ _"] on_failure_m_Ok)
  have a: "dcbaa_entries arr = replicate 256 0" using zeroed_Ok [OF z] by (simp add: dcbaa_entries_def)
  from rest obtain arr' cs where
    loop: "dcl_loop K ac64 (unat max_slots) arr [] m1 = (Ok (arr', cs), m')"
    and l: "l = \<lparr>dcbaa = arr', dcl_contexts = cs\<rparr>"
    by (auto simp: bind_m_Ok return_m_def)
  have t0: "take (length []) (dcbaa_entries arr) = map dma_phys ([] :: device_context dma list)" by simp
  note e = dcl_loop_entries [OF loop t0]
  have n: "length cs = unat max_slots" using e by simp
  have t: "take (length cs) (dcbaa_entries arr') = map dma_phys cs" using e by blast
  have d: "drop (length cs) (dcbaa_entries arr') = replicate (256 - unat max_slots) 0"
    using e a n by simp
  have "dcbaa_entries arr'
    = take (length cs) (dcbaa_entries arr') @ drop (length cs) (dcbaa_entries arr')" by simp
  then show ?thesis unfolding t d using n l by simp
qed

lemma sample_zeroed: "zeroed sample_mem n z () = (Ok \<lparr>dma_phys = 0x11000,
    dma_aligned_len = next_multiple_of n page_size, dma_virt = 0x10000, dma_data = [z]\<rparr>, ())"
  if "next_multiple_of n page_size mod page_size = 0"
  using that by (simp add: zeroed_def alloc_and_map_def sample_mem_def st_defs finally_m_def)

lemma dcbaa_entries_write [simp]:
  "dcbaa_entries (dcbaa_write i a arr) = (dcbaa_entries arr)[i := a]"
  by (simp add: dcbaa_write_def dcbaa_entries_def)

lemma sample_dcl_loop:
  "length cs + n \<le> length (dcbaa_entries arr)
    \<Longrightarrow> \<exists>x. dcl_loop sample_mem ac64 n arr cs () = (Ok x, ())"
proof (induction n arbitrary: arr cs)
  case 0
  then show ?case by (simp add: return_m_def)
next
  case (Suc n)
  have pages: "next_multiple_of size_of_device_context page_size mod page_size = 0"
    by (simp add: next_multiple_of_def page_size_def size_of_device_context_def)
  from Suc show ?case
    by (simp add: bind_m_def on_failure_m_def sample_zeroed [OF pages])
qed

lemma sample_contexts: "\<exists>l. device_context_list_new sample_mem True 2 () = (Ok l, ())"
proof -
  let ?arr = "\<lparr>dma_phys = 0x11000, dma_aligned_len = next_multiple_of 2048 page_size,
    dma_virt = 0x10000, dma_data = [replicate 256 0]\<rparr> :: u64 list dma"
  have pages: "next_multiple_of 2048 page_size mod page_size = 0"
    by (simp add: next_multiple_of_def page_size_def)
  have "length (dcbaa_entries ?arr) = 256" by (simp add: dcbaa_entries_def)
  then obtain arr' cs where l: "dcl_loop sample_mem True (unat (2 :: u8)) ?arr [] () = (Ok (arr', cs), ())"
    using sample_dcl_loop [of "[]" "unat (2 :: u8)" ?arr True] by auto
  show ?thesis
    unfolding device_context_list_new_def bind_m_def on_failure_m_def sample_zeroed [OF pages]
    by (simp only: prod.case res.case l) (simp add: return_m_def)
qed

theorem device_context_entries_witness:
  "\<exists>l. device_context_list_new sample_mem True 2 () = (Ok l, ())
     \<and> length (dcl_contexts l) = 2 \<and> length (dcbaa_entries (dcbaa l)) = 256
     \<and> dcbaa_entries (dcbaa l) ! 2 = 0"
proof -
  obtain l where l: "device_context_list_new sample_mem True 2 () = (Ok l, ())"
    using sample_contexts by blast
  from device_context_entries [OF this] have n: "length (dcl_contexts l) = 2"
    and e: "dcbaa_entries (dcbaa l) = map dma_phys (dcl_contexts l) @ replicate 254 0" by simp_all
  have "length (dcbaa_entries (dcbaa l)) = 256" "dcbaa_entries (dcbaa l) ! 2 = 0"
    unfolding e using n by (simp_all add: nth_append)
  with l n show ?thesis by blast
qed

subsection \<open>Stream rings\<close>

text \<open>
  A stream ring that was added can be found under its stream number, and the
  stream's context holds the ring's register value, which is its first block's address with the
  cycle state in bit 0, together with the context type 1 (primary ring) in the bits 1 to 3; every
  other context is left as it was.
\<close>

theorem add_ring_context:
  assumes "add_ring K ac64 sid link arr m = (Ok arr', m')"
  shows "\<exists>r. sca_rings arr' = (sca_rings arr)(sid \<mapsto> r)
    \<and> ring_len r = 16 \<and> ring_link r = link
    \<and> (\<forall>j. j \<noteq> unat sid \<longrightarrow> dma_data (sca_contexts arr') ! j = dma_data (sca_contexts arr) ! j)
    \<and> (let c = dma_data (sca_contexts arr') ! unat sid;
           w = push_bit 32 (ucast (sc_trh c)) OR ucast (sc_trl c) :: u64
       in w AND NOT 0xE = ring_register r \<and> w AND 0xE = 0x2)"
proof -
  from assms obtain r m1 where r: "ring_new K ac64 16 link m = (Ok r, m1)"
    and p: "ring_register r AND NOT 0xE = ring_register r"
    and i: "unat sid < length (dma_data (sca_contexts arr))"
    and arr': "arr' = arr\<lparr>sca_contexts := (sca_contexts arr)\<lparr>dma_data :=
        (dma_data (sca_contexts arr))[unat sid := (dma_data (sca_contexts arr) ! unat sid)
          \<lparr>sc_trl := ucast (ring_register r) OR 2, sc_trh := ucast (drop_bit 32 (ring_register r))\<rparr>]\<rparr>,
        sca_rings := (sca_rings arr)(sid \<mapsto> r)\<rparr>"
    by (auto simp: add_ring_def bind_m_Ok return_m_def panic_m_def Let_def split: if_splits)
  let ?c = "dma_data (sca_contexts arr') ! unat sid"
  let ?w = "push_bit 32 (ucast (sc_trh ?c)) OR ucast (sc_trl ?c) :: u64"
  have w: "?w = ring_register r OR 2"
  proof (rule bit_word_eqI)
    fix k assume "k < LENGTH(64)"
    then show "bit ?w k = bit (ring_register r OR 2) k"
      using i by (auto simp: arr' bit_simps dest: bit_imp_le_length)
  qed
  have e: "bit (0xE :: u64) k \<longleftrightarrow> 0 < k \<and> k < 4" for k
  proof -
    have E: "(0xE :: u64) = push_bit 1 (mask 3)" by (simp add: mask_eq_exp_minus_1)
    show ?thesis unfolding E by (simp only: bit_push_bit_iff bit_mask_iff possible_bit_word) auto
  qed
  have two: "bit (2 :: u64) k \<longleftrightarrow> k = 1" for k
    using bit_flag_at [of 1 True k, where 'a = 64] by (simp add: flag_at_def)
  have free: "\<not> bit (ring_register r) k" if "0 < k" "k < 4" for k
  proof -
    have "bit (ring_register r AND NOT 0xE) k = bit (ring_register r) k" unfolding p ..
    then show ?thesis using that e [of k] by (auto simp only: bit_and_iff bit_not_iff)
  qed
  have "bit ((ring_register r OR 2) AND NOT 0xE) k = bit (ring_register r) k"
    "bit ((ring_register r OR 2) AND 0xE) k = bit (2 :: u64) k" if "k < 64" for k
    using that free [of k] by (auto simp only: bit_and_iff bit_or_iff bit_not_iff e two possible_bit_word) auto
  then have "?w AND NOT 0xE = ring_register r" "?w AND 0xE = 0x2"
    unfolding w by (auto intro!: bit_word_eqI)
  then show ?thesis using ring_new_Ok [OF r] i by (intro exI [of _ r]) (simp add: arr' Let_def)
qed

definition sample_streams :: stream_context_array where
  "sample_streams = \<lparr>sca_contexts = \<lparr>dma_phys = 0x20000, dma_aligned_len = 4096, dma_virt = 0x30000,
     dma_data = replicate 2 \<lparr>sc_trl = 0, sc_trh = 0, sc_edtla = 0\<rparr>\<rparr>, sca_rings = Map.empty\<rparr>"

lemma sample_add_ring: "\<exists>arr. add_ring sample_mem True 1 True sample_streams () = (Ok arr, ())"
proof -
  obtain r where r: "ring_new sample_mem True 16 True () = (Ok r, ())" "ring_register r = 0x11001"
    by (simp add: ring_new_def alloc_dma_zeroed_unsized_raw_def zeroed_slice_def alloc_and_map_def
      sample_mem_def next_multiple_of_def page_size_def size_of_trb_def st_defs finally_m_def
      ring_register_def)
  then show ?thesis
    by (simp add: add_ring_def bind_m_def return_m_def sample_streams_def)
qed

theorem add_ring_context_witness:
  "\<exists>arr r. add_ring sample_mem True 1 True sample_streams () = (Ok arr, ())
     \<and> sca_rings arr 1 = Some r \<and> ring_link r"
proof -
  obtain arr where a: "add_ring sample_mem True 1 True sample_streams () = (Ok arr, ())"
    using sample_add_ring by blast
  from add_ring_context [OF a] obtain r where "sca_rings arr = (sca_rings sample_streams)(1 \<mapsto> r)"
    "ring_link r" by auto
  with a show ?thesis by auto
qed

end
