(* ===== verification/Nvme_Queues.thy ===== *)
theory Nvme_Queues
  imports Dma_Mem Ring_Cursor
begin

text \<open>
  The queues of the NVMe driver (\<open>storage/nvmed/src/nvme/queues.rs\<close>) and the commands it puts
  into them (\<open>cmd.rs\<close>). Indices are 16-bit words as in the code; the raw-pointer read of a
  completion entry outside of the queue and the division by an empty length are panics, so that a
  result shows they do not happen.
\<close>

subsection \<open>Entries\<close>

record nvme_cmd =
  opcode :: u8
  cmd_flags :: u8
  cid :: u16
  nsid :: u32
  cmd_rsvd :: u64
  mptr :: u64
  dptr0 :: u64
  dptr1 :: u64
  cdw10 :: u32
  cdw11 :: u32
  cdw12 :: u32
  cdw13 :: u32
  cdw14 :: u32
  cdw15 :: u32

definition default_cmd :: nvme_cmd where
  "default_cmd = \<lparr>opcode = 0, cmd_flags = 0, cid = 0, nsid = 0, cmd_rsvd = 0, mptr = 0,
     dptr0 = 0, dptr1 = 0, cdw10 = 0, cdw11 = 0, cdw12 = 0, cdw13 = 0, cdw14 = 0, cdw15 = 0\<rparr>"

record nvme_comp =
  command_specific :: u32
  comp_rsvd :: u32
  comp_sq_head :: u16
  comp_sq_id :: u16
  comp_cid :: u16
  comp_status :: u16

definition zero_comp :: nvme_comp where
  "zero_comp = \<lparr>command_specific = 0, comp_rsvd = 0, comp_sq_head = 0, comp_sq_id = 0,
     comp_cid = 0, comp_status = 0\<rparr>"

subsection \<open>Commands\<close>

definition create_io_completion_queue_cmd ::
  "u16 \<Rightarrow> u16 \<Rightarrow> u64 \<Rightarrow> u16 \<Rightarrow> u16 option \<Rightarrow> nvme_cmd" where
  "create_io_completion_queue_cmd c qid ptr qsize iv = default_cmd\<lparr>opcode := 5, cid := c,
     dptr0 := ptr, cdw10 := push_bit 16 (ucast qsize) OR ucast qid,
     cdw11 := 1 OR (case iv of None \<Rightarrow> 0 | Some v \<Rightarrow> 2 OR push_bit 16 (ucast v))\<rparr>"

definition create_io_submission_queue_cmd ::
  "u16 \<Rightarrow> u16 \<Rightarrow> u64 \<Rightarrow> u16 \<Rightarrow> u16 \<Rightarrow> nvme_cmd" where
  "create_io_submission_queue_cmd c qid ptr qsize cqid = default_cmd\<lparr>opcode := 1, cid := c,
     dptr0 := ptr, cdw10 := push_bit 16 (ucast qsize) OR ucast qid,
     cdw11 := push_bit 16 (ucast cqid) OR 1\<rparr>"

definition identify_namespace_cmd :: "u16 \<Rightarrow> u64 \<Rightarrow> u32 \<Rightarrow> nvme_cmd" where
  "identify_namespace_cmd c ptr ns = default_cmd\<lparr>opcode := 6, cid := c, nsid := ns, dptr0 := ptr\<rparr>"

definition identify_controller_cmd :: "u16 \<Rightarrow> u64 \<Rightarrow> nvme_cmd" where
  "identify_controller_cmd c ptr = default_cmd\<lparr>opcode := 6, cid := c, dptr0 := ptr, cdw10 := 1\<rparr>"

definition identify_namespace_list_cmd :: "u16 \<Rightarrow> u64 \<Rightarrow> u32 \<Rightarrow> nvme_cmd" where
  "identify_namespace_list_cmd c ptr base =
     default_cmd\<lparr>opcode := 6, cid := c, nsid := base, dptr0 := ptr, cdw10 := 2\<rparr>"

definition get_features_cmd :: "u16 \<Rightarrow> u64 \<Rightarrow> u8 \<Rightarrow> nvme_cmd" where
  "get_features_cmd c ptr fid = default_cmd\<lparr>opcode := 0xA, dptr0 := ptr, cdw10 := ucast fid\<rparr>"

definition io_read_cmd :: "u16 \<Rightarrow> u32 \<Rightarrow> u64 \<Rightarrow> u16 \<Rightarrow> u64 \<Rightarrow> u64 \<Rightarrow> nvme_cmd" where
  "io_read_cmd c ns lba blocks_1 ptr0 ptr1 = default_cmd\<lparr>opcode := 2, cid := c, nsid := ns,
     dptr0 := ptr0, dptr1 := ptr1, cdw10 := ucast lba, cdw11 := ucast (drop_bit 32 lba),
     cdw12 := ucast blocks_1\<rparr>"

definition io_write_cmd :: "u16 \<Rightarrow> u32 \<Rightarrow> u64 \<Rightarrow> u16 \<Rightarrow> u64 \<Rightarrow> u64 \<Rightarrow> nvme_cmd" where
  "io_write_cmd c ns lba blocks_1 ptr0 ptr1 = default_cmd\<lparr>opcode := 1, cid := c, nsid := ns,
     dptr0 := ptr0, dptr1 := ptr1, cdw10 := ucast lba, cdw11 := ucast (drop_bit 32 lba),
     cdw12 := ucast blocks_1\<rparr>"

lemmas nvme_cmd_defs = create_io_completion_queue_cmd_def create_io_submission_queue_cmd_def
  identify_namespace_cmd_def identify_controller_cmd_def identify_namespace_list_cmd_def
  get_features_cmd_def io_read_cmd_def io_write_cmd_def default_cmd_def

subsection \<open>The completion queue\<close>

record comp_queue =
  cq_data :: "nvme_comp dma"
  cq_head :: u16
  cq_phase :: bool

definition comp_queue_new :: "'m mem_ops \<Rightarrow> ('m, comp_queue, errno) st" where
  "comp_queue_new K = bind_m (zeroed_slice K 16 zero_comp 256) (\<lambda>d.
     return_m \<lparr>cq_data = d, cq_head = 0, cq_phase = True\<rparr>)"

definition cq_len :: "comp_queue \<Rightarrow> nat" where
  "cq_len q = length (dma_data (cq_data q))"

definition cq_entry :: "comp_queue \<Rightarrow> nvme_comp" where
  "cq_entry q = dma_data (cq_data q) ! unat (cq_head q)"

definition complete ::
  "(u16 \<times> nvme_cmd) option \<Rightarrow> (comp_queue, (u16 \<times> nvme_comp) option, errno) st" where
  "complete cmd_opt q =
     (if cq_len q \<le> unat (cq_head q) then (Panic, q)
      else
        let entry = cq_entry q
        in if (case cmd_opt of None \<Rightarrow> False
               | Some (sq_id, cmd) \<Rightarrow> comp_sq_id entry \<noteq> sq_id \<or> comp_cid entry \<noteq> cid cmd)
           then (Ok None, q)
           else if (comp_status entry AND 1 = 1) = cq_phase q then
             if (of_nat (cq_len q) :: u16) = 0 then (Panic, q)
             else
               let head = (cq_head q + 1) mod of_nat (cq_len q);
                   q' = q\<lparr>cq_head := head,
                          cq_phase := (if head = 0 then \<not> cq_phase q else cq_phase q)\<rparr>
               in (Ok (Some (head, entry)), q')
           else (Ok None, q))"

text \<open>The busy-waiting variant; \<open>wait\<close> is what the device does to the queue during a pause.\<close>

fun complete_spin ::
  "nat \<Rightarrow> (comp_queue \<Rightarrow> comp_queue) \<Rightarrow> (u16 \<times> nvme_cmd) option
    \<Rightarrow> (comp_queue, u16 \<times> nvme_comp, errno) st" where
  "complete_spin 0 wait cmd_opt q = (NoFuel, q)"
| "complete_spin (Suc fuel) wait cmd_opt q = bind_m (complete cmd_opt) (\<lambda>x. case x of
      Some y \<Rightarrow> return_m y
    | None \<Rightarrow> (\<lambda>q'. complete_spin fuel wait cmd_opt (wait q'))) q"

subsection \<open>The submission queue\<close>

record cmd_queue =
  sq_data :: "nvme_cmd dma"
  sq_tail :: u16
  sq_head :: u16

definition cmd_queue_new :: "'m mem_ops \<Rightarrow> ('m, cmd_queue, errno) st" where
  "cmd_queue_new K = bind_m (zeroed_slice K 64 default_cmd 64) (\<lambda>d.
     return_m \<lparr>sq_data = d, sq_tail = 0, sq_head = 0\<rparr>)"

definition sq_len :: "cmd_queue \<Rightarrow> nat" where
  "sq_len q = length (dma_data (sq_data q))"

definition is_empty :: "cmd_queue \<Rightarrow> bool" where
  "is_empty q \<longleftrightarrow> sq_head q = sq_tail q"

definition is_full :: "cmd_queue \<Rightarrow> bool" where
  "is_full q \<longleftrightarrow> sq_head q = sq_tail q + 1"

definition submit_unchecked :: "nvme_cmd \<Rightarrow> (cmd_queue, u16, errno) st" where
  "submit_unchecked entry q =
     (if sq_len q \<le> unat (sq_tail q) then (Panic, q)
      else
        let q1 = q\<lparr>sq_data := (sq_data q)\<lparr>dma_data :=
                    (dma_data (sq_data q))[unat (sq_tail q) := entry]\<rparr>\<rparr>
        in if (of_nat (sq_len q1) :: u16) = 0 then (Panic, q1)
           else let tail = (sq_tail q1 + 1) mod of_nat (sq_len q1)
                in (Ok tail, q1\<lparr>sq_tail := tail\<rparr>))"

subsection \<open>Cursors\<close>

text \<open>A queue whose length fits 16 bits and whose index is inside it.\<close>

definition cq_wf :: "comp_queue \<Rightarrow> bool" where
  "cq_wf q \<longleftrightarrow> unat (cq_head q) < cq_len q \<and> cq_len q < 2 ^ 16"

definition sq_wf :: "cmd_queue \<Rightarrow> bool" where
  "sq_wf q \<longleftrightarrow> unat (sq_tail q) < sq_len q \<and> sq_len q < 2 ^ 16"

definition cq_advance :: "comp_queue \<Rightarrow> comp_queue" where
  "cq_advance q = (let head = (cq_head q + 1) mod of_nat (cq_len q)
     in q\<lparr>cq_head := head, cq_phase := (if head = 0 then \<not> cq_phase q else cq_phase q)\<rparr>)"

lemma unat_of_nat_u16: "n < 2 ^ 16 \<Longrightarrow> unat (of_nat n :: u16) = n"
  by (simp add: unat_of_nat)

lemma u16_step:
  fixes i :: u16
  assumes "unat i < n" and "n < 2 ^ 16"
  shows "unat ((i + 1) mod of_nat n) = (unat i + 1) mod n"
    and "(i + 1) mod of_nat n = 0 \<longleftrightarrow> unat i + 1 = n"
proof -
  have "unat (i + 1) = unat i + 1" using assms by (simp add: unat_word_ariths(1))
  then show *: "unat ((i + 1) mod of_nat n) = (unat i + 1) mod n"
    using unat_of_nat_u16 [OF assms(2)] by (simp add: unat_mod)
  have "(i + 1) mod of_nat n = 0 \<longleftrightarrow> (unat i + 1) mod n = 0"
    unfolding * [symmetric] by (simp add: unat_eq_zero)
  also have "\<dots> \<longleftrightarrow> unat i + 1 = n"
    using assms(1) unfolding suc_mod_cases [OF assms(1), symmetric] by auto
  finally show "(i + 1) mod of_nat n = 0 \<longleftrightarrow> unat i + 1 = n" .
qed

lemma cq_advance_len [simp]: "cq_len (cq_advance q) = cq_len q"
  by (simp add: cq_advance_def Let_def cq_len_def)

interpretation cq_cursor: phased_cursor cq_advance "\<lambda>q. unat (cq_head q)" cq_len cq_wf cq_phase
proof unfold_locales
  fix q assume q: "cq_wf q"
  then have b: "unat (cq_head q) < cq_len q" "cq_len q < 2 ^ 16" by (simp_all add: cq_wf_def)
  show "unat (cq_head q) < cq_len q" by (rule b(1))
  show s: "unat (cq_head (cq_advance q)) = (unat (cq_head q) + 1) mod cq_len q"
    using u16_step(1) [OF b] by (simp add: cq_advance_def Let_def)
  show "cq_len (cq_advance q) = cq_len q" by simp
  show "cq_wf (cq_advance q)"
    using s b by (simp add: cq_wf_def)
  show "cq_phase (cq_advance q)
    = (if unat (cq_head q) + 1 = cq_len q then \<not> cq_phase q else cq_phase q)"
    using u16_step(2) [OF b] by (simp add: cq_advance_def Let_def)
qed

text \<open>What submitting does to the tail, whatever the command.\<close>

definition sq_advance :: "nvme_cmd \<Rightarrow> cmd_queue \<Rightarrow> cmd_queue" where
  "sq_advance entry q = q\<lparr>sq_data := (sq_data q)\<lparr>dma_data :=
     (dma_data (sq_data q))[unat (sq_tail q) := entry]\<rparr>,
     sq_tail := (sq_tail q + 1) mod of_nat (sq_len q)\<rparr>"

lemma submit_unchecked_eq:
  assumes "sq_wf q"
  shows "submit_unchecked entry q = (Ok (sq_tail (sq_advance entry q)), sq_advance entry q)"
proof -
  have "(of_nat (sq_len q) :: u16) \<noteq> 0"
    using assms unat_of_nat_u16 [of "sq_len q"] by (auto simp: sq_wf_def)
  then show ?thesis
    using assms by (simp add: submit_unchecked_def sq_advance_def sq_wf_def Let_def sq_len_def)
qed

lemma sq_advance_len [simp]: "sq_len (sq_advance e q) = sq_len q"
  by (simp add: sq_advance_def sq_len_def)

lemma sq_advance_data:
  "dma_data (sq_data (sq_advance e q)) = (dma_data (sq_data q))[unat (sq_tail q) := e]"
  by (simp add: sq_advance_def)

interpretation sq_cursor: ring_cursor "sq_advance e" "\<lambda>q. unat (sq_tail q)" sq_len sq_wf
  for e
proof unfold_locales
  fix q assume q: "sq_wf q"
  then have b: "unat (sq_tail q) < sq_len q" "sq_len q < 2 ^ 16" by (simp_all add: sq_wf_def)
  show "unat (sq_tail q) < sq_len q" by (rule b(1))
  show s: "unat (sq_tail (sq_advance e q)) = (unat (sq_tail q) + 1) mod sq_len q"
    using u16_step(1) [OF b] by (simp add: sq_advance_def)
  show "sq_len (sq_advance e q) = sq_len q" by simp
  show "sq_wf (sq_advance e q)" using s b by (simp add: sq_wf_def)
qed

subsection \<open>The controller's side of a completion queue\<close>

text \<open>
  The controller posts an entry at its own index with its own phase tag in bit 0 of the status
  (NVMe section 4.6) and moves on, inverting the tag when it wraps.
\<close>

definition hw_post :: "nat \<times> bool \<Rightarrow> nvme_comp \<Rightarrow> comp_queue \<Rightarrow> comp_queue \<times> (nat \<times> bool)" where
  "hw_post p e q =
     (q\<lparr>cq_data := (cq_data q)\<lparr>dma_data := (dma_data (cq_data q))[fst p := e]\<rparr>\<rparr>,
      if fst p + 1 = cq_len q then (0, \<not> snd p) else (fst p + 1, snd p))"

definition tagged :: "bool \<Rightarrow> nvme_comp \<Rightarrow> bool" where
  "tagged ph e \<longleftrightarrow> (comp_status e AND 1 = 1) = ph"

inductive cq_steps ::
  "comp_queue \<times> (nat \<times> bool) \<times> nvme_comp list \<Rightarrow> comp_queue \<times> (nat \<times> bool) \<times> nvme_comp list \<Rightarrow> bool"
  where
  start: "cq_steps s s"
| post: "cq_steps s (q, p, es) \<Longrightarrow> tagged (snd p) e \<Longrightarrow> length es < cq_len q
    \<Longrightarrow> hw_post p e q = (q', p') \<Longrightarrow> cq_steps s (q', p', es @ [e])"
| take: "cq_steps s (q, p, es) \<Longrightarrow> complete None q = (x, q') \<Longrightarrow> cq_steps s (q', p, tl es)"

inductive_cases cq_steps_cases: "cq_steps s t"

definition posted :: "nat \<Rightarrow> nvme_comp list \<Rightarrow> nat \<times> bool \<Rightarrow> comp_queue \<Rightarrow> bool" where
  "posted n h p q \<longleftrightarrow>
     cq_len q = n \<and> 0 < n \<and> n < 2 ^ 16
     \<and> p = (length h mod n, even (length h div n))
     \<and> (\<forall>k < length h. length h \<le> k + n \<longrightarrow> dma_data (cq_data q) ! (k mod n) = h ! k)
     \<and> (\<forall>j < n. length h \<le> j \<longrightarrow> \<not> tagged True (dma_data (cq_data q) ! j))
     \<and> (\<forall>k < length h. tagged (even (k div n)) (h ! k))"

definition taken :: "nat \<Rightarrow> nat \<Rightarrow> comp_queue \<Rightarrow> bool" where
  "taken n c q \<longleftrightarrow> unat (cq_head q) = c mod n \<and> cq_phase q = even (c div n)"

lemma taken_advance:
  assumes "taken n c q" and "cq_len q = n" and "0 < n" and "n < 2 ^ 16"
  shows "taken n (Suc c) (cq_advance q)"
proof -
  have wf: "cq_wf q" using assms by (simp add: cq_wf_def taken_def)
  have "(c mod n + 1) mod n = Suc c mod n" by (simp add: mod_Suc_eq)
  moreover have "even (Suc c div n) = (if c mod n + 1 = n then odd (c div n) else even (c div n))"
    using assms(3) by (auto simp: div_Suc mod_Suc)
  ultimately show ?thesis
    using assms cq_cursor.slot_advance [OF wf] cq_cursor.phase_advance [OF wf]
    by (simp add: taken_def)
qed

lemma posted_advance [simp]: "posted n h p (cq_advance q) = posted n h p q"
  by (simp add: posted_def cq_advance_def Let_def cq_len_def)

lemma posted_post:
  assumes "posted n h p q" and "tagged (snd p) e" and "hw_post p e q = (q', p')"
  shows "posted n (h @ [e]) p' q'" and "taken n c q \<Longrightarrow> taken n c q'"
proof -
  let ?l = "length h"
  from assms have n: "0 < n" "cq_len q = n" "length (dma_data (cq_data q)) = n"
    and p: "p = (?l mod n, even (?l div n))" by (simp_all add: posted_def cq_len_def)
  have lm: "?l mod n < n" using n by simp
  have q': "dma_data (cq_data q') = (dma_data (cq_data q))[?l mod n := e]" "cq_len q' = n"
    "cq_head q' = cq_head q" "cq_phase q' = cq_phase q"
    using assms(3) n by (auto simp: hw_post_def p cq_len_def)
  have p': "p' = (Suc ?l mod n, even (Suc ?l div n))"
    using assms(3) n by (auto simp: hw_post_def p mod_Suc div_Suc)
  show "posted n (h @ [e]) p' q'"
    unfolding posted_def
  proof (intro conjI allI impI)
    show "cq_len q' = n" "0 < n" "n < 2 ^ 16" using q' assms(1) by (simp_all add: posted_def)
    show "p' = (length (h @ [e]) mod n, even (length (h @ [e]) div n))" using p' by simp
  next
    fix k assume k: "k < length (h @ [e])" "length (h @ [e]) \<le> k + n"
    show "dma_data (cq_data q') ! (k mod n) = (h @ [e]) ! k"
    proof (cases "k = ?l")
      case True
      then show ?thesis using n lm by (simp add: q')
    next
      case False
      with k have k': "k < ?l" "?l < k + n" by simp_all
      then have "?l mod n \<noteq> k mod n" using mod_distinct by metis
      then show ?thesis using k' assms(1) by (simp add: q' nth_append posted_def)
    qed
  next
    fix j assume "j < n" "length (h @ [e]) \<le> j"
    then show "\<not> tagged True (dma_data (cq_data q') ! j)"
      using assms(1) by (simp add: q' posted_def)
  next
    fix k assume "k < length (h @ [e])"
    then show "tagged (even (k div n)) ((h @ [e]) ! k)"
      using assms(1,2) by (auto simp: nth_append posted_def p less_Suc_eq)
  qed
  show "taken n c q \<Longrightarrow> taken n c q'" by (simp add: taken_def q')
qed

lemma complete_none:
  assumes "cq_wf q"
  shows "complete None q = (if tagged (cq_phase q) (cq_entry q)
    then (Ok (Some (cq_head (cq_advance q), cq_entry q)), cq_advance q) else (Ok None, q))"
proof -
  have "(of_nat (cq_len q) :: u16) \<noteq> 0"
    using assms unat_of_nat_u16 [of "cq_len q"] by (auto simp: cq_wf_def)
  then show ?thesis
    using assms by (simp add: complete_def cq_wf_def tagged_def cq_advance_def Let_def)
qed

text \<open>Whether the entry at the head is new is decided by the tags.\<close>

lemma head_tagged:
  assumes "posted n h p q" and "taken n c q" and "c \<le> length h" and "length h \<le> c + n"
  shows "tagged (cq_phase q) (cq_entry q) \<longleftrightarrow> c < length h"
    and "c < length h \<Longrightarrow> cq_entry q = h ! c"
proof -
  have n: "0 < n" using assms(1) by (simp add: posted_def)
  have e: "cq_entry q = dma_data (cq_data q) ! (c mod n)" and ph: "cq_phase q = even (c div n)"
    using assms(2) by (simp_all add: cq_entry_def taken_def)
  show *: "c < length h \<Longrightarrow> cq_entry q = h ! c"
    using assms(1,4) e by (simp add: posted_def)
  show "tagged (cq_phase q) (cq_entry q) \<longleftrightarrow> c < length h"
  proof (cases "c < length h")
    case True
    then show ?thesis using * ph assms(1) by (simp add: posted_def)
  next
    case False
    then have c: "c = length h" using assms(3) by simp
    show ?thesis
    proof (cases "c < n")
      case True
      then show ?thesis using c e ph assms(1) by (simp add: posted_def)
    next
      case False
      let ?k = "c - n"
      have k: "?k < length h" "length h \<le> ?k + n" "?k mod n = c mod n" "c div n = Suc (?k div n)"
        using False n c by (simp_all add: le_mod_geq le_div_geq)
      have "\<forall>k < length h. length h \<le> k + n \<longrightarrow> dma_data (cq_data q) ! (k mod n) = h ! k"
        using assms(1) by (simp add: posted_def)
      then have "dma_data (cq_data q) ! (?k mod n) = h ! ?k" using k(1,2) by blast
      then have "cq_entry q = h ! ?k" using e k(3) by simp
      moreover have "tagged (even (?k div n)) (h ! ?k)" using assms(1) k by (simp add: posted_def)
      ultimately show ?thesis using ph k(4) c by (simp add: tagged_def)
    qed
  qed
qed

lemma cq_steps_posted:
  assumes "cq_steps s s'" and "s = (q\<^sub>0, (0, True), [])" and "posted n [] (0, True) q\<^sub>0"
    and "taken n 0 q\<^sub>0"
  shows "\<exists>h c. posted n h (fst (snd s')) (fst s') \<and> taken n c (fst s') \<and> c \<le> length h
    \<and> length h \<le> c + n \<and> snd (snd s') = drop c h"
  using assms
proof (induction rule: cq_steps.induct)
  case (start s)
  then show ?case by (intro exI [of _ "[]"] exI [of _ 0]) simp
next
  case (post s q p es e q' p')
  then obtain h c where inv: "posted n h p q" "taken n c q" "c \<le> length h" "length h \<le> c + n"
    "es = drop c h" by auto
  have "length h < c + n" using post(3) inv by (auto simp: posted_def)
  with posted_post [OF inv(1) post(2) post(4)] inv show ?case
    by (intro exI [of _ "h @ [e]"] exI [of _ c]) simp
next
  case (take s q p es x q')
  then obtain h c where inv: "posted n h p q" "taken n c q" "c \<le> length h" "length h \<le> c + n"
    "es = drop c h" by auto
  have n: "cq_len q = n" "0 < n" "n < 2 ^ 16" using inv(1) by (simp_all add: posted_def)
  have wf: "cq_wf q" using inv n by (simp add: cq_wf_def taken_def)
  note t = head_tagged [OF inv(1-4)]
  show ?case
  proof (cases "c < length h")
    case True
    then have "q' = cq_advance q" using take(2) t by (simp add: complete_none [OF wf])
    moreover have "tl es = drop (Suc c) h" using inv by (simp add: tl_drop drop_Suc)
    ultimately show ?thesis
      using inv True taken_advance [OF inv(2) n]
      by (intro exI [of _ h] exI [of _ "Suc c"]) simp
  next
    case False
    then have "q' = q" "es = []" using take(2) t inv by (simp_all add: complete_none [OF wf])
    then show ?thesis using inv False by (intro exI [of _ h] exI [of _ c]) simp
  qed
qed

text \<open>
  NVMe property C9. \<open>complete\<close> takes the completion entries in the order the controller posted
  them, each exactly once: in every interleaving of controller and driver from a new queue in
  which the controller does not overrun the queue, the next call answers the oldest entry not
  yet taken together with the new head index, and nothing when all were taken, however often the
  queue has wrapped.
\<close>

theorem completion_queue_fifo:
  assumes "comp_queue_new K m = (Ok q\<^sub>0, m')" and "cq_steps (q\<^sub>0, (0, True), []) (q, p, es)"
  shows "fst (complete None q) = Ok (case es of [] \<Rightarrow> None
    | e # es' \<Rightarrow> Some (of_nat ((unat (cq_head q) + 1) mod 256), e))"
proof -
  have q\<^sub>0: "dma_data (cq_data q\<^sub>0) = replicate 256 zero_comp" "cq_head q\<^sub>0 = 0" "cq_phase q\<^sub>0"
    using assms(1) by (auto simp: comp_queue_new_def zeroed_slice_def Let_def bind_m_Ok return_m_def
        panic_m_def)
  have "posted 256 [] (0, True) q\<^sub>0" "taken 256 0 q\<^sub>0"
    using q\<^sub>0 by (simp_all add: posted_def taken_def cq_len_def tagged_def zero_comp_def)
  from cq_steps_posted [OF assms(2) refl this] obtain h c where
    inv: "posted 256 h p q" "taken 256 c q" "c \<le> length h" "length h \<le> c + 256" "es = drop c h"
    by auto
  have n: "cq_len q = 256" using inv(1) by (simp add: posted_def)
  then have wf: "cq_wf q" using inv(2) by (simp add: cq_wf_def taken_def)
  have head: "cq_head (cq_advance q) = of_nat ((unat (cq_head q) + 1) mod 256)"
  proof -
    have "cq_head (cq_advance q) = of_nat (unat (cq_head (cq_advance q)))" by simp
    then show ?thesis unfolding cq_cursor.slot_advance [OF wf] n .
  qed
  note t = head_tagged [OF inv(1-4)]
  show ?thesis
  proof (cases "c < length h")
    case True
    then have "es = h ! c # drop (Suc c) h" using inv by (simp add: Cons_nth_drop_Suc)
    then show ?thesis using True t by (simp add: complete_none [OF wf] head)
  next
    case False
    then show ?thesis using inv t by (simp add: complete_none [OF wf])
  qed
qed

definition sample_cq :: comp_queue where
  "sample_cq = \<lparr>cq_data = \<lparr>dma_phys = 0x11000, dma_aligned_len = 4096, dma_virt = 0x10000,
     dma_data = replicate 256 zero_comp\<rparr>, cq_head = 0, cq_phase = True\<rparr>"

lemma sample_cq_new: "comp_queue_new sample_mem () = (Ok sample_cq, ())"
  by (simp add: comp_queue_new_def zeroed_slice_def alloc_and_map_def sample_mem_def
    next_multiple_of_def page_size_def st_defs finally_m_def sample_cq_def)

theorem completion_queue_fifo_witness:
  "\<exists>q p e. cq_steps (sample_cq, (0, True), []) (q, p, [e]) \<and> comp_cid e = 7
     \<and> fst (complete None q) = Ok (Some (1, e))"
proof -
  let ?e = "zero_comp\<lparr>comp_cid := 7, comp_status := 1\<rparr>"
  obtain q p where qp: "hw_post (0, True) ?e sample_cq = (q, p)"
    by (cases "hw_post (0, True) ?e sample_cq")
  have s: "cq_steps (sample_cq, (0, True), []) (q, p, [] @ [?e])"
    by (rule cq_steps.post [OF cq_steps.start _ _ qp])
      (simp_all add: tagged_def cq_len_def sample_cq_def)
  have "cq_head q = 0" using qp by (auto simp: hw_post_def sample_cq_def)
  with completion_queue_fifo [OF sample_cq_new s] have "fst (complete None q) = Ok (Some (1, ?e))"
    by simp
  moreover have "comp_cid ?e = 7" by simp
  ultimately show ?thesis using s by (metis append_Nil)
qed

subsection \<open>The submission queue\<close>

text \<open>
  Submitting commands to a new submission queue writes them one after another
  from the first slot on, wraps after 64 entries and answers the new tail each time; no
  submission fails.
\<close>

theorem submission_slots:
  assumes "cmd_queue_new K m = (Ok q, m')"
  shows "fst (repeat_m k (submit_unchecked e) q) = Ok (map (\<lambda>j. of_nat (Suc j mod 64)) [0..<k])
    \<and> (\<forall>j < min k 64. dma_data (sq_data (snd (repeat_m k (submit_unchecked e) q))) ! j = e)"
proof -
  have q: "dma_data (sq_data q) = replicate 64 default_cmd" "sq_tail q = 0"
    using assms by (auto simp: cmd_queue_new_def zeroed_slice_def Let_def bind_m_Ok return_m_def
        panic_m_def)
  then have wf: "sq_wf q" and len: "sq_len q = 64" by (simp_all add: sq_wf_def sq_len_def)
  have rep: "repeat_m k (submit_unchecked e) q
    = (Ok (map (\<lambda>j. sq_tail (sq_advance e ((sq_advance e ^^ j) q))) [0..<k]), (sq_advance e ^^ k) q)"
    by (rule repeat_m_total [where P = sq_wf and m = "submit_unchecked e"
          and out = "\<lambda>q. sq_tail (sq_advance e q)"])
      (simp_all add: submit_unchecked_eq sq_cursor.valid_advance wf)
  have tail: "unat (sq_tail ((sq_advance e ^^ j) q)) = j mod 64" for j
    using sq_cursor.funpow_slot [OF wf, of j e] len q by simp
  have out: "sq_tail (sq_advance e ((sq_advance e ^^ j) q)) = of_nat (Suc j mod 64)" for j
  proof -
    have "sq_tail ((sq_advance e ^^ Suc j) q) = of_nat (unat (sq_tail ((sq_advance e ^^ Suc j) q)))"
      by simp
    then show ?thesis unfolding tail by simp
  qed
  have data: "length (dma_data (sq_data ((sq_advance e ^^ k) q))) = 64
    \<and> (\<forall>j < min k 64. dma_data (sq_data ((sq_advance e ^^ k) q)) ! j = e)" for k
  proof (induction k)
    case 0
    then show ?case using q by simp
  next
    case (Suc k)
    let ?d = "dma_data (sq_data ((sq_advance e ^^ k) q))"
    have step: "dma_data (sq_data ((sq_advance e ^^ Suc k) q)) = ?d[k mod 64 := e]"
      using tail [of k] by (simp add: sq_advance_data)
    show ?case
    proof (intro conjI allI impI)
      show "length (dma_data (sq_data ((sq_advance e ^^ Suc k) q))) = 64"
        unfolding step using Suc by simp
    next
      fix j assume j: "j < min (Suc k) 64"
      show "dma_data (sq_data ((sq_advance e ^^ Suc k) q)) ! j = e"
      proof (cases "j = k mod 64")
        case True
        then show ?thesis unfolding step using Suc by simp
      next
        case False
        then have "j < k \<and> j < 64" using j by (cases "j = k") auto
        then show ?thesis unfolding step using Suc False j by simp
      qed
    qed
  qed
  show ?thesis using data [of k] by (simp add: rep out)
qed

lemma sample_sq_new: "cmd_queue_new sample_mem () = (Ok \<lparr>sq_data = \<lparr>dma_phys = 0x11000,
    dma_aligned_len = 4096, dma_virt = 0x10000, dma_data = replicate 64 default_cmd\<rparr>,
    sq_tail = 0, sq_head = 0\<rparr>, ())"
  by (simp add: cmd_queue_new_def zeroed_slice_def alloc_and_map_def sample_mem_def
    next_multiple_of_def page_size_def st_defs finally_m_def)

theorem submission_slots_witness:
  "\<exists>q. cmd_queue_new sample_mem () = (Ok q, ())
     \<and> fst (repeat_m 2 (submit_unchecked default_cmd) q) = Ok [1, 2]"
  using sample_sq_new submission_slots [OF sample_sq_new, of 2 default_cmd] by (simp add: upt_rec)

text \<open>
  \<open>is_full\<close> recognises a full queue, that is one whose next slot is the head,
  except when the tail is in the last slot: it does not wrap the index it compares. A command
  submitted to such a queue makes it look empty.
\<close>

theorem is_full_misses_wrap:
  "sq_wf q \<and> unat (sq_head q) < sq_len q \<longrightarrow>
     (is_full q \<longleftrightarrow> (unat (sq_tail q) + 1) mod sq_len q = unat (sq_head q)
                   \<and> unat (sq_tail q) + 1 < sq_len q)
   \<and> ((unat (sq_tail q) + 1) mod sq_len q = unat (sq_head q)
       \<longrightarrow> is_empty (snd (submit_unchecked e q)))"
proof (intro impI, elim conjE)
  assume wf: "sq_wf q" and h: "unat (sq_head q) < sq_len q"
  then have b: "unat (sq_tail q) < sq_len q" "sq_len q < 2 ^ 16" by (simp_all add: sq_wf_def)
  have t: "unat (sq_tail q + 1) = unat (sq_tail q) + 1" using b by (simp add: unat_word_ariths(1))
  have "is_full q \<longleftrightarrow> unat (sq_head q) = unat (sq_tail q) + 1"
    unfolding is_full_def t [symmetric] by (simp add: word_unat_eq_iff)
  then have "is_full q \<longleftrightarrow> (unat (sq_tail q) + 1) mod sq_len q = unat (sq_head q)
      \<and> unat (sq_tail q) + 1 < sq_len q"
    using h unfolding suc_mod_cases [OF b(1), symmetric] by auto
  moreover have "unat (sq_tail (sq_advance e q)) = (unat (sq_tail q) + 1) mod sq_len q"
    by (rule sq_cursor.slot_advance [OF wf])
  then have "(unat (sq_tail q) + 1) mod sq_len q = unat (sq_head q)
      \<longrightarrow> is_empty (snd (submit_unchecked e q))"
    by (simp add: submit_unchecked_eq [OF wf] is_empty_def word_unat_eq_iff)
      (simp add: sq_advance_def)
  ultimately show "(is_full q \<longleftrightarrow> (unat (sq_tail q) + 1) mod sq_len q = unat (sq_head q)
                   \<and> unat (sq_tail q) + 1 < sq_len q)
   \<and> ((unat (sq_tail q) + 1) mod sq_len q = unat (sq_head q)
       \<longrightarrow> is_empty (snd (submit_unchecked e q)))" by blast
qed

theorem is_full_misses_wrap_witness:
  "\<not> is_full \<lparr>sq_data = \<lparr>dma_phys = 0, dma_aligned_len = 4096, dma_virt = 0,
      dma_data = replicate 64 default_cmd\<rparr>, sq_tail = 63, sq_head = 0\<rparr>
   \<and> is_empty (snd (submit_unchecked default_cmd \<lparr>sq_data = \<lparr>dma_phys = 0,
      dma_aligned_len = 4096, dma_virt = 0, dma_data = replicate 64 default_cmd\<rparr>,
      sq_tail = 63, sq_head = 0\<rparr>))"
  using is_full_misses_wrap [of "\<lparr>sq_data = \<lparr>dma_phys = 0, dma_aligned_len = 4096, dma_virt = 0,
      dma_data = replicate 64 default_cmd\<rparr>, sq_tail = 63, sq_head = 0\<rparr>" default_cmd]
  by (simp add: sq_wf_def sq_len_def)

end
