(* ===== verification/Nvme_Controller.thy ===== *)
theory Nvme_Controller
  imports Nvme_Queues
begin

text \<open>
  The controller object of the NVMe driver (\<open>storage/nvmed/src/nvme/mod.rs\<close>, the synchronous
  variant): doorbells, initialisation, interrupt masking, command submission and completion,
  creation of the I/O queues, and namespace reads and writes.

  The controller itself is the record \<open>nvme_dev\<close>, a parameter: what a register read answers, what
  a register write does, and what the controller does while the driver yields or pauses, which
  may change the queues and buffers it shares with the driver. The waiting loops carry fuel. The
  mutexes are not modelled: the operations here run one at a time, as the locks arrange it.
\<close>

datatype interrupt_method = IntxPin | Msi u8 | MsiX "bool list"

record 'd nvme =
  nv_interrupt :: interrupt_method
  nv_sqs :: "u16 \<rightharpoonup> cmd_queue \<times> u16"
  nv_cqs :: "u16 \<rightharpoonup> comp_queue \<times> u16 list"
  nv_cqs_for_ivs :: "u16 \<rightharpoonup> u16 list"
  nv_buffer :: "u8 dma"
  nv_prp :: "u64 dma"
  nv_dev :: 'd

record 'd nvme_dev =
  reg_read :: "nat \<Rightarrow> 'd nvme \<Rightarrow> u32"
  reg_write :: "nat \<Rightarrow> u32 \<Rightarrow> 'd nvme \<Rightarrow> 'd nvme"
  dev_yield :: "'d nvme \<Rightarrow> 'd nvme"

text \<open>Offsets of the registers in \<open>NvmeRegs\<close>.\<close>

definition reg_cap_high :: nat where "reg_cap_high = 0x04"
definition reg_intms :: nat where "reg_intms = 0x0C"
definition reg_intmc :: nat where "reg_intmc = 0x10"
definition reg_cc :: nat where "reg_cc = 0x14"
definition reg_csts :: nat where "reg_csts = 0x1C"
definition reg_aqa :: nat where "reg_aqa = 0x24"
definition reg_asq_low :: nat where "reg_asq_low = 0x28"
definition reg_asq_high :: nat where "reg_asq_high = 0x2C"
definition reg_acq_low :: nat where "reg_acq_low = 0x30"
definition reg_acq_high :: nat where "reg_acq_high = 0x34"

subsection \<open>Construction and doorbells\<close>

definition nvme_new :: "'m mem_ops \<Rightarrow> interrupt_method \<Rightarrow> 'd \<Rightarrow> ('m, 'd nvme, errno) st" where
  "nvme_new K im d =
     bind_m (cmd_queue_new K) (\<lambda>sq.
     on_failure_m
       (bind_m (comp_queue_new K) (\<lambda>cq.
        on_failure_m
          (bind_m (zeroed K (512 * 4096) (replicate (512 * 4096) 0)) (\<lambda>buf.
           on_failure_m
             (bind_m (zeroed K 4096 (replicate 512 0)) (\<lambda>prp.
              return_m
                \<lparr>nv_interrupt = im, nv_sqs = [0 \<mapsto> (sq, 0)], nv_cqs = [0 \<mapsto> (cq, [0])],
                 nv_cqs_for_ivs = [0 \<mapsto> [0]],
                 nv_buffer = \<lparr>dma_phys = dma_phys buf, dma_aligned_len = dma_aligned_len buf,
                              dma_virt = dma_virt buf, dma_data = concat (dma_data buf)\<rparr>,
                 nv_prp = \<lparr>dma_phys = dma_phys prp, dma_aligned_len = dma_aligned_len prp,
                           dma_virt = dma_virt prp, dma_data = concat (dma_data prp)\<rparr>,
                 nv_dev = d\<rparr>))
             (dma_drop K buf)))
          (dma_drop K (cq_data cq))))
       (dma_drop K (sq_data sq)))"

definition doorbell_write :: "'d nvme_dev \<Rightarrow> nat \<Rightarrow> u32 \<Rightarrow> 'd nvme \<Rightarrow> 'd nvme" where
  "doorbell_write D index v s =
     (let dstrd = unat (reg_read D reg_cap_high s AND 15)
      in reg_write D (0x1000 + index * (4 * 2 ^ dstrd)) v s)"

definition submission_queue_tail :: "'d nvme_dev \<Rightarrow> u16 \<Rightarrow> u16 \<Rightarrow> 'd nvme \<Rightarrow> 'd nvme" where
  "submission_queue_tail D qid tail = doorbell_write D (2 * unat qid) (ucast tail)"

definition completion_queue_head :: "'d nvme_dev \<Rightarrow> u16 \<Rightarrow> u16 \<Rightarrow> 'd nvme \<Rightarrow> 'd nvme" where
  "completion_queue_head D qid head = doorbell_write D (2 * unat qid + 1) (ucast head)"

subsection \<open>Initialisation\<close>

definition reg_writef :: "'d nvme_dev \<Rightarrow> nat \<Rightarrow> u32 \<Rightarrow> bool \<Rightarrow> 'd nvme \<Rightarrow> 'd nvme" where
  "reg_writef D off flags v s =
     (let tmp = reg_read D off s
      in reg_write D off (if v then tmp OR flags else tmp AND NOT flags) s)"

text \<open>Pause until the ready bit of the status register has the given value.\<close>

fun wait_ready :: "'d nvme_dev \<Rightarrow> nat \<Rightarrow> bool \<Rightarrow> ('d nvme, unit, errno) st" where
  "wait_ready D 0 v s = (NoFuel, s)"
| "wait_ready D (Suc fuel) v s =
     (if (reg_read D reg_csts s AND 1 = 1) = v then (Ok (), s)
      else wait_ready D fuel v (dev_yield D s))"

definition fill_prp :: "'d nvme \<Rightarrow> 'd nvme" where
  "fill_prp s = s\<lparr>nv_prp := (nv_prp s)\<lparr>dma_data :=
     map (\<lambda>i. dma_phys (nv_buffer s) + of_nat (i * 4096)) [0..<length (dma_data (nv_prp s))]\<rparr>\<rparr>"

definition unmask_admin_vector :: "'d nvme_dev \<Rightarrow> ('d nvme, unit, errno) st" where
  "unmask_admin_vector D s = (case nv_interrupt s of
      MsiX table \<Rightarrow> if table = [] then (Panic, s)
                  else (Ok (), s\<lparr>nv_interrupt := MsiX (table[0 := False])\<rparr>)
    | _ \<Rightarrow> (Ok (), reg_write D reg_intmc 1 (reg_write D reg_intms 0xFFFFFFFF s)))"

definition program_admin_queues :: "'d nvme_dev \<Rightarrow> ('d nvme, unit, errno) st" where
  "program_admin_queues D s = (case (nv_sqs s 0, nv_cqs s 0) of
      (Some (asq, _), Some (acq, _)) \<Rightarrow>
        let sp = dma_phys (sq_data asq); cp = dma_phys (cq_data acq);
            s1 = reg_write D reg_aqa
                   (push_bit 16 (of_nat (cq_len acq) - 1) OR (of_nat (sq_len asq) - 1)) s;
            s2 = reg_write D reg_asq_low (ucast sp) s1;
            s3 = reg_write D reg_asq_high (ucast (drop_bit 32 sp)) s2;
            s4 = reg_write D reg_acq_low (ucast cp) s3;
            s5 = reg_write D reg_acq_high (ucast (drop_bit 32 cp)) s4;
            cc = (reg_read D reg_cc s5 AND 0xFF00000F) OR (push_bit 20 4 OR push_bit 16 6)
        in (Ok (), reg_write D reg_cc cc s5)
    | _ \<Rightarrow> (Panic, s))"

definition nvme_init :: "'d nvme_dev \<Rightarrow> nat \<Rightarrow> ('d nvme, unit, errno) st" where
  "nvme_init D fuel =
     bind_m (\<lambda>s. (Ok (), reg_writef D reg_cc 1 False (fill_prp s))) (\<lambda>_.
     bind_m (wait_ready D fuel False) (\<lambda>_.
     bind_m (unmask_admin_vector D) (\<lambda>_.
     bind_m (program_admin_queues D) (\<lambda>_.
     bind_m (\<lambda>s. (Ok (), reg_writef D reg_cc 1 True s)) (\<lambda>_.
     wait_ready D fuel True)))))"

subsection \<open>Masking of interrupt vectors\<close>

text \<open>The bits collected in the MSI case: first those to mask, second those to clear.\<close>

fun msi_masks :: "u8 \<Rightarrow> (u16 \<times> bool) list \<Rightarrow> u32 \<times> u32 \<Rightarrow> (u32 \<times> u32, errno) res" where
  "msi_masks log2 [] acc = Ok acc"
| "msi_masks log2 ((vector, masked) # vs) (to_mask, to_clear) =
     (if \<not> vector < push_bit (unat log2 mod 16) 1 then Panic
      else
        let b = push_bit (unat (ucast vector :: u8) mod 32) 1 :: u32
        in if masked then
             if to_clear AND b = b then Panic else msi_masks log2 vs (to_mask OR b, to_clear)
           else
             if to_mask AND b = b then Panic else msi_masks log2 vs (to_mask, to_clear OR b))"

fun msix_set_masked :: "(u16 \<times> bool) list \<Rightarrow> bool list \<Rightarrow> (bool list, errno) res" where
  "msix_set_masked [] table = Ok table"
| "msix_set_masked ((vector, masked) # vs) table =
     (if unat vector < length table then msix_set_masked vs (table[unat vector := masked])
      else Panic)"

definition set_vectors_masked :: "'d nvme_dev \<Rightarrow> (u16 \<times> bool) list \<Rightarrow> ('d nvme, unit, errno) st" where
  "set_vectors_masked D vectors s = (case nv_interrupt s of
      IntxPin \<Rightarrow> (case vectors of
          [] \<Rightarrow> (Ok (), s)
        | [(vector, masked)] \<Rightarrow>
            if vector \<noteq> 0 then (Panic, s)
            else (Ok (), reg_write D (if masked then reg_intms else reg_intmc) 1 s)
        | _ \<Rightarrow> (Panic, s))
    | Msi log2 \<Rightarrow> (case msi_masks log2 vectors (0, 0) of
          Ok (to_mask, to_clear) \<Rightarrow>
            let s1 = (if to_mask \<noteq> 0 then reg_write D reg_intms to_mask s else s)
            in (Ok (), if to_clear \<noteq> 0 then reg_write D reg_intmc to_clear s1 else s1)
        | _ \<Rightarrow> (Panic, s))
    | MsiX table \<Rightarrow> (case msix_set_masked vectors table of
          Ok table' \<Rightarrow> (Ok (), s\<lparr>nv_interrupt := MsiX table'\<rparr>)
        | _ \<Rightarrow> (Panic, s)))"

definition set_vector_masked :: "'d nvme_dev \<Rightarrow> u16 \<Rightarrow> bool \<Rightarrow> ('d nvme, unit, errno) st" where
  "set_vector_masked D vector masked = set_vectors_masked D [(vector, masked)]"

subsection \<open>Submission and completion\<close>

definition submit_command ::
  "'d nvme_dev \<Rightarrow> u16 \<Rightarrow> (u16 \<Rightarrow> nvme_cmd) \<Rightarrow> ('d nvme, nvme_cmd, errno) st" where
  "submit_command D sq_id cmd_init s = (case nv_sqs s sq_id of
      None \<Rightarrow> (Panic, s)
    | Some (sq, cq_id) \<Rightarrow>
        if is_full sq then (Panic, s)
        else
          let cmd = cmd_init (sq_tail sq)
          in case submit_unchecked cmd sq of
               (Ok tail, sq') \<Rightarrow>
                 (Ok cmd, submission_queue_tail D sq_id tail
                            (s\<lparr>nv_sqs := (nv_sqs s)(sq_id \<mapsto> (sq', cq_id))\<rparr>))
             | (_, sq') \<Rightarrow> (Panic, s))"

text \<open>
  One look at the completion queue with the number of the submission queue; the other completion
  queues are skipped.
\<close>

definition poll_completion ::
  "'d nvme_dev \<Rightarrow> u16 \<Rightarrow> nvme_cmd \<Rightarrow> ('d nvme, nvme_comp option, errno) st" where
  "poll_completion D sq_id cmd s = (case nv_cqs s sq_id of
      None \<Rightarrow> (Ok None, s)
    | Some (cq, l) \<Rightarrow> (case complete (Some (sq_id, cmd)) cq of
          (Ok (Some (head, entry)), cq') \<Rightarrow>
            let s1 = completion_queue_head D sq_id head (s\<lparr>nv_cqs := (nv_cqs s)(sq_id \<mapsto> (cq', l))\<rparr>)
            in if comp_sq_id entry \<noteq> sq_id \<or> comp_cid entry \<noteq> cid cmd then (Panic, s1)
               else (case nv_sqs s1 (comp_sq_id entry) of
                   None \<Rightarrow> (Panic, s1)
                 | Some (sq, corresponding_cq_id) \<Rightarrow>
                     if sq_id \<noteq> corresponding_cq_id then (Panic, s1)
                     else (Ok (Some entry),
                           s1\<lparr>nv_sqs := (nv_sqs s1)(comp_sq_id entry \<mapsto>
                                (sq\<lparr>sq_head := comp_sq_head entry\<rparr>, corresponding_cq_id))\<rparr>))
        | (Ok None, cq') \<Rightarrow> (Ok None, s\<lparr>nv_cqs := (nv_cqs s)(sq_id \<mapsto> (cq', l))\<rparr>)
        | _ \<Rightarrow> (Panic, s)))"

fun wait_completion ::
  "'d nvme_dev \<Rightarrow> nat \<Rightarrow> u16 \<Rightarrow> nvme_cmd \<Rightarrow> ('d nvme, nvme_comp, errno) st" where
  "wait_completion D 0 sq_id cmd s = (NoFuel, s)"
| "wait_completion D (Suc fuel) sq_id cmd s =
     bind_m (poll_completion D sq_id cmd) (\<lambda>x. case x of
        Some entry \<Rightarrow> return_m entry
      | None \<Rightarrow> (\<lambda>s'. wait_completion D fuel sq_id cmd (dev_yield D s'))) s"

definition submit_and_complete_command ::
  "'d nvme_dev \<Rightarrow> nat \<Rightarrow> u16 \<Rightarrow> (u16 \<Rightarrow> nvme_cmd) \<Rightarrow> ('d nvme, nvme_comp, errno) st" where
  "submit_and_complete_command D fuel sq_id cmd_init =
     bind_m (submit_command D sq_id cmd_init) (wait_completion D fuel sq_id)"

definition submit_and_complete_admin_command ::
  "'d nvme_dev \<Rightarrow> nat \<Rightarrow> (u16 \<Rightarrow> nvme_cmd) \<Rightarrow> ('d nvme, nvme_comp, errno) st" where
  "submit_and_complete_admin_command D fuel = submit_and_complete_command D fuel 0"

text \<open>The allocator of the I/O queues works on the same state.\<close>

definition create_io_completion_queue ::
  "'d nvme mem_ops \<Rightarrow> 'd nvme_dev \<Rightarrow> nat \<Rightarrow> u16 \<Rightarrow> u16 option \<Rightarrow> ('d nvme, unit, errno) st" where
  "create_io_completion_queue K D fuel io_cq_id vector =
     bind_m
       (\<lambda>s. case nv_cqs s io_cq_id of
           Some (q, l) \<Rightarrow> (Ok q, s)
         | None \<Rightarrow> (case comp_queue_new K s of
               (Ok q, s') \<Rightarrow> (Ok q, s'\<lparr>nv_cqs := (nv_cqs s')(io_cq_id \<mapsto> (q, []))\<rparr>)
             | (_, s') \<Rightarrow> (Panic, s')))
       (\<lambda>q. if cq_len q \<ge> 2 ^ 16 \<or> cq_len q = 0 then panic_m
            else bind_m
              (submit_and_complete_admin_command D fuel (\<lambda>c.
                 create_io_completion_queue_cmd c io_cq_id (dma_phys (cq_data q))
                   (of_nat (cq_len q - 1)) vector))
              (\<lambda>_ s. (Ok (), case vector of
                  None \<Rightarrow> s
                | Some v \<Rightarrow> s\<lparr>nv_cqs_for_ivs := (nv_cqs_for_ivs s)(v \<mapsto>
                     (case nv_cqs_for_ivs s v of None \<Rightarrow> [] | Some l \<Rightarrow> l) @ [io_cq_id])\<rparr>)))"

definition create_io_submission_queue ::
  "'d nvme mem_ops \<Rightarrow> 'd nvme_dev \<Rightarrow> nat \<Rightarrow> u16 \<Rightarrow> u16 \<Rightarrow> ('d nvme, unit, errno) st" where
  "create_io_submission_queue K D fuel io_sq_id io_cq_id =
     bind_m
       (\<lambda>s. case nv_sqs s io_sq_id of
           Some (q, c) \<Rightarrow> (Ok q, s)
         | None \<Rightarrow> (case cmd_queue_new K s of
               (Ok q, s') \<Rightarrow> (Ok q, s'\<lparr>nv_sqs := (nv_sqs s')(io_sq_id \<mapsto> (q, io_cq_id))\<rparr>)
             | (_, s') \<Rightarrow> (Panic, s')))
       (\<lambda>q. if sq_len q \<ge> 2 ^ 16 \<or> sq_len q = 0 then panic_m
            else bind_m
              (submit_and_complete_admin_command D fuel (\<lambda>c.
                 create_io_submission_queue_cmd c io_sq_id (dma_phys (sq_data q))
                   (of_nat (sq_len q - 1)) io_cq_id))
              (\<lambda>_. return_m ()))"

subsection \<open>Namespaces\<close>

record nvme_namespace =
  ns_id :: u32
  ns_blocks :: u64
  ns_block_size :: u64

definition namespace_rw ::
  "'d nvme_dev \<Rightarrow> nat \<Rightarrow> nvme_namespace \<Rightarrow> u32 \<Rightarrow> u64 \<Rightarrow> u16 \<Rightarrow> bool \<Rightarrow> ('d nvme, unit, errno) st" where
  "namespace_rw D fuel ns nid lba blocks_1 write s =
     (let block_size = ns_block_size ns;
          prp = nv_prp s;
          nbytes = (ucast blocks_1 + 1) * block_size :: u64;
          ptr0 = dma_data prp ! 0;
          ptr1 = (if nbytes \<le> 4096 then 0
                  else if nbytes \<le> 8192 then dma_data prp ! 1
                  else dma_phys prp + 8)
      in bind_m
           (submit_and_complete_command D fuel 1 (\<lambda>c.
              if write then io_write_cmd c nid lba blocks_1 ptr0 ptr1
              else io_read_cmd c nid lba blocks_1 ptr0 ptr1))
           (\<lambda>comp. if drop_bit 1 (comp_status comp) = 0 then return_m () else fail_m EIO) s)"

definition chunk_size :: nat where
  "chunk_size = 8192"

function namespace_read_loop ::
  "'d nvme_dev \<Rightarrow> nat \<Rightarrow> nvme_namespace \<Rightarrow> u32 \<Rightarrow> u64 \<Rightarrow> bytes \<Rightarrow> 'd nvme
    \<Rightarrow> (unit, errno) res \<times> bytes \<times> 'd nvme" where
  "namespace_read_loop D fuel ns nid lba buf s =
     (if buf = [] then (Ok (), [], s)
      else
        let bs = unat (ns_block_size ns); n = min chunk_size (length buf)
        in if bs = 0 then (Panic, buf, s)
           else
             let blocks = (n + bs - 1) div bs
             in if \<not> 0 < blocks \<or> \<not> blocks \<le> 0x10000 then (Panic, buf, s)
                else (case namespace_rw D fuel ns nid lba (of_nat (blocks - 1)) False s of
                    (Ok _, s1) \<Rightarrow>
                      if length (dma_data (nv_buffer s1)) < n then (Panic, buf, s1)
                      else (case namespace_read_loop D fuel ns nid (lba + of_nat blocks)
                                   (drop n buf) s1 of
                          (r, rest, s2) \<Rightarrow> (r, take n (dma_data (nv_buffer s1)) @ rest, s2))
                  | (Err e, s1) \<Rightarrow> (Err e, buf, s1)
                  | (Panic, s1) \<Rightarrow> (Panic, buf, s1)
                  | (NoFuel, s1) \<Rightarrow> (NoFuel, buf, s1)))"
  by pat_completeness auto
termination by (relation "measure (\<lambda>(D, fuel, ns, nid, lba, buf, s). length buf)")
    (auto simp: chunk_size_def)

declare namespace_read_loop.simps [simp del]

definition namespace_read ::
  "'d nvme_dev \<Rightarrow> nat \<Rightarrow> nvme_namespace \<Rightarrow> u32 \<Rightarrow> u64 \<Rightarrow> bytes \<Rightarrow> 'd nvme
    \<Rightarrow> (nat option, errno) res \<times> bytes \<times> 'd nvme" where
  "namespace_read D fuel ns nid lba buf s =
     (case namespace_read_loop D fuel ns nid lba buf s of
        (r, buf', s') \<Rightarrow> (map_res (\<lambda>_. Some (length buf)) r, buf', s'))"

function namespace_write_loop ::
  "'d nvme_dev \<Rightarrow> nat \<Rightarrow> nvme_namespace \<Rightarrow> u32 \<Rightarrow> u64 \<Rightarrow> bytes \<Rightarrow> ('d nvme, unit, errno) st" where
  "namespace_write_loop D fuel ns nid lba buf s =
     (if buf = [] then (Ok (), s)
      else
        let bs = unat (ns_block_size ns); n = min chunk_size (length buf)
        in if bs = 0 then (Panic, s)
           else
             let blocks = (n + bs - 1) div bs
             in if \<not> 0 < blocks \<or> \<not> blocks \<le> 0x10000 \<or> length (dma_data (nv_buffer s)) < n
                then (Panic, s)
                else
                  bind_m
                    (\<lambda>s. namespace_rw D fuel ns nid lba (of_nat (blocks - 1)) True
                       (s\<lparr>nv_buffer := (nv_buffer s)\<lparr>dma_data :=
                          take n buf @ drop n (dma_data (nv_buffer s))\<rparr>\<rparr>))
                    (\<lambda>_. namespace_write_loop D fuel ns nid (lba + of_nat blocks) (drop n buf)) s)"
  by pat_completeness auto
termination by (relation "measure (\<lambda>(D, fuel, ns, nid, lba, buf, s). length buf)")
    (auto simp: chunk_size_def)

declare namespace_write_loop.simps [simp del]

definition namespace_write ::
  "'d nvme_dev \<Rightarrow> nat \<Rightarrow> nvme_namespace \<Rightarrow> u32 \<Rightarrow> u64 \<Rightarrow> bytes \<Rightarrow> ('d nvme, nat option, errno) st" where
  "namespace_write D fuel ns nid lba buf =
     bind_m (namespace_write_loop D fuel ns nid lba buf) (\<lambda>_. return_m (Some (length buf)))"

subsection \<open>What the controller promises\<close>

text \<open>
  The fields of an I/O command as the controller reads them, and the physical address of byte
  \<open>i\<close> of a transfer of at most two pages: the first data pointer holds the first page, the second
  one the second page (NVMe section 4.3).
\<close>

definition cmd_lba :: "nvme_cmd \<Rightarrow> u64" where
  "cmd_lba c = push_bit 32 (ucast (cdw11 c)) OR ucast (cdw10 c)"

definition cmd_bytes :: "nat \<Rightarrow> nvme_cmd \<Rightarrow> nat" where
  "cmd_bytes bs c = (unat (cdw12 c AND 0xFFFF) + 1) * bs"

definition prp_addr :: "nvme_cmd \<Rightarrow> nat \<Rightarrow> u64" where
  "prp_addr c i = (if i < 4096 then dptr0 c + of_nat i else dptr1 c + of_nat (i - 4096))"

definition buffer_pos :: "'d nvme \<Rightarrow> u64 \<Rightarrow> nat" where
  "buffer_pos s a = unat (a - dma_phys (nv_buffer s))"

text \<open>A read or write the controller can execute on a disk of the given contents.\<close>

definition valid_io :: "('d \<Rightarrow> bytes) \<Rightarrow> u32 \<Rightarrow> nat \<Rightarrow> 'd nvme \<Rightarrow> nvme_cmd \<Rightarrow> bool" where
  "valid_io img nid bs s c \<longleftrightarrow>
     (opcode c = 1 \<or> opcode c = 2) \<and> nsid c = nid \<and> cmd_bytes bs c \<le> 8192
     \<and> unat (cmd_lba c) * bs + cmd_bytes bs c \<le> length (img (nv_dev s))
     \<and> (\<forall>i < cmd_bytes bs c. buffer_pos s (prp_addr c i) < length (dma_data (nv_buffer s)))
     \<and> inj_on (\<lambda>i. buffer_pos s (prp_addr c i)) {..<cmd_bytes bs c}"

definition io_done :: "('d \<Rightarrow> bytes) \<Rightarrow> nat \<Rightarrow> nvme_cmd \<Rightarrow> 'd nvme \<Rightarrow> 'd nvme \<Rightarrow> bool" where
  "io_done img bs c s s' \<longleftrightarrow>
     nv_prp s' = nv_prp s \<and> dma_phys (nv_buffer s') = dma_phys (nv_buffer s)
     \<and> length (dma_data (nv_buffer s')) = length (dma_data (nv_buffer s))
     \<and> (if opcode c = 2 then
          img (nv_dev s') = img (nv_dev s)
          \<and> (\<forall>i < cmd_bytes bs c. dma_data (nv_buffer s') ! buffer_pos s (prp_addr c i)
               = img (nv_dev s) ! (unat (cmd_lba c) * bs + i))
        else
          nv_buffer s' = nv_buffer s
          \<and> img (nv_dev s') = blit (img (nv_dev s)) (unat (cmd_lba c) * bs)
               (map (\<lambda>i. dma_data (nv_buffer s) ! buffer_pos s (prp_addr c i)) [0..<cmd_bytes bs c]))"

definition one_outstanding :: "cmd_queue \<Rightarrow> bool" where
  "one_outstanding q \<longleftrightarrow> sq_wf q \<and> 2 \<le> sq_len q \<and> unat (sq_head q) < sq_len q
     \<and> unat (sq_tail q) = (unat (sq_head q) + 1) mod sq_len q"

text \<open>No entry waits in the completion queue: the tags up to the head are of this turn.\<close>

definition quiet :: "comp_queue \<Rightarrow> bool" where
  "quiet q \<longleftrightarrow> cq_wf q \<and> (\<forall>j < cq_len q.
     tagged (if j < unat (cq_head q) then cq_phase q else \<not> cq_phase q) (dma_data (cq_data q) ! j))"

definition cq_put :: "nvme_comp \<Rightarrow> comp_queue \<Rightarrow> comp_queue" where
  "cq_put e q = q\<lparr>cq_data := (cq_data q)\<lparr>dma_data :=
     (dma_data (cq_data q))[unat (cq_head q) := e]\<rparr>\<rparr>"

text \<open>
  The controller executes the one outstanding command of I/O queue 1 within \<open>L\<close> pauses of the
  driver and posts its completion; until then it leaves the completion queues alone, and the
  doorbells do not change memory.
\<close>

definition serves :: "'d nvme_dev \<Rightarrow> ('d \<Rightarrow> bytes) \<Rightarrow> u32 \<Rightarrow> nat \<Rightarrow> nat \<Rightarrow> bool" where
  "serves D img nid bs L \<longleftrightarrow>
     (\<forall>off v s. 0x1000 \<le> off \<longrightarrow>
        (\<exists>d. reg_write D off v s = s\<lparr>nv_dev := d\<rparr> \<and> img d = img (nv_dev s)))
     \<and> (\<forall>s sq cq l c. nv_sqs s 1 = Some (sq, 1) \<longrightarrow> nv_cqs s 1 = Some (cq, l) \<longrightarrow>
          one_outstanding sq \<longrightarrow> quiet cq \<longrightarrow> c = dma_data (sq_data sq) ! unat (sq_head sq) \<longrightarrow>
          valid_io img nid bs s c \<longrightarrow>
          (\<exists>n \<le> L. \<exists>e s'. s' = (dev_yield D ^^ n) s
             \<and> (\<forall>j < n. nv_cqs ((dev_yield D ^^ j) s) = nv_cqs s)
             \<and> nv_sqs s' = nv_sqs s \<and> nv_cqs s' = (nv_cqs s)(1 \<mapsto> (cq_put e cq, l))
             \<and> comp_sq_id e = 1 \<and> comp_cid e = cid c \<and> comp_sq_head e = sq_tail sq
             \<and> tagged (cq_phase cq) e \<and> drop_bit 1 (comp_status e) = 0
             \<and> io_done img bs c s s'))"

subsection \<open>One command\<close>

text \<open>The driver between two commands.\<close>

definition idle :: "'d nvme \<Rightarrow> bool" where
  "idle s \<longleftrightarrow> (\<exists>sq cq l. nv_sqs s 1 = Some (sq, 1) \<and> nv_cqs s 1 = Some (cq, l)
     \<and> sq_wf sq \<and> 2 \<le> sq_len sq \<and> sq_head sq = sq_tail sq \<and> quiet cq)"

lemma cq_put_simps [simp]:
  "cq_len (cq_put e q) = cq_len q" "cq_head (cq_put e q) = cq_head q"
  "cq_phase (cq_put e q) = cq_phase q" "cq_wf (cq_put e q) = cq_wf q"
  by (simp_all add: cq_put_def cq_len_def cq_wf_def)

lemma cq_entry_put: "cq_wf q \<Longrightarrow> cq_entry (cq_put e q) = e"
  by (simp add: cq_entry_def cq_put_def cq_wf_def cq_len_def)

lemma quiet_not_tagged: "quiet q \<Longrightarrow> \<not> tagged (cq_phase q) (cq_entry q)"
proof -
  assume q: "quiet q"
  then have "tagged (\<not> cq_phase q) (cq_entry q)"
    unfolding quiet_def cq_wf_def cq_entry_def by (auto dest!: spec [of _ "unat (cq_head q)"])
  then show ?thesis by (simp add: tagged_def)
qed

lemma quiet_put_advance:
  assumes "quiet q" and "tagged (cq_phase q) e"
  shows "quiet (cq_advance (cq_put e q))"
proof -
  let ?h = "unat (cq_head q)" and ?q = "cq_advance (cq_put e q)"
  have wf: "cq_wf (cq_put e q)" using assms(1) by (simp add: quiet_def)
  then have h: "?h < cq_len q" by (simp add: cq_wf_def)
  have d: "dma_data (cq_data ?q) = (dma_data (cq_data q))[?h := e]"
    by (simp add: cq_advance_def Let_def cq_put_def)
  have head: "unat (cq_head ?q) = (if ?h + 1 < cq_len q then ?h + 1 else 0)"
    using cq_cursor.slot_advance [OF wf] suc_mod_cases [OF h] by simp
  have phase: "cq_phase ?q = (if ?h + 1 = cq_len q then \<not> cq_phase q else cq_phase q)"
    using cq_cursor.phase_advance [OF wf] by simp
  have "tagged (if j < unat (cq_head ?q) then cq_phase ?q else \<not> cq_phase ?q)
      ((dma_data (cq_data q))[?h := e] ! j)" if j: "j < cq_len q" for j
  proof (cases "j = ?h")
    case True
    then show ?thesis using assms(2) h head phase by (auto simp: cq_len_def)
  next
    case False
    have old: "tagged (if j < ?h then cq_phase q else \<not> cq_phase q) (dma_data (cq_data q) ! j)"
      using assms(1) j by (simp add: quiet_def)
    show ?thesis
    proof (cases "?h + 1 = cq_len q")
      case True
      then have "j < ?h" using False j by simp
      then show ?thesis using old False True head phase by simp
    next
      case notlast: False
      then have "j < unat (cq_head ?q) \<longleftrightarrow> j < ?h" using False h head by auto
      then show ?thesis using old False notlast phase by (cases "j < ?h") simp_all
    qed
  qed
  then show ?thesis using cq_cursor.valid_advance [OF wf] by (simp add: quiet_def d)
qed

lemma complete_some:
  "complete (Some (i, c)) q = (if cq_len q \<le> unat (cq_head q) then (Panic, q)
     else if comp_sq_id (cq_entry q) \<noteq> i \<or> comp_cid (cq_entry q) \<noteq> cid c then (Ok None, q)
     else complete None q)"
  by (simp add: complete_def Let_def)

lemma poll_none:
  assumes "nv_cqs s 1 = Some (cq, l)" and "quiet cq"
  shows "poll_completion D 1 c s = (Ok None, s)"
proof -
  have wf: "cq_wf cq" using assms(2) by (simp add: quiet_def)
  then have "complete (Some (1, c)) cq = (Ok None, cq)"
    using quiet_not_tagged [OF assms(2)] by (simp add: complete_some complete_none cq_wf_def)
  moreover have "(nv_cqs s)(1 \<mapsto> (cq, l)) = nv_cqs s" using assms(1) by (simp add: map_upd_triv)
  ultimately show ?thesis using assms(1) by (simp add: poll_completion_def)
qed

lemma serves_doorbell:
  assumes "serves D img nid bs L"
  shows "\<exists>d. doorbell_write D i v s = s\<lparr>nv_dev := d\<rparr> \<and> img d = img (nv_dev s)"
proof -
  have "0x1000 \<le> off \<longrightarrow> (\<exists>d. reg_write D off v s = s\<lparr>nv_dev := d\<rparr> \<and> img d = img (nv_dev s))"
    for off
    using assms unfolding serves_def by blast
  then show ?thesis by (simp add: doorbell_write_def Let_def)
qed

lemma serves_io:
  assumes "serves D img nid bs L" and "nv_sqs s 1 = Some (sq, 1)" and "nv_cqs s 1 = Some (cq, l)"
    and "one_outstanding sq" and "quiet cq"
    and "valid_io img nid bs s (dma_data (sq_data sq) ! unat (sq_head sq))"
  shows "\<exists>n \<le> L. \<exists>e s'. s' = (dev_yield D ^^ n) s
    \<and> (\<forall>j < n. nv_cqs ((dev_yield D ^^ j) s) = nv_cqs s)
    \<and> nv_sqs s' = nv_sqs s \<and> nv_cqs s' = (nv_cqs s)(1 \<mapsto> (cq_put e cq, l))
    \<and> comp_sq_id e = 1 \<and> comp_cid e = cid (dma_data (sq_data sq) ! unat (sq_head sq))
    \<and> comp_sq_head e = sq_tail sq
    \<and> tagged (cq_phase cq) e \<and> drop_bit 1 (comp_status e) = 0
    \<and> io_done img bs (dma_data (sq_data sq) ! unat (sq_head sq)) s s'"
  by (rule assms(1) [unfolded serves_def, THEN conjunct2, rule_format, OF assms(2-5) refl assms(6)])

lemma poll_hit:
  assumes "nv_cqs s 1 = Some (cq_put e cq, l)" and "quiet cq" and "tagged (cq_phase cq) e"
    and "comp_sq_id e = 1" and "comp_cid e = cid c" and "nv_sqs s 1 = Some (sq, 1)"
    and "serves D img nid bs L"
  shows "\<exists>d. poll_completion D 1 c s = (Ok (Some e),
      s\<lparr>nv_cqs := (nv_cqs s)(1 \<mapsto> (cq_advance (cq_put e cq), l)), nv_dev := d,
        nv_sqs := (nv_sqs s)(1 \<mapsto> (sq\<lparr>sq_head := comp_sq_head e\<rparr>, 1))\<rparr>)
    \<and> img d = img (nv_dev s)"
proof -
  have wf: "cq_wf cq" using assms(2) by (simp add: quiet_def)
  let ?cq = "cq_advance (cq_put e cq)"
  have c: "complete (Some (1, c)) (cq_put e cq) = (Ok (Some (cq_head ?cq, e)), ?cq)"
    using wf assms(3-5) by (simp add: complete_some complete_none cq_entry_put) (simp add: cq_wf_def)
  let ?s = "s\<lparr>nv_cqs := (nv_cqs s)(1 \<mapsto> (?cq, l))\<rparr>"
  obtain d where d: "completion_queue_head D 1 (cq_head ?cq) ?s = ?s\<lparr>nv_dev := d\<rparr>"
      "img d = img (nv_dev s)"
    using serves_doorbell [OF assms(7), of "2 * unat (1 :: u16) + 1" "ucast (cq_head ?cq)" ?s]
    by (auto simp: completion_queue_head_def)
  show ?thesis
    using assms(1,4,5,6) c d by (intro exI [of _ d]) (simp add: poll_completion_def Let_def)
qed

lemma wait_completion_after:
  assumes "\<And>j. j < n \<Longrightarrow> nv_cqs ((dev_yield D ^^ j) s) 1 = Some (cq, l)" and "quiet cq"
    and "poll_completion D 1 c ((dev_yield D ^^ n) s) = (Ok (Some e), s')" and "n < fuel"
  shows "wait_completion D fuel 1 c s = (Ok e, s')"
  using assms
proof (induction n arbitrary: s fuel)
  case 0
  then obtain f where "fuel = Suc f" by (cases fuel) auto
  with 0 show ?case by (simp add: bind_m_def return_m_def)
next
  case (Suc n)
  then obtain f where f: "fuel = Suc f" "n < f" by (cases fuel) auto
  have "nv_cqs s 1 = Some (cq, l)" using Suc.prems(1) [of 0] by simp
  then have none: "poll_completion D 1 c s = (Ok None, s)" using Suc.prems(2) by (rule poll_none)
  have "wait_completion D f 1 c (dev_yield D s) = (Ok e, s')"
  proof (rule Suc.IH [OF _ Suc.prems(2) _ f(2)])
    fix j assume "j < n"
    then show "nv_cqs ((dev_yield D ^^ j) (dev_yield D s)) 1 = Some (cq, l)"
      using Suc.prems(1) [of "Suc j"] by (simp add: funpow_swap1)
  next
    show "poll_completion D 1 c ((dev_yield D ^^ n) (dev_yield D s)) = (Ok (Some e), s')"
      using Suc.prems(3) by (simp add: funpow_swap1)
  qed
  then show ?case by (simp add: f bind_m_def none)
qed

lemma submit_idle:
  assumes "nv_sqs s 1 = Some (sq, 1)" and "sq_wf sq" and "2 \<le> sq_len sq"
    and "sq_head sq = sq_tail sq" and "serves D img nid bs L"
  shows "\<exists>d. submit_command D 1 f s = (Ok (f (sq_tail sq)),
      s\<lparr>nv_sqs := (nv_sqs s)(1 \<mapsto> (sq_advance (f (sq_tail sq)) sq, 1)), nv_dev := d\<rparr>)
      \<and> img d = img (nv_dev s)"
    and "one_outstanding (sq_advance c sq)"
    and "dma_data (sq_data (sq_advance c sq)) ! unat (sq_head (sq_advance c sq)) = c"
    and "sq_wf (sq_advance c sq)"
proof -
  let ?c = "f (sq_tail sq)"
  let ?s = "s\<lparr>nv_sqs := (nv_sqs s)(1 \<mapsto> (sq_advance ?c sq, 1))\<rparr>"
  have nf: "\<not> is_full sq" using assms(4) by (simp add: is_full_def)
  obtain d where d: "submission_queue_tail D 1 (sq_tail (sq_advance ?c sq)) ?s = ?s\<lparr>nv_dev := d\<rparr>"
      "img d = img (nv_dev s)"
    using serves_doorbell [OF assms(5), of "2 * unat (1 :: u16)"
        "ucast (sq_tail (sq_advance ?c sq))" ?s]
    by (auto simp: submission_queue_tail_def)
  show "\<exists>d. submit_command D 1 f s = (Ok ?c,
      s\<lparr>nv_sqs := (nv_sqs s)(1 \<mapsto> (sq_advance ?c sq, 1)), nv_dev := d\<rparr>) \<and> img d = img (nv_dev s)"
    using assms(1) nf d
    by (intro exI [of _ d]) (simp add: submit_command_def Let_def submit_unchecked_eq [OF assms(2)])
  have h: "sq_head (sq_advance c sq) = sq_tail sq" using assms(4) by (simp add: sq_advance_def)
  have b: "unat (sq_tail sq) < sq_len sq" using assms(2) by (simp add: sq_wf_def)
  show wf: "sq_wf (sq_advance c sq)" by (rule sq_cursor.valid_advance [OF assms(2)])
  show "one_outstanding (sq_advance c sq)"
    using sq_cursor.slot_advance [OF assms(2), of c] wf b h assms(3) by (simp add: one_outstanding_def)
  show "dma_data (sq_data (sq_advance c sq)) ! unat (sq_head (sq_advance c sq)) = c"
    using b h by (simp add: sq_advance_data sq_len_def)
qed

text \<open>The contract looks at the memory and the disk contents only.\<close>

lemma io_cong:
  assumes "nv_prp t = nv_prp s" "nv_buffer t = nv_buffer s" "img (nv_dev t) = img (nv_dev s)"
  shows "valid_io img nid bs t c = valid_io img nid bs s c"
    and "io_done img bs c t s' = io_done img bs c s s'"
    and "io_done img bs c s' t = io_done img bs c s' s"
  using assms by (simp_all add: valid_io_def io_done_def buffer_pos_def)

lemma io_command:
  assumes srv: "serves D img nid bs L" and idle: "idle s" and fuel: "L < fuel"
    and io: "\<And>t. valid_io img nid bs s (f t)"
  shows "\<exists>t e s'. submit_and_complete_command D fuel 1 f s = (Ok e, s')
    \<and> drop_bit 1 (comp_status e) = 0 \<and> idle s' \<and> io_done img bs (f t) s s'"
proof -
  from idle obtain sq cq l where i: "nv_sqs s 1 = Some (sq, 1)" "nv_cqs s 1 = Some (cq, l)"
      "sq_wf sq" "2 \<le> sq_len sq" "sq_head sq = sq_tail sq" "quiet cq"
    by (auto simp: idle_def)
  let ?c = "f (sq_tail sq)"
  obtain d where sub: "submit_command D 1 f s = (Ok ?c,
      s\<lparr>nv_sqs := (nv_sqs s)(1 \<mapsto> (sq_advance ?c sq, 1)), nv_dev := d\<rparr>)"
      and d: "img d = img (nv_dev s)"
    using submit_idle(1) [OF i(1,3-5) srv, of f] by auto
  let ?t = "s\<lparr>nv_sqs := (nv_sqs s)(1 \<mapsto> (sq_advance ?c sq, 1)), nv_dev := d\<rparr>"
  have t: "nv_sqs ?t 1 = Some (sq_advance ?c sq, 1)" "nv_cqs ?t 1 = Some (cq, l)"
      "valid_io img nid bs ?t ?c"
    using i(2) io d io_cong(1) [of ?t s img nid bs ?c] by simp_all
  note last = submit_idle(3) [OF i(1,3-5) srv, of ?c]
  from serves_io [OF srv t(1,2) submit_idle(2) [OF i(1,3-5) srv] i(6), unfolded last, OF t(3)]
  obtain n e s1 where n: "n \<le> L" "s1 = (dev_yield D ^^ n) ?t"
      "\<forall>j < n. nv_cqs ((dev_yield D ^^ j) ?t) = nv_cqs ?t"
      "nv_sqs s1 = nv_sqs ?t" "nv_cqs s1 = (nv_cqs ?t)(1 \<mapsto> (cq_put e cq, l))"
      "comp_sq_id e = 1" "comp_cid e = cid ?c" "comp_sq_head e = sq_tail (sq_advance ?c sq)"
      "tagged (cq_phase cq) e" "drop_bit 1 (comp_status e) = 0" "io_done img bs ?c ?t s1"
    by blast
  have s1: "nv_cqs s1 1 = Some (cq_put e cq, l)" "nv_sqs s1 1 = Some (sq_advance ?c sq, 1)"
    using n(4,5) t by simp_all
  obtain d' where hit: "poll_completion D 1 ?c s1 = (Ok (Some e),
      s1\<lparr>nv_cqs := (nv_cqs s1)(1 \<mapsto> (cq_advance (cq_put e cq), l)), nv_dev := d',
        nv_sqs := (nv_sqs s1)(1 \<mapsto> ((sq_advance ?c sq)\<lparr>sq_head := comp_sq_head e\<rparr>, 1))\<rparr>)"
      (is "_ = (_, ?s2)") and d': "img d' = img (nv_dev s1)"
    using poll_hit [OF s1(1) i(6) n(9,6,7) s1(2) srv] by auto
  have wait: "wait_completion D fuel 1 ?c ?t = (Ok e, ?s2)"
    using n(1-3) t(2) hit fuel
    by (intro wait_completion_after [where n = n, OF _ i(6)]) simp_all
  have "submit_and_complete_command D fuel 1 f s = (Ok e, ?s2)"
    by (simp add: submit_and_complete_command_def bind_m_def sub wait)
  moreover have "idle ?s2"
    unfolding idle_def
  proof (intro exI conjI)
    show "nv_sqs ?s2 1 = Some ((sq_advance ?c sq)\<lparr>sq_head := comp_sq_head e\<rparr>, 1)" by simp
    show "nv_cqs ?s2 1 = Some (cq_advance (cq_put e cq), l)" by simp
    show "sq_wf ((sq_advance ?c sq)\<lparr>sq_head := comp_sq_head e\<rparr>)"
      "2 \<le> sq_len ((sq_advance ?c sq)\<lparr>sq_head := comp_sq_head e\<rparr>)"
      using submit_idle(4) [OF i(1,3-5) srv, of ?c] i(4) sq_advance_len [of ?c sq]
      by (simp_all add: sq_wf_def sq_len_def)
    show "sq_head ((sq_advance ?c sq)\<lparr>sq_head := comp_sq_head e\<rparr>)
      = sq_tail ((sq_advance ?c sq)\<lparr>sq_head := comp_sq_head e\<rparr>)" by (simp add: n(8))
    show "quiet (cq_advance (cq_put e cq))" by (rule quiet_put_advance [OF i(6) n(9)])
  qed
  moreover have "io_done img bs ?c s ?s2"
    using n(11) d d' io_cong(2) [of ?t s img bs ?c] io_cong(3) [of ?s2 s1 img bs ?c s] by simp
  ultimately show ?thesis using n(10) by blast
qed

subsection \<open>Reads and writes of a namespace\<close>

text \<open>The transfer buffer and the list of its pages, as initialisation leaves them.\<close>

definition buffers_ok :: "'d nvme \<Rightarrow> bool" where
  "buffers_ok s \<longleftrightarrow> 8192 \<le> length (dma_data (nv_buffer s)) \<and> 2 \<le> length (dma_data (nv_prp s))
     \<and> dma_data (nv_prp s) ! 0 = dma_phys (nv_buffer s)
     \<and> dma_data (nv_prp s) ! 1 = dma_phys (nv_buffer s) + 4096"

lemma fill_prp_ok:
  assumes "8192 \<le> length (dma_data (nv_buffer s))" and "2 \<le> length (dma_data (nv_prp s))"
  shows "buffers_ok (fill_prp s)"
proof -
  have "0 < length (dma_data (nv_prp s))" "1 < length (dma_data (nv_prp s))" using assms(2) by linarith+
  then show ?thesis using assms by (simp add: fill_prp_def buffers_ok_def)
qed

lemma lba_halves: "push_bit 32 (ucast (ucast (drop_bit 32 x) :: u32)) OR ucast (ucast x :: u32) = (x :: u64)"
  by (rule bit_word_eqI) (auto simp: bit_simps)

lemma io_cmd_fields:
  fixes b :: u16
  shows "cmd_lba (io_read_cmd c nid lba b p0 p1) = lba" "cmd_lba (io_write_cmd c nid lba b p0 p1) = lba"
    "cmd_bytes bs (io_read_cmd c nid lba b p0 p1) = (unat b + 1) * bs"
    "cmd_bytes bs (io_write_cmd c nid lba b p0 p1) = (unat b + 1) * bs"
    "opcode (io_read_cmd c nid lba b p0 p1) = 2" "opcode (io_write_cmd c nid lba b p0 p1) = 1"
    "nsid (io_read_cmd c nid lba b p0 p1) = nid" "nsid (io_write_cmd c nid lba b p0 p1) = nid"
    "dptr0 (io_read_cmd c nid lba b p0 p1) = p0" "dptr0 (io_write_cmd c nid lba b p0 p1) = p0"
    "dptr1 (io_read_cmd c nid lba b p0 p1) = p1" "dptr1 (io_write_cmd c nid lba b p0 p1) = p1"
proof -
  have m: "(0xFFFF :: u32) = mask 16" by (simp add: mask_eq_exp_minus_1)
  have "(ucast b :: u32) AND 0xFFFF = ucast b"
    unfolding m by (rule and_mask_I) (auto simp: bit_simps dest: bit_imp_le_length)
  then have "unat ((ucast b :: u32) AND 0xFFFF) = unat b" by (simp add: unat_ucast_u16)
  then show "cmd_bytes bs (io_read_cmd c nid lba b p0 p1) = (unat b + 1) * bs"
    "cmd_bytes bs (io_write_cmd c nid lba b p0 p1) = (unat b + 1) * bs"
    by (simp_all add: cmd_bytes_def nvme_cmd_defs)
qed (simp_all add: cmd_lba_def nvme_cmd_defs lba_halves)

lemma round_up_blocks:
  assumes "0 < (bs :: nat)"
  shows "n \<le> ((n + bs - 1) div bs) * bs"
    and "bs dvd m \<Longrightarrow> n \<le> m \<Longrightarrow> ((n + bs - 1) div bs) * bs \<le> m"
proof -
  have "n + bs - 1 = ((n + bs - 1) div bs) * bs + (n + bs - 1) mod bs" by simp
  moreover have "(n + bs - 1) mod bs < bs" using assms by simp
  ultimately show "n \<le> ((n + bs - 1) div bs) * bs" by linarith
  assume "bs dvd m" "n \<le> m"
  then obtain k where m: "m = k * bs" by (metis dvd_def mult.commute)
  have "(n + bs - 1) div bs \<le> (k * bs + (bs - 1)) div bs"
    using \<open>n \<le> m\<close> m assms by (intro div_le_mono) simp
  also have "\<dots> = k + (bs - 1) div bs" using assms by (intro div_mult_self3) simp
  also have "\<dots> = k" using assms by simp
  finally show "((n + bs - 1) div bs) * bs \<le> m" using m by simp
qed

lemma namespace_rw_ok:
  assumes srv: "serves D img nid bs L" and idle: "idle s" and buf: "buffers_ok s" and fuel: "L < fuel"
    and bs: "bs = unat (ns_block_size ns)" and n: "n = (unat b + 1) * bs" "n \<le> 8192"
    and range: "unat lba * bs + n \<le> length (img (nv_dev s))"
  shows "\<exists>s'. namespace_rw D fuel ns nid lba b w s = (Ok (), s') \<and> idle s' \<and> buffers_ok s'
    \<and> length (dma_data (nv_buffer s')) = length (dma_data (nv_buffer s))
    \<and> (if w then nv_buffer s' = nv_buffer s
           \<and> img (nv_dev s') = blit (img (nv_dev s)) (unat lba * bs) (take n (dma_data (nv_buffer s)))
       else img (nv_dev s') = img (nv_dev s)
           \<and> take n (dma_data (nv_buffer s')) = subslice (unat lba * bs) n (img (nv_dev s)))"
proof -
  let ?nb = "(ucast b + 1) * ns_block_size ns :: u64"
  let ?p1 = "if ?nb \<le> 4096 then 0 else if ?nb \<le> 8192 then dma_data (nv_prp s) ! 1
    else dma_phys (nv_prp s) + 8"
  let ?f = "\<lambda>c. if w then io_write_cmd c nid lba b (dma_data (nv_prp s) ! 0) ?p1
    else io_read_cmd c nid lba b (dma_data (nv_prp s) ! 0) ?p1"
  have nb: "unat ?nb = n"
  proof -
    have "unat (ucast b + 1 :: u64) = unat b + 1"
      using unat_u16_less [of b] unat_plus_u64 [of "ucast b" 1] by (simp add: unat_ucast_u16)
    then show ?thesis using n bs by (simp add: unat_word_ariths(2))
  qed
  have le: "?nb \<le> 4096 \<longleftrightarrow> n \<le> 4096" "?nb \<le> 8192" using nb n(2) by (simp_all add: word_le_nat_alt)
  have fields: "cmd_lba (?f t) = lba" "cmd_bytes bs (?f t) = n" "opcode (?f t) = (if w then 1 else 2)"
    "nsid (?f t) = nid" "dptr0 (?f t) = dma_data (nv_prp s) ! 0" "dptr1 (?f t) = ?p1" for t
    by (simp_all only: io_cmd_fields n(1) split: if_split) simp_all
  have pos: "buffer_pos s (prp_addr (?f t) i) = i" if "i < n" for t i
  proof -
    have "prp_addr (?f t) i = dma_phys (nv_buffer s) + of_nat i"
    proof (cases "i < 4096")
      case True
      then show ?thesis unfolding prp_addr_def fields using buf by (simp add: buffers_ok_def)
    next
      case False
      with that have "?p1 = dma_phys (nv_buffer s) + 4096"
        using le buf by (simp add: buffers_ok_def)
      moreover have "(4096 :: u64) + of_nat (i - 4096) = of_nat i"
        using False by (metis le_add_diff_inverse not_less of_nat_add of_nat_numeral)
      ultimately show ?thesis unfolding prp_addr_def fields using False
        by (simp add: add.assoc)
    qed
    moreover have "unat (of_nat i :: u64) = i" using that n(2) by (intro unat_of_nat_u64) simp
    ultimately show ?thesis by (simp add: buffer_pos_def)
  qed
  have "valid_io img nid bs s (?f t)" for t
    unfolding valid_io_def fields
  proof (intro conjI allI impI)
    show "inj_on (\<lambda>i. buffer_pos s (prp_addr (?f t) i)) {..<n}"
      by (rule inj_onI) (simp only: pos lessThan_iff)
    fix i assume "i < n"
    then show "buffer_pos s (prp_addr (?f t) i) < length (dma_data (nv_buffer s))"
      unfolding pos [OF \<open>i < n\<close>] using buf n(2) by (simp add: buffers_ok_def)
  qed (use n range in auto)
  from io_command [where f = ?f, OF srv idle fuel this] obtain t e s' where
    cmd: "submit_and_complete_command D fuel 1 ?f s = (Ok e, s')" and e: "drop_bit 1 (comp_status e) = 0"
    and idle': "idle s'" and don: "io_done img bs (?f t) s s'" by blast
  have "namespace_rw D fuel ns nid lba b w s = (Ok (), s')"
    unfolding namespace_rw_def Let_def bind_m_def cmd using e by (simp add: return_m_def)
  moreover have len: "nv_prp s' = nv_prp s" "dma_phys (nv_buffer s') = dma_phys (nv_buffer s)"
    "length (dma_data (nv_buffer s')) = length (dma_data (nv_buffer s))"
    using don by (simp_all add: io_done_def)
  moreover from this have "buffers_ok s'" using buf by (simp add: buffers_ok_def)
  moreover have "if w then nv_buffer s' = nv_buffer s
           \<and> img (nv_dev s') = blit (img (nv_dev s)) (unat lba * bs) (take n (dma_data (nv_buffer s)))
       else img (nv_dev s') = img (nv_dev s)
           \<and> take n (dma_data (nv_buffer s')) = subslice (unat lba * bs) n (img (nv_dev s))"
  proof (cases w)
    case True
    have "map (\<lambda>i. dma_data (nv_buffer s) ! buffer_pos s (prp_addr (?f t) i)) [0..<n]
      = take n (dma_data (nv_buffer s))"
      using buf n(2) by (intro nth_equalityI) (simp_all add: pos buffers_ok_def)
    then show ?thesis using don True unfolding io_done_def fields by simp
  next
    case False
    have *: "\<forall>i < n. dma_data (nv_buffer s') ! buffer_pos s (prp_addr (?f t) i)
        = img (nv_dev s) ! (unat lba * bs + i)"
      using don False unfolding io_done_def fields by simp
    have "dma_data (nv_buffer s') ! i = img (nv_dev s) ! (unat lba * bs + i)" if "i < n" for i
      using * [rule_format, OF that] unfolding pos [OF that] .
    then have "take n (dma_data (nv_buffer s')) = subslice (unat lba * bs) n (img (nv_dev s))"
      using buf n(2) range len(3) by (intro nth_equalityI) (simp_all add: buffers_ok_def)
    then show ?thesis using don False unfolding io_done_def fields by simp
  qed
  ultimately show ?thesis using idle' by blast
qed

text \<open>One round of the loops: the number of blocks of a chunk and what follows from the bounds.\<close>

lemma chunk_blocks:
  assumes bs: "0 < bs" "bs dvd chunk_size" "bs dvd sz" and n: "0 < n" "n \<le> chunk_size"
    and fit: "lba * bs + n \<le> sz" and blocks: "blocks = (n + bs - 1) div bs"
  shows "0 < blocks" "blocks \<le> 0x10000" "n \<le> blocks * bs" "blocks * bs \<le> chunk_size"
    "lba * bs + blocks * bs \<le> sz" "n = chunk_size \<Longrightarrow> blocks * bs = n"
    "unat (of_nat (blocks - 1) :: u16) + 1 = blocks"
proof -
  show le: "n \<le> blocks * bs" and up: "blocks * bs \<le> chunk_size"
    using round_up_blocks [OF bs(1)] bs(2) n(2) blocks by simp_all
  show pos: "0 < blocks" using le n(1) by (cases blocks) auto
  have "blocks * 1 \<le> blocks * bs" using bs(1) by (intro mult_le_mono2) simp
  then have small: "blocks \<le> chunk_size" using up by linarith
  then show "blocks \<le> 0x10000" by (simp add: chunk_size_def)
  have "bs dvd sz - lba * bs" using bs(3) by (simp add: dvd_diff_nat)
  then have "blocks * bs \<le> sz - lba * bs"
    using round_up_blocks(2) [OF bs(1)] fit blocks by simp
  then show "lba * bs + blocks * bs \<le> sz" using fit by simp
  show "n = chunk_size \<Longrightarrow> blocks * bs = n" using le up by simp
  have "unat (of_nat (blocks - 1) :: u16) = blocks - 1"
    using small by (intro unat_of_nat_u16) (simp add: chunk_size_def)
  then show "unat (of_nat (blocks - 1) :: u16) + 1 = blocks" using pos by simp
qed

lemma lba_advance:
  assumes "0 < bs" and "unat lba * bs + blocks * bs \<le> sz" and "sz < 2 ^ 64"
  shows "unat (lba + of_nat blocks :: u64) = unat lba + blocks"
proof (rule unat_plus_u64)
  have "(unat lba + blocks) * 1 \<le> (unat lba + blocks) * bs" using assms(1) by (intro mult_le_mono2) simp
  also have "\<dots> \<le> sz" using assms(2) by (simp add: distrib_right)
  finally show "unat lba + blocks < 2 ^ 64" using assms(3) by simp
qed

lemma namespace_read_loop_step:
  assumes "buf \<noteq> []" and "bs = unat (ns_block_size ns)" and "0 < bs"
    and "n = min chunk_size (length buf)" and "b = (n + bs - 1) div bs" and "0 < b" "b \<le> 0x10000"
    and "namespace_rw D fuel ns nid lba (of_nat (b - 1)) False s = (Ok (), s1)"
    and "n \<le> length (dma_data (nv_buffer s1))"
    and "namespace_read_loop D fuel ns nid (lba + of_nat b) (drop n buf) s1 = (r, rest, s2)"
  shows "namespace_read_loop D fuel ns nid lba buf s = (r, take n (dma_data (nv_buffer s1)) @ rest, s2)"
  unfolding namespace_read_loop.simps [of D fuel ns nid lba buf s] Let_def
    assms(2) [symmetric] assms(4) [symmetric] assms(5) [symmetric] assms(8)
  using assms(1,3,6,7,9) by (simp add: assms(10))

lemma namespace_read_loop_ok:
  assumes srv: "serves D img nid bs L" "L < fuel" and bs: "bs = unat (ns_block_size ns)"
    "0 < bs" "bs dvd chunk_size" and "bs dvd length (img (nv_dev s))"
    and "length (img (nv_dev s)) < 2 ^ 64" and "idle s" and "buffers_ok s"
    and "unat lba * bs + length buf \<le> length (img (nv_dev s))"
  shows "\<exists>s'. namespace_read_loop D fuel ns nid lba buf s
      = (Ok (), subslice (unat lba * bs) (length buf) (img (nv_dev s)), s')
      \<and> idle s' \<and> buffers_ok s' \<and> img (nv_dev s') = img (nv_dev s)"
  using assms(6-)
proof (induction "length buf" arbitrary: buf lba s rule: less_induct)
  case less
  define n where "n = min chunk_size (length buf)"
  define b where "b = (n + bs - 1) div bs"
  show ?case
  proof (cases "buf = []")
    case True
    then show ?thesis using less by (simp add: namespace_read_loop.simps)
  next
    case False
    then have n: "0 < n" "n \<le> chunk_size" "n \<le> length buf" by (simp_all add: n_def chunk_size_def)
    have fit: "unat lba * bs + n \<le> length (img (nv_dev s))" using less.prems(5) n(3) by simp
    note b = chunk_blocks [OF bs(2,3) less.prems(1) n(1,2) fit b_def]
    have small: "b * bs \<le> 8192" using b(4) by (simp add: chunk_size_def)
    have bytes: "b * bs = (unat (of_nat (b - 1) :: u16) + 1) * bs" by (simp only: b(7))
    obtain s1 where s1: "namespace_rw D fuel ns nid lba (of_nat (b - 1)) False s = (Ok (), s1)"
        "idle s1" "buffers_ok s1" "img (nv_dev s1) = img (nv_dev s)"
        "take (b * bs) (dma_data (nv_buffer s1)) = subslice (unat lba * bs) (b * bs) (img (nv_dev s))"
      using namespace_rw_ok [where w = False, OF srv(1) less.prems(3,4) srv(2) bs(1) bytes small b(5)]
      by auto
    have len: "n \<le> length (dma_data (nv_buffer s1))"
      using s1(3) n by (simp add: buffers_ok_def chunk_size_def)
    have "take n (take (b * bs) (dma_data (nv_buffer s1))) = take n (dma_data (nv_buffer s1))"
      using b(3) by (simp add: min_absorb1)
    then have chunk: "take n (dma_data (nv_buffer s1)) = subslice (unat lba * bs) n (img (nv_dev s))"
      unfolding s1(5) using b(3) by (simp add: subslice_def min_absorb1)
    have lba: "unat (lba + of_nat b) * bs = unat lba * bs + b * bs"
      unfolding lba_advance [OF bs(2) b(5) less.prems(2)] by (rule distrib_right)
    have "\<exists>s2. namespace_read_loop D fuel ns nid (lba + of_nat b) (drop n buf) s1
        = (Ok (), subslice (unat lba * bs + n) (length buf - n) (img (nv_dev s)), s2)
        \<and> idle s2 \<and> buffers_ok s2 \<and> img (nv_dev s2) = img (nv_dev s)"
    proof (cases "length buf = n")
      case True
      then show ?thesis using s1 by (simp add: namespace_read_loop.simps)
    next
      case False
      then have "n = chunk_size" using n(3) by (simp add: n_def)
      then have off: "unat (lba + of_nat b) * bs = unat lba * bs + n" using lba b(6) by simp
      have "unat (lba + of_nat b) * bs + length (drop n buf) \<le> length (img (nv_dev s1))"
        unfolding off s1(4) using less.prems(5) n(3) by simp
      from less.hyps [OF _ _ _ s1(2,3) this] show ?thesis
        unfolding off s1(4) using less.prems(1,2) n by simp
    qed
    then obtain s2 where s2: "namespace_read_loop D fuel ns nid (lba + of_nat b) (drop n buf) s1
        = (Ok (), subslice (unat lba * bs + n) (length buf - n) (img (nv_dev s)), s2)"
        "idle s2" "buffers_ok s2" "img (nv_dev s2) = img (nv_dev s)" by blast
    from namespace_read_loop_step [OF False bs(1,2) n_def b_def b(1,2) s1(1) len s2(1)]
    show ?thesis
      unfolding chunk subslice_append_adjacent using s2(2-4) n(3) by simp
  qed
qed


subsection \<open>Writing\<close>

lemma namespace_write_loop_step:
  assumes "buf \<noteq> []" and "bs = unat (ns_block_size ns)" and "0 < bs"
    and "n = min chunk_size (length buf)" and "b = (n + bs - 1) div bs" and "0 < b" "b \<le> 0x10000"
    and "n \<le> length (dma_data (nv_buffer s))"
    and "namespace_rw D fuel ns nid lba (of_nat (b - 1)) True (s\<lparr>nv_buffer := (nv_buffer s)\<lparr>dma_data :=
           take n buf @ drop n (dma_data (nv_buffer s))\<rparr>\<rparr>) = (Ok (), s1)"
  shows "namespace_write_loop D fuel ns nid lba buf s
    = namespace_write_loop D fuel ns nid (lba + of_nat b) (drop n buf) s1"
  unfolding namespace_write_loop.simps [of D fuel ns nid lba buf s] Let_def bind_m_def
    assms(2) [symmetric] assms(4) [symmetric] assms(5) [symmetric] assms(9)
  using assms(1,3,6,7,8) by simp

lemma blit_append:
  "off + length (a @ b) \<le> length xs \<Longrightarrow> blit (blit xs off a) (off + length a) b = blit xs off (a @ b)"
  by (simp add: blit_def ac_simps)

lemma namespace_write_loop_ok:
  assumes srv: "serves D img nid bs L" "L < fuel" and bs: "bs = unat (ns_block_size ns)"
    "0 < bs" "bs dvd chunk_size" and "bs dvd length (img (nv_dev s))"
    and "length (img (nv_dev s)) < 2 ^ 64" and "idle s" and "buffers_ok s"
    and "unat lba * bs + length buf \<le> length (img (nv_dev s))" and "bs dvd length buf"
  shows "\<exists>s'. namespace_write_loop D fuel ns nid lba buf s = (Ok (), s')
      \<and> idle s' \<and> buffers_ok s' \<and> img (nv_dev s') = blit (img (nv_dev s)) (unat lba * bs) buf"
  using assms(6-)
proof (induction "length buf" arbitrary: buf lba s rule: less_induct)
  case less
  define n where "n = min chunk_size (length buf)"
  define b where "b = (n + bs - 1) div bs"
  show ?case
  proof (cases "buf = []")
    case True
    then show ?thesis using less by (simp add: namespace_write_loop.simps blit_def)
  next
    case False
    then have n: "0 < n" "n \<le> chunk_size" "n \<le> length buf" by (simp_all add: n_def chunk_size_def)
    have dvd: "bs dvd n" using bs(3) less.prems(6) by (simp add: n_def min_def)
    have fit: "unat lba * bs + n \<le> length (img (nv_dev s))" using less.prems(5) n(3) by simp
    note b = chunk_blocks [OF bs(2,3) less.prems(1) n(1,2) fit b_def]
    have bn: "b * bs = n" using b(3) round_up_blocks(2) [OF bs(2) dvd order_refl] b_def by simp
    define t where "t = s\<lparr>nv_buffer := (nv_buffer s)\<lparr>dma_data :=
      take n buf @ drop n (dma_data (nv_buffer s))\<rparr>\<rparr>"
    have len: "n \<le> length (dma_data (nv_buffer s))"
      using less.prems(4) n by (simp add: buffers_ok_def chunk_size_def)
    have t: "idle t" "buffers_ok t" "img (nv_dev t) = img (nv_dev s)"
      "take n (dma_data (nv_buffer t)) = take n buf"
      using less.prems(3,4) len n(3) by (simp_all add: t_def idle_def buffers_ok_def)
    have bytes: "n = (unat (of_nat (b - 1) :: u16) + 1) * bs" by (simp only: b(7) bn)
    have small: "n \<le> 8192" using n(2) by (simp add: chunk_size_def)
    obtain s1 where s1: "namespace_rw D fuel ns nid lba (of_nat (b - 1)) True t = (Ok (), s1)"
        "idle s1" "buffers_ok s1" "img (nv_dev s1) = blit (img (nv_dev s)) (unat lba * bs) (take n buf)"
      using namespace_rw_ok [where w = True, OF srv(1) t(1,2) srv(2) bs(1) bytes small
          fit [folded t(3)]] t(3,4)
      by auto
    have sz: "length (img (nv_dev s1)) = length (img (nv_dev s))"
      unfolding s1(4) using fit n(3) by simp
    have lba: "unat (lba + of_nat b) * bs = unat lba * bs + n"
      unfolding lba_advance [OF bs(2) b(5) less.prems(2)] distrib_right bn ..
    have "unat (lba + of_nat b) * bs + length (drop n buf) \<le> length (img (nv_dev s1))"
      unfolding lba sz using less.prems(5) n(3) by simp
    moreover have "bs dvd length (drop n buf)" using less.prems(6) dvd n(3) by (simp add: dvd_diff_nat)
    moreover have "length (drop n buf) < length buf" using n by simp
    ultimately have "\<exists>s'. namespace_write_loop D fuel ns nid (lba + of_nat b) (drop n buf) s1 = (Ok (), s')
        \<and> idle s' \<and> buffers_ok s'
        \<and> img (nv_dev s') = blit (img (nv_dev s1)) (unat (lba + of_nat b) * bs) (drop n buf)"
      using less.prems(1,2) s1(2,3) by (intro less.hyps) (simp_all only: sz)
    moreover have "blit (img (nv_dev s1)) (unat (lba + of_nat b) * bs) (drop n buf)
        = blit (img (nv_dev s)) (unat lba * bs) buf"
      unfolding s1(4) lba
      using blit_append [of "unat lba * bs" "take n buf" "drop n buf" "img (nv_dev s)"]
        less.prems(5) n(3) by simp
    moreover have "namespace_write_loop D fuel ns nid lba buf s
      = namespace_write_loop D fuel ns nid (lba + of_nat b) (drop n buf) s1"
      by (rule namespace_write_loop_step [OF False bs(1,2) n_def b_def b(1,2) len s1(1) [unfolded t_def]])
    ultimately show ?thesis by simp
  qed
qed


subsection \<open>A controller that keeps the contract\<close>

text \<open>It executes the outstanding command at the first pause, on a disk held in a list.\<close>

definition sample_transfer :: "bytes nvme \<Rightarrow> nvme_cmd \<Rightarrow> bytes nvme" where
  "sample_transfer s c =
     (let n = cmd_bytes 512 c; off = unat (cmd_lba c) * 512; d = dma_data (nv_buffer s);
          pos = (\<lambda>i. buffer_pos s (prp_addr c i))
      in if opcode c = 2 then
           s\<lparr>nv_buffer := (nv_buffer s)\<lparr>dma_data := map (\<lambda>j.
               case find (\<lambda>i. pos i = j) [0..<n] of
                 Some i \<Rightarrow> nv_dev s ! (off + i) | None \<Rightarrow> d ! j) [0..<length d]\<rparr>\<rparr>
         else s\<lparr>nv_dev := blit (nv_dev s) off (map (\<lambda>i. d ! pos i) [0..<n])\<rparr>)"

definition sample_yield :: "bytes nvme \<Rightarrow> bytes nvme" where
  "sample_yield s = (case (nv_sqs s 1, nv_cqs s 1) of
      (Some (sq, _), Some (cq, l)) \<Rightarrow>
        let c = dma_data (sq_data sq) ! unat (sq_head sq);
            e = zero_comp\<lparr>comp_sq_head := sq_tail sq, comp_sq_id := 1, comp_cid := cid c,
                          comp_status := bool_word (cq_phase cq)\<rparr>
        in (sample_transfer s c)\<lparr>nv_cqs := (nv_cqs s)(1 \<mapsto> (cq_put e cq, l))\<rparr>
    | _ \<Rightarrow> s)"

definition sample_nvme :: "bytes nvme_dev" where
  "sample_nvme = \<lparr>reg_read = (\<lambda>off s. 0), reg_write = (\<lambda>off v s. s), dev_yield = sample_yield\<rparr>"

lemma find_inj:
  "inj_on g {..<n} \<Longrightarrow> i < n \<Longrightarrow> find (\<lambda>k. g k = g i) [0..<n] = Some (i :: nat)"
  by (auto simp: find_Some_iff inj_on_def intro!: exI [of _ i])
    (metis lessThan_iff order_less_trans nat_neq_iff)

lemma sample_transfer_done:
  assumes "valid_io id nid 512 s c"
  shows "io_done id 512 c s (sample_transfer s c)"
    and "nv_sqs (sample_transfer s c) = nv_sqs s"
proof -
  show "nv_sqs (sample_transfer s c) = nv_sqs s" by (simp add: sample_transfer_def Let_def)
  have inj: "inj_on (\<lambda>i. buffer_pos s (prp_addr c i)) {..<cmd_bytes 512 c}"
    and pos: "\<forall>i < cmd_bytes 512 c. buffer_pos s (prp_addr c i) < length (dma_data (nv_buffer s))"
    using assms by (simp_all add: valid_io_def)
  show "io_done id 512 c s (sample_transfer s c)"
  proof (cases "opcode c = 2")
    case True
    then show ?thesis
      using pos find_inj [OF inj] by (simp add: io_done_def sample_transfer_def Let_def)
  next
    case False
    then show ?thesis by (simp add: io_done_def sample_transfer_def Let_def)
  qed
qed

lemma sample_serves: "serves sample_nvme id nid 512 1"
  unfolding serves_def
proof (intro conjI allI impI)
  fix off v and s :: "bytes nvme"
  show "\<exists>d. reg_write sample_nvme off v s = s\<lparr>nv_dev := d\<rparr> \<and> id d = id (nv_dev s)"
    by (intro exI [of _ "nv_dev s"]) (simp add: sample_nvme_def)
next
  fix s :: "bytes nvme" and sq cq l c
  assume a: "nv_sqs s 1 = Some (sq, 1)" "nv_cqs s 1 = Some (cq, l)" "quiet cq"
    and c: "c = dma_data (sq_data sq) ! unat (sq_head sq)" and v: "valid_io id nid 512 s c"
  let ?e = "zero_comp\<lparr>comp_sq_head := sq_tail sq, comp_sq_id := 1, comp_cid := cid c,
    comp_status := bool_word (cq_phase cq)\<rparr>"
  let ?t = "sample_transfer s c" and ?s = "sample_yield s"
  have s': "?s = ?t\<lparr>nv_cqs := (nv_cqs s)(1 \<mapsto> (cq_put ?e cq, l))\<rparr>"
    using a by (simp add: sample_yield_def c Let_def)
  have "io_done id 512 c s ?s"
    using sample_transfer_done(1) [OF v] io_cong(3) [of ?s ?t id 512 c s] s' by simp
  moreover have "nv_sqs ?s = nv_sqs s" using sample_transfer_done(2) [OF v] s' by simp
  moreover have "drop_bit 1 (comp_status ?e) = 0" by (cases "cq_phase cq") simp_all
  moreover have "tagged (cq_phase cq) ?e" by (cases "cq_phase cq") (simp_all add: tagged_def)
  moreover have "nv_cqs ?s = (nv_cqs s)(1 \<mapsto> (cq_put ?e cq, l))" using s' by simp
  moreover have "?s = (dev_yield sample_nvme ^^ 1) s" by (simp add: sample_nvme_def)
  moreover have "\<forall>j < 1. nv_cqs ((dev_yield sample_nvme ^^ j) s) = nv_cqs s" by simp
  moreover have "comp_sq_id ?e = 1" "comp_cid ?e = cid c" "comp_sq_head ?e = sq_tail sq" by simp_all
  ultimately show "\<exists>n \<le> 1. \<exists>e s'. s' = (dev_yield sample_nvme ^^ n) s
       \<and> (\<forall>j < n. nv_cqs ((dev_yield sample_nvme ^^ j) s) = nv_cqs s)
       \<and> nv_sqs s' = nv_sqs s \<and> nv_cqs s' = (nv_cqs s)(1 \<mapsto> (cq_put e cq, l))
       \<and> comp_sq_id e = 1 \<and> comp_cid e = cid c \<and> comp_sq_head e = sq_tail sq
       \<and> tagged (cq_phase cq) e \<and> drop_bit 1 (comp_status e) = 0 \<and> io_done id 512 c s s'"
    by (intro exI [of _ "1 :: nat"] conjI exI [of _ ?e] exI [of _ ?s]) (rule order_refl | assumption)+
qed

definition sample_nvme_state :: "bytes nvme" where
  "sample_nvme_state =
     \<lparr>nv_interrupt = IntxPin,
      nv_sqs = [1 \<mapsto> (\<lparr>sq_data = \<lparr>dma_phys = 0x11000, dma_aligned_len = 4096, dma_virt = 0x10000,
                   dma_data = replicate 64 default_cmd\<rparr>, sq_tail = 0, sq_head = 0\<rparr>, 1)],
      nv_cqs = [1 \<mapsto> (sample_cq, [])], nv_cqs_for_ivs = Map.empty,
      nv_buffer = \<lparr>dma_phys = 0x40000, dma_aligned_len = 8192, dma_virt = 0, dma_data = replicate 8192 0\<rparr>,
      nv_prp = \<lparr>dma_phys = 0x50000, dma_aligned_len = 4096, dma_virt = 0,
                dma_data = [0x40000, 0x41000]\<rparr>,
      nv_dev = replicate 512 1 @ replicate 512 2\<rparr>"

lemma sample_idle: "idle sample_nvme_state" and sample_buffers: "buffers_ok sample_nvme_state"
  by (auto simp: idle_def buffers_ok_def sample_nvme_state_def sq_wf_def sq_len_def quiet_def
      cq_wf_def cq_len_def sample_cq_def tagged_def zero_comp_def)



end
