(* ===== verification/Scsi_Cmds.thy ===== *)
theory Scsi_Cmds
  imports Rust_Prelude
begin

text \<open>
  The SCSI command and parameter blocks of the USB mass storage driver
  (\<open>storage/usbscsid/src/scsi/cmds.rs\<close> and \<open>opcodes.rs\<close>). The packed structures are records of
  their fields next to their byte images in memory order, on a little-endian target; a view of a
  byte buffer as a structure reads its fields at their offsets and is rejected when the buffer is
  too short for it.
\<close>

subsection \<open>Command blocks\<close>

definition op_request_sense :: u8 where "op_request_sense = 0x03"
definition op_inquiry :: u8 where "op_inquiry = 0x12"
definition op_mode_sense6 :: u8 where "op_mode_sense6 = 0x1A"
definition op_read_capacity10 :: u8 where "op_read_capacity10 = 0x25"
definition op_mode_sense10 :: u8 where "op_mode_sense10 = 0x5A"
definition op_read16 :: u8 where "op_read16 = 0x88"
definition op_write16 :: u8 where "op_write16 = 0x8A"

lemmas opcode_defs = op_request_sense_def op_inquiry_def op_mode_sense6_def op_read_capacity10_def
  op_mode_sense10_def op_read16_def op_write16_def

record inquiry =
  inq_opcode :: u8
  inq_evpd :: u8
  inq_page_code :: u8
  inq_alloc_len :: u16
  inq_control :: u8

definition inquiry_new :: "bool \<Rightarrow> u8 \<Rightarrow> u16 \<Rightarrow> u8 \<Rightarrow> inquiry" where
  "inquiry_new evpd page_code alloc_len ctl =
     \<lparr>inq_opcode = op_inquiry, inq_evpd = bool_word evpd, inq_page_code = page_code,
      inq_alloc_len = swap_bytes 2 alloc_len, inq_control = ctl\<rparr>"

definition inquiry_bytes :: "inquiry \<Rightarrow> bytes" where
  "inquiry_bytes c = [inq_opcode c, inq_evpd c, inq_page_code c] @ le_bytes 2 (inq_alloc_len c)
     @ [inq_control c]"

record request_sense =
  rs_opcode :: u8
  rs_desc :: u8
  rs_rsvd :: u16
  rs_alloc_len :: u8
  rs_control :: u8

definition request_sense_new :: "bool \<Rightarrow> u8 \<Rightarrow> u8 \<Rightarrow> request_sense" where
  "request_sense_new desc alloc_len ctl =
     \<lparr>rs_opcode = op_request_sense, rs_desc = bool_word desc, rs_rsvd = 0, rs_alloc_len = alloc_len,
      rs_control = ctl\<rparr>"

definition request_sense_bytes :: "request_sense \<Rightarrow> bytes" where
  "request_sense_bytes c = [rs_opcode c, rs_desc c] @ le_bytes 2 (rs_rsvd c)
     @ [rs_alloc_len c, rs_control c]"

text \<open>\<open>Read16\<close> and \<open>Write16\<close> have the same layout.\<close>

record rw16 =
  rw_opcode :: u8
  rw_a :: u8
  rw_lba :: u64
  rw_transfer_len :: u32
  rw_b :: u8
  rw_control :: u8

definition read16_new :: "u64 \<Rightarrow> u32 \<Rightarrow> u8 \<Rightarrow> rw16" where
  "read16_new lba transfer_len ctl =
     \<lparr>rw_opcode = op_read16, rw_a = 0, rw_lba = swap_bytes 8 lba,
      rw_transfer_len = swap_bytes 4 transfer_len, rw_b = 0, rw_control = ctl\<rparr>"

definition write16_new :: "u64 \<Rightarrow> u32 \<Rightarrow> u8 \<Rightarrow> rw16" where
  "write16_new lba transfer_len ctl =
     \<lparr>rw_opcode = op_write16, rw_a = 0, rw_lba = lba, rw_transfer_len = transfer_len, rw_b = 0,
      rw_control = ctl\<rparr>"

definition rw16_bytes :: "rw16 \<Rightarrow> bytes" where
  "rw16_bytes c = [rw_opcode c, rw_a c] @ le_bytes 8 (rw_lba c) @ le_bytes 4 (rw_transfer_len c)
     @ [rw_b c, rw_control c]"

record mode_sense6 =
  ms6_opcode :: u8
  ms6_a :: u8
  ms6_b :: u8
  ms6_subpage_code :: u8
  ms6_alloc_len :: u8
  ms6_control :: u8

definition mode_sense6_new :: "bool \<Rightarrow> u8 \<Rightarrow> u8 \<Rightarrow> u8 \<Rightarrow> u8 \<Rightarrow> u8 \<Rightarrow> mode_sense6" where
  "mode_sense6_new dbd page_code pc subpage_code alloc_len ctl =
     \<lparr>ms6_opcode = op_mode_sense6, ms6_a = push_bit 3 (bool_word dbd),
      ms6_b = page_code OR push_bit 6 pc, ms6_subpage_code = subpage_code,
      ms6_alloc_len = alloc_len, ms6_control = ctl\<rparr>"

datatype mode_page_control = CurrentValues | ChangeableChanges | DefaultValues | SavedValue

primrec mode_page_control_u8 :: "mode_page_control \<Rightarrow> u8" where
  "mode_page_control_u8 CurrentValues = 0"
| "mode_page_control_u8 ChangeableChanges = 1"
| "mode_page_control_u8 DefaultValues = 2"
| "mode_page_control_u8 SavedValue = 3"

record mode_sense10 =
  ms10_opcode :: u8
  ms10_a :: u8
  ms10_b :: u8
  ms10_subpage_code :: u8
  ms10_alloc_len :: u16
  ms10_control :: u8

definition mode_sense10_new ::
  "bool \<Rightarrow> bool \<Rightarrow> u8 \<Rightarrow> mode_page_control \<Rightarrow> u8 \<Rightarrow> u16 \<Rightarrow> u8 \<Rightarrow> mode_sense10" where
  "mode_sense10_new dbd llbaa page_code pc subpage_code alloc_len ctl =
     \<lparr>ms10_opcode = op_mode_sense10,
      ms10_a = push_bit 3 (bool_word dbd) OR push_bit 4 (bool_word llbaa),
      ms10_b = page_code OR push_bit 6 (mode_page_control_u8 pc),
      ms10_subpage_code = subpage_code, ms10_alloc_len = swap_bytes 2 alloc_len,
      ms10_control = ctl\<rparr>"

definition get_block_desc :: "u16 \<Rightarrow> u8 \<Rightarrow> mode_sense10" where
  "get_block_desc alloc_len ctl = mode_sense10_new False True 0x3F CurrentValues 0 alloc_len ctl"

definition mode_sense10_bytes :: "mode_sense10 \<Rightarrow> bytes" where
  "mode_sense10_bytes c = [ms10_opcode c, ms10_a c, ms10_b c, ms10_subpage_code c, 0, 0, 0]
     @ le_bytes 2 (ms10_alloc_len c) @ [ms10_control c]"

record read_capacity10 =
  rc_opcode :: u8
  rc_control :: u8

definition read_capacity10_new :: "u8 \<Rightarrow> read_capacity10" where
  "read_capacity10_new ctl = \<lparr>rc_opcode = op_read_capacity10, rc_control = ctl\<rparr>"

definition read_capacity10_bytes :: "read_capacity10 \<Rightarrow> bytes" where
  "read_capacity10_bytes c = [rc_opcode c, 0, 0, 0, 0, 0, 0, 0, 0, rc_control c]"

subsection \<open>Parameter data\<close>

text \<open>\<open>plain::from_bytes\<close>: the first \<open>n\<close> bytes, if there are that many.\<close>

definition from_bytes :: "nat \<Rightarrow> bytes \<Rightarrow> bytes option" where
  "from_bytes n bs = (if length bs < n then None else Some (take n bs))"

text \<open>\<open>plain::slice_from_bytes\<close>: as many structures of \<open>n\<close> bytes as fit.\<close>

definition slice_from_bytes :: "nat \<Rightarrow> bytes \<Rightarrow> bytes list" where
  "slice_from_bytes n bs = map (\<lambda>i. subslice (i * n) n bs) [0..<length bs div n]"

definition be_u16 :: "nat \<Rightarrow> bytes \<Rightarrow> u16" where
  "be_u16 off bs = swap_bytes 2 (from_le (subslice off 2 bs))"

definition be_u32 :: "nat \<Rightarrow> bytes \<Rightarrow> u32" where
  "be_u32 off bs = swap_bytes 4 (from_le (subslice off 4 bs))"

definition be_u64 :: "nat \<Rightarrow> bytes \<Rightarrow> u64" where
  "be_u64 off bs = swap_bytes 8 (from_le (subslice off 8 bs))"

definition u24_be_to_u32 :: "bytes \<Rightarrow> u32" where
  "u24_be_to_u32 b = push_bit 16 (ucast (b ! 0)) OR push_bit 8 (ucast (b ! 1)) OR ucast (b ! 2)"

text \<open>Standard inquiry data.\<close>

definition size_of_inquiry_data :: nat where
  "size_of_inquiry_data = 96"

definition periph_dev_ty :: "bytes \<Rightarrow> u8" where
  "periph_dev_ty d = (d ! 0) AND 0x1F"

definition periph_dev_qual :: "bytes \<Rightarrow> u8" where
  "periph_dev_qual d = drop_bit 5 ((d ! 0) AND 0xE0)"

definition inquiry_version :: "bytes \<Rightarrow> u8" where
  "inquiry_version d = d ! 2"

definition inquiry_additional_len :: "bytes \<Rightarrow> u8" where
  "inquiry_additional_len d = d ! 4"

text \<open>Fixed format sense data.\<close>

datatype sense_key = NoSense | RecoveredError | NotReady | MediumError | HardwareError
  | IllegalRequest | UnitAttention | DataProtect | BlankCheck | VendorSpecificKey | CopyAborted
  | AbortedCommand | ReservedKey | VolumeOverflow | Miscompare | Completed

primrec sense_key_u8 :: "sense_key \<Rightarrow> u8" where
  "sense_key_u8 NoSense = 0" | "sense_key_u8 RecoveredError = 1" | "sense_key_u8 NotReady = 2"
| "sense_key_u8 MediumError = 3" | "sense_key_u8 HardwareError = 4"
| "sense_key_u8 IllegalRequest = 5" | "sense_key_u8 UnitAttention = 6"
| "sense_key_u8 DataProtect = 7" | "sense_key_u8 BlankCheck = 8"
| "sense_key_u8 VendorSpecificKey = 9" | "sense_key_u8 CopyAborted = 10"
| "sense_key_u8 AbortedCommand = 11" | "sense_key_u8 ReservedKey = 12"
| "sense_key_u8 VolumeOverflow = 13" | "sense_key_u8 Miscompare = 14" | "sense_key_u8 Completed = 15"

definition sense_keys :: "sense_key list" where
  "sense_keys = [NoSense, RecoveredError, NotReady, MediumError, HardwareError, IllegalRequest,
     UnitAttention, DataProtect, BlankCheck, VendorSpecificKey, CopyAborted, AbortedCommand,
     ReservedKey, VolumeOverflow, Miscompare, Completed]"

text \<open>The transmute of the low four bits of the third byte into the enumeration.\<close>

definition sense_key_of :: "bytes \<Rightarrow> sense_key" where
  "sense_key_of d = sense_keys ! unat ((d ! 2) AND 0xF)"

text \<open>Block descriptors of the three layouts, and the mode parameter header.\<close>

definition short_block_count :: "bytes \<Rightarrow> u32" where
  "short_block_count d = be_u32 0 d"

definition short_logical_block_len :: "bytes \<Rightarrow> u32" where
  "short_logical_block_len d = u24_be_to_u32 (subslice 5 3 d)"

definition general_block_count :: "bytes \<Rightarrow> u32" where
  "general_block_count d = u24_be_to_u32 (subslice 1 3 d)"

definition general_logical_block_len :: "bytes \<Rightarrow> u32" where
  "general_logical_block_len d = u24_be_to_u32 (subslice 5 3 d)"

definition long_block_count :: "bytes \<Rightarrow> u64" where
  "long_block_count d = be_u64 0 d"

definition long_logical_block_len :: "bytes \<Rightarrow> u32" where
  "long_logical_block_len d = be_u32 12 d"

definition mode_data_len :: "bytes \<Rightarrow> u16" where
  "mode_data_len h = be_u16 0 h"

definition block_desc_len :: "bytes \<Rightarrow> u16" where
  "block_desc_len h = be_u16 6 h"

definition longlba :: "bytes \<Rightarrow> bool" where
  "longlba h \<longleftrightarrow> (h ! 4) AND 1 \<noteq> 0"

definition rc10_block_count :: "bytes \<Rightarrow> u32" where
  "rc10_block_count d = be_u32 0 d"

definition rc10_logical_block_len :: "bytes \<Rightarrow> u32" where
  "rc10_logical_block_len d = be_u32 4 d"

subsection \<open>Mode pages\<close>

text \<open>
  \<open>ModePageIterRaw::next\<close>. The length of a sub-page is read from a slice of one byte, whose
  conversion to two bytes fails.
\<close>

definition two_bytes :: "bytes \<Rightarrow> (u8 \<times> u8) option" where
  "two_bytes b = (case b of [x, y] \<Rightarrow> Some (x, y) | _ \<Rightarrow> None)"

definition mode_page_next_raw :: "bytes \<Rightarrow> (bytes option \<times> bytes, unit) res" where
  "mode_page_next_raw buf =
     (if length buf < 2 then Ok (None, buf)
      else
        let a = buf ! 0;
            page_len =
              (if \<not> bit a 6 then Ok (Some (unat (buf ! 1) + 1))
               else if length buf < 3 then Panic
               else case two_bytes (subslice 2 1 buf) of
                      None \<Rightarrow> Ok None
                    | Some (x, y) \<Rightarrow> Ok (Some (unat (from_le [y, x] :: u16) + 3)))
        in bind_r page_len (\<lambda>p. case p of
             None \<Rightarrow> Ok (None, buf)
           | Some n \<Rightarrow>
               if length buf < n then Ok (None, buf)
               else Ok (Some (take n buf), drop n buf)))"

datatype any_mode_page = RwErrorRecovery bytes | Caching bytes

definition size_of_rw_error_recovery :: nat where
  "size_of_rw_error_recovery = 10"

definition size_of_caching_mode_page :: nat where
  "size_of_caching_mode_page = 2"

definition mode_page_next :: "bytes \<Rightarrow> (any_mode_page option \<times> bytes, unit) res" where
  "mode_page_next buf = bind_r (mode_page_next_raw buf) (\<lambda>(p, rest). case p of
      None \<Rightarrow> Ok (None, rest)
    | Some page \<Rightarrow>
        if page = [] then Panic
        else
          let a = page ! 0; page_code = a AND 0x1F
          in if \<not> bit a 6 then
               if page_code = 0x01 then
                 Ok (map_option RwErrorRecovery (from_bytes size_of_rw_error_recovery page), rest)
               else if page_code = 0x08 then
                 Ok (map_option Caching (from_bytes size_of_caching_mode_page page), rest)
               else Ok (None, rest)
             else Ok (None, rest))"

text \<open>A \<open>for\<close> loop over the pages: it ends at the first \<open>None\<close>.\<close>

function mode_page_iter :: "bytes \<Rightarrow> (any_mode_page list, unit) res" where
  "mode_page_iter buf = (case mode_page_next buf of
      Ok (Some p, rest) \<Rightarrow>
        if length rest < length buf then map_res (\<lambda>ps. p # ps) (mode_page_iter rest) else NoFuel
    | Ok (None, rest) \<Rightarrow> Ok []
    | Err e \<Rightarrow> Err e | Panic \<Rightarrow> Panic | NoFuel \<Rightarrow> NoFuel)"
  by pat_completeness auto
termination by (relation "measure length") auto

declare mode_page_iter.simps [simp del]

subsection \<open>What the target reads in a command block\<close>

text \<open>
  A field of a packed structure at a byte offset: the bytes before it, its image, and the rest.
\<close>

lemma be_field:
  "length pre = off \<Longrightarrow> be_u16 off (pre @ le_bytes 2 (swap_bytes 2 a) @ post) = a"
  "length pre = off \<Longrightarrow> be_u32 off (pre @ le_bytes 4 (swap_bytes 4 b) @ post) = b"
  "length pre = off \<Longrightarrow> be_u64 off (pre @ le_bytes 8 (swap_bytes 8 c) @ post) = c"
  by (simp_all add: be_u16_def be_u32_def be_u64_def subslice_def swap_bytes_def [symmetric]
      del: le_bytes_swap_sized)

lemma raw_field:
  "length pre = off \<Longrightarrow> be_u32 off (pre @ le_bytes 4 b @ post) = swap_bytes 4 b"
  "length pre = off \<Longrightarrow> be_u64 off (pre @ le_bytes 8 c @ post) = swap_bytes 8 c"
  by (simp_all add: be_u32_def be_u64_def subslice_def)

text \<open>The fields of a \<open>READ(16)\<close> or \<open>WRITE(16)\<close> block (SBC, section 5): big endian.\<close>

definition cdb_lba :: "bytes \<Rightarrow> u64" where
  "cdb_lba cb = be_u64 2 cb"

definition cdb_transfer_len :: "bytes \<Rightarrow> u32" where
  "cdb_transfer_len cb = be_u32 10 cb"

lemma rw16_fields:
  "cdb_lba (rw16_bytes c) = swap_bytes 8 (rw_lba c)"
  "cdb_transfer_len (rw16_bytes c) = swap_bytes 4 (rw_transfer_len c)"
  "length (rw16_bytes c) = 16" "rw16_bytes c ! 0 = rw_opcode c"
  using raw_field(2) [of "[rw_opcode c, rw_a c]" 2 "rw_lba c"
      "le_bytes 4 (rw_transfer_len c) @ [rw_b c, rw_control c]"]
    raw_field(1) [of "[rw_opcode c, rw_a c] @ le_bytes 8 (rw_lba c)" 10 "rw_transfer_len c"
      "[rw_b c, rw_control c]"]
  by (simp_all add: cdb_lba_def cdb_transfer_len_def rw16_bytes_def)

text \<open>
  The command blocks the driver builds have the length of their command and
  carry, in the byte order of the standard, what they were built from: \<open>READ(16)\<close> the block
  address and the number of blocks, \<open>INQUIRY\<close> and \<open>MODE SENSE(10)\<close> the allocation length,
  \<open>REQUEST SENSE\<close> its allocation length; each starts with its operation code.
\<close>

theorem command_blocks_encode:
  "rw16_bytes (read16_new lba n c) ! 0 = op_read16 \<and> length (rw16_bytes (read16_new lba n c)) = 16
   \<and> cdb_lba (rw16_bytes (read16_new lba n c)) = lba
   \<and> cdb_transfer_len (rw16_bytes (read16_new lba n c)) = n
   \<and> inquiry_bytes (inquiry_new e p a c) ! 0 = op_inquiry
   \<and> length (inquiry_bytes (inquiry_new e p a c)) = 6
   \<and> be_u16 3 (inquiry_bytes (inquiry_new e p a c)) = a
   \<and> mode_sense10_bytes (get_block_desc a c) ! 0 = op_mode_sense10
   \<and> length (mode_sense10_bytes (get_block_desc a c)) = 10
   \<and> be_u16 7 (mode_sense10_bytes (get_block_desc a c)) = a
   \<and> request_sense_bytes (request_sense_new d l c) ! 0 = op_request_sense
   \<and> length (request_sense_bytes (request_sense_new d l c)) = 6
   \<and> request_sense_bytes (request_sense_new d l c) ! 4 = l
   \<and> length (read_capacity10_bytes (read_capacity10_new c)) = 10"
proof -
  have "be_u16 3 (inquiry_bytes (inquiry_new e p a c)) = a"
    using be_field(1) [of "[op_inquiry, bool_word e, p]" 3 a "[c]"]
    by (simp add: inquiry_bytes_def inquiry_new_def del: le_bytes_swap_sized)
  moreover have "be_u16 7 (mode_sense10_bytes (get_block_desc a c)) = a"
    using be_field(1) [of "[op_mode_sense10, 16, 0x3F, 0, 0, 0, 0]" 7 a "[c]"]
    by (simp add: mode_sense10_bytes_def get_block_desc_def mode_sense10_new_def
      del: le_bytes_swap_sized)
  moreover have "request_sense_bytes (request_sense_new d l c) ! 4 = l"
    by (simp add: request_sense_bytes_def request_sense_new_def nth_append)
  moreover have "cdb_lba (rw16_bytes (read16_new lba n c)) = lba"
    "cdb_transfer_len (rw16_bytes (read16_new lba n c)) = n"
    by (simp_all add: rw16_fields) (simp_all add: read16_new_def)
  ultimately show ?thesis
    by (simp add: rw16_fields inquiry_bytes_def inquiry_new_def mode_sense10_bytes_def get_block_desc_def
      mode_sense10_new_def request_sense_bytes_def request_sense_new_def read_capacity10_bytes_def)
      (simp add: read16_new_def)
qed

text \<open>
  \<open>Write16::new\<close> leaves the block address and the number of blocks in the byte
  order of the processor, unlike \<open>Read16::new\<close>: the target reads both with their bytes
  reversed, so a write to block 1 addresses block \<open>2 ^ 56\<close>.
\<close>

theorem write16_byte_order:
  "cdb_lba (rw16_bytes (write16_new lba n c)) = swap_bytes 8 lba
   \<and> cdb_transfer_len (rw16_bytes (write16_new lba n c)) = swap_bytes 4 n
   \<and> cdb_lba (rw16_bytes (write16_new 1 n c)) = 2 ^ 56"
proof -
  have "swap_bytes 8 (1 :: u64) = 2 ^ 56"
    by (simp add: swap_bytes_def le_bytes_def upt_rec)
  then show ?thesis by (simp add: rw16_fields write16_new_def)
qed

subsection \<open>Mode pages\<close>

lemma two_bytes_short: "length b \<noteq> 2 \<Longrightarrow> two_bytes b = None"
  by (auto simp: two_bytes_def split: list.split)

lemma mode_page_next_raw_eq:
  "mode_page_next_raw buf =
     (if length buf < 2 then Ok (None, buf)
      else if bit (buf ! 0) 6 then if length buf < 3 then Panic else Ok (None, buf)
      else if length buf < unat (buf ! 1) + 1 then Ok (None, buf)
      else Ok (Some (take (unat (buf ! 1) + 1) buf), drop (unat (buf ! 1) + 1) buf))"
proof -
  have "two_bytes (subslice 2 1 buf) = None" by (rule two_bytes_short) simp
  then show ?thesis by (simp add: mode_page_next_raw_def Let_def)
qed

lemma mode_page_next_raw_split:
  assumes "mode_page_next_raw buf = Ok (Some page, rest)"
  shows "page @ rest = buf" and "\<not> bit (buf ! 0) 6" and "length page = unat (buf ! 1) + 1"
  using assms unfolding mode_page_next_raw_eq by (auto split: if_splits)

lemma mode_page_next_shrinks:
  assumes "mode_page_next buf = Ok (Some p, rest)"
  shows "length rest < length buf"
proof -
  from assms obtain q r where raw: "mode_page_next_raw buf = Ok (q, r)"
    unfolding mode_page_next_def by auto
  then obtain page where q: "q = Some page"
    using assms unfolding mode_page_next_def by (cases q) simp_all
  have "r = rest"
    using assms raw unfolding mode_page_next_def q Let_def by (simp split: if_splits)
  then have "mode_page_next_raw buf = Ok (Some page, rest)" using raw q by simp
  note split = mode_page_next_raw_split [OF this]
  have "length buf = length page + length rest" by (simp flip: split(1))
  then show ?thesis using split(3) by linarith
qed

text \<open>
  Walking the mode pages ends on every buffer. A page that is returned is a
  prefix of the buffer and the walk goes on with exactly the rest; it is never a sub-page, whose
  length the code cannot read, and its length is the page length byte plus 1, where a page takes
  that many bytes after its two-byte header, so the next page is looked for one byte too early.
\<close>

theorem mode_pages_walk:
  "mode_page_iter buf \<noteq> NoFuel
   \<and> (case mode_page_next_raw buf of
        Ok (Some page, rest) \<Rightarrow> page @ rest = buf \<and> \<not> bit (buf ! 0) 6
                              \<and> length page = unat (buf ! 1) + 1
      | Ok (None, rest) \<Rightarrow> rest = buf
      | r \<Rightarrow> r = Panic \<and> length buf = 2 \<and> bit (buf ! 0) 6)"
proof -
  have "mode_page_iter buf \<noteq> NoFuel" for buf
  proof (induction buf rule: mode_page_iter.induct)
    case (1 buf)
    have nofuel: "mode_page_next buf \<noteq> NoFuel"
      unfolding mode_page_next_def mode_page_next_raw_eq by (auto simp: Let_def)
    show ?case
    proof (cases "mode_page_next buf")
      case (Ok x)
      obtain p rest where x: "x = (p, rest)" by (cases x)
      show ?thesis
      proof (cases p)
        case None
        then show ?thesis by (subst mode_page_iter.simps) (simp add: Ok x)
      next
        case (Some q)
        then have "length rest < length buf" using mode_page_next_shrinks Ok x by blast
        moreover from this have "mode_page_iter rest \<noteq> NoFuel" using 1 Ok x Some by simp
        ultimately show ?thesis
          by (subst mode_page_iter.simps) (cases "mode_page_iter rest"; simp add: Ok x Some)
      qed
    qed (use nofuel in \<open>subst mode_page_iter.simps, simp\<close>)+
  qed
  moreover have "case mode_page_next_raw buf of
        Ok (Some page, rest) \<Rightarrow> page @ rest = buf \<and> \<not> bit (buf ! 0) 6
                              \<and> length page = unat (buf ! 1) + 1
      | Ok (None, rest) \<Rightarrow> rest = buf
      | r \<Rightarrow> r = Panic \<and> length buf = 2 \<and> bit (buf ! 0) 6"
    unfolding mode_page_next_raw_eq by simp
  ultimately show ?thesis by blast
qed

lemma sense_key_index: "k < 16 \<Longrightarrow> sense_key_u8 (sense_keys ! k) = of_nat k"
  by (auto simp: sense_keys_def eval_nat_numeral less_Suc_eq)

lemma sense_key_of_bits: "sense_key_u8 (sense_key_of d) = (d ! 2) AND 0xF"
proof -
  have "(d ! 2) AND mask 4 < 2 ^ 4" by (rule and_mask_less') simp
  then have "unat ((d ! 2) AND 0xF) < 16" by (simp add: mask_eq_exp_minus_1 word_less_nat_alt)
  then show ?thesis by (simp add: sense_key_of_def sense_key_index)
qed

end
