(* ===== verification/Xhci_Client.thy ===== *)
theory Xhci_Client
  imports Xhci_Trb Rust_Fmt
begin

text \<open>
  The client library of the USB host controller daemon (\<open>xhcid/src/driver_interface.rs\<close>): the
  descriptors that class drivers are given, and the handles through which they configure a port,
  send control requests and transfer data over an endpoint. A handle talks to the daemon with
  \<open>open\<close>, \<open>read\<close>, \<open>write\<close> and \<open>close\<close> on the files of its scheme; these calls and the JSON encoding
  of the messages are the record \<open>client_env\<close>, a parameter. A buffer that is read into is the second
  component of the state.
\<close>

subsection \<open>Descriptors\<close>

record super_speed_cmp =
  ssc_kind :: u8
  ssc_max_burst :: u8
  ssc_attributes :: u8
  ssc_bytes_per_interval :: u16

record super_speed_plus_isoch_cmp =
  sspc_kind :: u8
  sspc_bytes_per_interval :: u32

record endp_desc =
  ed_kind :: u8
  ed_address :: u8
  ed_attributes :: u8
  ed_max_packet_size :: u16
  ed_interval :: u8
  ed_ssc :: "super_speed_cmp option"
  ed_sspc :: "super_speed_plus_isoch_cmp option"

record hid_desc =
  hd_kind :: u8
  hd_hid_spec_release :: u16
  hd_country :: u8
  hd_desc_count :: u8
  hd_desc_ty :: u8
  hd_desc_len :: u16
  hd_optional_desc_ty :: u8
  hd_optional_desc_len :: u16

record if_desc =
  if_kind :: u8
  if_number :: u8
  if_alternate_setting :: u8
  if_class :: u8
  if_sub_class :: u8
  if_protocol :: u8
  if_interface_str :: "string option"
  if_endpoints :: "endp_desc list"
  if_hid_descs :: "hid_desc list"

record conf_desc =
  cd_kind :: u8
  cd_configuration_value :: u8
  cd_configuration :: "string option"
  cd_attributes :: u8
  cd_max_power :: u8
  cd_interface_descs :: "if_desc list"

record dev_desc =
  dd_kind :: u8
  dd_usb :: u16
  dd_class :: u8
  dd_sub_class :: u8
  dd_protocol :: u8
  dd_packet_size :: u8
  dd_vendor :: u16
  dd_product :: u16
  dd_release :: u16
  dd_manufacturer_str :: "string option"
  dd_product_str :: "string option"
  dd_serial_str :: "string option"
  dd_config_descs :: "conf_desc list"

definition major_version :: "dev_desc \<Rightarrow> u8" where
  "major_version d = ucast (drop_bit 8 (dd_usb d AND 0xFF00))"

definition minor_version :: "dev_desc \<Rightarrow> u8" where
  "minor_version d = ucast (dd_usb d)"

datatype endpoint_ty = CtrlEp | IsochEp | BulkEp | InterruptEp

datatype endp_direction = DirOut | DirIn | DirBidirectional

text \<open>The remaining case of the match, a value above 3, is unreachable after the mask.\<close>

definition endp_ty :: "endp_desc \<Rightarrow> endpoint_ty" where
  "endp_ty d = (let t = ed_attributes d AND 0x3
     in if t = 0 then CtrlEp else if t = 1 then IsochEp else if t = 2 then BulkEp else InterruptEp)"

definition is_control :: "endp_desc \<Rightarrow> bool" where
  "is_control d \<longleftrightarrow> endp_ty d = CtrlEp"

definition is_interrupt :: "endp_desc \<Rightarrow> bool" where
  "is_interrupt d \<longleftrightarrow> endp_ty d = InterruptEp"

definition is_bulk :: "endp_desc \<Rightarrow> bool" where
  "is_bulk d \<longleftrightarrow> endp_ty d = BulkEp"

definition is_isoch :: "endp_desc \<Rightarrow> bool" where
  "is_isoch d \<longleftrightarrow> endp_ty d = IsochEp"

definition direction_of :: "endp_desc \<Rightarrow> endp_direction" where
  "direction_of d =
     (if is_control d then DirBidirectional
      else if ed_address d AND 0x80 \<noteq> 0 then DirIn else DirOut)"

definition xhci_ep_type :: "endp_desc \<Rightarrow> (u8, errno) res" where
  "xhci_ep_type d =
     (if direction_of d = DirOut \<and> is_isoch d then Ok 1
      else if direction_of d = DirOut \<and> is_bulk d then Ok 2
      else if direction_of d = DirOut \<and> is_interrupt d then Ok 3
      else if direction_of d = DirBidirectional \<and> is_control d then Ok 4
      else if direction_of d = DirIn \<and> is_isoch d then Ok 5
      else if direction_of d = DirIn \<and> is_bulk d then Ok 6
      else if direction_of d = DirIn \<and> is_interrupt d then Ok 7
      else Err EINVAL)"

definition is_superspeed :: "endp_desc \<Rightarrow> bool" where
  "is_superspeed d \<longleftrightarrow> ed_ssc d \<noteq> None"

definition is_superspeedplus :: "endp_desc \<Rightarrow> bool" where
  "is_superspeedplus d \<longleftrightarrow> False"

definition interrupt_usage_bits :: "endp_desc \<Rightarrow> (u8, errno) res" where
  "interrupt_usage_bits d =
     (if is_interrupt d then Ok (drop_bit 4 (ed_attributes d AND 0x20)) else Panic)"

definition is_periodic :: "endp_desc \<Rightarrow> bool" where
  "is_periodic d \<longleftrightarrow>
     (if is_interrupt d then interrupt_usage_bits d = Ok 0 else is_isoch d)"

definition log_max_streams :: "endp_desc \<Rightarrow> u8 option" where
  "log_max_streams d = Option.bind (ed_ssc d) (\<lambda>ssc.
     if is_bulk d then let raw = ssc_attributes ssc AND 0x1F in if raw = 0 then None else Some raw
     else None)"

definition isoch_mult :: "bool \<Rightarrow> endp_desc \<Rightarrow> u8" where
  "isoch_mult lec d =
     (if \<not> lec \<and> is_isoch d then
        if is_superspeedplus d then 0
        else case ed_ssc d of None \<Rightarrow> 0 | Some ssc \<Rightarrow> ssc_attributes ssc AND 0x3
      else 0)"

definition max_burst :: "endp_desc \<Rightarrow> u8" where
  "max_burst d = (case ed_ssc d of None \<Rightarrow> 0 | Some ssc \<Rightarrow> ssc_max_burst ssc)"

definition has_ssp_companion :: "endp_desc \<Rightarrow> bool" where
  "has_ssp_companion d =
     (case ed_ssc d of None \<Rightarrow> False | Some ssc \<Rightarrow> ssc_attributes ssc AND 0x80 \<noteq> 0)"

subsection \<open>Messages\<close>

record configure_endpoints_req =
  cer_config_desc :: u8
  cer_interface_desc :: "u8 option"
  cer_alternate_setting :: "u8 option"

text \<open>
  The directions and recipients of a port request have the constructors of the setup packet's, and
  are converted to them by name; they are the same types here.
\<close>

datatype port_req_ty = ClassReq | VendorReq | StandardReq

primrec req_type_of :: "port_req_ty \<Rightarrow> req_type" where
  "req_type_of StandardReq = Standard"
| "req_type_of ClassReq = Class"
| "req_type_of VendorReq = Vendor"

record port_req =
  pr_direction :: req_direction
  pr_req_type :: port_req_ty
  pr_req_recipient :: req_recipient
  pr_request :: u8
  pr_value :: u16
  pr_index :: u16
  pr_length :: u16
  pr_transfers_data :: bool

datatype port_state_tag = EnabledOrDisabled | DefaultState | Addressed | Configured

primrec port_state_str :: "port_state_tag \<Rightarrow> string" where
  "port_state_str EnabledOrDisabled = ''enabled_or_disabled''"
| "port_state_str DefaultState = ''default''"
| "port_state_str Addressed = ''addressed''"
| "port_state_str Configured = ''configured''"

definition port_state_of_str :: "string \<Rightarrow> (port_state_tag, string) res" where
  "port_state_of_str s =
     (if s = ''enabled_or_disabled'' \<or> s = ''enabled/disabled'' then Ok EnabledOrDisabled
      else if s = ''default'' then Ok DefaultState
      else if s = ''addressed'' then Ok Addressed
      else if s = ''configured'' then Ok Configured
      else Err ''read reserved port state'')"

datatype endpoint_status = EpDisabled | EpEnabled | EpHalted | EpStopped | EpError

primrec endpoint_status_str :: "endpoint_status \<Rightarrow> string" where
  "endpoint_status_str EpDisabled = ''disabled''"
| "endpoint_status_str EpEnabled = ''enabled''"
| "endpoint_status_str EpHalted = ''halted''"
| "endpoint_status_str EpStopped = ''stopped''"
| "endpoint_status_str EpError = ''error''"

definition endpoint_status_of_str :: "string \<Rightarrow> (endpoint_status, string) res" where
  "endpoint_status_of_str s =
     (if s = ''disabled'' then Ok EpDisabled
      else if s = ''enabled'' then Ok EpEnabled
      else if s = ''halted'' then Ok EpHalted
      else if s = ''stopped'' then Ok EpStopped
      else if s = ''error'' then Ok EpError
      else Err ''read reserved endpoint state'')"

datatype transfer_status_kind = TransferSuccess | ShortPacketStatus | StalledStatus | UnknownStatus

record transfer_status =
  ts_kind :: transfer_status_kind
  ts_bytes_transferred :: u32

text \<open>The data of a request; a buffer to read into is in the state, only its length is here.\<close>

datatype req_data = DataIn nat | DataOut bytes | NoData

fun req_data_len :: "req_data \<Rightarrow> nat" where
  "req_data_len (DataIn n) = n"
| "req_data_len (DataOut b) = length b"
| "req_data_len NoData = 0"

fun req_data_direction :: "req_data \<Rightarrow> req_direction" where
  "req_data_direction (DataOut b) = HostToDevice"
| "req_data_direction NoData = HostToDevice"
| "req_data_direction (DataIn n) = DeviceToHost"

datatype ctl_direction = CtlOut | CtlIn | CtlNoData

datatype ctl_req = TransferReq ctl_direction u32 | ResetReq bool | StatusReq

datatype ctl_res = StatusRes endpoint_status | TransferResult transfer_status | PendingRes | IdleRes

datatype client_error =
    IoError errno
  | SerializationError
  | InvalidResponse string
  | TransferBufTooLarge nat
  | UnexpectedShortPacket nat

subsection \<open>Handles\<close>

datatype open_mode = OpenRead | OpenWrite

record 'f client_env =
  env_open :: "string \<Rightarrow> open_mode \<Rightarrow> ('f, nat, errno) st"
  env_read :: "nat \<Rightarrow> nat \<Rightarrow> ('f, bytes, errno) st"
  env_write :: "nat \<Rightarrow> bytes \<Rightarrow> ('f, nat, errno) st"
  env_close :: "nat \<Rightarrow> 'f \<Rightarrow> 'f"
  json_of_ctl_req :: "ctl_req \<Rightarrow> bytes option"
  ctl_res_of_json :: "bytes \<Rightarrow> ctl_res option"
  json_of_port_req :: "port_req \<Rightarrow> bytes option"
  json_of_configure :: "configure_endpoints_req \<Rightarrow> bytes option"

record client_handle =
  ch_scheme :: string
  ch_port :: nat

record endp_handle =
  eh_data :: nat
  eh_ctl :: nat

definition port_path :: "client_handle \<Rightarrow> string \<Rightarrow> string" where
  "port_path h sub = ''/scheme/'' @ ch_scheme h @ ''/port'' @ dec (ch_port h) @ ''/'' @ sub"

text \<open>A file that is closed when the block that opened it is left.\<close>

definition with_file ::
  "'f client_env \<Rightarrow> string \<Rightarrow> open_mode \<Rightarrow> (nat \<Rightarrow> ('f \<times> 'b, 'a, client_error) st)
    \<Rightarrow> ('f \<times> 'b, 'a, client_error) st" where
  "with_file E path mode body =
     bind_m (on_fst (map_err_m IoError (env_open E path mode))) (\<lambda>fd.
       finally_m (body fd) (\<lambda>(f, b). (Ok () :: (unit, unit) res, (env_close E fd f, b))))"

text \<open>A \<open>read\<close> into a buffer: the kernel writes what it answers to the start of the buffer.\<close>

definition read_into :: "'f client_env \<Rightarrow> nat \<Rightarrow> ('f \<times> bytes, nat, client_error) st" where
  "read_into E fd = (\<lambda>(f, buf).
     case env_read E fd (length buf) f of
       (Ok d, f') \<Rightarrow> (Ok (length d), (f', fill_buffer buf d))
     | (Err e, f') \<Rightarrow> (Err (IoError e), (f', buf))
     | (Panic, f') \<Rightarrow> (Panic, (f', buf))
     | (NoFuel, f') \<Rightarrow> (NoFuel, (f', buf)))"

definition write_file :: "'f client_env \<Rightarrow> nat \<Rightarrow> bytes \<Rightarrow> ('f, nat, client_error) st" where
  "write_file E fd b = map_err_m IoError (env_write E fd b)"

definition configure_endpoints ::
  "'f client_env \<Rightarrow> client_handle \<Rightarrow> configure_endpoints_req \<Rightarrow> ('f \<times> bytes, unit, client_error) st"
where
  "configure_endpoints E h req =
     bind_m (ok_or SerializationError (json_of_configure E req)) (\<lambda>json.
     with_file E (port_path h ''configure'') OpenWrite (\<lambda>fd.
       bind_m (on_fst (write_file E fd json)) (\<lambda>n.
       if n \<noteq> length json then
         fail_m (InvalidResponse ''configure_endpoints didn't read as many bytes as were requested'')
       else return_m ())))"

definition open_endpoint_ctl :: "'f client_env \<Rightarrow> client_handle \<Rightarrow> u8 \<Rightarrow> ('f, nat, client_error) st" where
  "open_endpoint_ctl E h num = map_err_m IoError
     (env_open E (port_path h (''endpoints/'' @ dec (unat num) @ ''/ctl'')) OpenRead)"

definition open_endpoint_data :: "'f client_env \<Rightarrow> client_handle \<Rightarrow> u8 \<Rightarrow> ('f, nat, client_error) st" where
  "open_endpoint_data E h num = map_err_m IoError
     (env_open E (port_path h (''endpoints/'' @ dec (unat num) @ ''/data'')) OpenRead)"

definition open_endpoint ::
  "'f client_env \<Rightarrow> client_handle \<Rightarrow> u8 \<Rightarrow> ('f, endp_handle, client_error) st" where
  "open_endpoint E h num =
     bind_m (open_endpoint_ctl E h num) (\<lambda>ctl.
     bind_m (on_failure_m (open_endpoint_data E h num) (\<lambda>f. (Ok () :: (unit, unit) res, env_close E ctl f))) (\<lambda>data.
     return_m \<lparr>eh_data = data, eh_ctl = ctl\<rparr>))"

definition device_request ::
  "'f client_env \<Rightarrow> client_handle \<Rightarrow> port_req_ty \<Rightarrow> req_recipient \<Rightarrow> u8 \<Rightarrow> u16 \<Rightarrow> u16 \<Rightarrow> req_data
    \<Rightarrow> ('f \<times> bytes, unit, client_error) st" where
  "device_request E h ty recipient request val index d =
     (if req_data_len d \<ge> 2 ^ 16 then fail_m (TransferBufTooLarge (req_data_len d))
      else
        let req = \<lparr>pr_direction = req_data_direction d, pr_req_type = ty, pr_req_recipient = recipient,
                   pr_request = request, pr_value = val, pr_index = index,
                   pr_length = of_nat (req_data_len d), pr_transfers_data = (d \<noteq> NoData)\<rparr>
        in bind_m (ok_or SerializationError (json_of_port_req E req)) (\<lambda>json.
           with_file E (port_path h ''request'') OpenRead (\<lambda>fd.
             bind_m (on_fst (write_file E fd json)) (\<lambda>n.
             if n \<noteq> length json then
               fail_m (InvalidResponse ''device_request didn't return the same number of bytes as were written'')
             else case d of
               DataIn len \<Rightarrow>
                 bind_m (read_into E fd) (\<lambda>k.
                 if k \<noteq> len then
                   fail_m (InvalidResponse ''device_request didn't transfer (host2dev) all bytes'')
                 else return_m ())
             | DataOut b \<Rightarrow>
                 bind_m (on_fst (write_file E fd b)) (\<lambda>k.
                 if k \<noteq> length b then
                   fail_m (InvalidResponse ''device_request didn't transfer (dev2host) all bytes'')
                 else return_m ())
             | NoData \<Rightarrow> return_m ()))))"

definition get_descriptor ::
  "'f client_env \<Rightarrow> client_handle \<Rightarrow> req_recipient \<Rightarrow> u8 \<Rightarrow> u8 \<Rightarrow> u16 \<Rightarrow> ('f \<times> bytes, unit, client_error) st"
where
  "get_descriptor E h recipient ty idx windex = (\<lambda>(f, buf).
     device_request E h StandardReq recipient 0x06 (push_bit 8 (ucast ty) OR ucast idx) windex
       (DataIn (length buf)) (f, buf))"

definition clear_feature ::
  "'f client_env \<Rightarrow> client_handle \<Rightarrow> req_recipient \<Rightarrow> u16 \<Rightarrow> u16 \<Rightarrow> ('f \<times> bytes, unit, client_error) st"
where
  "clear_feature E h recipient index feature_sel =
     device_request E h StandardReq recipient 0x01 feature_sel index NoData"

subsection \<open>Endpoint handles\<close>

definition ctl_request :: "'f client_env \<Rightarrow> endp_handle \<Rightarrow> ctl_req \<Rightarrow> ('f, unit, client_error) st" where
  "ctl_request E h req =
     bind_m (ok_or SerializationError (json_of_ctl_req E req)) (\<lambda>json.
     bind_m (write_file E (eh_ctl h) json) (\<lambda>n.
     if n \<noteq> length json then
       fail_m (InvalidResponse ''xhcid didn't process all of the ctl bytes'')
     else return_m ()))"

definition ctl_response :: "'f client_env \<Rightarrow> endp_handle \<Rightarrow> ('f, ctl_res, client_error) st" where
  "ctl_response E h =
     bind_m (map_err_m IoError (env_read E (eh_ctl h) 256)) (\<lambda>d.
     if length d > 256 then panic_m
     else ok_or SerializationError (ctl_res_of_json E d))"

definition endp_reset :: "'f client_env \<Rightarrow> endp_handle \<Rightarrow> bool \<Rightarrow> ('f, unit, client_error) st" where
  "endp_reset E h no_clear_feature = ctl_request E h (ResetReq no_clear_feature)"

definition endp_status :: "'f client_env \<Rightarrow> endp_handle \<Rightarrow> ('f, endpoint_status, client_error) st" where
  "endp_status E h =
     bind_m (ctl_request E h StatusReq) (\<lambda>_.
     bind_m (ctl_response E h) (\<lambda>r. case r of
       StatusRes s \<Rightarrow> return_m s
     | _ \<Rightarrow> fail_m (InvalidResponse ''expected status response'')))"

definition generic_transfer ::
  "'f client_env \<Rightarrow> endp_handle \<Rightarrow> ctl_direction \<Rightarrow> ('f \<times> bytes, nat, client_error) st \<Rightarrow> u32
    \<Rightarrow> ('f \<times> bytes, transfer_status, client_error) st" where
  "generic_transfer E h dir io expected_len =
     bind_m (on_fst (ctl_request E h (TransferReq dir expected_len))) (\<lambda>_.
     bind_m io (\<lambda>bytes_read.
     bind_m (on_fst (ctl_response E h)) (\<lambda>r. case r of
       TransferResult st \<Rightarrow>
         if ts_kind st = TransferSuccess \<and> bytes_read \<noteq> unat expected_len then
           fail_m (InvalidResponse ''no short packet, but fewer bytes were read/written'')
         else return_m st
     | _ \<Rightarrow> fail_m (InvalidResponse ''expected transfer result''))))"

definition transfer_write ::
  "'f client_env \<Rightarrow> endp_handle \<Rightarrow> bytes \<Rightarrow> ('f \<times> bytes, transfer_status, client_error) st" where
  "transfer_write E h b =
     generic_transfer E h CtlOut (on_fst (write_file E (eh_data h) b)) (of_nat (length b))"

definition transfer_read ::
  "'f client_env \<Rightarrow> endp_handle \<Rightarrow> ('f \<times> bytes, transfer_status, client_error) st" where
  "transfer_read E h = (\<lambda>(f, buf).
     generic_transfer E h CtlIn (read_into E (eh_data h)) (of_nat (length buf)) (f, buf))"

definition transfer_nodata ::
  "'f client_env \<Rightarrow> endp_handle \<Rightarrow> ('f \<times> bytes, transfer_status, client_error) st" where
  "transfer_nodata E h = generic_transfer E h CtlNoData (return_m 0) 0"

subsection \<open>What class drivers rely on\<close>

text \<open>
  The operations of the handles of one port, as class drivers call them. A transfer and a request
  may write to the buffer that they are given but do not change its length.
\<close>

record ('h, 'u) usb_ops =
  usb_open_endpoint :: "u8 \<Rightarrow> ('u, 'h, client_error) st"
  usb_drop_endpoint :: "'h \<Rightarrow> 'u \<Rightarrow> 'u"
  usb_transfer_read :: "'h \<Rightarrow> ('u \<times> bytes, transfer_status, client_error) st"
  usb_transfer_write :: "'h \<Rightarrow> bytes \<Rightarrow> ('u \<times> bytes, transfer_status, client_error) st"
  usb_status :: "'h \<Rightarrow> ('u, endpoint_status, client_error) st"
  usb_reset :: "'h \<Rightarrow> bool \<Rightarrow> ('u, unit, client_error) st"
  usb_device_request :: "port_req_ty \<Rightarrow> req_recipient \<Rightarrow> u8 \<Rightarrow> u16 \<Rightarrow> u16 \<Rightarrow> req_data
    \<Rightarrow> ('u \<times> bytes, unit, client_error) st"
  usb_clear_feature :: "req_recipient \<Rightarrow> u16 \<Rightarrow> u16 \<Rightarrow> ('u \<times> bytes, unit, client_error) st"

definition client_usb :: "'f client_env \<Rightarrow> client_handle \<Rightarrow> (endp_handle, 'f) usb_ops" where
  "client_usb E h = \<lparr>usb_open_endpoint = open_endpoint E h,
     usb_drop_endpoint = (\<lambda>ep f. env_close E (eh_ctl ep) (env_close E (eh_data ep) f)),
     usb_transfer_read = transfer_read E,
     usb_transfer_write = transfer_write E, usb_status = endp_status E, usb_reset = endp_reset E,
     usb_device_request = device_request E h, usb_clear_feature = clear_feature E h\<rparr>"

abbreviation buffer_length :: "nat \<Rightarrow> 's \<times> bytes \<Rightarrow> bool" where
  "buffer_length n \<equiv> \<lambda>(s, buf). length buf = n"

locale usb_pipe =
  fixes U :: "('h, 'u) usb_ops"
  assumes read_length: "keeps (buffer_length n) (usb_transfer_read U h)"
    and write_length: "keeps (buffer_length n) (usb_transfer_write U h b)"
    and request_length: "keeps (buffer_length n) (usb_device_request U ty rc req v i d)"
    and clear_length: "keeps (buffer_length n) (usb_clear_feature U rc i v)"

lemma keeps_read_into: "keeps (buffer_length n) (read_into E fd)"
  by (auto simp: keeps_def read_into_def split: prod.split res.split)

lemma keeps_with_file:
  assumes "\<And>fd. keeps (buffer_length n) (body fd)"
  shows "keeps (buffer_length n) (with_file E path mode body)"
  unfolding with_file_def
  by (intro keeps_bind keeps_on_fst_snd keeps_finally assms) (auto simp: keeps_def)

lemma keeps_generic_transfer:
  "keeps (buffer_length n) io \<Longrightarrow> keeps (buffer_length n) (generic_transfer E h dir io k)"
  unfolding generic_transfer_def
  by (intro keeps_bind keeps_on_fst_snd) (auto split: ctl_res.split)

lemma keeps_device_request: "keeps (buffer_length n) (device_request E h ty rc req v i d)"
  unfolding device_request_def Let_def
  by (cases d) (auto intro!: keeps_bind keeps_with_file keeps_on_fst_snd keeps_read_into)

lemma keeps_transfer_read:
  fixes E :: "'f client_env"
  shows "keeps (buffer_length n) (transfer_read E h)"
proof
  fix s :: "'f \<times> bytes"
  assume b: "buffer_length n s"
  have "buffer_length n (snd (generic_transfer E h CtlIn (read_into E (eh_data h)) k s))" for k
    using keeps_generic_transfer [OF keeps_read_into] b by (rule keepsD)
  then show "buffer_length n (snd (transfer_read E h s))"
    by (cases s) (simp only: transfer_read_def case_prod_conv)
qed

interpretation client_pipe: usb_pipe "client_usb E h" for E h
  by unfold_locales
    (simp_all add: client_usb_def keeps_transfer_read transfer_write_def keeps_generic_transfer
      keeps_on_fst_snd keeps_device_request clear_feature_def)

subsection \<open>Properties of the descriptors\<close>

text \<open>
  USB client property C10. The endpoint type written to the controller is defined for every
  descriptor: it is the transfer type of the descriptor, plus 4 for an endpoint that can send to
  the host (control endpoints included), so it is between 1 and 7 and the error branch is never
  taken. The names of the port and endpoint states read back.
\<close>

theorem endpoint_types:
  "xhci_ep_type d = Ok ((case endp_ty d of CtrlEp \<Rightarrow> 0 | IsochEp \<Rightarrow> 1 | BulkEp \<Rightarrow> 2 | InterruptEp \<Rightarrow> 3)
     + (if direction_of d = DirOut then 0 else 4))
   \<and> (direction_of d = DirBidirectional \<longleftrightarrow> endp_ty d = CtrlEp)
   \<and> port_state_of_str (port_state_str p) = Ok p
   \<and> endpoint_status_of_str (endpoint_status_str q) = Ok q"
proof -
  have "port_state_of_str (port_state_str p) = Ok p"
    by (cases p) (simp_all add: port_state_of_str_def)
  moreover have "endpoint_status_of_str (endpoint_status_str q) = Ok q"
    by (cases q) (simp_all add: endpoint_status_of_str_def)
  ultimately show ?thesis
    by (cases "endp_ty d")
      (auto simp: xhci_ep_type_def direction_of_def is_control_def is_isoch_def is_bulk_def
        is_interrupt_def)
qed

end
