(* ===== verification/Bot_Transport.thy ===== *)
theory Bot_Transport
  imports Scsi_Cmds Xhci_Client
begin

text \<open>
  The bulk-only transport of the USB mass storage driver
  (\<open>storage/usbscsid/src/protocol/mod.rs\<close> and \<open>bot.rs\<close>): command and status wrappers, stall and
  reset recovery and \<open>send_command\<close>. It runs over the endpoint handles of the client library, the
  record \<open>usb_ops\<close>. The state is the transport and the buffer of the caller that a command may
  read into. Reading the status wrapper again after a stall is a recursion that the code does not
  bound; it carries fuel.
\<close>

subsection \<open>Wrappers\<close>

datatype protocol_error =
    TooLargeCommandBlock nat
  | XhciError client_error
  | RecoveryFailed
  | ProtocolFailure string

definition cbw_signature :: u32 where "cbw_signature = 0x43425355"
definition csw_signature :: u32 where "csw_signature = 0x53425355"

record command_block_wrapper =
  cbw_sig :: u32
  cbw_tag :: u32
  cbw_data_transfer_len :: u32
  cbw_flags :: u8
  cbw_lun :: u8
  cbw_cb_len :: u8
  cbw_command_block :: bytes

definition cbw_new ::
  "u32 \<Rightarrow> u32 \<Rightarrow> req_direction \<Rightarrow> u8 \<Rightarrow> bytes \<Rightarrow> (command_block_wrapper, protocol_error) res" where
  "cbw_new tag len dir lun cb =
     (if length cb > 16 then Err (TooLargeCommandBlock (length cb))
      else Ok \<lparr>cbw_sig = cbw_signature, cbw_tag = tag, cbw_data_transfer_len = len,
               cbw_flags = flag_at 7 (dir = DeviceToHost), cbw_lun = lun,
               cbw_cb_len = of_nat (length cb),
               cbw_command_block = blit (replicate 16 0) 0 cb\<rparr>)"

text \<open>The packed structure in memory.\<close>

definition cbw_bytes :: "command_block_wrapper \<Rightarrow> bytes" where
  "cbw_bytes w = le_bytes 4 (cbw_sig w) @ le_bytes 4 (cbw_tag w)
     @ le_bytes 4 (cbw_data_transfer_len w) @ [cbw_flags w, cbw_lun w, cbw_cb_len w]
     @ cbw_command_block w"

datatype csw_status = Passed | FailedStatus | PhaseError

primrec csw_status_u8 :: "csw_status \<Rightarrow> u8" where
  "csw_status_u8 Passed = 0"
| "csw_status_u8 FailedStatus = 1"
| "csw_status_u8 PhaseError = 2"

record command_status_wrapper =
  csw_sig :: u32
  csw_tag :: u32
  csw_data_residue :: u32
  csw_stat :: u8

definition csw_of_bytes :: "bytes \<Rightarrow> command_status_wrapper" where
  "csw_of_bytes b = \<lparr>csw_sig = from_le (subslice 0 4 b), csw_tag = from_le (subslice 4 4 b),
     csw_data_residue = from_le (subslice 8 4 b), csw_stat = b ! 12\<rparr>"

definition csw_is_valid :: "command_status_wrapper \<Rightarrow> bool" where
  "csw_is_valid w \<longleftrightarrow> csw_sig w = csw_signature"

subsection \<open>The transport\<close>

datatype send_command_status_kind = CmdSuccess | CmdFailed

record send_command_status =
  scs_residue :: "u32 option"
  scs_kind :: send_command_status_kind

definition bytes_transferred :: "send_command_status \<Rightarrow> u32 \<Rightarrow> u32" where
  "bytes_transferred st transfer_len =
     transfer_len - (case scs_residue st of None \<Rightarrow> 0 | Some r \<Rightarrow> r)"

text \<open>\<open>NonZeroU32::new\<close>.\<close>

definition nonzero :: "u32 \<Rightarrow> u32 option" where
  "nonzero x = (if x = 0 then None else Some x)"

record ('h, 'u) bot =
  bot_usb :: 'u
  bulk_in :: 'h
  bulk_out :: 'h
  bulk_in_num :: u8
  bulk_out_num :: u8
  max_lun :: u8
  current_tag :: u32
  interface_num :: u8

text \<open>
  An operation of the handles, run on the transport and the caller's buffer, and an operation that
  reads into a buffer of its own, which it answers.
\<close>

definition on_usb ::
  "('u \<times> bytes, 'a, client_error) st \<Rightarrow> (('h, 'u) bot \<times> bytes, 'a, protocol_error) st" where
  "on_usb m = (\<lambda>(b, buf). case m (bot_usb b, buf) of
     (r, (u, buf')) \<Rightarrow> (map_err XhciError r, (b\<lparr>bot_usb := u\<rparr>, buf')))"

definition own_buffer :: "bytes \<Rightarrow> ('s \<times> bytes, 'a, 'e) st \<Rightarrow> ('s \<times> bytes, 'a \<times> bytes, 'e) st" where
  "own_buffer init m = (\<lambda>(s, buf). case m (s, init) of
     (r, (s', b)) \<Rightarrow> (map_res (\<lambda>a. (a, b)) r, (s', buf)))"

definition bulk_only_mass_storage_reset ::
  "('h, 'u) usb_ops \<Rightarrow> u16 \<Rightarrow> ('u \<times> bytes, unit, client_error) st" where
  "bulk_only_mass_storage_reset U if_num = usb_device_request U ClassReq Interface 0xFF 0 if_num NoData"

definition get_max_lun :: "('h, 'u) usb_ops \<Rightarrow> u16 \<Rightarrow> ('u \<times> bytes, u8, client_error) st" where
  "get_max_lun U if_num =
     bind_m (own_buffer [0] (usb_device_request U ClassReq Interface 0xFE 0 if_num (DataIn 1)))
       (\<lambda>(_, b). return_m (b ! 0))"

text \<open>The position of the first endpoint of a direction, counted from 1.\<close>

definition endpoint_num :: "endp_direction \<Rightarrow> endp_desc list \<Rightarrow> u8 option" where
  "endpoint_num dir endps =
     map_option (\<lambda>i. of_nat (i + 1)) (find (\<lambda>i. direction_of (endps ! i) = dir) [0..<length endps])"

definition bot_init ::
  "('h, 'u) usb_ops \<Rightarrow> if_desc \<Rightarrow> ('u \<times> bytes, ('h, 'u) bot, protocol_error) st" where
  "bot_init U d =
     (case (endpoint_num DirIn (if_endpoints d), endpoint_num DirOut (if_endpoints d)) of
        (Some i, Some j) \<Rightarrow>
          map_err_m XhciError
            (bind_m (get_max_lun U 0) (\<lambda>lun.
             bind_m (on_fst (usb_open_endpoint U i)) (\<lambda>ep_in.
             bind_m (on_failure_m (on_fst (usb_open_endpoint U j))
                       (\<lambda>(u, buf). (Ok () :: (unit, unit) res, (usb_drop_endpoint U ep_in u, buf)))) (\<lambda>ep_out.
             (\<lambda>(u, buf). (Ok \<lparr>bot_usb = u, bulk_in = ep_in, bulk_out = ep_out, bulk_in_num = i,
               bulk_out_num = j, max_lun = lun, current_tag = 0, interface_num = if_number d\<rparr>,
               (u, buf)))))))
      | _ \<Rightarrow> panic_m)"

text \<open>The \<open>unwrap\<close> of the transport turns an error into a panic.\<close>

definition protocol_setup ::
  "('h, 'u) usb_ops \<Rightarrow> u8 \<Rightarrow> if_desc \<Rightarrow> ('u \<times> bytes, ('h, 'u) bot option, protocol_error) st" where
  "protocol_setup U protocol d =
     (if protocol = 0x50 then (\<lambda>s. case bot_init U d s of
        (Ok b, s') \<Rightarrow> (Ok (Some b), s')
      | (NoFuel, s') \<Rightarrow> (NoFuel, s')
      | (_, s') \<Rightarrow> (Panic, s'))
      else return_m None)"

definition clear_stall_in :: "('h, 'u) usb_ops \<Rightarrow> (('h, 'u) bot \<times> bytes, unit, protocol_error) st" where
  "clear_stall_in U = (\<lambda>(b, buf).
     bind_m (on_usb (on_fst (usb_status U (bulk_in b)))) (\<lambda>st.
     if st = EpHalted then
       bind_m (on_usb (on_fst (usb_reset U (bulk_in b) False))) (\<lambda>_.
       on_usb (usb_clear_feature U Endpoint (ucast (bulk_in_num b)) 0))
     else return_m ()) (b, buf))"

definition clear_stall_out :: "('h, 'u) usb_ops \<Rightarrow> (('h, 'u) bot \<times> bytes, unit, protocol_error) st" where
  "clear_stall_out U = (\<lambda>(b, buf).
     bind_m (on_usb (on_fst (usb_status U (bulk_out b)))) (\<lambda>st.
     if st = EpHalted then
       bind_m (on_usb (on_fst (usb_reset U (bulk_out b) False))) (\<lambda>_.
       on_usb (usb_clear_feature U Endpoint (ucast (bulk_out_num b)) 0))
     else return_m ()) (b, buf))"

text \<open>Whether an endpoint is halted; the second status is only read when the first is not.\<close>

definition any_halted :: "('h, 'u) usb_ops \<Rightarrow> (('h, 'u) bot \<times> bytes, bool, protocol_error) st" where
  "any_halted U = (\<lambda>(b, buf).
     bind_m (on_usb (on_fst (usb_status U (bulk_in b)))) (\<lambda>i.
     if i = EpHalted then return_m True
     else bind_m (on_usb (on_fst (usb_status U (bulk_out b)))) (\<lambda>j. return_m (j = EpHalted))) (b, buf))"

definition reset_recovery :: "('h, 'u) usb_ops \<Rightarrow> (('h, 'u) bot \<times> bytes, unit, protocol_error) st" where
  "reset_recovery U = (\<lambda>(b, buf).
     bind_m (on_usb (bulk_only_mass_storage_reset U (ucast (interface_num b)))) (\<lambda>_.
     bind_m (clear_stall_in U) (\<lambda>_.
     bind_m (clear_stall_out U) (\<lambda>_.
     bind_m (any_halted U) (\<lambda>h. if h then fail_m RecoveryFailed else return_m ())))) (b, buf))"

text \<open>Reads the status wrapper into the buffer of the state.\<close>

fun read_csw_raw :: "('h, 'u) usb_ops \<Rightarrow> nat \<Rightarrow> bool \<Rightarrow> (('h, 'u) bot \<times> bytes, unit, protocol_error) st" where
  "read_csw_raw U 0 already s = (NoFuel, s)"
| "read_csw_raw U (Suc fuel) already (b, buf) =
     bind_m (on_usb (usb_transfer_read U (bulk_in b))) (\<lambda>st.
       if ts_kind st = StalledStatus then
         bind_m (if already then reset_recovery U else return_m ()) (\<lambda>_.
         bind_m (clear_stall_in U) (\<lambda>_.
         read_csw_raw U fuel True))
       else if ts_kind st = ShortPacketStatus \<and> ts_bytes_transferred st \<noteq> 13 then panic_m
       else return_m ()) (b, buf)"

definition read_csw :: "('h, 'u) usb_ops \<Rightarrow> nat \<Rightarrow> (('h, 'u) bot \<times> bytes, unit, protocol_error) st" where
  "read_csw U fuel = read_csw_raw U fuel False"

definition early_residue :: "transfer_status \<Rightarrow> (u32 option, protocol_error) res" where
  "early_residue st = (case ts_kind st of
      TransferSuccess \<Rightarrow> Ok None
    | ShortPacketStatus \<Rightarrow> Ok (nonzero (ts_bytes_transferred st))
    | StalledStatus \<Rightarrow> Panic
    | UnknownStatus \<Rightarrow> Err (XhciError (InvalidResponse ''unknown transfer status'')))"

text \<open>The data phase: the residue known so far.\<close>

definition data_phase ::
  "('h, 'u) usb_ops \<Rightarrow> req_data \<Rightarrow> (('h, 'u) bot \<times> bytes, u32 option, protocol_error) st" where
  "data_phase U d = (\<lambda>(b, buf). (case d of
      DataIn n \<Rightarrow> bind_m (on_usb (usb_transfer_read U (bulk_in b))) (\<lambda>st. of_res (early_residue st))
    | DataOut x \<Rightarrow> bind_m (on_usb (usb_transfer_write U (bulk_out b) x)) (\<lambda>st. of_res (early_residue st))
    | NoData \<Rightarrow> return_m None) (b, buf))"

definition check_csw ::
  "('h, 'u) usb_ops \<Rightarrow> u32 \<Rightarrow> u32 option \<Rightarrow> command_status_wrapper
    \<Rightarrow> (('h, 'u) bot \<times> bytes, send_command_status, protocol_error) st" where
  "check_csw U tag early csw =
     (let residue = (case early of None \<Rightarrow> nonzero (csw_data_residue csw) | Some r \<Rightarrow> Some r)
      in if \<not> csw_is_valid csw \<or> csw_tag csw \<noteq> tag then
           bind_m (reset_recovery U) (\<lambda>_.
           bind_m (any_halted U) (\<lambda>h.
           fail_m (ProtocolFailure (if h then ''Reset Recovery didn't reset endpoints''
                                    else ''CSW invalid, but a recover was successful''))))
         else if csw_stat csw = csw_status_u8 Passed then
           return_m \<lparr>scs_residue = residue, scs_kind = CmdSuccess\<rparr>
         else if csw_stat csw = csw_status_u8 FailedStatus then
           return_m \<lparr>scs_residue = residue, scs_kind = CmdFailed\<rparr>
         else fail_m (ProtocolFailure ''bulk-only transport phase error, or other''))"

definition send_cbw ::
  "('h, 'u) usb_ops \<Rightarrow> command_block_wrapper \<Rightarrow> (('h, 'u) bot \<times> bytes, unit, protocol_error) st" where
  "send_cbw U cbw = (\<lambda>(b, buf).
     bind_m (on_usb (usb_transfer_write U (bulk_out b) (cbw_bytes cbw))) (\<lambda>st.
     if ts_kind st = StalledStatus then panic_m
     else if ts_bytes_transferred st \<noteq> 31 then panic_m
     else return_m ()) (b, buf))"

definition send_command ::
  "('h, 'u) usb_ops \<Rightarrow> nat \<Rightarrow> bytes \<Rightarrow> req_data
    \<Rightarrow> (('h, 'u) bot \<times> bytes, send_command_status, protocol_error) st" where
  "send_command U fuel cb d = (\<lambda>(b, buf).
     let tag = current_tag b + 1
     in bind_m (of_res (cbw_new tag (of_nat (req_data_len d)) (req_data_direction d) 0 cb)) (\<lambda>cbw.
        bind_m (send_cbw U cbw) (\<lambda>_.
        bind_m (data_phase U d) (\<lambda>early.
        bind_m (own_buffer (replicate 13 0) (read_csw U fuel)) (\<lambda>(_, csw_buffer).
        check_csw U (cbw_tag cbw) early (csw_of_bytes csw_buffer)))))
        (b\<lparr>current_tag := tag\<rparr>, buf))"

subsection \<open>What a command changes\<close>

text \<open>
  Whatever an operation of the transport answers, the handles, numbers and tag of the transport are
  as before and the caller's buffer has its length; only the state of the daemon moves on.
\<close>

definition frame :: "('h, 'u) bot \<Rightarrow> nat \<Rightarrow> ('h, 'u) bot \<times> bytes \<Rightarrow> bool" where
  "frame b0 n = (\<lambda>(b, buf). b\<lparr>bot_usb := bot_usb b0\<rparr> = b0 \<and> length buf = n)"

lemma keeps_frameI:
  "(\<And>b buf. b\<lparr>bot_usb := bot_usb b0\<rparr> = b0 \<Longrightarrow> length buf = n \<Longrightarrow> frame b0 n (snd (m (b, buf))))
    \<Longrightarrow> keeps (frame b0 n) m"
  by (auto simp: keeps_def frame_def)

lemma keeps_frame_split:
  assumes "\<And>b buf. keeps (frame b0 n) (m b buf)"
  shows "keeps (frame b0 n) (\<lambda>(b, buf). m b buf (b, buf))"
proof
  fix s assume "frame b0 n s"
  then show "frame b0 n (snd ((\<lambda>(b, buf). m b buf (b, buf)) s))"
    using keepsD [OF assms] by (cases s) simp
qed

lemma keeps_on_usb:
  fixes b0 :: "('h, 'u) bot"
  assumes "keeps (buffer_length n) m"
  shows "keeps (frame b0 n) (on_usb m)"
proof (rule keeps_frameI)
  fix b :: "('h, 'u) bot" and buf :: bytes
  assume b: "b\<lparr>bot_usb := bot_usb b0\<rparr> = b0" and n: "length buf = n"
  obtain r u buf' where m: "m (bot_usb b, buf) = (r, (u, buf'))" by (metis prod.exhaust)
  then have "length buf' = n" using keepsD [OF assms, of "(bot_usb b, buf)"] n by simp
  with b show "frame b0 n (snd (on_usb m (b, buf)))" by (simp add: on_usb_def m frame_def)
qed

lemma keeps_own_buffer:
  fixes b0 :: "('h, 'u) bot"
  assumes "keeps (frame b0 (length init)) m"
  shows "keeps (frame b0 n) (own_buffer init m)"
proof (rule keeps_frameI)
  fix b :: "('h, 'u) bot" and buf :: bytes
  assume b: "b\<lparr>bot_usb := bot_usb b0\<rparr> = b0" and n: "length buf = n"
  obtain r b' buf' where m: "m (b, init) = (r, (b', buf'))" by (metis prod.exhaust)
  then have "b'\<lparr>bot_usb := bot_usb b0\<rparr> = b0"
    using keepsD [OF assms, of "(b, init)"] b by (simp add: frame_def)
  with n show "frame b0 n (snd (own_buffer init m (b, buf)))" by (simp add: own_buffer_def m frame_def)
qed

context usb_pipe
begin

lemma status_frame: "keeps (frame b0 n) (on_usb (on_fst m))"
  by (intro keeps_on_usb keeps_on_fst_snd)

lemma clear_stall_frame:
  "keeps (frame b0 n) (clear_stall_in U)" "keeps (frame b0 n) (clear_stall_out U)"
  unfolding clear_stall_in_def clear_stall_out_def
  by (intro keeps_frame_split; auto intro!: keeps_bind status_frame keeps_on_usb clear_length)+

lemma any_halted_frame: "keeps (frame b0 n) (any_halted U)"
  unfolding any_halted_def
  by (intro keeps_frame_split) (auto intro!: keeps_bind status_frame)

lemma reset_recovery_frame: "keeps (frame b0 n) (reset_recovery U)"
  unfolding reset_recovery_def bulk_only_mass_storage_reset_def
  by (intro keeps_frame_split)
    (auto intro!: keeps_bind keeps_on_usb request_length clear_stall_frame any_halted_frame)

lemma read_csw_raw_frame: "keeps (frame b0 n) (read_csw_raw U fuel already)"
proof (induction fuel arbitrary: already)
  case 0
  then show ?case by (auto simp: keeps_def)
next
  case (Suc fuel)
  have "read_csw_raw U (Suc fuel) already = (\<lambda>(b, buf).
     bind_m (on_usb (usb_transfer_read U (bulk_in b))) (\<lambda>st.
       if ts_kind st = StalledStatus then
         bind_m (if already then reset_recovery U else return_m ()) (\<lambda>_.
         bind_m (clear_stall_in U) (\<lambda>_.
         read_csw_raw U fuel True))
       else if ts_kind st = ShortPacketStatus \<and> ts_bytes_transferred st \<noteq> 13 then panic_m
       else return_m ()) (b, buf))"
    by (rule ext) auto
  then show ?case
    by (auto intro!: keeps_frame_split keeps_bind keeps_on_usb read_length reset_recovery_frame
        clear_stall_frame Suc.IH)
qed

lemma data_phase_frame: "keeps (frame b0 n) (data_phase U d)"
  unfolding data_phase_def
  by (intro keeps_frame_split; cases d)
    (auto intro!: keeps_bind keeps_on_usb read_length write_length)

lemma check_csw_frame: "keeps (frame b0 n) (check_csw U tag early csw)"
  unfolding check_csw_def Let_def
  by (auto intro!: keeps_bind reset_recovery_frame any_halted_frame)

lemma send_cbw_frame: "keeps (frame b0 n) (send_cbw U cbw)"
  unfolding send_cbw_def
  by (intro keeps_frame_split) (auto intro!: keeps_bind keeps_on_usb write_length)

lemma send_command_frame:
  "frame (b\<lparr>current_tag := current_tag b + 1\<rparr>) (length buf) (snd (send_command U fuel cb d (b, buf)))"
proof -
  let ?b = "b\<lparr>current_tag := current_tag b + 1\<rparr>"
  let ?run = "bind_m (of_res (cbw_new (current_tag b + 1) (of_nat (req_data_len d)) (req_data_direction d) 0 cb))
      (\<lambda>cbw. bind_m (send_cbw U cbw) (\<lambda>_.
        bind_m (data_phase U d) (\<lambda>early.
        bind_m (own_buffer (replicate 13 0) (read_csw U fuel)) (\<lambda>(_, csw_buffer).
        check_csw U (cbw_tag cbw) early (csw_of_bytes csw_buffer)))))"
  have csw: "keeps (frame ?b (length buf)) (own_buffer (replicate 13 0) (read_csw U fuel))"
    unfolding read_csw_def by (rule keeps_own_buffer, rule read_csw_raw_frame)
  have chk: "keeps (frame ?b (length buf))
      ((\<lambda>(_, csw_buffer). check_csw U tag early (csw_of_bytes csw_buffer)) x)" for tag early and x :: "unit \<times> bytes"
    by (cases x) (simp add: check_csw_frame)
  have "keeps (frame ?b (length buf)) ?run"
    by (rule keeps_bind, rule keeps_of_res, rule keeps_bind, rule send_cbw_frame, rule keeps_bind,
        rule data_phase_frame, rule keeps_bind, rule csw, rule chk)
  then have "frame ?b (length buf) (snd (?run (?b, buf)))"
    by (rule keepsD) (simp add: frame_def)
  then show ?thesis by (simp add: send_command_def Let_def)
qed

end

text \<open>
  BOT property C11. A command over the endpoint handles of the client library, whether it succeeds,
  fails or panics, uses a new tag, one more than the last command's, and leaves the handles and
  numbers of the transport and the length of the caller's buffer as they were.
\<close>

theorem send_command_keeps_transport:
  "(\<lambda>(b', buf'). b'\<lparr>bot_usb := bot_usb b\<rparr> = b\<lparr>current_tag := current_tag b + 1\<rparr>
                 \<and> length buf' = length buf)
     (snd (send_command (client_usb E h) fuel cb d (b, buf)))"
  using client_pipe.send_command_frame [of b buf E h fuel cb d]
  by (simp add: frame_def split: prod.splits)

text \<open>
  BOT property C12. A command is never reported as executed on the strength of the status of another
  one: when \<open>send_command\<close> succeeds, the status wrapper that it read last has the signature and the
  tag of this command, and its status byte is 0 for success and 1 for failure.
\<close>

theorem send_command_status_matches:
  assumes "send_command U fuel cb d (b, buf) = (Ok st, s')"
  shows "\<exists>s1 csw. own_buffer (replicate 13 0) (read_csw U fuel) s1 = (Ok ((), csw), s')
           \<and> csw_is_valid (csw_of_bytes csw) \<and> csw_tag (csw_of_bytes csw) = current_tag b + 1
           \<and> csw_stat (csw_of_bytes csw) = (case scs_kind st of CmdSuccess \<Rightarrow> 0 | CmdFailed \<Rightarrow> 1)"
proof -
  from assms obtain cbw early csw s1 s2 where
    cbw: "cbw_new (current_tag b + 1) (of_nat (req_data_len d)) (req_data_direction d) 0 cb = Ok cbw"
    and csw: "own_buffer (replicate 13 0) (read_csw U fuel) s1 = (Ok ((), csw), s2)"
    and chk: "check_csw U (cbw_tag cbw) early (csw_of_bytes csw) s2 = (Ok st, s')"
    unfolding send_command_def Let_def by (auto simp: bind_m_Ok of_res_def)
  have tag: "cbw_tag cbw = current_tag b + 1"
    using cbw by (auto simp: cbw_new_def split: if_splits)
  have "csw_is_valid (csw_of_bytes csw) \<and> csw_tag (csw_of_bytes csw) = cbw_tag cbw"
    using chk unfolding check_csw_def Let_def
    by (cases "csw_is_valid (csw_of_bytes csw) \<and> csw_tag (csw_of_bytes csw) = cbw_tag cbw")
      (auto simp: bind_m_Ok fail_m_def)
  moreover from this have "s2 = s'
      \<and> csw_stat (csw_of_bytes csw) = (case scs_kind st of CmdSuccess \<Rightarrow> 0 | CmdFailed \<Rightarrow> 1)"
    using chk unfolding check_csw_def Let_def
    by (auto simp: return_m_def fail_m_def split: if_splits)
  ultimately show ?thesis using csw tag by (intro exI [of _ s1] exI [of _ csw]) simp
qed

subsection \<open>A target\<close>

text \<open>
  A target as the bulk-only transport specification describes it (section 5): it receives a command
  wrapper, then sends at most as many bytes as the wrapper asks for or takes the bytes that the host
  sends, then sends a status wrapper with the tag of the command. What a command does is the record
  \<open>target_dev\<close>: the bytes to send, or what happens to the bytes received, and whether it passed.
\<close>

record 'd target_dev =
  dev_reply :: "bytes \<Rightarrow> 'd \<Rightarrow> bytes \<times> bool \<times> 'd"
  dev_accept :: "bytes \<Rightarrow> bytes \<Rightarrow> 'd \<Rightarrow> bool \<times> 'd"

datatype 'd phase =
    TargetIdle 'd
  | TargetSends u32 nat bytes bool 'd
  | TargetReceives u32 bytes nat 'd
  | TargetStatus u32 u32 bool 'd

definition cbw_block :: "command_block_wrapper \<Rightarrow> bytes" where
  "cbw_block w = take (unat (cbw_cb_len w)) (cbw_command_block w)"

definition after_cbw :: "'d target_dev \<Rightarrow> command_block_wrapper \<Rightarrow> 'd \<Rightarrow> 'd phase" where
  "after_cbw T w d =
     (let len = unat (cbw_data_transfer_len w)
      in if bit (cbw_flags w) 7 then
           (case dev_reply T (cbw_block w) d of
              (data, ok, d') \<Rightarrow> TargetSends (cbw_tag w) len (take len data) ok d')
         else TargetReceives (cbw_tag w) (cbw_block w) len d)"

definition after_data :: "'d target_dev \<Rightarrow> u32 \<Rightarrow> bytes \<Rightarrow> bytes \<Rightarrow> 'd \<Rightarrow> 'd phase" where
  "after_data T tag cb x d = (case dev_accept T cb x d of (ok, d') \<Rightarrow> TargetStatus tag 0 ok d')"

definition csw_image :: "u32 \<Rightarrow> u32 \<Rightarrow> bool \<Rightarrow> bytes" where
  "csw_image tag residue ok = le_bytes 4 csw_signature @ le_bytes 4 tag @ le_bytes 4 residue
     @ [csw_status_u8 (if ok then Passed else FailedStatus)]"

definition bot_target ::
  "('h, 'u) usb_ops \<Rightarrow> 'h \<Rightarrow> 'h \<Rightarrow> ('u \<Rightarrow> 'd phase) \<Rightarrow> 'd target_dev \<Rightarrow> bool" where
  "bot_target U i j ph T \<longleftrightarrow>
     (\<forall>u buf w d. ph u = TargetIdle d \<and> cbw_sig w = cbw_signature \<and> length (cbw_command_block w) = 16
        \<longrightarrow> (\<exists>u'. usb_transfer_write U j (cbw_bytes w) (u, buf)
                   = (Ok \<lparr>ts_kind = TransferSuccess, ts_bytes_transferred = 31\<rparr>, (u', buf))
                 \<and> ph u' = after_cbw T w d))
   \<and> (\<forall>u buf tag data ok d. ph u = TargetSends tag (length buf) data ok d \<and> length data \<le> length buf
        \<longrightarrow> (\<exists>u'. usb_transfer_read U i (u, buf)
                   = (Ok \<lparr>ts_kind = (if length data = length buf then TransferSuccess else ShortPacketStatus),
                          ts_bytes_transferred = of_nat (length data)\<rparr>, (u', fill_buffer buf data))
                 \<and> ph u' = TargetStatus tag (of_nat (length buf - length data)) ok d))
   \<and> (\<forall>u buf tag cb x d. ph u = TargetReceives tag cb (length x) d
        \<longrightarrow> (\<exists>u'. usb_transfer_write U j x (u, buf)
                   = (Ok \<lparr>ts_kind = TransferSuccess, ts_bytes_transferred = of_nat (length x)\<rparr>, (u', buf))
                 \<and> ph u' = after_data T tag cb x d))
   \<and> (\<forall>u buf tag residue ok d. ph u = TargetStatus tag residue ok d \<and> length buf = 13
        \<longrightarrow> (\<exists>u'. usb_transfer_read U i (u, buf)
                   = (Ok \<lparr>ts_kind = TransferSuccess, ts_bytes_transferred = 13\<rparr>,
                      (u', csw_image tag residue ok))
                 \<and> ph u' = TargetIdle d))"

lemma bot_target_cbw:
  assumes "bot_target U i j ph T" "ph u = TargetIdle d" "cbw_sig w = cbw_signature"
    "length (cbw_command_block w) = 16"
  obtains u' where "usb_transfer_write U j (cbw_bytes w) (u, buf)
      = (Ok \<lparr>ts_kind = TransferSuccess, ts_bytes_transferred = 31\<rparr>, (u', buf))"
    "ph u' = after_cbw T w d"
  using assms(1) [unfolded bot_target_def, THEN conjunct1, rule_format, of u d w buf] assms(2-) that
  by auto

lemma bot_target_read:
  assumes "bot_target U i j ph T" "ph u = TargetSends tag (length buf) data ok d"
    "length data \<le> length buf"
  obtains u' where "usb_transfer_read U i (u, buf)
      = (Ok \<lparr>ts_kind = (if length data = length buf then TransferSuccess else ShortPacketStatus),
             ts_bytes_transferred = of_nat (length data)\<rparr>, (u', fill_buffer buf data))"
    "ph u' = TargetStatus tag (of_nat (length buf - length data)) ok d"
  using assms(1) [unfolded bot_target_def, THEN conjunct2, THEN conjunct1, rule_format, of u tag buf data ok d] assms(2-) that
  by auto

lemma bot_target_write:
  assumes "bot_target U i j ph T" "ph u = TargetReceives tag cb (length x) d"
  obtains u' where "usb_transfer_write U j x (u, buf)
      = (Ok \<lparr>ts_kind = TransferSuccess, ts_bytes_transferred = of_nat (length x)\<rparr>, (u', buf))"
    "ph u' = after_data T tag cb x d"
  using assms(1) [unfolded bot_target_def, THEN conjunct2, THEN conjunct2, THEN conjunct1, rule_format, of u tag cb x d buf] assms(2-) that
  by auto

lemma bot_target_status:
  assumes "bot_target U i j ph T" "ph u = TargetStatus tag residue ok d" "length buf = 13"
  obtains u' where "usb_transfer_read U i (u, buf)
      = (Ok \<lparr>ts_kind = TransferSuccess, ts_bytes_transferred = 13\<rparr>, (u', csw_image tag residue ok))"
    "ph u' = TargetIdle d"
  using assms(1) [unfolded bot_target_def, THEN conjunct2, THEN conjunct2, THEN conjunct2, rule_format, of u tag residue ok d buf] assms(2-) that
  by auto

lemma csw_of_image:
  "csw_of_bytes (csw_image tag residue ok) =
     \<lparr>csw_sig = csw_signature, csw_tag = tag, csw_data_residue = residue,
      csw_stat = csw_status_u8 (if ok then Passed else FailedStatus)\<rparr>"
  by (simp add: csw_of_bytes_def csw_image_def subslice_def nth_append)

text \<open>The end of every command: the target's status is read and found to be this command's.\<close>

lemma status_phase:
  assumes "bot_target U (bulk_in b) j ph T" "ph (bot_usb b) = TargetStatus tag residue ok d"
  obtains u' where "own_buffer (replicate 13 0) (read_csw U (Suc fuel)) (b, buf)
        = (Ok ((), csw_image tag residue ok), (b\<lparr>bot_usb := u'\<rparr>, buf))"
      "ph u' = TargetIdle d"
proof -
  obtain u' where "usb_transfer_read U (bulk_in b) (bot_usb b, replicate 13 0)
      = (Ok \<lparr>ts_kind = TransferSuccess, ts_bytes_transferred = 13\<rparr>, (u', csw_image tag residue ok))"
    "ph u' = TargetIdle d"
    by (rule bot_target_status [OF assms, of "replicate 13 0"]) simp
  then show thesis
    by (intro that [of u'])
      (simp_all add: own_buffer_def read_csw_def on_usb_def bind_m_def return_m_def)
qed

lemma check_csw_image:
  "check_csw U tag early (csw_of_bytes (csw_image tag residue ok)) s =
     (Ok \<lparr>scs_residue = (case early of None \<Rightarrow> nonzero residue | Some r \<Rightarrow> Some r),
          scs_kind = (if ok then CmdSuccess else CmdFailed)\<rparr>, s)"
  by (simp add: check_csw_def csw_of_image csw_is_valid_def return_m_def split: option.split)

lemma cbw_new_Ok:
  assumes "length cb \<le> 16"
  obtains w where "cbw_new tag len dir lun cb = Ok w" "cbw_sig w = cbw_signature"
    "length (cbw_command_block w) = 16" "cbw_tag w = tag" "cbw_data_transfer_len w = len"
    "cbw_block w = cb" "bit (cbw_flags w) 7 \<longleftrightarrow> dir = DeviceToHost"
proof -
  have "unat (of_nat (length cb) :: u8) = length cb"
    using assms by (simp add: unat_of_nat)
  moreover define w where "w = \<lparr>cbw_sig = cbw_signature, cbw_tag = tag, cbw_data_transfer_len = len,
      cbw_flags = flag_at 7 (dir = DeviceToHost), cbw_lun = lun, cbw_cb_len = of_nat (length cb),
      cbw_command_block = blit (replicate 16 0) 0 cb\<rparr>"
  ultimately show thesis
    using assms by (intro that [of w]) (simp_all add: cbw_new_def cbw_block_def blit_def)
qed

text \<open>A command that reads, and one that writes, over a target.\<close>

lemma bot_data_in:
  assumes target: "bot_target U (bulk_in b) (bulk_out b) ph T"
    and idle: "ph (bot_usb b) = TargetIdle d"
    and cb: "length cb \<le> 16" and n: "length buf < 2 ^ 32" and fuel: "0 < fuel"
    and reply: "dev_reply T cb d = (data, ok, d')" and short: "length data \<le> length buf"
  shows "\<exists>u. send_command U fuel cb (DataIn (length buf)) (b, buf)
      = (Ok \<lparr>scs_residue = (if length data = length buf then None
                           else if data = [] then Some (of_nat (length buf))
                           else Some (of_nat (length data))),
             scs_kind = (if ok then CmdSuccess else CmdFailed)\<rparr>,
         (b\<lparr>bot_usb := u, current_tag := current_tag b + 1\<rparr>, fill_buffer buf data))
    \<and> ph u = TargetIdle d'"
proof -
  let ?tag = "current_tag b + 1" and ?n = "length buf"
  let ?b = "b\<lparr>current_tag := ?tag\<rparr>"
  obtain f where f: "fuel = Suc f" using fuel by (cases fuel) auto
  obtain w where w: "cbw_new ?tag (of_nat ?n) DeviceToHost 0 cb = Ok w" "cbw_sig w = cbw_signature"
    "length (cbw_command_block w) = 16" "cbw_tag w = ?tag" "cbw_data_transfer_len w = of_nat ?n"
    "cbw_block w = cb" "bit (cbw_flags w) 7"
    by (rule cbw_new_Ok [OF cb, of ?tag "of_nat ?n" DeviceToHost 0]) auto
  obtain u1 where u1: "usb_transfer_write U (bulk_out b) (cbw_bytes w) (bot_usb b, buf)
      = (Ok \<lparr>ts_kind = TransferSuccess, ts_bytes_transferred = 31\<rparr>, (u1, buf))"
    "ph u1 = after_cbw T w d"
    by (rule bot_target_cbw [OF target idle w(2,3)])
  have cbw: "send_cbw U w (?b, buf) = (Ok (), (?b\<lparr>bot_usb := u1\<rparr>, buf))"
    using u1(1) by (simp add: send_cbw_def on_usb_def bind_m_def return_m_def)
  have len: "unat (of_nat ?n :: u32) = ?n" "unat (of_nat (length data) :: u32) = length data"
    using n short by (simp_all add: unat_of_nat_u32)
  have sends: "ph u1 = TargetSends ?tag ?n data ok d'"
    using u1(2) w reply len short by (simp add: after_cbw_def Let_def)
  obtain u2 where u2: "usb_transfer_read U (bulk_in b) (u1, buf)
      = (Ok \<lparr>ts_kind = (if length data = ?n then TransferSuccess else ShortPacketStatus),
             ts_bytes_transferred = of_nat (length data)\<rparr>, (u2, fill_buffer buf data))"
    "ph u2 = TargetStatus ?tag (of_nat (?n - length data)) ok d'"
    by (rule bot_target_read [OF target sends short])
  have data: "data_phase U (DataIn ?n) (?b\<lparr>bot_usb := u1\<rparr>, buf)
      = (Ok (if length data = ?n then None else nonzero (of_nat (length data))),
         (?b\<lparr>bot_usb := u2\<rparr>, fill_buffer buf data))"
    using u2(1) by (simp add: data_phase_def on_usb_def bind_m_def of_res_def early_residue_def)
  obtain u3 where u3: "own_buffer (replicate 13 0) (read_csw U fuel) (?b\<lparr>bot_usb := u2\<rparr>, fill_buffer buf data)
      = (Ok ((), csw_image ?tag (of_nat (?n - length data)) ok), (?b\<lparr>bot_usb := u3\<rparr>, fill_buffer buf data))"
    "ph u3 = TargetIdle d'"
    using status_phase [of U "?b\<lparr>bot_usb := u2\<rparr>" "bulk_out b" ph T ?tag _ ok d' f "fill_buffer buf data"]
      target u2(2) f by auto
  have zero: "of_nat (length xs) = (0 :: u32) \<longleftrightarrow> xs = []"
    if "unat (of_nat (length xs) :: u32) = length xs" for xs :: bytes
  proof
    assume "of_nat (length xs) = (0 :: u32)"
    then show "xs = []" using that by simp
  qed simp
  have "send_command U fuel cb (DataIn ?n) (b, buf)
      = (Ok \<lparr>scs_residue = (if length data = ?n then None else if data = [] then Some (of_nat ?n)
                           else Some (of_nat (length data))),
             scs_kind = (if ok then CmdSuccess else CmdFailed)\<rparr>,
         (?b\<lparr>bot_usb := u3\<rparr>, fill_buffer buf data))"
    using w zero [OF len(1)] zero [OF len(2)]
    by (simp add: send_command_def Let_def bind_m_def of_res_def cbw data u3(1) check_csw_image
        nonzero_def)
  then show ?thesis using u3(2) by (intro exI [of _ u3]) simp
qed

lemma bot_data_out:
  assumes target: "bot_target U (bulk_in b) (bulk_out b) ph T"
    and idle: "ph (bot_usb b) = TargetIdle d"
    and cb: "length cb \<le> 16" and n: "length x < 2 ^ 32" and fuel: "0 < fuel"
    and accept: "dev_accept T cb x d = (ok, d')"
  shows "\<exists>u. send_command U fuel cb (DataOut x) (b, buf)
      = (Ok \<lparr>scs_residue = None, scs_kind = (if ok then CmdSuccess else CmdFailed)\<rparr>,
         (b\<lparr>bot_usb := u, current_tag := current_tag b + 1\<rparr>, buf))
    \<and> ph u = TargetIdle d'"
proof -
  let ?tag = "current_tag b + 1" and ?n = "length x"
  let ?b = "b\<lparr>current_tag := ?tag\<rparr>"
  obtain f where f: "fuel = Suc f" using fuel by (cases fuel) auto
  obtain w where w: "cbw_new ?tag (of_nat ?n) HostToDevice 0 cb = Ok w" "cbw_sig w = cbw_signature"
    "length (cbw_command_block w) = 16" "cbw_tag w = ?tag" "cbw_data_transfer_len w = of_nat ?n"
    "cbw_block w = cb" "\<not> bit (cbw_flags w) 7"
    by (rule cbw_new_Ok [OF cb, of ?tag "of_nat ?n" HostToDevice 0]) auto
  obtain u1 where u1: "usb_transfer_write U (bulk_out b) (cbw_bytes w) (bot_usb b, buf)
      = (Ok \<lparr>ts_kind = TransferSuccess, ts_bytes_transferred = 31\<rparr>, (u1, buf))"
    "ph u1 = after_cbw T w d"
    by (rule bot_target_cbw [OF target idle w(2,3)])
  have cbw: "send_cbw U w (?b, buf) = (Ok (), (?b\<lparr>bot_usb := u1\<rparr>, buf))"
    using u1(1) by (simp add: send_cbw_def on_usb_def bind_m_def return_m_def)
  have "unat (of_nat ?n :: u32) = ?n" using n by (simp add: unat_of_nat_u32)
  then have receives: "ph u1 = TargetReceives ?tag cb ?n d"
    using u1(2) w by (simp add: after_cbw_def Let_def)
  obtain u2 where u2: "usb_transfer_write U (bulk_out b) x (u1, buf)
      = (Ok \<lparr>ts_kind = TransferSuccess, ts_bytes_transferred = of_nat ?n\<rparr>, (u2, buf))"
    "ph u2 = after_data T ?tag cb x d"
    by (rule bot_target_write [OF target receives])
  have data: "data_phase U (DataOut x) (?b\<lparr>bot_usb := u1\<rparr>, buf) = (Ok None, (?b\<lparr>bot_usb := u2\<rparr>, buf))"
    using u2(1) by (simp add: data_phase_def on_usb_def bind_m_def of_res_def early_residue_def)
  have status: "ph u2 = TargetStatus ?tag 0 ok d'" using u2(2) accept by (simp add: after_data_def)
  obtain u3 where u3: "own_buffer (replicate 13 0) (read_csw U fuel) (?b\<lparr>bot_usb := u2\<rparr>, buf)
      = (Ok ((), csw_image ?tag 0 ok), (?b\<lparr>bot_usb := u3\<rparr>, buf))"
    "ph u3 = TargetIdle d'"
    using status_phase [of U "?b\<lparr>bot_usb := u2\<rparr>" "bulk_out b" ph T ?tag _ ok d' f buf]
      target status f by auto
  have "send_command U fuel cb (DataOut x) (b, buf)
      = (Ok \<lparr>scs_residue = None, scs_kind = (if ok then CmdSuccess else CmdFailed)\<rparr>,
         (?b\<lparr>bot_usb := u3\<rparr>, buf))"
    using w
    by (simp add: send_command_def Let_def bind_m_def of_res_def cbw data u3(1) check_csw_image
        nonzero_def)
  then show ?thesis using u3(2) by (intro exI [of _ u3]) simp
qed

text \<open>
  BOT property C13. Over a target that follows the transport specification, a command that reads
  succeeds with the target's verdict after a single status read, leaves the bytes that the target
  sent at the start of the caller's buffer and the target idle. The number of bytes transferred that
  is worked out of the residue is right when the target sent all \<open>n\<close> bytes or none; when it sent
  \<open>0 < k < n\<close> bytes, it is \<open>n - k\<close>, not \<open>k\<close>, because the code takes the length of the short packet
  for the residue.
\<close>

theorem bot_read:
  assumes "bot_target U (bulk_in b) (bulk_out b) ph T" "ph (bot_usb b) = TargetIdle d"
    "length cb \<le> 16" "length buf < 2 ^ 32" "0 < fuel"
    "dev_reply T cb d = (data, ok, d')" "length data \<le> length buf"
  shows "\<exists>st u. send_command U fuel cb (DataIn (length buf)) (b, buf)
      = (Ok st, (b\<lparr>bot_usb := u, current_tag := current_tag b + 1\<rparr>, fill_buffer buf data))
    \<and> (scs_kind st = CmdSuccess \<longleftrightarrow> ok)
    \<and> bytes_transferred st (of_nat (length buf))
        = (if length data = length buf then of_nat (length data)
           else if data = [] then 0 else of_nat (length buf) - of_nat (length data))
    \<and> ph u = TargetIdle d'"
proof -
  obtain u where "send_command U fuel cb (DataIn (length buf)) (b, buf)
      = (Ok \<lparr>scs_residue = (if length data = length buf then None
                           else if data = [] then Some (of_nat (length buf))
                           else Some (of_nat (length data))),
             scs_kind = (if ok then CmdSuccess else CmdFailed)\<rparr>,
         (b\<lparr>bot_usb := u, current_tag := current_tag b + 1\<rparr>, fill_buffer buf data))"
    "ph u = TargetIdle d'"
    using bot_data_in [OF assms] by blast
  then show ?thesis by (intro exI conjI) (assumption, simp_all add: bytes_transferred_def)
qed

subsection \<open>A concrete target\<close>

text \<open>
  The wrapper as a target decodes it, and a port whose state is the phase of the target behind it.
  The handles are \<open>True\<close> for the in and \<open>False\<close> for the out endpoint.
\<close>

definition cbw_of_bytes :: "bytes \<Rightarrow> command_block_wrapper" where
  "cbw_of_bytes b = \<lparr>cbw_sig = from_le (subslice 0 4 b), cbw_tag = from_le (subslice 4 4 b),
     cbw_data_transfer_len = from_le (subslice 8 4 b), cbw_flags = b ! 12, cbw_lun = b ! 13,
     cbw_cb_len = b ! 14, cbw_command_block = drop 15 b\<rparr>"

lemma cbw_of_bytes_cbw_bytes: "cbw_of_bytes (cbw_bytes w) = w"
  by (simp add: cbw_of_bytes_def cbw_bytes_def subslice_def nth_append)

definition sim_read :: "('d phase \<times> bytes, transfer_status, client_error) st" where
  "sim_read = (\<lambda>(p, buf). case p of
      TargetSends tag len data ok d \<Rightarrow>
        (Ok \<lparr>ts_kind = (if length data = length buf then TransferSuccess else ShortPacketStatus),
             ts_bytes_transferred = of_nat (length data)\<rparr>,
         (TargetStatus tag (of_nat (len - length data)) ok d, fill_buffer buf data))
    | TargetStatus tag residue ok d \<Rightarrow>
        (Ok \<lparr>ts_kind = TransferSuccess, ts_bytes_transferred = 13\<rparr>,
         (TargetIdle d, csw_image tag residue ok))
    | _ \<Rightarrow> (Ok \<lparr>ts_kind = StalledStatus, ts_bytes_transferred = 0\<rparr>, (p, buf)))"

definition sim_write :: "'d target_dev \<Rightarrow> bytes \<Rightarrow> ('d phase \<times> bytes, transfer_status, client_error) st" where
  "sim_write T x = (\<lambda>(p, buf). case p of
      TargetIdle d \<Rightarrow>
        (Ok \<lparr>ts_kind = TransferSuccess, ts_bytes_transferred = 31\<rparr>, (after_cbw T (cbw_of_bytes x) d, buf))
    | TargetReceives tag cb len d \<Rightarrow>
        (Ok \<lparr>ts_kind = TransferSuccess, ts_bytes_transferred = of_nat (length x)\<rparr>,
         (after_data T tag cb x d, buf))
    | _ \<Rightarrow> (Ok \<lparr>ts_kind = StalledStatus, ts_bytes_transferred = 0\<rparr>, (p, buf)))"

definition sim_usb :: "'d target_dev \<Rightarrow> (bool, 'd phase) usb_ops" where
  "sim_usb T = \<lparr>usb_open_endpoint = (\<lambda>n. return_m (n = 1)), usb_drop_endpoint = (\<lambda>h p. p),
     usb_transfer_read = (\<lambda>h. sim_read), usb_transfer_write = (\<lambda>h. sim_write T),
     usb_status = (\<lambda>h. return_m EpEnabled), usb_reset = (\<lambda>h r. return_m ()),
     usb_device_request = (\<lambda>ty rc r v i d. return_m ()), usb_clear_feature = (\<lambda>rc i v. return_m ())\<rparr>"

lemma sim_target: "bot_target (sim_usb T) i j (\<lambda>p. p) T"
  unfolding bot_target_def
  by (simp add: sim_usb_def sim_read_def sim_write_def cbw_of_bytes_cbw_bytes)

definition sim_bot :: "'d \<Rightarrow> (bool, 'd phase) bot" where
  "sim_bot d = \<lparr>bot_usb = TargetIdle d, bulk_in = True, bulk_out = False, bulk_in_num = 1,
     bulk_out_num = 2, max_lun = 0, current_tag = 0, interface_num = 0\<rparr>"

text \<open>A target that sends two bytes and remembers what it was sent.\<close>

definition echo_dev :: "bytes target_dev" where
  "echo_dev = \<lparr>dev_reply = (\<lambda>cb d. ([1, 2], True, d)), dev_accept = (\<lambda>cb x d. (True, x))\<rparr>"

theorem bot_read_witness:
  "\<exists>st u. send_command (sim_usb echo_dev) 1 [0x12, 0, 0, 0, 5, 0] (DataIn (length [0 :: u8, 0, 0, 0, 0]))
        (sim_bot [], [0, 0, 0, 0, 0])
      = (Ok st, ((sim_bot [])\<lparr>bot_usb := u, current_tag := 1\<rparr>, [1, 2, 0, 0, 0]))
    \<and> scs_kind st = CmdSuccess \<and> bytes_transferred st 5 = 3 \<and> u = TargetIdle []"
proof -
  have 1: "dev_reply echo_dev [0x12, 0, 0, 0, 5, 0] [] = ([1, 2], True, [])" by (simp add: echo_dev_def)
  have 2: "fill_buffer [0, 0, 0, 0, 0] [1, 2] = [1, 2, 0, 0, 0]" by (simp add: fill_buffer_def)
  have 3: "current_tag (sim_bot []) + 1 = 1" by (simp add: sim_bot_def)
  show ?thesis
    using bot_read [OF sim_target, of "sim_bot []" "[]" "[0x12, 0, 0, 0, 5, 0]" "[0, 0, 0, 0, 0]" 1 echo_dev
        "[1, 2]" True "[]"]
    unfolding 1 2 3 by (simp add: sim_bot_def)
qed

lemma echo_run:
  "send_command (sim_usb echo_dev) 1 [0x2A] (DataOut [7, 8, 9]) (sim_bot [], [])
      = (Ok \<lparr>scs_residue = None, scs_kind = CmdSuccess\<rparr>,
         ((sim_bot [])\<lparr>bot_usb := TargetIdle [7, 8, 9], current_tag := 1\<rparr>, []))"
  by code_simp

theorem send_command_status_matches_witness:
  "\<exists>s1 csw s'. own_buffer (replicate 13 0) (read_csw (sim_usb echo_dev) 1) s1 = (Ok ((), csw), s')
           \<and> csw_tag (csw_of_bytes csw) = 1"
proof -
  obtain s1 csw where "own_buffer (replicate 13 0) (read_csw (sim_usb echo_dev) 1) s1
      = (Ok ((), csw), ((sim_bot [])\<lparr>bot_usb := TargetIdle [7, 8, 9], current_tag := 1\<rparr>, []))"
    "csw_tag (csw_of_bytes csw) = current_tag (sim_bot ([] :: bytes)) + 1"
    using send_command_status_matches [OF echo_run] by blast
  then show ?thesis by (intro exI conjI) (assumption, simp add: sim_bot_def)
qed

end
