(* ===== verification/Handle_Table.thy ===== *)
theory Handle_Table
  imports Rust_Prelude
begin

text \<open>
  The table of open handles that every scheme of the drivers keeps: a map from the numbers given to
  clients to what they opened, and a counter for the next number. What the schemes rely on is the
  interface \<open>handle_table\<close>: an open hands out a number that no client holds and changes no other
  entry. Two schemes that share nothing but this discipline get the same guarantees from it. The
  numbers are natural numbers: the 64-bit counters of the code would wrap after \<open>2 ^ 64\<close> opens.
\<close>

text \<open>The flags of an open, as the kernel passes them.\<close>

definition o_directory :: u64 where "o_directory = 0x10000000"
definition o_stat :: u64 where "o_stat = 0x20000000"
definition o_wronly :: u64 where "o_wronly = 0x20000"
definition o_rdwr :: u64 where "o_rdwr = 0x30000"

primrec open_all :: "('h \<Rightarrow> 's \<Rightarrow> nat \<times> 's) \<Rightarrow> 'h list \<Rightarrow> 's \<Rightarrow> nat list \<times> 's" where
  "open_all op [] s = ([], s)"
| "open_all op (h # hs) s = (case op h s of (i, s') \<Rightarrow>
     case open_all op hs s' of (is, s'') \<Rightarrow> (i # is, s''))"

locale handle_table =
  fixes good :: "'s \<Rightarrow> bool"
    and lookup :: "'s \<Rightarrow> nat \<Rightarrow> 'h option"
    and add_handle :: "'h \<Rightarrow> 's \<Rightarrow> nat \<times> 's"
  assumes add_fresh: "good s \<Longrightarrow> add_handle h s = (i, s') \<Longrightarrow> lookup s i = None"
    and add_lookup: "good s \<Longrightarrow> add_handle h s = (i, s') \<Longrightarrow> lookup s' = (lookup s)(i \<mapsto> h)"
    and add_good: "good s \<Longrightarrow> add_handle h s = (i, s') \<Longrightarrow> good s'"
begin

lemma open_all_good: "good s \<Longrightarrow> open_all add_handle hs s = (ids, s') \<Longrightarrow> good s'"
  by (induction hs arbitrary: s ids) (auto split: prod.splits dest: add_good)

lemma open_all_keeps:
  "good s \<Longrightarrow> open_all add_handle hs s = (ids, s') \<Longrightarrow> lookup s j = Some h \<Longrightarrow> lookup s' j = Some h"
proof (induction hs arbitrary: s ids)
  case (Cons g hs)
  obtain i s1 where a: "add_handle g s = (i, s1)" by fastforce
  obtain k where k: "open_all add_handle hs s1 = (k, s')"
    using Cons.prems(2) a by (auto split: prod.splits)
  have "lookup s1 j = Some h"
    using add_lookup [OF Cons.prems(1) a] add_fresh [OF Cons.prems(1) a] Cons.prems(3) by auto
  then show ?case by (rule Cons.IH [OF add_good [OF Cons.prems(1) a] k])
qed simp

lemma open_all_fresh:
  "good s \<Longrightarrow> open_all add_handle hs s = (ids, s') \<Longrightarrow> i \<in> set ids \<Longrightarrow> lookup s i = None"
proof (induction hs arbitrary: s ids)
  case (Cons g hs)
  obtain j s1 where a: "add_handle g s = (j, s1)" by fastforce
  obtain k where k: "open_all add_handle hs s1 = (k, s')" "ids = j # k"
    using Cons.prems(2) a by (auto split: prod.splits)
  show ?case
  proof (cases "i = j")
    case True
    then show ?thesis using add_fresh [OF Cons.prems(1) a] by simp
  next
    case False
    then have "lookup s1 i = None"
      using Cons.IH [OF add_good [OF Cons.prems(1) a] k(1)] Cons.prems(3) k(2) by simp
    then show ?thesis using add_lookup [OF Cons.prems(1) a] False by simp
  qed
qed simp

lemma open_all_handles:
  "good s \<Longrightarrow> open_all add_handle hs s = (ids, s') \<Longrightarrow>
     distinct ids \<and> map (lookup s') ids = map Some hs"
proof (induction hs arbitrary: s ids)
  case (Cons g hs)
  obtain j s1 where a: "add_handle g s = (j, s1)" by fastforce
  obtain k where k: "open_all add_handle hs s1 = (k, s')" "ids = j # k"
    using Cons.prems(2) a by (auto split: prod.splits)
  note g1 = add_good [OF Cons.prems(1) a]
  have j: "lookup s1 j = Some g" using add_lookup [OF Cons.prems(1) a] by simp
  then have "j \<notin> set k" using open_all_fresh [OF g1 k(1)] by force
  moreover have "lookup s' j = Some g" by (rule open_all_keeps [OF g1 k(1) j])
  ultimately show ?case using Cons.IH [OF g1 k(1)] k(2) by simp
qed simp

end

text \<open>Tables whose handles can be closed: a closed number is gone and no other is affected.\<close>

locale closing_table = handle_table good lookup add_handle
  for good :: "'s \<Rightarrow> bool" and lookup :: "'s \<Rightarrow> nat \<Rightarrow> 'h option"
    and add_handle :: "'h \<Rightarrow> 's \<Rightarrow> nat \<times> 's" +
  fixes remove_handle :: "nat \<Rightarrow> 's \<Rightarrow> 's"
  assumes remove_lookup: "good s \<Longrightarrow> lookup (remove_handle i s) = (lookup s)(i := None)"
    and remove_good: "good s \<Longrightarrow> good (remove_handle i s)"
begin

lemma reopen_differs:
  "good s \<Longrightarrow> lookup s j \<noteq> None \<Longrightarrow> j \<noteq> i \<Longrightarrow> add_handle h (remove_handle i s) = (k, s') \<Longrightarrow>
     k \<noteq> j \<and> lookup s' j = lookup s j"
  using add_fresh [OF remove_good, of s h i k s'] add_lookup [OF remove_good, of s h i k s']
    remove_lookup [of s i]
  by auto

end

end
