(* ===== verification/Scsi_Disk.thy ===== *)
theory Scsi_Disk
  imports Bot_Transport Handle_Table
begin

text \<open>
  The SCSI layer of the USB mass storage driver (\<open>storage/usbscsid/src/scsi/mod.rs\<close>) and the disk
  scheme on top of it (\<open>scheme.rs\<close>). The layer issues commands through any protocol, the trait
  \<open>Protocol\<close>: here the function that sends a command, on the state of the protocol and the buffer to
  read into. The bulk-only transport is the protocol that the driver has.
\<close>

subsection \<open>Commands\<close>

type_synonym 'p protocol =
  "bytes \<Rightarrow> req_data \<Rightarrow> ('p \<times> bytes, send_command_status, protocol_error) st"

datatype scsi_error = ScsiProtocol protocol_error | ScsiOverflow string

record scsi =
  command_buffer :: bytes
  inquiry_buffer :: bytes
  data_buffer :: bytes
  block_size :: u32
  block_count :: u64

definition resize :: "nat \<Rightarrow> bytes \<Rightarrow> bytes" where
  "resize n b = take n b @ replicate (n - length b) 0"

text \<open>A command structure is written over the start of the command buffer.\<close>

definition put_command :: "bytes \<Rightarrow> scsi \<Rightarrow> scsi" where
  "put_command c s = s\<lparr>command_buffer := blit (command_buffer s) 0 c\<rparr>"

text \<open>A command that reads into the first \<open>n\<close> bytes of the data buffer, or of the inquiry buffer.\<close>

definition send_data_in ::
  "'p protocol \<Rightarrow> nat \<Rightarrow> nat \<Rightarrow> ('p \<times> scsi, send_command_status, scsi_error) st" where
  "send_data_in P clen n = (\<lambda>(p, s).
     if clen > length (command_buffer s) \<or> n > length (data_buffer s) then (Panic, (p, s))
     else case P (take clen (command_buffer s)) (DataIn n) (p, take n (data_buffer s)) of
       (r, (p', b)) \<Rightarrow> (map_err ScsiProtocol r, (p', s\<lparr>data_buffer := b @ drop n (data_buffer s)\<rparr>)))"

definition send_inquiry_in ::
  "'p protocol \<Rightarrow> nat \<Rightarrow> nat \<Rightarrow> ('p \<times> scsi, send_command_status, scsi_error) st" where
  "send_inquiry_in P clen n = (\<lambda>(p, s).
     if clen > length (command_buffer s) \<or> n > length (inquiry_buffer s) then (Panic, (p, s))
     else case P (take clen (command_buffer s)) (DataIn n) (p, take n (inquiry_buffer s)) of
       (r, (p', b)) \<Rightarrow> (map_err ScsiProtocol r, (p', s\<lparr>inquiry_buffer := b @ drop n (inquiry_buffer s)\<rparr>)))"

definition update_scsi :: "(scsi \<Rightarrow> scsi) \<Rightarrow> ('p \<times> scsi, unit, scsi_error) st" where
  "update_scsi f = (\<lambda>(p, s). (Ok (), (p, f s)))"

definition unwrap :: "'a option \<Rightarrow> ('s, 'a, 'e) st" where
  "unwrap x = (case x of None \<Rightarrow> panic_m | Some a \<Rightarrow> return_m a)"

definition get_standard_inquiry_data ::
  "'p protocol \<Rightarrow> u16 \<Rightarrow> ('p \<times> scsi, unit, scsi_error) st" where
  "get_standard_inquiry_data P max_inquiry_len =
     bind_m (update_scsi (put_command (inquiry_bytes (inquiry_new False 0 max_inquiry_len 0)))) (\<lambda>_.
     bind_m (send_inquiry_in P 6 (unat max_inquiry_len)) (\<lambda>_.
     return_m ()))"

definition res_standard_inquiry_data :: "scsi \<Rightarrow> bytes option" where
  "res_standard_inquiry_data s = from_bytes size_of_inquiry_data (inquiry_buffer s)"

definition min_inquiry_alloc_len :: u16 where
  "min_inquiry_alloc_len = 5"

definition get_inquiry_alloc_len :: "'p protocol \<Rightarrow> ('p \<times> scsi, u16, scsi_error) st" where
  "get_inquiry_alloc_len P =
     bind_m (get_standard_inquiry_data P min_inquiry_alloc_len) (\<lambda>_ (p, s).
     bind_m (unwrap (res_standard_inquiry_data s)) (\<lambda>d.
     return_m (4 + ucast (inquiry_additional_len d))) (p, s))"

definition get_ff_sense :: "'p protocol \<Rightarrow> u8 \<Rightarrow> ('p \<times> scsi, unit, scsi_error) st" where
  "get_ff_sense P alloc_len =
     bind_m (update_scsi (\<lambda>s. (put_command (request_sense_bytes (request_sense_new False alloc_len 0)) s)
       \<lparr>data_buffer := resize (unat alloc_len) (data_buffer s)\<rparr>)) (\<lambda>_.
     bind_m (send_data_in P 6 (unat alloc_len)) (\<lambda>_.
     return_m ()))"

text \<open>The parameter data: the maximum block address and the block length.\<close>

definition read_capacity :: "'p protocol \<Rightarrow> ('p \<times> scsi, bytes, scsi_error) st" where
  "read_capacity P =
     bind_m (update_scsi (\<lambda>s. (put_command (read_capacity10_bytes (read_capacity10_new 0)) s)
       \<lparr>data_buffer := resize 10 (data_buffer s)\<rparr>)) (\<lambda>_.
     bind_m (send_data_in P 10 8) (\<lambda>_ (p, s).
     unwrap (from_bytes 8 (data_buffer s)) (p, s)))"

datatype blk_desc_slice = ShortSlice "bytes list" | GeneralSlice "bytes list" | LongSlice "bytes list"

datatype blk_desc = ShortDesc bytes | GeneralDesc bytes | LongDesc bytes

fun desc_block_size :: "blk_desc \<Rightarrow> u32" where
  "desc_block_size (ShortDesc d) = short_logical_block_len d"
| "desc_block_size (GeneralDesc d) = general_logical_block_len d"
| "desc_block_size (LongDesc d) = long_logical_block_len d"

fun desc_block_count :: "blk_desc \<Rightarrow> u64" where
  "desc_block_count (ShortDesc d) = ucast (short_block_count d)"
| "desc_block_count (GeneralDesc d) = ucast (general_block_count d)"
| "desc_block_count (LongDesc d) = long_block_count d"

definition slice_get :: "nat \<Rightarrow> 'a list \<Rightarrow> 'a option" where
  "slice_get i xs = (if i < length xs then Some (xs ! i) else None)"

fun blk_desc_get :: "nat \<Rightarrow> blk_desc_slice \<Rightarrow> blk_desc option" where
  "blk_desc_get i (ShortSlice xs) = map_option ShortDesc (slice_get i xs)"
| "blk_desc_get i (LongSlice xs) = map_option LongDesc (slice_get i xs)"
| "blk_desc_get i (GeneralSlice xs) = map_option GeneralDesc (slice_get i xs)"

text \<open>The header is 8 bytes; the descriptors are 8 bytes, or 16 with long block addresses.\<close>

definition res_mode_param_header10 :: "scsi \<Rightarrow> bytes option" where
  "res_mode_param_header10 s = from_bytes 8 (data_buffer s)"

definition checked_slice :: "nat \<Rightarrow> nat \<Rightarrow> bytes \<Rightarrow> bytes option" where
  "checked_slice off n b = (if off + n \<le> length b then Some (subslice off n b) else None)"

definition res_blkdesc_mode10 :: "scsi \<Rightarrow> blk_desc_slice option" where
  "res_blkdesc_mode10 s =
     Option.bind (res_mode_param_header10 s) (\<lambda>h.
     if longlba h then
       map_option (\<lambda>b. LongSlice (slice_from_bytes 16 b)) (checked_slice 8 (unat (block_desc_len h)) (data_buffer s))
     else Option.bind (res_standard_inquiry_data s) (\<lambda>q.
       if periph_dev_ty q \<noteq> 0 \<and> inquiry_version q = 3 then
         map_option (\<lambda>b. GeneralSlice (slice_from_bytes 8 b)) (checked_slice 8 (unat (block_desc_len h)) (data_buffer s))
       else
         map_option (\<lambda>b. ShortSlice (slice_from_bytes 8 b)) (checked_slice 8 (unat (block_desc_len h)) (data_buffer s))))"

definition res_mode_pages10 :: "scsi \<Rightarrow> bytes option" where
  "res_mode_pages10 s =
     Option.bind (res_mode_param_header10 s) (\<lambda>h.
     if 8 + unat (block_desc_len h) \<le> length (data_buffer s)
     then Some (drop (8 + unat (block_desc_len h)) (data_buffer s)) else None)"

definition get_mode_sense10 ::
  "'p protocol \<Rightarrow> ('p \<times> scsi, bytes \<times> blk_desc_slice \<times> bytes, scsi_error) st" where
  "get_mode_sense10 P =
     bind_m (update_scsi (\<lambda>s. (put_command (mode_sense10_bytes (get_block_desc 8 0)) s)
       \<lparr>data_buffer := resize 8 (data_buffer s)\<rparr>)) (\<lambda>_.
     bind_m (send_data_in P 10 8) (\<lambda>st.
     if scs_kind st = CmdFailed then
       bind_m (get_ff_sense P 252) (\<lambda>_. panic_m)
     else (\<lambda>(p, s).
       bind_m (unwrap (res_mode_param_header10 s)) (\<lambda>h.
       let optimal_alloc_len = mode_data_len h + 2
       in bind_m (update_scsi (\<lambda>s. (put_command (mode_sense10_bytes (get_block_desc optimal_alloc_len 0)) s)
            \<lparr>data_buffer := resize (unat optimal_alloc_len) (data_buffer s)\<rparr>)) (\<lambda>_.
          bind_m (send_data_in P 10 (unat optimal_alloc_len)) (\<lambda>_ (p, s).
          bind_m (unwrap (res_mode_param_header10 s)) (\<lambda>h.
          bind_m (unwrap (res_blkdesc_mode10 s)) (\<lambda>descs.
          bind_m (unwrap (res_mode_pages10 s)) (\<lambda>pages.
          return_m (h, descs, pages)))) (p, s)))) (p, s))))"

text \<open>The iteration over the pages prints them; it can panic.\<close>

definition walk_pages :: "bytes \<Rightarrow> ('s, unit, 'e) st" where
  "walk_pages b = (case mode_page_iter b of Ok _ \<Rightarrow> return_m () | _ \<Rightarrow> panic_m)"

definition scsi_init :: scsi where
  "scsi_init = \<lparr>command_buffer = replicate 16 0, inquiry_buffer = replicate 259 0, data_buffer = [],
     block_size = 0, block_count = 0\<rparr>"

definition probe_disk :: "'p protocol \<Rightarrow> ('p \<times> scsi, unit, scsi_error) st" where
  "probe_disk P =
     bind_m (get_inquiry_alloc_len P) (\<lambda>max_inquiry_len.
     bind_m (get_standard_inquiry_data P max_inquiry_len) (\<lambda>_.
     bind_m (get_mode_sense10 P) (\<lambda>(_, descs, pages).
     bind_m (walk_pages pages) (\<lambda>_.
     bind_m (case blk_desc_get 0 descs of
         Some d \<Rightarrow> return_m (desc_block_size d, desc_block_count d)
       | None \<Rightarrow> bind_m (read_capacity P) (\<lambda>r.
           return_m (rc10_logical_block_len r, ucast (rc10_block_count r)))) (\<lambda>(bs, bc).
     update_scsi (\<lambda>s. s\<lparr>block_size := bs, block_count := bc\<rparr>))))))"

definition scsi_new :: "'p protocol \<Rightarrow> 'p \<Rightarrow> (scsi, scsi_error) res \<times> 'p" where
  "scsi_new P p = (case probe_disk P (p, scsi_init) of (r, (p', s)) \<Rightarrow> (map_res (\<lambda>_. s) r, p'))"

definition get_disk_size :: "scsi \<Rightarrow> u64" where
  "get_disk_size s = block_count s * ucast (block_size s)"

text \<open>
  A read answers the number of bytes and the caller's buffer; a division by a block size of zero
  panics. The number of blocks is a 64-bit quotient of the length of a buffer.
\<close>

definition scsi_read :: "'p protocol \<Rightarrow> u64 \<Rightarrow> bytes \<Rightarrow> ('p \<times> scsi, u32 \<times> bytes, scsi_error) st" where
  "scsi_read P lba buf = (\<lambda>(p, s).
     if block_size s = 0 then (Panic, (p, s))
     else
       let blocks = length buf div unat (block_size s);
           n = blocks * unat (block_size s)
       in if blocks \<ge> 2 ^ 32 then
            (Err (ScsiOverflow ''number of blocks to read couldn't fit inside a u32''), (p, s))
          else
            bind_m (update_scsi (\<lambda>s. (put_command (rw16_bytes (read16_new lba (of_nat blocks) 0)) s)
              \<lparr>data_buffer := resize n (data_buffer s)\<rparr>)) (\<lambda>_.
            bind_m (send_data_in P 16 n) (\<lambda>st (p, s).
            (Ok (bytes_transferred st (of_nat n), take n (data_buffer s) @ drop n buf), (p, s)))) (p, s))"

definition scsi_write :: "'p protocol \<Rightarrow> u64 \<Rightarrow> bytes \<Rightarrow> ('p \<times> scsi, u32, scsi_error) st" where
  "scsi_write P lba buf = (\<lambda>(p, s).
     if block_size s = 0 then (Panic, (p, s))
     else
       let blocks = length buf div unat (block_size s);
           n = blocks * unat (block_size s)
       in if blocks \<ge> 2 ^ 32 then
            (Err (ScsiOverflow ''number of blocks to write couldn't fit inside a u32''), (p, s))
          else
            let s1 = (put_command (rw16_bytes (write16_new lba (of_nat blocks) 0)) s)
                       \<lparr>data_buffer := take n buf\<rparr>
            in if length (command_buffer s1) < 16 then (Panic, (p, s1))
               else case P (take 16 (command_buffer s1)) (DataOut (take n buf)) (p, []) of
                 (r, (p', _)) \<Rightarrow>
                   (map_err ScsiProtocol (map_res (\<lambda>st. bytes_transferred st (of_nat n)) r), (p', s1)))"

subsection \<open>The disk scheme\<close>

datatype scsi_handle = ListHandle | DiskHandle

record 'p disk_scheme =
  ss_scsi :: scsi
  ss_protocol :: 'p
  ss_handles :: "nat \<Rightarrow> scsi_handle option"
  ss_next_fd :: nat

definition scsi_scheme_new :: "scsi \<Rightarrow> 'p \<Rightarrow> 'p disk_scheme" where
  "scsi_scheme_new s p = \<lparr>ss_scsi = s, ss_protocol = p, ss_handles = Map.empty, ss_next_fd = 0\<rparr>"

definition list_contents :: bytes where
  "list_contents = [0x30, 0x0A]"

text \<open>The handle that a path names.\<close>

definition scsi_path_handle :: "string \<Rightarrow> (scsi_handle, errno) res" where
  "scsi_path_handle path =
     (let p = dropWhile (\<lambda>c. c = CHR ''/'') path
      in if p = [] then Ok ListHandle
         else if CHR ''p'' \<in> set p then Err ENOSYS
         else Ok DiskHandle)"

definition scsi_add_handle :: "scsi_handle \<Rightarrow> 'p disk_scheme \<Rightarrow> nat \<times> 'p disk_scheme" where
  "scsi_add_handle h S =
     (let fd = ss_next_fd S + 1
      in (fd, S\<lparr>ss_next_fd := fd, ss_handles := (ss_handles S)(fd \<mapsto> h)\<rparr>))"

definition scsi_xopen :: "string \<Rightarrow> u64 \<Rightarrow> nat \<Rightarrow> ('p disk_scheme, nat, errno) st" where
  "scsi_xopen path flags uid S =
     (if uid \<noteq> 0 then (Err EACCES, S)
      else if flags AND o_directory \<noteq> 0 \<and> flags AND o_stat = 0 then (Err EACCES, S)
      else case scsi_path_handle path of
        Ok h \<Rightarrow> (case scsi_add_handle h S of (fd, S') \<Rightarrow> (Ok fd, S'))
      | Err e \<Rightarrow> (Err e, S) | Panic \<Rightarrow> (Panic, S) | NoFuel \<Rightarrow> (NoFuel, S))"

record scsi_stat =
  st_is_dir :: bool
  st_size :: u64
  st_blksize :: "u32 option"
  st_blocks :: "u64 option"

definition scsi_fstat :: "nat \<Rightarrow> 'p disk_scheme \<Rightarrow> (scsi_stat, errno) res" where
  "scsi_fstat fd S = (case ss_handles S fd of
      None \<Rightarrow> Err EBADF
    | Some DiskHandle \<Rightarrow> Ok \<lparr>st_is_dir = False, st_size = get_disk_size (ss_scsi S),
        st_blksize = Some (block_size (ss_scsi S)), st_blocks = Some (block_count (ss_scsi S))\<rparr>
    | Some ListHandle \<Rightarrow> Ok \<lparr>st_is_dir = True, st_size = of_nat (length list_contents),
        st_blksize = None, st_blocks = None\<rparr>)"

definition scsi_fpath :: "nat \<Rightarrow> bytes \<Rightarrow> 'p disk_scheme \<Rightarrow> (nat \<times> bytes, errno) res" where
  "scsi_fpath fd buf S = (case ss_handles S fd of
      None \<Rightarrow> Err EBADF
    | Some h \<Rightarrow>
        let path = (case h of DiskHandle \<Rightarrow> [0x30] | ListHandle \<Rightarrow> []) :: bytes;
            m = min (length path) (length buf)
        in Ok (m, take m path @ drop m buf))"

definition scsi_fsize :: "nat \<Rightarrow> 'p disk_scheme \<Rightarrow> (u64, errno) res" where
  "scsi_fsize fd S = (case ss_handles S fd of
      None \<Rightarrow> Err EBADF
    | Some DiskHandle \<Rightarrow> Ok (get_disk_size (ss_scsi S))
    | Some ListHandle \<Rightarrow> Ok (of_nat (length list_contents)))"

definition on_scsi :: "('p \<times> scsi, 'a, scsi_error) st \<Rightarrow> ('p disk_scheme, 'a, errno) st" where
  "on_scsi m S = (case m (ss_protocol S, ss_scsi S) of
     (r, (p, s)) \<Rightarrow> (map_err (\<lambda>_. EIO) r, S\<lparr>ss_protocol := p, ss_scsi := s\<rparr>))"

definition aligned_to_blocks :: "scsi \<Rightarrow> u64 \<Rightarrow> nat \<Rightarrow> bool" where
  "aligned_to_blocks s offset n \<longleftrightarrow>
     offset mod ucast (block_size s) = 0 \<and> n mod unat (block_size s) = 0"

definition scsi_scheme_read ::
  "'p protocol \<Rightarrow> nat \<Rightarrow> bytes \<Rightarrow> u64 \<Rightarrow> ('p disk_scheme, nat \<times> bytes, errno) st" where
  "scsi_scheme_read P fd buf offset S = (case ss_handles S fd of
      None \<Rightarrow> (Err EBADF, S)
    | Some DiskHandle \<Rightarrow>
        if block_size (ss_scsi S) = 0 then (Panic, S)
        else if \<not> aligned_to_blocks (ss_scsi S) offset (length buf) then (Err EINVAL, S)
        else bind_m (on_scsi (scsi_read P (offset div ucast (block_size (ss_scsi S))) buf)) (\<lambda>(n, b).
             return_m (unat n, b)) S
    | Some ListHandle \<Rightarrow>
        let src = drop (unat offset) list_contents;
            m = min (length src) (length buf)
        in (Ok (m, take m src @ drop m buf), S))"

definition scsi_scheme_write ::
  "'p protocol \<Rightarrow> nat \<Rightarrow> bytes \<Rightarrow> u64 \<Rightarrow> ('p disk_scheme, nat, errno) st" where
  "scsi_scheme_write P fd buf offset S = (case ss_handles S fd of
      None \<Rightarrow> (Err EBADF, S)
    | Some DiskHandle \<Rightarrow>
        if block_size (ss_scsi S) = 0 then (Panic, S)
        else if \<not> aligned_to_blocks (ss_scsi S) offset (length buf) then (Err EINVAL, S)
        else bind_m (on_scsi (scsi_write P (offset div ucast (block_size (ss_scsi S))) buf)) (\<lambda>n.
             return_m (unat n)) S
    | Some ListHandle \<Rightarrow> (Err EBADF, S))"

subsection \<open>What the layer relies on\<close>

text \<open>
  A protocol does not change the length of the buffer it reads into; then neither do the buffers of
  the layer change, except by the resizes in the code, nor the length of the caller's buffer.
\<close>

locale scsi_protocol =
  fixes P :: "'p protocol"
  assumes send_length: "keeps (buffer_length n) (P cb d)"
begin

lemma send_length_eq: "P cb d (p, b) = (r, (p', b')) \<Longrightarrow> length b' = length b"
  using send_length [of "length b" cb d, THEN keepsD, of "(p, b)"] by simp

lemma send_data_in_shape:
  "length (command_buffer s) = 16 \<and> length (data_buffer s) = m \<Longrightarrow>
     send_data_in P clen n (p, s) = (r, (p', s')) \<Longrightarrow>
     length (command_buffer s') = 16 \<and> length (data_buffer s') = m
     \<and> block_size s' = block_size s \<and> block_count s' = block_count s"
  by (auto simp: send_data_in_def dest: send_length_eq split: if_splits prod.splits)

lemma read_length:
  assumes "length (command_buffer s) = 16" and "scsi_read P lba buf (p, s) = (Ok (n, b), (p', s'))"
  shows "length b = length buf \<and> length (command_buffer s') = 16 \<and> block_size s' = block_size s
    \<and> block_count s' = block_count s"
proof -
  define k where "k = length buf div unat (block_size s) * unat (block_size s)"
  define s1 where "s1 = (put_command (rw16_bytes (read16_new lba
    (of_nat (length buf div unat (block_size s))) 0)) s)\<lparr>data_buffer := resize k (data_buffer s)\<rparr>"
  have k: "k \<le> length buf" by (simp add: k_def)
  have s1: "length (command_buffer s1) = 16 \<and> length (data_buffer s1) = k"
    using assms(1) by (simp add: s1_def put_command_def rw16_bytes_def resize_def)
  obtain st where st: "send_data_in P 16 k (p, s1) = (Ok st, (p', s'))"
    and b: "b = take k (data_buffer s') @ drop k buf"
    using assms(2) unfolding scsi_read_def s1_def k_def
    by (auto simp: Let_def bind_m_Ok update_scsi_def split: if_splits)
  show ?thesis using send_data_in_shape [OF s1 st] b k by (simp add: s1_def put_command_def)
qed

end

lemma send_command_length:
  fixes E :: "'f client_env"
  shows "keeps (buffer_length n) (send_command (client_usb E h) fuel cb d)"
proof (rule keepsI)
  fix s :: "(endp_handle, 'f) bot \<times> bytes" assume n: "buffer_length n s"
  obtain b buf where s: "s = (b, buf)" by (cases s)
  show "buffer_length n (snd (send_command (client_usb E h) fuel cb d s))"
    using client_pipe.send_command_frame [of b buf E h fuel cb d] n
    by (simp add: s frame_def split: prod.splits)
qed

interpretation bot_protocol: scsi_protocol "send_command (client_usb E h) fuel" for E h fuel
  by unfold_locales (rule send_command_length)

interpretation scsi_handles: handle_table
  "\<lambda>S. (\<forall>fd. ss_handles S fd \<noteq> None \<longrightarrow> fd \<le> ss_next_fd S)" ss_handles scsi_add_handle
  by unfold_locales (auto simp: scsi_add_handle_def Let_def split: if_splits)

subsection \<open>Reading and writing a disk\<close>

text \<open>
  \<open>READ(16)\<close> as the block commands standard describes it, on a target that holds an image of blocks
  of \<open>bs\<close> bytes: the blocks from the address on are sent, and the image stays.
\<close>

definition serves_read16 :: "bytes target_dev \<Rightarrow> nat \<Rightarrow> bool" where
  "serves_read16 T bs \<longleftrightarrow>
     (\<forall>cb img. length cb = 16 \<and> cb ! 0 = op_read16
        \<and> (unat (cdb_lba cb) + unat (cdb_transfer_len cb)) * bs \<le> length img
      \<longrightarrow> dev_reply T cb img
            = (subslice (unat (cdb_lba cb) * bs) (unat (cdb_transfer_len cb) * bs) img, True, img))"

lemma read16_fields:
  "length (rw16_bytes (read16_new lba n c)) = 16" "rw16_bytes (read16_new lba n c) ! 0 = op_read16"
  "cdb_lba (rw16_bytes (read16_new lba n c)) = lba"
  "cdb_transfer_len (rw16_bytes (read16_new lba n c)) = n"
  by (simp_all add: rw16_fields) (simp_all add: read16_new_def)

lemma fill_whole_buffer: "length d = length buf \<Longrightarrow> fill_buffer buf d = d"
  by (simp add: fill_buffer_def)

lemma put_command_16: "length (command_buffer s) = 16 \<Longrightarrow> length c = 16 \<Longrightarrow>
    command_buffer (put_command c s) = c"
  by (simp add: put_command_def blit_def)

text \<open>
  The block transfer that the SCSI layer asks the transport for, on a target that holds an image.
\<close>

lemma scsi_read_blocks:
  assumes target: "bot_target U (bulk_in b) (bulk_out b) ph T" and idle: "ph (bot_usb b) = TargetIdle img"
    and serves: "serves_read16 T (unat (block_size s))" and fuel: "0 < fuel"
    and cmd: "length (command_buffer s) = 16" and bs: "block_size s \<noteq> 0"
    and len: "length buf = k * unat (block_size s)" "length buf < 2 ^ 32"
    and inside: "(unat lba + k) * unat (block_size s) \<le> length img"
  obtains u s' where "scsi_read (send_command U fuel) lba buf (b, s)
        = (Ok (of_nat (length buf), subslice (unat lba * unat (block_size s)) (length buf) img),
           (b\<lparr>bot_usb := u, current_tag := current_tag b + 1\<rparr>, s'))"
      "ph u = TargetIdle img" "block_size s' = block_size s" "block_count s' = block_count s"
proof -
  let ?bs = "unat (block_size s)" and ?n = "length buf"
  let ?cb = "rw16_bytes (read16_new lba (of_nat k) 0)"
  have pos: "0 < ?bs" using bs by (simp add: unat_gt_0)
  have k: "?n div ?bs = k" "k < 2 ^ 32" "unat (of_nat k :: u32) = k"
  proof -
    show "?n div ?bs = k" using len(1) pos by simp
    have "k * 1 \<le> k * ?bs" by (rule mult_le_mono2) (use pos in simp)
    then show "k < 2 ^ 32" using len by linarith
    then show "unat (of_nat k :: u32) = k" by (rule unat_of_nat_u32)
  qed
  define d where "d = subslice (unat lba * ?bs) ?n img"
  have d: "length d = ?n"
    using inside len(1) by (simp add: d_def add_mult_distrib)
  have reply: "dev_reply T ?cb img = (d, True, img)"
    using serves [unfolded serves_read16_def, rule_format, of ?cb img] inside k(3) len(1)
    by (simp add: read16_fields d_def)
  define s1 where "s1 = (put_command ?cb s)\<lparr>data_buffer := resize ?n (data_buffer s)\<rparr>"
  have s1: "command_buffer s1 = ?cb" "length (data_buffer s1) = ?n"
    using cmd by (simp_all add: s1_def put_command_16 read16_fields resize_def)
  have pre: "length ?cb \<le> 16" "length (data_buffer s1) < 2 ^ 32" "length d \<le> length (data_buffer s1)"
    using len(2) d s1(2) by (simp_all add: read16_fields)
  obtain u where u: "send_command U fuel ?cb (DataIn (length (data_buffer s1))) (b, data_buffer s1)
      = (Ok \<lparr>scs_residue = None, scs_kind = CmdSuccess\<rparr>,
         (b\<lparr>bot_usb := u, current_tag := current_tag b + 1\<rparr>, d))" "ph u = TargetIdle img"
    using bot_data_in [OF target idle pre(1,2) fuel reply pre(3)] d s1(2)
    by (auto simp: fill_whole_buffer)
  have "send_data_in (send_command U fuel) 16 ?n (b, s1)
      = (Ok \<lparr>scs_residue = None, scs_kind = CmdSuccess\<rparr>,
         (b\<lparr>bot_usb := u, current_tag := current_tag b + 1\<rparr>, s1\<lparr>data_buffer := d\<rparr>))"
    using u(1) s1 by (simp add: send_data_in_def read16_fields)
  then have "scsi_read (send_command U fuel) lba buf (b, s)
      = (Ok (of_nat ?n, d), (b\<lparr>bot_usb := u, current_tag := current_tag b + 1\<rparr>, s1\<lparr>data_buffer := d\<rparr>))"
    using bs k(2) d
    by (simp add: scsi_read_def Let_def bind_m_def update_scsi_def k(1) len(1) [symmetric]
        s1_def [symmetric] bytes_transferred_def)
  then show thesis
    using u(2) by (intro that [of u "s1\<lparr>data_buffer := d\<rparr>"]) (simp_all add: d_def s1_def put_command_def)
qed

lemma unat_ucast_u32_u64: "unat (ucast (w :: u32) :: u64) = unat w"
  by transfer (simp add: take_bit_eq_mod)

text \<open>
  USB disk property C14. A read through an open disk handle, of whole blocks inside the disk, over a
  target that follows the transport and block command specifications, answers the number of bytes
  asked for and fills the buffer with exactly these bytes of the disk; the table of handles and the
  disk stay as they are and the target is ready for the next command.
\<close>

theorem disk_scheme_read:
  assumes target: "bot_target U (bulk_in b) (bulk_out b) ph T" and idle: "ph (bot_usb b) = TargetIdle img"
    and serves: "serves_read16 T (unat (block_size (ss_scsi S)))" and fuel: "0 < fuel"
    and proto: "ss_protocol S = b" and cmd: "length (command_buffer (ss_scsi S)) = 16"
    and bs: "block_size (ss_scsi S) \<noteq> 0" and handle: "ss_handles S fd = Some DiskHandle"
    and aligned: "unat offset mod unat (block_size (ss_scsi S)) = 0"
      "length buf mod unat (block_size (ss_scsi S)) = 0"
    and len: "length buf < 2 ^ 32" and inside: "unat offset + length buf \<le> length img"
  shows "\<exists>S'. scsi_scheme_read (send_command U fuel) fd buf offset S
      = (Ok (length buf, subslice (unat offset) (length buf) img), S')
    \<and> ph (bot_usb (ss_protocol S')) = TargetIdle img \<and> ss_handles S' = ss_handles S
    \<and> block_size (ss_scsi S') = block_size (ss_scsi S)"
proof -
  let ?bs = "unat (block_size (ss_scsi S))"
  let ?lba = "offset div ucast (block_size (ss_scsi S))"
  define k where "k = length buf div ?bs"
  have k: "length buf = k * ?bs" using aligned(2) by (simp add: k_def mod_eq_0_iff_dvd)
  have lba: "unat ?lba * ?bs = unat offset"
    using aligned(1) by (simp add: unat_div unat_ucast_u32_u64 mod_eq_0_iff_dvd)
  then have in_img: "(unat ?lba + k) * ?bs \<le> length img"
    using inside k by (simp add: add_mult_distrib)
  have al: "aligned_to_blocks (ss_scsi S) offset (length buf)"
  proof -
    have "unat (offset mod ucast (block_size (ss_scsi S))) = 0"
      using aligned(1) by (simp add: unat_mod unat_ucast_u32_u64)
    then show ?thesis using aligned(2) by (simp add: aligned_to_blocks_def unat_eq_zero)
  qed
  obtain u s' where r: "scsi_read (send_command U fuel) ?lba buf (b, ss_scsi S)
      = (Ok (of_nat (length buf), subslice (unat ?lba * ?bs) (length buf) img),
         (b\<lparr>bot_usb := u, current_tag := current_tag b + 1\<rparr>, s'))"
    and post: "ph u = TargetIdle img" "block_size s' = block_size (ss_scsi S)"
    by (rule scsi_read_blocks [OF target idle serves fuel cmd bs k len in_img])
  let ?S' = "S\<lparr>ss_protocol := b\<lparr>bot_usb := u, current_tag := current_tag b + 1\<rparr>, ss_scsi := s'\<rparr>"
  have "scsi_scheme_read (send_command U fuel) fd buf offset S
      = (Ok (length buf, subslice (unat offset) (length buf) img), ?S')"
    using r handle bs al len
    by (simp add: scsi_scheme_read_def on_scsi_def proto bind_m_def return_m_def lba unat_of_nat_u32)
  then show ?thesis using post by (intro exI [of _ ?S']) simp
qed

text \<open>
  A write reports that all bytes were transferred whatever the target's verdict
  on the command was, a failure included; and the address that the target is given is the block
  address with its bytes reversed.
\<close>

theorem disk_write_unverified:
  assumes target: "bot_target U (bulk_in b) (bulk_out b) ph T" and idle: "ph (bot_usb b) = TargetIdle d"
    and fuel: "0 < fuel" and cmd: "length (command_buffer s) = 16" and bs: "block_size s \<noteq> 0"
    and len: "length buf = k * unat (block_size s)" "length buf < 2 ^ 32"
    and accept: "dev_accept T (rw16_bytes (write16_new lba (of_nat k) 0)) buf d = (ok, d')"
  shows "\<exists>u s'. scsi_write (send_command U fuel) lba buf (b, s)
      = (Ok (of_nat (length buf)), (b\<lparr>bot_usb := u, current_tag := current_tag b + 1\<rparr>, s'))
    \<and> ph u = TargetIdle d'
    \<and> cdb_lba (rw16_bytes (write16_new lba (of_nat k) 0)) = swap_bytes 8 lba"
proof -
  let ?bs = "unat (block_size s)" and ?cb = "rw16_bytes (write16_new lba (of_nat k) 0)"
  have pos: "0 < ?bs" using bs by (simp add: unat_gt_0)
  have kq: "length buf div ?bs = k" using len(1) pos by simp
  have "k * 1 \<le> k * ?bs" by (rule mult_le_mono2) (use pos in simp)
  then have k: "k < 2 ^ 32" using len by linarith
  have cb: "length ?cb = 16" by (simp add: rw16_bytes_def)
  define s1 where "s1 = (put_command ?cb s)\<lparr>data_buffer := buf\<rparr>"
  have s1: "command_buffer s1 = ?cb" using cmd by (simp add: s1_def put_command_16 cb)
  obtain u where u: "send_command U fuel ?cb (DataOut buf) (b, [])
      = (Ok \<lparr>scs_residue = None, scs_kind = (if ok then CmdSuccess else CmdFailed)\<rparr>,
         (b\<lparr>bot_usb := u, current_tag := current_tag b + 1\<rparr>, []))" "ph u = TargetIdle d'"
    using bot_data_out [OF target idle _ len(2) fuel accept, of "[]"] cb by auto
  have "scsi_write (send_command U fuel) lba buf (b, s)
      = (Ok (of_nat (length buf)), (b\<lparr>bot_usb := u, current_tag := current_tag b + 1\<rparr>, s1))"
    using bs k
    by (simp add: scsi_write_def Let_def kq len(1) [symmetric] s1_def [symmetric] s1 cb u(1)
        bytes_transferred_def)
  then show ?thesis
    using u(2) by (intro exI [of _ u] exI [of _ s1]) (simp add: rw16_fields write16_new_def)
qed

text \<open>
  Every open of the disk scheme hands out a number of its own that refers to what
  was opened, and keeps the handles that were open before; a refused open changes nothing.
\<close>

theorem disk_scheme_opens:
  "(case scsi_xopen path flags uid (S :: 'p disk_scheme) of
      (Ok fd, S') \<Rightarrow> uid = 0 \<and> fd = ss_next_fd S + 1 \<and> ss_next_fd S' = fd
        \<and> (\<exists>h. scsi_path_handle path = Ok h \<and> ss_handles S' = (ss_handles S)(fd \<mapsto> h))
        \<and> ss_scsi S' = ss_scsi S \<and> ss_protocol S' = ss_protocol S
    | (r, S') \<Rightarrow> (r = Err EACCES \<or> r = Err ENOSYS) \<and> S' = S)
   \<and> (case open_all scsi_add_handle hs (scsi_scheme_new s (p :: 'p)) of
        (ids, S') \<Rightarrow> distinct ids \<and> map (ss_handles S') ids = map Some hs)"
proof -
  have "case open_all scsi_add_handle hs (scsi_scheme_new s p) of
        (ids, S') \<Rightarrow> distinct ids \<and> map (ss_handles S') ids = map Some hs"
    using scsi_handles.open_all_handles [of "scsi_scheme_new s p" hs]
    by (simp add: scsi_scheme_new_def split: prod.split)
  then show ?thesis
    by (auto simp: scsi_xopen_def scsi_path_handle_def scsi_add_handle_def Let_def)
qed

subsection \<open>A concrete disk\<close>

definition sample_disk :: "nat \<Rightarrow> bytes target_dev" where
  "sample_disk bs = \<lparr>dev_reply = (\<lambda>cb img.
       (subslice (unat (cdb_lba cb) * bs) (unat (cdb_transfer_len cb) * bs) img, True, img)),
     dev_accept = (\<lambda>cb x img. (False, img))\<rparr>"

lemma sample_disk_serves: "serves_read16 (sample_disk bs) bs"
  by (simp add: serves_read16_def sample_disk_def)

definition sample_scheme :: "(bool, bytes phase) bot disk_scheme" where
  "sample_scheme = \<lparr>ss_scsi = scsi_init\<lparr>block_size := 4, block_count := 2\<rparr>,
     ss_protocol = sim_bot [1, 2, 3, 4, 5, 6, 7, 8], ss_handles = [1 \<mapsto> DiskHandle], ss_next_fd = 1\<rparr>"

theorem disk_scheme_read_witness:
  "\<exists>S'. scsi_scheme_read (send_command (sim_usb (sample_disk 4)) 1) 1 [0, 0, 0, 0] 4 sample_scheme
      = (Ok (length [0 :: u8, 0, 0, 0], subslice (unat (4 :: u64)) (length [0 :: u8, 0, 0, 0]) [1, 2, 3, 4, 5, 6, 7, 8]), S')
    \<and> subslice (unat (4 :: u64)) (length [0 :: u8, 0, 0, 0]) [1, 2, 3, 4, 5, 6, 7, 8 :: u8] = [5, 6, 7, 8]"
proof -
  have serves: "serves_read16 (sample_disk 4) (unat (block_size (ss_scsi sample_scheme)))"
    by (simp add: sample_scheme_def sample_disk_serves)
  have 1: "bot_usb (sim_bot [1, 2, 3, 4, 5, 6, 7, 8]) = TargetIdle [1, 2, 3, 4, 5, 6, 7, 8 :: u8]"
    by (simp add: sim_bot_def)
  have "\<exists>S'. scsi_scheme_read (send_command (sim_usb (sample_disk 4)) 1) 1 [0, 0, 0, 0] 4 sample_scheme
      = (Ok (length [0 :: u8, 0, 0, 0], subslice (unat (4 :: u64)) (length [0 :: u8, 0, 0, 0]) [1, 2, 3, 4, 5, 6, 7, 8]), S')
    \<and> bot_usb (ss_protocol S') = TargetIdle [1, 2, 3, 4, 5, 6, 7, 8] \<and> ss_handles S' = ss_handles sample_scheme
    \<and> block_size (ss_scsi S') = block_size (ss_scsi sample_scheme)"
    by (rule disk_scheme_read [OF sim_target 1 serves]) (simp_all add: sample_scheme_def scsi_init_def)
  then show ?thesis by (auto simp: subslice_def)
qed

theorem disk_write_unverified_witness:
  "\<exists>u s'. scsi_write (send_command (sim_usb (sample_disk 4)) 1) 1 [9, 9, 9, 9]
        (sim_bot [1, 2, 3, 4, 5, 6, 7, 8], ss_scsi sample_scheme)
      = (Ok 4, ((sim_bot [1, 2, 3, 4, 5, 6, 7, 8])\<lparr>bot_usb := u, current_tag := 1\<rparr>, s'))
    \<and> u = TargetIdle [1, 2, 3, 4, 5, 6, 7, 8]"
proof -
  have 1: "bot_usb (sim_bot [1, 2, 3, 4, 5, 6, 7, 8]) = TargetIdle [1, 2, 3, 4, 5, 6, 7, 8 :: u8]"
    "current_tag (sim_bot [1, 2, 3, 4, 5, 6, 7, 8 :: u8]) = 0"
    by (simp_all add: sim_bot_def)
  have 2: "length (command_buffer (ss_scsi sample_scheme)) = 16" "block_size (ss_scsi sample_scheme) \<noteq> 0"
    "length [9, 9, 9, 9 :: u8] = 1 * unat (block_size (ss_scsi sample_scheme))"
    by (simp_all add: sample_scheme_def scsi_init_def)
  have 3: "dev_accept (sample_disk 4) (rw16_bytes (write16_new 1 (of_nat 1) 0)) [9, 9, 9, 9]
      [1, 2, 3, 4, 5, 6, 7, 8] = (False, [1, 2, 3, 4, 5, 6, 7, 8])"
    by (simp add: sample_disk_def)
  show ?thesis
    using disk_write_unverified [OF sim_target 1(1) zero_less_one 2 _ 3] 1(2) by simp
qed

end
