(* ===== verification/Xhci_Reactor.thy ===== *)
theory Xhci_Reactor
  imports Xhci_Ring "HOL-Library.Multiset"
begin

text \<open>
  The event side of the xHCI driver (\<open>xhcid/src/xhci/irq_reactor.rs\<close>): the futures that wait for the
  completion of a command or a transfer, and the reactor that hands every event block to the future
  that waits for it. A future is known by a number; what it is given is appended to the messages.
  The loop of \<open>acknowledge\<close> goes over the waiting futures once, so it is a recursion over their list:
  the first list argument holds those already passed over, in order.
\<close>

subsection \<open>Waiting futures\<close>

record ring_id =
  rid_port :: u8
  rid_endpoint_num :: u8
  rid_stream_id :: u16

definition default_control_pipe :: "u8 \<Rightarrow> ring_id" where
  "default_control_pipe port = \<lparr>rid_port = port, rid_endpoint_num = 0, rid_stream_id = 0\<rparr>"

datatype state_kind =
    WaitCommand u64
  | WaitTransfer u64 u64 ring_id
  | WaitOther trb_type_tag

primrec state_trb_type :: "state_kind \<Rightarrow> trb_type_tag" where
  "state_trb_type (WaitCommand p) = CommandCompletion"
| "state_trb_type (WaitTransfer f l i) = Transfer"
| "state_trb_type (WaitOther ty) = ty"

record pending =
  pend_future :: nat
  pend_kind :: state_kind
  pend_is_isoch_or_vf :: bool

record next_event_trb =
  net_event :: trb
  net_src :: "trb option"

record reactor =
  re_states :: "pending list"
  re_cmd :: ring
  re_messages :: "(nat \<times> next_event_trb option) list"

definition finish :: "pending \<Rightarrow> next_event_trb option \<Rightarrow> reactor \<Rightarrow> reactor" where
  "finish p m R = R\<lparr>re_messages := re_messages R @ [(pend_future p, m)]\<rparr>"

text \<open>The future of a transfer, from the indices of its first and last block in the ring.\<close>

definition next_transfer_event_trb ::
  "bool \<Rightarrow> nat \<Rightarrow> ring_id \<Rightarrow> ring \<Rightarrow> nat \<Rightarrow> nat \<Rightarrow> (pending, unit) res" where
  "next_transfer_event_trb ac64 future ring_id r first_trb last_trb =
     (if \<not> is_transfer_trb (ring_get r last_trb) then Panic
      else
        bind_r (trb_phys_ptr r ac64 (start_virt_addr r + of_nat (size_of_trb * first_trb))) (\<lambda>f.
        bind_r (trb_phys_ptr r ac64 (start_virt_addr r + of_nat (size_of_trb * last_trb))) (\<lambda>l.
        Ok \<lparr>pend_future = future, pend_kind = WaitTransfer f l ring_id,
            pend_is_isoch_or_vf = (trb_type (ring_get r last_trb) = trb_type_u8 Isoch)\<rparr>)))"

definition next_command_completion_event_trb ::
  "bool \<Rightarrow> nat \<Rightarrow> ring \<Rightarrow> nat \<Rightarrow> (pending, unit) res" where
  "next_command_completion_event_trb ac64 future r i =
     bind_r (trb_phys_ptr r ac64 (start_virt_addr r + of_nat (size_of_trb * i))) (\<lambda>p.
     if \<not> is_command_trb (ring_get r i) then Panic
     else Ok \<lparr>pend_future = future, pend_kind = WaitCommand p, pend_is_isoch_or_vf = False\<rparr>)"

definition next_misc_event_trb :: "nat \<Rightarrow> trb_type_tag \<Rightarrow> (pending, unit) res" where
  "next_misc_event_trb future ty =
     (if ty \<in> {PortStatusChange, BandwidthRequest, Doorbell, HostController, DeviceNotification,
               MfindexWrap}
      then Ok \<lparr>pend_future = future, pend_kind = WaitOther ty, pend_is_isoch_or_vf = False\<rparr>
      else Panic)"

subsection \<open>Acknowledging events\<close>

text \<open>The rings that are alive are a partial function, as \<open>with_ring\<close> looks them up.\<close>

definition get_transfer_trb ::
  "bool \<Rightarrow> (ring_id \<Rightarrow> ring option) \<Rightarrow> u64 \<Rightarrow> ring_id \<Rightarrow> (trb option, unit) res" where
  "get_transfer_trb ac64 rings paddr i =
     (case rings i of None \<Rightarrow> Ok None | Some r \<Rightarrow> phys_addr_to_entry r ac64 paddr)"

definition transfer_matches :: "u64 \<Rightarrow> u64 \<Rightarrow> u64 \<Rightarrow> bool" where
  "transfer_matches first_trb last_trb p =
     (if first_trb \<le> last_trb then first_trb \<le> p \<and> p \<le> last_trb else first_trb \<le> p \<or> p \<le> last_trb)"

text \<open>An event without a source pointer goes to every isochronous transfer.\<close>

fun acknowledge_failed_transfer_trbs ::
  "trb \<Rightarrow> pending list \<Rightarrow> pending list \<Rightarrow> (reactor, unit, unit) st" where
  "acknowledge_failed_transfer_trbs t done [] R = (Panic, R\<lparr>re_states := done\<rparr>)"
| "acknowledge_failed_transfer_trbs t done (p # rest) R =
     (if \<not> pend_is_isoch_or_vf p then
        if rest = [] then (Ok (), R\<lparr>re_states := done @ [p]\<rparr>)
        else acknowledge_failed_transfer_trbs t (done @ [p]) rest R
      else acknowledge_failed_transfer_trbs t done rest
             (finish p (Some \<lparr>net_event = t, net_src = None\<rparr>) R))"

text \<open>
  \<open>to_next\<close> goes on behind a future that keeps waiting; a future whose ring is gone is given the
  event and dropped.
\<close>

fun ack_from ::
  "bool \<Rightarrow> (ring_id \<Rightarrow> ring option) \<Rightarrow> trb \<Rightarrow> pending list \<Rightarrow> pending list \<Rightarrow> (reactor, unit, unit) st"
where
  "ack_from ac64 rings t done [] R = (Ok (), R\<lparr>re_states := done\<rparr>)"
| "ack_from ac64 rings t done (p # rest) R = (case pend_kind p of
      WaitCommand phys_ptr \<Rightarrow>
        if trb_type t = trb_type_u8 CommandCompletion \<and> completion_trb_pointer t = Some phys_ptr then
          (case phys_addr_to_entry_ref (re_cmd R) ac64 phys_ptr of
             Ok (Some j) \<Rightarrow>
               (let c = ring_get (re_cmd R) j
                in (Ok (), finish p (Some \<lparr>net_event = t, net_src = Some c\<rparr>)
                      (R\<lparr>re_cmd := ring_put j (trb_reserved False c) (re_cmd R),
                         re_states := done @ rest\<rparr>)))
           | Ok None \<Rightarrow> ack_from ac64 rings t done rest R
           | _ \<Rightarrow> (Panic, R\<lparr>re_states := done @ rest\<rparr>))
        else ack_from ac64 rings t (done @ [p]) rest R
    | WaitTransfer first_trb last_trb ring_id \<Rightarrow>
        if trb_type t = trb_type_u8 Transfer
           \<and> transfer_event_trb_pointer t = None then
          acknowledge_failed_transfer_trbs t [] (done @ p # rest) R
        else if trb_type t = trb_type_u8 Transfer
           \<and> transfer_matches first_trb last_trb (the (transfer_event_trb_pointer t)) then
          (case get_transfer_trb ac64 rings (the (transfer_event_trb_pointer t)) ring_id of
             Ok src \<Rightarrow> (Ok (), finish p (Some \<lparr>net_event = t, net_src = src\<rparr>)
                              (R\<lparr>re_states := done @ rest\<rparr>))
           | _ \<Rightarrow> (Panic, R\<lparr>re_states := done @ p # rest\<rparr>))
        else if rings ring_id = None then
          ack_from ac64 rings t done rest (finish p (Some \<lparr>net_event = t, net_src = None\<rparr>) R)
        else ack_from ac64 rings t (done @ [p]) rest R
    | WaitOther ty \<Rightarrow>
        if trb_type_u8 ty = trb_type t then
          (Ok (), finish p None (R\<lparr>re_states := done @ rest\<rparr>))
        else ack_from ac64 rings t (done @ [p]) rest R)"

definition acknowledge ::
  "bool \<Rightarrow> (ring_id \<Rightarrow> ring option) \<Rightarrow> trb \<Rightarrow> (reactor, unit, unit) st" where
  "acknowledge ac64 rings t R = ack_from ac64 rings t [] (re_states R) R"

definition handle_requests :: "pending list \<Rightarrow> reactor \<Rightarrow> reactor" where
  "handle_requests new R = R\<lparr>re_states := re_states R @ new\<rparr>"

text \<open>The dequeue pointer written back to the controller: low and high word.\<close>

definition update_erdp :: "event_ring \<Rightarrow> (u32 \<times> u32, unit) res" where
  "update_erdp e =
     (let p = erdp e AND 0xFFFFFFFFFFFFFFFE
      in if p AND 0xFFFFFFFFFFFFFFF0 = p then Ok (ucast p, ucast (drop_bit 32 p)) else Panic)"

definition check_event_ring_full :: "trb \<Rightarrow> bool" where
  "check_event_ring_full t \<longleftrightarrow> trb_type t = trb_type_u8 HostController
     \<and> completion_code t = trb_completion_code_u8 EventRingFull"

subsection \<open>Every future is served at most once\<close>

definition waiting :: "reactor \<Rightarrow> nat multiset" where
  "waiting R = mset (map pend_future (re_states R))"

definition served :: "reactor \<Rightarrow> nat multiset" where
  "served R = mset (map fst (re_messages R))"

lemma finish_simps [simp]:
  "re_states (finish p m R) = re_states R" "re_cmd (finish p m R) = re_cmd R"
  "served (finish p m R) = add_mset (pend_future p) (served R)"
  by (simp_all add: finish_def served_def)

lemma served_update [simp]:
  "served (R\<lparr>re_states := x\<rparr>) = served R" "served (R\<lparr>re_cmd := r\<rparr>) = served R"
  "waiting (R\<lparr>re_states := ps\<rparr>) = mset (map pend_future ps)"
  "waiting (finish p m R) = waiting R"
  by (simp_all add: served_def waiting_def)

lemma failed_served:
  assumes "acknowledge_failed_transfer_trbs t done rest R = (r, R')"
  shows "served R' + waiting R' = served R + mset (map pend_future (done @ rest))"
  using assms
  by (induction t "done" rest R rule: acknowledge_failed_transfer_trbs.induct)
    (auto split: if_splits)

lemma subset_add_mset: "A \<subseteq># B \<Longrightarrow> A \<subseteq># add_mset x B"
  by (rule subset_mset.order_trans) auto

lemma ack_from_served:
  assumes "ack_from ac64 rings t done rest R = (r, R')"
  shows "served R' + waiting R' \<subseteq># served R + mset (map pend_future (done @ rest))"
  using assms
proof (induction ac64 rings t "done" rest R rule: ack_from.induct)
  case (2 ac64 rings t "done" p rest R)
  note IH = 2
  show ?case
  proof (cases "pend_kind p")
    case (WaitCommand ptr)
    then show ?thesis
      using IH by (auto simp: Let_def split: if_splits res.splits option.splits
        intro: subset_add_mset)
  next
    case (WaitTransfer f l i)
    then show ?thesis
      using IH failed_served by (auto simp: ac_simps split: if_splits res.splits)
  next
    case (WaitOther ty)
    then show ?thesis using IH by (auto split: if_splits)
  qed
qed auto

text \<open>
  Event property C16. Handling an event never serves a future twice and never serves one that was not
  waiting: the futures given a message and those left waiting are, together, among those that were
  waiting. So if the waiting futures are distinct, every one of them gets at most one message.
\<close>

theorem acknowledge_once:
  "case acknowledge ac64 rings t R of
     (r, R') \<Rightarrow> served R' + waiting R' \<subseteq># served R + waiting R"
  using ack_from_served [of ac64 rings t "[]" "re_states R" R]
  by (auto simp: acknowledge_def waiting_def split: prod.split)

subsection \<open>The event reaches the future that waits for it\<close>

text \<open>
  The blocks of a transfer, from the first to the last in ring order, going past the end of the ring
  when the first is behind the last.
\<close>

definition in_transfer :: "nat \<Rightarrow> nat \<Rightarrow> nat \<Rightarrow> bool" where
  "in_transfer first_trb last_trb j =
     (if first_trb \<le> last_trb then first_trb \<le> j \<and> j \<le> last_trb else first_trb \<le> j \<or> j \<le> last_trb)"

lemma block_addr_le:
  assumes "ring_mapped r ac64" "i < ring_len r" "j < ring_len r"
  shows "block_addr r ac64 i \<le> block_addr r ac64 j \<longleftrightarrow> i \<le> j"
  using assms by (simp add: word_le_nat_alt unat_block_addr size_of_trb_def)

lemma transfer_matches_iff:
  assumes "ring_mapped r ac64" "f < ring_len r" "l < ring_len r" "j < ring_len r"
  shows "transfer_matches (block_addr r ac64 f) (block_addr r ac64 l) (block_addr r ac64 j)
    \<longleftrightarrow> in_transfer f l j"
  using assms by (simp add: transfer_matches_def in_transfer_def block_addr_le)

text \<open>A future that an event does not concern is passed over.\<close>

definition unconcerned :: "(ring_id \<Rightarrow> ring option) \<Rightarrow> trb \<Rightarrow> pending \<Rightarrow> bool" where
  "unconcerned rings t p = (case pend_kind p of
      WaitCommand ptr \<Rightarrow> trb_type t \<noteq> trb_type_u8 CommandCompletion \<or> completion_trb_pointer t \<noteq> Some ptr
    | WaitTransfer f l i \<Rightarrow> rings i \<noteq> None
        \<and> (trb_type t \<noteq> trb_type_u8 Transfer
           \<or> (\<exists>p. transfer_event_trb_pointer t = Some p \<and> \<not> transfer_matches f l p))
    | WaitOther ty \<Rightarrow> trb_type_u8 ty \<noteq> trb_type t)"

lemma ack_from_skip:
  assumes "list_all (unconcerned rings t) pre"
  shows "ack_from ac64 rings t done (pre @ rest) R = ack_from ac64 rings t (done @ pre) rest R"
  using assms
proof (induction pre arbitrary: "done")
  case (Cons p pre)
  have "ack_from ac64 rings t done (p # (pre @ rest)) R
      = ack_from ac64 rings t (done @ [p]) (pre @ rest) R"
    using Cons.prems by (cases "pend_kind p") (auto simp: unconcerned_def)
  with Cons show ?case by simp
qed simp

lemma transfer_future:
  assumes "next_transfer_event_trb ac64 f i r first_trb last_trb = Ok p"
    and "ring_mapped r ac64" "first_trb < ring_len r" "last_trb < ring_len r"
  shows "pend_future p = f"
    "pend_kind p = WaitTransfer (block_addr r ac64 first_trb) (block_addr r ac64 last_trb) i"
  using assms
  by (auto simp: next_transfer_event_trb_def trb_phys_ptr_block simp del: of_nat_mult split: if_splits)

lemma transfer_acknowledged:
  assumes future: "next_transfer_event_trb ac64 f i r first_trb last_trb = Ok p"
    and ring: "ring_mapped r ac64" "first_trb < ring_len r" "last_trb < ring_len r" "j < ring_len r"
    and alive: "rings i = Some r"
    and event: "trb_type t = trb_type_u8 Transfer" "transfer_event_trb_pointer t = Some (block_addr r ac64 j)"
    and states: "re_states R = pre @ p # post" "list_all (unconcerned rings t) pre"
    and j: "in_transfer first_trb last_trb j"
  shows "acknowledge ac64 rings t R = (Ok (), R\<lparr>re_states := pre @ post,
    re_messages := re_messages R @ [(f, Some \<lparr>net_event = t, net_src = Some (ring_get r j)\<rparr>)]\<rparr>)"
proof -
  have src: "get_transfer_trb ac64 rings (block_addr r ac64 j) i = Ok (Some (ring_get r j))"
    using ring alive
    by (simp add: get_transfer_trb_def phys_addr_to_entry_def phys_addr_to_index_block)
  show ?thesis
    using event states transfer_future [OF future ring(1-3)] transfer_matches_iff [OF ring] src j
    by (simp add: acknowledge_def ack_from_skip [OF states(2)] finish_def)
qed

text \<open>
  Event property C15. The event of a transfer reaches the future that waits for it: when a transfer event
  points to a block of the transfer, also one that goes past the end of the ring, and no future before
  it is concerned, the future is given the event with the very block that it points to, every other
  future keeps waiting in its place and nothing else is answered; a block outside the transfer is not
  taken for one of its own.
\<close>

theorem transfer_event_delivered:
  assumes future: "next_transfer_event_trb ac64 f i r first_trb last_trb = Ok p"
    and ring: "ring_mapped r ac64" "first_trb < ring_len r" "last_trb < ring_len r" "j < ring_len r"
    and alive: "rings i = Some r"
    and event: "trb_type t = trb_type_u8 Transfer" "transfer_event_trb_pointer t = Some (block_addr r ac64 j)"
    and states: "re_states R = pre @ p # post" "list_all (unconcerned rings t) pre"
  shows "if in_transfer first_trb last_trb j
    then acknowledge ac64 rings t R = (Ok (), R\<lparr>re_states := pre @ post,
        re_messages := re_messages R @ [(f, Some \<lparr>net_event = t, net_src = Some (ring_get r j)\<rparr>)]\<rparr>)
    else unconcerned rings t p"
proof (cases "in_transfer first_trb last_trb j")
  case True
  then show ?thesis using transfer_acknowledged [OF assms True] by simp
next
  case False
  then show ?thesis
    using event alive transfer_future [OF future ring(1-3)] transfer_matches_iff [OF ring]
    by (simp add: unconcerned_def)
qed

lemma failed_outcome:
  "rest \<noteq> [] \<Longrightarrow> acknowledge_failed_transfer_trbs t done rest R =
     (if pend_is_isoch_or_vf (last rest) then Panic else Ok (),
      R\<lparr>re_states := done @ filter (\<lambda>p. \<not> pend_is_isoch_or_vf p) rest,
        re_messages := re_messages R
          @ map (\<lambda>p. (pend_future p, Some \<lparr>net_event = t, net_src = None\<rparr>)) (filter pend_is_isoch_or_vf rest)\<rparr>)"
proof (induction rest arbitrary: "done" R)
  case (Cons p rest)
  show ?case
  proof (cases "rest = []")
    case True
    then show ?thesis by (auto simp: finish_def)
  next
    case False
    then show ?thesis using Cons.IH by (auto simp: finish_def)
  qed
qed simp

text \<open>
  An event without a source pointer (a ring under- or overrun) is given to every
  isochronous transfer that waits; the other futures keep waiting, in order. But the loop looks at one
  future more than there are when the last of them is isochronous, or when none is left, and panics.
\<close>

theorem overrun_events:
  assumes "re_states R \<noteq> []"
  shows "acknowledge_failed_transfer_trbs t [] (re_states R) R =
     (if pend_is_isoch_or_vf (last (re_states R)) then Panic else Ok (),
      R\<lparr>re_states := filter (\<lambda>p. \<not> pend_is_isoch_or_vf p) (re_states R),
        re_messages := re_messages R
          @ map (\<lambda>p. (pend_future p, Some \<lparr>net_event = t, net_src = None\<rparr>))
              (filter pend_is_isoch_or_vf (re_states R))\<rparr>)"
  using failed_outcome [OF assms, of t "[]" R] by simp

subsection \<open>A concrete transfer\<close>

text \<open>A transfer of three blocks that starts in slot 2 of a ring of four and ends in slot 0.\<close>

definition sample_transfer_ring :: ring where
  "sample_transfer_ring = ring_put 0 (trb_transfer_no_op 0 False False True True zero_trb) sample_ring4"

definition sample_ring_id :: ring_id where
  "sample_ring_id = \<lparr>rid_port = 1, rid_endpoint_num = 2, rid_stream_id = 0\<rparr>"

definition sample_event :: trb where
  "sample_event = trb_set (block_addr sample_transfer_ring True 2) 0x01000000 (ty_field Transfer) zero_trb"

definition sample_pending :: pending where
  "sample_pending = \<lparr>pend_future = 7,
     pend_kind = WaitTransfer (block_addr sample_transfer_ring True 2) (block_addr sample_transfer_ring True 0)
       sample_ring_id, pend_is_isoch_or_vf = False\<rparr>"

definition sample_reactor :: reactor where
  "sample_reactor = \<lparr>re_states = [sample_pending], re_cmd = sample_ring4, re_messages = []\<rparr>"

theorem transfer_event_delivered_witness:
  "acknowledge True [sample_ring_id \<mapsto> sample_transfer_ring] sample_event sample_reactor
     = (Ok (), sample_reactor\<lparr>re_states := [],
         re_messages := [(7, Some \<lparr>net_event = sample_event, net_src = Some (ring_get sample_transfer_ring 2)\<rparr>)]\<rparr>)"
proof -
  have len: "2 < ring_len sample_transfer_ring" "0 < ring_len sample_transfer_ring"
    by (simp_all add: sample_transfer_ring_def ring_put_def ring_len_def sample_ring4_def)
  have mapped: "ring_mapped sample_transfer_ring True"
    by (simp add: sample_transfer_ring_def ring_mapped_def ring_put_def sample_ring4_def ring_len_def
      size_of_trb_def ac64_mask_def)
  have last_block: "is_transfer_trb (ring_get sample_transfer_ring 0)"
    "trb_type (ring_get sample_transfer_ring 0) \<noteq> trb_type_u8 Isoch"
    by code_simp+
  have future: "next_transfer_event_trb True 7 sample_ring_id sample_transfer_ring 2 0 = Ok sample_pending"
    using last_block trb_phys_ptr_block [OF len(1) mapped] trb_phys_ptr_block [OF len(2) mapped]
    by (simp add: next_transfer_event_trb_def sample_pending_def)
  have event: "trb_type sample_event = trb_type_u8 Transfer"
    "transfer_event_trb_pointer sample_event = Some (block_addr sample_transfer_ring True 2)"
    by code_simp+
  show ?thesis
    using transfer_event_delivered [OF future mapped len len(1) _ event, of "[sample_ring_id \<mapsto> sample_transfer_ring]"
        sample_reactor "[]" "[]"]
    by (simp add: in_transfer_def sample_reactor_def)
qed

theorem overrun_events_witness:
  "fst (acknowledge_failed_transfer_trbs sample_event []
      [sample_pending\<lparr>pend_is_isoch_or_vf := True\<rparr>]
      (sample_reactor\<lparr>re_states := [sample_pending\<lparr>pend_is_isoch_or_vf := True\<rparr>]\<rparr>)) = Panic"
  using overrun_events [of "sample_reactor\<lparr>re_states := [sample_pending\<lparr>pend_is_isoch_or_vf := True\<rparr>]\<rparr>"
      sample_event]
  by simp

end
