(* ===== verification/Xhci_State.thy ===== *)
theory Xhci_State
  imports Xhci_Client Xhci_Context Xhci_Reactor
begin

text \<open>
  The state of the xHCI daemon (\<open>xhcid/src/xhci/mod.rs\<close>, \<open>scheme.rs\<close>): the ports with their
  endpoints, the open handles, the command ring and the event reactor.

  Three parts of the system are a parameter, the record \<open>xhci_env\<close>: the controller with the devices
  behind it (what it does when a doorbell rings, the events that it posts, the endpoint contexts that
  it keeps), the memory that it shares with the driver, and the JSON encoding. Ringing a doorbell
  answers the events that arrive from then on, of which the reactor takes one after the other; a
  future that none of them serves does not return, the value \<open>NoFuel\<close>.

  The table of ports is a concurrent map. A reference to an entry is a guard that holds the lock of
  the entry until it is dropped, so the state has the list of guards that are alive, and \<open>xe_exclusive\<close>
  says whether asking for an entry whose guard is alive waits for that guard (it is what the map
  documents). An operation that waits for a guard of its own does not return.

  The device contexts and the port registers are what the controller shows when they are read; reading
  one out of range is \<open>None\<close>. The extended capabilities are read-only registers at byte offsets from
  the base of the registers.
\<close>

subsection \<open>Endpoints and ports\<close>

datatype endp_if_state =
    IfInit
  | WaitingForDataPipe ctl_direction u32 u32
  | WaitingForStatus
  | WaitingForTransferResult transfer_status

text \<open>Of \<open>WaitingForDataPipe\<close>, the bytes transferred come before the bytes to transfer.\<close>

datatype ring_or_streams = PlainRing ring | StreamRings stream_context_array

record endpoint_state =
  es_transfer :: ring_or_streams
  es_if :: endp_if_state

record input_context =
  ic_drop :: u32
  ic_add :: u32
  ic_control :: u32
  ic_device :: device_context

record port_state =
  ps_slot :: u8
  ps_cfg_idx :: "u8 option"
  ps_input_context :: "input_context dma"
  ps_dev_desc :: "dev_desc option"
  ps_endpoints :: "u8 \<rightharpoonup> endpoint_state"

primrec endp_ring :: "ring_or_streams \<Rightarrow> ring option" where
  "endp_ring (PlainRing r) = Some r"
| "endp_ring (StreamRings a) = None"

text \<open>
  The descriptor of an endpoint by its position among all endpoints of all interfaces of the
  configuration.
\<close>

definition get_endp_desc :: "port_state \<Rightarrow> u8 \<Rightarrow> endp_desc option" where
  "get_endp_desc ps endp_idx =
     (case ps_cfg_idx ps of None \<Rightarrow> None | Some c \<Rightarrow>
      case ps_dev_desc ps of None \<Rightarrow> None | Some d \<Rightarrow>
      if unat c < length (dd_config_descs d) then
        let endps = concat (map if_endpoints (cd_interface_descs (dd_config_descs d ! unat c)))
        in if unat endp_idx < length endps then Some (endps ! unat endp_idx) else None
      else None)"

subsection \<open>Handles\<close>

datatype endpoint_handle_ty = EpData | EpCtl | EpRoot nat bytes

datatype port_req_state =
    ReqInit
  | WaitingForDeviceBytes "u8 dma" usb_setup
  | WaitingForHostBytes "u8 dma" usb_setup
  | TmpSetup usb_setup
  | Tmp

datatype xhci_handle =
    TopLevel nat bytes
  | PortHandle nat nat bytes
  | PortDesc nat nat bytes
  | PortStateHandle nat nat
  | PortReqHandle nat port_req_state
  | EndpointsHandle nat nat bytes
  | EndpointHandle nat u8 endpoint_handle_ty
  | ConfigureEndpointsHandle nat

subsection \<open>The daemon\<close>

record 'c xhci =
  xh_ports :: "nat \<rightharpoonup> port_state"
  xh_guards :: "(nat \<times> bool) list"
  xh_handles :: "nat \<rightharpoonup> xhci_handle"
  xh_next_handle :: nat
  xh_reactor :: reactor
  xh_future :: nat
  xh_ctl :: 'c

record 'c xhci_env =
  xe_mem :: "'c mem_ops"
  xe_load :: "u64 \<Rightarrow> nat \<Rightarrow> 'c \<Rightarrow> bytes"
  xe_store :: "u64 \<Rightarrow> bytes \<Rightarrow> 'c \<Rightarrow> 'c"
  xe_ac64 :: bool
  xe_doorbell :: "nat \<Rightarrow> u32 \<Rightarrow> 'c xhci \<Rightarrow> trb list \<times> 'c"
  xe_device_context :: "nat \<Rightarrow> 'c \<Rightarrow> device_context option"
  xe_port_reg :: "nat \<Rightarrow> 'c \<Rightarrow> u32 option"
  xe_port_count :: nat
  xe_cie :: "'c \<Rightarrow> bool"
  xe_hcc_params1 :: u32
  xe_hcc_params2 :: u32
  xe_mmio :: "nat \<Rightarrow> u32"
  xe_exclusive :: bool
  xe_ctl_req_of_json :: "bytes \<Rightarrow> ctl_req option"
  xe_json_of_ctl_res :: "ctl_res \<Rightarrow> bytes"
  xe_port_req_of_json :: "bytes \<Rightarrow> port_req option"
  xe_configure_of_json :: "bytes \<Rightarrow> configure_endpoints_req option"
  xe_json_of_dev_desc :: "dev_desc option \<Rightarrow> bytes option"

text \<open>An operation on the controller and its memory, such as an allocation.\<close>

definition on_ctl :: "('c, 'a, errno) st \<Rightarrow> ('c xhci, 'a, errno) st" where
  "on_ctl m = (\<lambda>X. case m (xh_ctl X) of (r, c) \<Rightarrow> (r, X\<lparr>xh_ctl := c\<rparr>))"

definition alloc_dma_zeroed_unsized :: "'c xhci_env \<Rightarrow> nat \<Rightarrow> ('c xhci, u8 dma, errno) st" where
  "alloc_dma_zeroed_unsized E n =
     on_ctl (alloc_dma_zeroed_unsized_raw (xe_mem E) (xe_ac64 E) 1 0 n)"

text \<open>
  \<open>port_states.get\<close> and \<open>get_mut\<close> with the error for a port that is not there; the guard lives as
  long as the body.
\<close>

definition with_port ::
  "'c xhci_env \<Rightarrow> errno \<Rightarrow> nat \<Rightarrow> (port_state \<Rightarrow> ('c xhci, 'a, errno) st) \<Rightarrow> ('c xhci, 'a, errno) st" where
  "with_port E e port body = (\<lambda>X.
     if xe_exclusive E \<and> (port, True) \<in> set (xh_guards X) then (NoFuel, X)
     else case xh_ports X port of
       None \<Rightarrow> (Err e, X)
     | Some ps \<Rightarrow> (case body ps (X\<lparr>xh_guards := (port, False) # xh_guards X\<rparr>) of
         (r, X') \<Rightarrow> (r, X'\<lparr>xh_guards := remove1 (port, False) (xh_guards X')\<rparr>)))"

definition with_port_mut ::
  "'c xhci_env \<Rightarrow> errno \<Rightarrow> nat \<Rightarrow> (port_state \<Rightarrow> ('c xhci, 'a, errno) st) \<Rightarrow> ('c xhci, 'a, errno) st" where
  "with_port_mut E e port body = (\<lambda>X.
     if xe_exclusive E \<and> ((port, True) \<in> set (xh_guards X) \<or> (port, False) \<in> set (xh_guards X))
     then (NoFuel, X)
     else case xh_ports X port of
       None \<Rightarrow> (Err e, X)
     | Some ps \<Rightarrow> (case body ps (X\<lparr>xh_guards := (port, True) # xh_guards X\<rparr>) of
         (r, X') \<Rightarrow> (r, X'\<lparr>xh_guards := remove1 (port, True) (xh_guards X')\<rparr>)))"

text \<open>A mutation through the guard of a port.\<close>

definition put_endpoint :: "nat \<Rightarrow> u8 \<Rightarrow> endpoint_state \<Rightarrow> 'c xhci \<Rightarrow> 'c xhci" where
  "put_endpoint port e es X = (case xh_ports X port of
      None \<Rightarrow> X
    | Some ps \<Rightarrow> X\<lparr>xh_ports := (xh_ports X)(port \<mapsto> ps\<lparr>ps_endpoints := (ps_endpoints ps)(e \<mapsto> es)\<rparr>)\<rparr>)"

subsection \<open>Waiting for an event\<close>

definition with_ring :: "'c xhci \<Rightarrow> ring_id \<Rightarrow> ring option" where
  "with_ring X i = (case xh_ports X (unat (rid_port i)) of None \<Rightarrow> None | Some ps \<Rightarrow>
     case ps_endpoints ps (rid_endpoint_num i) of None \<Rightarrow> None | Some es \<Rightarrow>
     case es_transfer es of
       PlainRing r \<Rightarrow> Some r
     | StreamRings a \<Rightarrow> sca_rings a (rid_stream_id i))"

text \<open>The events in order; a panic ends the thread of the reactor.\<close>

primrec react :: "bool \<Rightarrow> (ring_id \<Rightarrow> ring option) \<Rightarrow> trb list \<Rightarrow> reactor \<Rightarrow> reactor" where
  "react ac64 rings [] R = R"
| "react ac64 rings (t # ts) R = (case acknowledge ac64 rings t R of
      (Ok _, R') \<Rightarrow> react ac64 rings ts R'
    | (_, R') \<Rightarrow> R')"

definition await_event ::
  "'c xhci_env \<Rightarrow> nat \<Rightarrow> u32 \<Rightarrow> pending \<Rightarrow> ('c xhci, next_event_trb, errno) st" where
  "await_event E db_index db_data p = (\<lambda>X.
     let X1 = X\<lparr>xh_reactor := handle_requests [p] (xh_reactor X)\<rparr>;
         (events, c) = xe_doorbell E db_index db_data X1;
         X2 = X1\<lparr>xh_ctl := c,
                 xh_reactor := react (xe_ac64 E) (with_ring X1) events (xh_reactor X1)\<rparr>
     in case map_of (re_messages (xh_reactor X2)) (pend_future p) of
          Some (Some m) \<Rightarrow> (Ok m, X2)
        | _ \<Rightarrow> (NoFuel, X2))"

text \<open>The number of a new future.\<close>

definition new_future :: "('c xhci, nat, errno) st" where
  "new_future = (\<lambda>X. (Ok (xh_future X), X\<lparr>xh_future := Suc (xh_future X)\<rparr>))"

subsection \<open>Lemmas on the state\<close>

lemma put_endpoint_simps [simp]:
  "xh_guards (put_endpoint p e es X) = xh_guards X" "xh_ctl (put_endpoint p e es X) = xh_ctl X"
  "xh_reactor (put_endpoint p e es X) = xh_reactor X" "xh_future (put_endpoint p e es X) = xh_future X"
  "xh_handles (put_endpoint p e es X) = xh_handles X"
  "xh_next_handle (put_endpoint p e es X) = xh_next_handle X"
  by (simp_all add: put_endpoint_def split: option.split)

lemma put_endpoint_guards [simp]:
  "(put_endpoint p e es X)\<lparr>xh_guards := g\<rparr> = put_endpoint p e es (X\<lparr>xh_guards := g\<rparr>)"
  by (simp add: put_endpoint_def split: option.split)

lemma with_ring_reactor [simp]: "with_ring (X\<lparr>xh_reactor := R\<rparr>) = with_ring X"
  by (simp add: with_ring_def fun_eq_iff)

lemma get_endp_desc_endpoints [simp]: "get_endp_desc (ps\<lparr>ps_endpoints := x\<rparr>) = get_endp_desc ps"
  by (simp add: get_endp_desc_def fun_eq_iff split: option.split)

lemma no_guards: "xh_guards X = [] \<Longrightarrow> X\<lparr>xh_guards := []\<rparr> = X"
  by (cases X) simp

lemma with_port_blocked:
  assumes "xe_exclusive E" "(port, True) \<in> set (xh_guards X)"
  shows "with_port E e port body X = (NoFuel, X)" "with_port_mut E e port body X = (NoFuel, X)"
  using assms by (simp_all add: with_port_def with_port_mut_def)

end
