(* ===== verification/Xhci_Transfers.thy ===== *)
theory Xhci_Transfers
  imports Xhci_State
begin

text \<open>
  Commands and transfers of the xHCI daemon (\<open>xhcid/src/xhci/scheme.rs\<close>): putting blocks on a ring and
  waiting for the event, transfers on the endpoints of a device, the little state machine between the
  control and the data file of an endpoint, and requests to the default control endpoint.
  The closures that fill the blocks of a transfer are the list of the blocks that they build until
  they break the loop.
\<close>

subsection \<open>Blocks on a ring\<close>

text \<open>The operations on a ring cannot fail other than by a panic.\<close>

fun no_err :: "('a, unit) res \<Rightarrow> ('a, errno) res" where
  "no_err (Ok a) = Ok a"
| "no_err (Err _) = Panic"
| "no_err Panic = Panic"
| "no_err NoFuel = NoFuel"

type_synonym builder = "bool \<Rightarrow> trb \<Rightarrow> (trb, unit) res"

definition infallible :: "(bool \<Rightarrow> trb \<Rightarrow> trb) \<Rightarrow> builder" where
  "infallible f = (\<lambda>cycle t. Ok (f cycle t))"

definition fill_block :: "builder \<Rightarrow> nat \<Rightarrow> (ring, unit, unit) st" where
  "fill_block f i = (\<lambda>r.
     if i < ring_len r then
       case f (ring_cycle r) (ring_get r i) of
         Ok t \<Rightarrow> (Ok (), ring_put i t r)
       | _ \<Rightarrow> (Panic, r)
     else (Panic, r))"

text \<open>Takes the next slot and fills it; the answer is the slot.\<close>

definition push_block :: "builder \<Rightarrow> (ring, nat, unit) st" where
  "push_block f = bind_m (next_index 2) (\<lambda>i. bind_m (fill_block f i) (\<lambda>_. return_m i))"

text \<open>The slot of the last of a sequence of blocks.\<close>

fun push_blocks :: "builder list \<Rightarrow> (ring, nat, unit) st" where
  "push_blocks [] = panic_m"
| "push_blocks [f] = push_block f"
| "push_blocks (f # fs) = bind_m (push_block f) (\<lambda>_. push_blocks fs)"

definition on_cmd_ring :: "(ring, 'a, unit) st \<Rightarrow> ('c xhci, 'a, errno) st" where
  "on_cmd_ring m = (\<lambda>X. case m (re_cmd (xh_reactor X)) of
     (r, cmd) \<Rightarrow> (no_err r, X\<lparr>xh_reactor := (xh_reactor X)\<lparr>re_cmd := cmd\<rparr>\<rparr>))"

subsection \<open>Commands\<close>

definition handle_event_trb :: "trb \<Rightarrow> (unit, errno) res" where
  "handle_event_trb event =
     (if completion_code event = trb_completion_code_u8 Success then Ok () else Err EIO)"

definition handle_transfer_event_trb :: "trb \<Rightarrow> (unit, errno) res" where
  "handle_transfer_event_trb event =
     (if completion_code event = trb_completion_code_u8 Success
         \<or> completion_code event = trb_completion_code_u8 ShortPacket then Ok () else Err EIO)"

text \<open>The event and the block of the command that it is about.\<close>

definition execute_command :: "'c xhci_env \<Rightarrow> builder \<Rightarrow> ('c xhci, trb \<times> trb, errno) st" where
  "execute_command E f =
     bind_m (on_cmd_ring (push_block f)) (\<lambda>cmd_index.
     bind_m new_future (\<lambda>future X.
     bind_m (of_res (no_err (next_command_completion_event_trb (xe_ac64 E) future
                               (re_cmd (xh_reactor X)) cmd_index))) (\<lambda>p.
     bind_m (await_event E 0 0 p) (\<lambda>trbs.
     case net_src trbs of
       None \<Rightarrow> panic_m
     | Some command_trb \<Rightarrow>
         if trb_type (net_event trbs) \<noteq> trb_type_u8 CommandCompletion then panic_m
         else return_m (net_event trbs, command_trb))) X))"

subsection \<open>Control transfers\<close>

definition def_control_endp_doorbell :: u32 where
  "def_control_endp_doorbell = 1"

text \<open>The slots of the setup and the status block.\<close>

definition control_blocks :: "usb_setup \<Rightarrow> transfer_kind \<Rightarrow> builder list \<Rightarrow> (ring, nat \<times> nat, unit) st" where
  "control_blocks p tk d =
     bind_m (push_block (infallible (trb_setup p tk))) (\<lambda>first_index.
     bind_m (if tk \<noteq> NoDataTransfer then push_blocks d else return_m 0) (\<lambda>_.
     bind_m (push_block (infallible (trb_status_stage 0 (tk \<noteq> InTransfer) True False False))) (\<lambda>last_index.
     return_m (first_index, last_index))))"

text \<open>Blocks put on the ring of an endpoint, and the future of their event.\<close>

definition put_ring :: "ring \<Rightarrow> endpoint_state \<Rightarrow> endpoint_state" where
  "put_ring r es = (case es_transfer es of
      PlainRing _ \<Rightarrow> es\<lparr>es_transfer := PlainRing r\<rparr>
    | StreamRings a \<Rightarrow> es\<lparr>es_transfer := StreamRings (a\<lparr>sca_rings := (sca_rings a)(1 \<mapsto> r)\<rparr>)\<rparr>)"

definition enqueue ::
  "'c xhci_env \<Rightarrow> nat \<Rightarrow> u8 \<Rightarrow> endpoint_state \<Rightarrow> ring \<Rightarrow> ring_id \<Rightarrow> (ring, nat \<times> nat, unit) st
    \<Rightarrow> ('c xhci, pending, errno) st" where
  "enqueue E port e es r ring_id m =
     bind_m new_future (\<lambda>future X. case m r of
       (x, r') \<Rightarrow>
         (bind_r (no_err x) (\<lambda>(first_index, last_index).
            no_err (next_transfer_event_trb (xe_ac64 E) future ring_id r' first_index last_index)),
          put_endpoint port e (put_ring r' es) X))"

definition execute_control_transfer ::
  "'c xhci_env \<Rightarrow> nat \<Rightarrow> usb_setup \<Rightarrow> transfer_kind \<Rightarrow> builder list \<Rightarrow> ('c xhci, trb, errno) st" where
  "execute_control_transfer E port p tk d =
     bind_m (with_port_mut E EBADF port (\<lambda>ps.
       bind_m (ok_or EIO (ps_endpoints ps 0)) (\<lambda>es.
       bind_m (ok_or EIO (endp_ring (es_transfer es))) (\<lambda>r.
       bind_m (enqueue E port 0 es r (default_control_pipe (of_nat port)) (control_blocks p tk d)) (\<lambda>f.
       return_m (ps_slot ps, f)))))) (\<lambda>(slot, future).
     bind_m (await_event E (unat slot) def_control_endp_doorbell future) (\<lambda>trbs.
     bind_m (ok_or EIO (net_src trbs)) (\<lambda>_.
     bind_m (of_res (handle_transfer_event_trb (net_event trbs))) (\<lambda>_.
     return_m (net_event trbs)))))"

definition device_req_no_data :: "'c xhci_env \<Rightarrow> nat \<Rightarrow> usb_setup \<Rightarrow> ('c xhci, unit, errno) st" where
  "device_req_no_data E port req =
     bind_m (execute_control_transfer E port req NoDataTransfer []) (\<lambda>_. return_m ())"

definition set_configuration :: "'c xhci_env \<Rightarrow> nat \<Rightarrow> u8 \<Rightarrow> ('c xhci, unit, errno) st" where
  "set_configuration E port config = device_req_no_data E port (setup_set_configuration config)"

definition set_interface :: "'c xhci_env \<Rightarrow> nat \<Rightarrow> u8 \<Rightarrow> u8 \<Rightarrow> ('c xhci, unit, errno) st" where
  "set_interface E port interface_num alternate_setting =
     device_req_no_data E port (setup_set_interface interface_num alternate_setting)"

subsection \<open>Transfers on an endpoint\<close>

definition endp_num_to_dci :: "u8 \<Rightarrow> endp_desc \<Rightarrow> (u8, errno) res" where
  "endp_num_to_dci endp_num desc =
     (if endp_num = 0 then Panic
      else if is_control desc \<or> direction_of desc = DirIn then Ok (endp_num * 2 + 1)
      else if direction_of desc = DirOut then Ok (endp_num * 2)
      else Panic)"

definition endp_doorbell :: "u8 \<Rightarrow> endp_desc \<Rightarrow> u16 \<Rightarrow> (u32, errno) res" where
  "endp_doorbell endp_num desc stream_id =
     bind_r (endp_num_to_dci endp_num desc) (\<lambda>db_target.
     Ok (push_bit 16 (ucast stream_id) OR ucast db_target))"

text \<open>The ring that a transfer uses: the only one, or the one of stream 1.\<close>

definition transfer_ring :: "endpoint_state \<Rightarrow> (bool \<times> ring) option" where
  "transfer_ring es = (case es_transfer es of
      PlainRing r \<Rightarrow> Some (False, r)
    | StreamRings a \<Rightarrow> map_option (Pair True) (sca_rings a 1))"

definition execute_transfer ::
  "'c xhci_env \<Rightarrow> nat \<Rightarrow> u8 \<Rightarrow> u16 \<Rightarrow> builder list \<Rightarrow> ('c xhci, trb, errno) st" where
  "execute_transfer E port endp_num stream_id d =
     bind_m (if endp_num = 0 then fail_m EIO else return_m (endp_num - 1)) (\<lambda>endp_idx.
     bind_m (with_port_mut E EBADF port (\<lambda>ps.
       bind_m (ok_or EBADFD (get_endp_desc ps endp_idx)) (\<lambda>desc.
       bind_m (of_res (endp_doorbell endp_num desc stream_id)) (\<lambda>doorbell_data_stream.
       bind_m (of_res (endp_doorbell endp_num desc 0)) (\<lambda>doorbell_data_no_stream.
       bind_m (ok_or EBADF (ps_endpoints ps endp_num)) (\<lambda>es.
       bind_m (ok_or EBADF (transfer_ring es)) (\<lambda>(has_streams, r).
       bind_m (enqueue E port endp_num es r
                 \<lparr>rid_port = of_nat port, rid_endpoint_num = endp_num, rid_stream_id = stream_id\<rparr>
                 (bind_m (push_blocks d) (\<lambda>last_index. return_m (last_index, last_index)))) (\<lambda>f.
       return_m (ps_slot ps, if has_streams then doorbell_data_stream else doorbell_data_no_stream,
                 f))))))))) (\<lambda>(slot, doorbell, future).
     bind_m (await_event E (unat slot) doorbell future) (\<lambda>trbs.
     bind_m (ok_or EIO (net_src trbs)) (\<lambda>_.
     bind_m (of_res (handle_transfer_event_trb (net_event trbs))) (\<lambda>_.
     if completion_code (net_event trbs) \<noteq> trb_completion_code_u8 ShortPacket
        \<and> transfer_length (net_event trbs) \<noteq> 0 then fail_m EIO
     else return_m (net_event trbs))))))"

definition div_round_up :: "nat \<Rightarrow> nat \<Rightarrow> nat" where
  "div_round_up a b = (if a mod b \<noteq> 0 then a div b + 1 else a div b)"

definition max_transfer_size :: nat where
  "max_transfer_size = 65536"

text \<open>The blocks of a transfer of \<open>n\<close> bytes, one for every 64 KiB: length, chain and interrupt.\<close>

function transfer_blocks :: "u64 \<Rightarrow> bool \<Rightarrow> u8 \<Rightarrow> nat \<Rightarrow> builder list" where
  "transfer_blocks buffer idt td n =
     (let len = min n max_transfer_size; ioc = (n \<le> max_transfer_size)
      in (\<lambda>cycle. trb_normal buffer (of_nat len) cycle td 0 False True (\<not> ioc) ioc idt False)
         # (if n - len \<noteq> 0 then transfer_blocks buffer idt td (n - len) else []))"
  by pat_completeness auto
termination by (relation "measure (\<lambda>(_, _, _, n). n)") (auto simp: max_transfer_size_def)

declare transfer_blocks.simps [simp del]

definition xhci_transfer ::
  "'c xhci_env \<Rightarrow> nat \<Rightarrow> u8 \<Rightarrow> u8 dma option \<Rightarrow> ('c xhci, u8 \<times> u32, errno) st" where
  "xhci_transfer E port endp_idx dma_buf =
     (let endp_num = endp_idx + 1; n = (case dma_buf of None \<Rightarrow> 0 | Some b \<Rightarrow> length (dma_data b))
      in bind_m (with_port_mut E EBADFD port (\<lambda>ps.
           bind_m (ok_or EBADFD (get_endp_desc ps endp_idx)) (\<lambda>desc.
           let direction = direction_of desc
           in if is_isoch desc then fail_m ENOSYS
              else if direction \<noteq> direction_of desc then fail_m EBADF
              else (\<lambda>X.
                let (buffer, idt) =
                      (if n \<le> 8 \<and> 8 \<le> ed_max_packet_size desc \<and> direction \<noteq> DirIn then
                         (case dma_buf of
                            None \<Rightarrow> (0, False)
                          | Some b \<Rightarrow> (from_le (blit (replicate 8 0) 0 (xe_load E (dma_phys b) n (xh_ctl X))), True))
                       else (case dma_buf of None \<Rightarrow> 0 | Some b \<Rightarrow> dma_phys b, False));
                    trbs = div_round_up n max_transfer_size * size_of_trb;
                    td = min (if trbs < 256 then of_nat trbs else 0x1F) 0x1F
                in (Ok (buffer, idt, td), X))))) (\<lambda>(buffer, idt, td).
         bind_m (execute_transfer E port endp_num 1 (transfer_blocks buffer idt td n)) (\<lambda>event.
         return_m (completion_code event,
                   case dma_buf of None \<Rightarrow> 0 | Some b \<Rightarrow> of_nat n - transfer_length event))))"

text \<open>A buffer of the caller is copied to and from memory of its own, which is freed at the end.\<close>

definition xhci_transfer_read :: "'c xhci_env \<Rightarrow> nat \<Rightarrow> u8 \<Rightarrow> ('c xhci \<times> bytes, u8 \<times> u32, errno) st" where
  "xhci_transfer_read E port endp_idx = (\<lambda>(X, buf).
     if buf = [] then (Err EINVAL, (X, buf))
     else bind_m (on_fst (alloc_dma_zeroed_unsized E (length buf))) (\<lambda>b.
       finally_m
         (bind_m (on_fst (xhci_transfer E port endp_idx (Some b))) (\<lambda>res (X, buf).
          (Ok res, (X, xe_load E (dma_phys b) (length buf) (xh_ctl X)))))
         (on_fst (on_ctl (dma_drop (xe_mem E) b)))) (X, buf))"

definition xhci_transfer_write :: "'c xhci_env \<Rightarrow> nat \<Rightarrow> u8 \<Rightarrow> bytes \<Rightarrow> ('c xhci, u8 \<times> u32, errno) st" where
  "xhci_transfer_write E port endp_idx sbuf =
     (if sbuf = [] then fail_m EINVAL
      else bind_m (alloc_dma_zeroed_unsized E (length sbuf)) (\<lambda>b.
        finally_m
          (\<lambda>X. xhci_transfer E port endp_idx (Some b)
                 (X\<lparr>xh_ctl := xe_store E (dma_phys b) sbuf (xh_ctl X)\<rparr>))
          (on_ctl (dma_drop (xe_mem E) b))))"

subsection \<open>Status and reset of an endpoint\<close>

definition reset_endpoint :: "'c xhci_env \<Rightarrow> nat \<Rightarrow> u8 \<Rightarrow> bool \<Rightarrow> ('c xhci, unit, errno) st" where
  "reset_endpoint E port endp_num tsp =
     bind_m (if endp_num = 0 then fail_m EIO else return_m (endp_num - 1)) (\<lambda>endp_idx.
     with_port E EBADFD port (\<lambda>ps.
       bind_m (ok_or EBADFD (get_endp_desc ps endp_idx)) (\<lambda>desc.
       bind_m (of_res (endp_num_to_dci endp_num desc)) (\<lambda>endp_num_xhc.
       bind_m (with_port E EBADF port (\<lambda>ps. return_m (ps_slot ps))) (\<lambda>slot.
       bind_m (execute_command E (trb_reset_endpoint slot endp_num_xhc tsp)) (\<lambda>(event, _).
       of_res (handle_event_trb event)))))))"

text \<open>
  The descriptor of the endpoint in the first interface of the first configuration. The subtraction
  wraps for endpoint 0, which is then not found.
\<close>

definition first_endp_desc :: "port_state \<Rightarrow> u8 \<Rightarrow> (endp_desc, errno) res" where
  "first_endp_desc ps endp_num = (case ps_dev_desc ps of
      None \<Rightarrow> Panic
    | Some d \<Rightarrow> (case dd_config_descs d of
        [] \<Rightarrow> Err EIO
      | c # _ \<Rightarrow> (case cd_interface_descs c of
          [] \<Rightarrow> Err EIO
        | i # _ \<Rightarrow>
            if endp_num \<noteq> 0 \<and> unat endp_num \<le> length (if_endpoints i)
            then Ok (if_endpoints i ! (unat endp_num - 1)) else Err EBADFD)))"

definition endpoint_status_of_raw :: "u32 \<Rightarrow> (endpoint_status, errno) res" where
  "endpoint_status_of_raw raw =
     (if raw = 0 then Ok EpDisabled
      else if raw = 1 then Ok EpEnabled
      else if raw = 2 then Ok EpHalted
      else if raw = 3 then Ok EpStopped
      else if raw = 4 then Ok EpError
      else Err EIO)"

definition get_endp_status :: "'c xhci_env \<Rightarrow> nat \<Rightarrow> u8 \<Rightarrow> ('c xhci, endpoint_status, errno) st" where
  "get_endp_status E port endp_num =
     with_port E EBADFD port (\<lambda>ps.
       bind_m (of_res (first_endp_desc ps endp_num)) (\<lambda>desc.
       bind_m (if endp_num \<noteq> 0 then of_res (endp_num_to_dci endp_num desc) else return_m 1) (\<lambda>dci.
       \<lambda>X. bind_m (ok_or EBADFD (xe_device_context E (unat (ps_slot ps)) (xh_ctl X))) (\<lambda>ctx.
             if unat dci - 1 < length (dev_endpoints ctx)
             then of_res (endpoint_status_of_raw (ep_a (dev_endpoints ctx ! (unat dci - 1)) AND 7))
             else fail_m EBADFD) X)))"

definition set_tr_deque_ptr :: "'c xhci_env \<Rightarrow> nat \<Rightarrow> u8 \<Rightarrow> u64 \<Rightarrow> ('c xhci, unit, errno) st" where
  "set_tr_deque_ptr E port endp_num deque_ptr_and_cycle =
     bind_m (if endp_num = 0 then fail_m EIO else return_m (endp_num - 1)) (\<lambda>endp_idx.
     with_port E EBADFD port (\<lambda>ps.
       bind_m (ok_or EBADFD (get_endp_desc ps endp_idx)) (\<lambda>desc.
       bind_m (of_res (endp_num_to_dci endp_num desc)) (\<lambda>endp_num_xhc.
       bind_m (execute_command E (\<lambda>cycle.
         trb_set_tr_deque_ptr deque_ptr_and_cycle cycle PrimaryRing 1 endp_num_xhc (ps_slot ps)))
         (\<lambda>(event, _).
       of_res (handle_event_trb event))))))"

text \<open>The doorbell is rung without waiting for an event of the no-op block.\<close>

definition ring_doorbell :: "'c xhci_env \<Rightarrow> nat \<Rightarrow> u32 \<Rightarrow> ('c xhci, unit, errno) st" where
  "ring_doorbell E db_index db_data = (\<lambda>X. case xe_doorbell E db_index db_data X of
     (events, c) \<Rightarrow> (Ok (), X\<lparr>xh_ctl := c,
        xh_reactor := react (xe_ac64 E) (with_ring X) events (xh_reactor X)\<rparr>))"

definition restart_endpoint :: "'c xhci_env \<Rightarrow> nat \<Rightarrow> u8 \<Rightarrow> ('c xhci, unit, errno) st" where
  "restart_endpoint E port endp_num =
     with_port_mut E EBADFD port (\<lambda>ps.
       bind_m (ok_or EBADFD (ps_endpoints ps endp_num)) (\<lambda>es.
       bind_m (ok_or EBADFD (transfer_ring es)) (\<lambda>(has_streams, r).
       bind_m (\<lambda>X. case push_block (infallible (trb_transfer_no_op 0 False False False)) r of
                 (x, r') \<Rightarrow> (map_res (\<lambda>_. ring_register r') (no_err x),
                             put_endpoint port endp_num (put_ring r' es) X)) (\<lambda>deque_ptr_and_cycle.
       bind_m (of_res (first_endp_desc ps endp_num)) (\<lambda>desc.
       bind_m (if endp_num \<noteq> 0 then of_res (endp_doorbell endp_num desc (if has_streams then 1 else 0))
               else return_m def_control_endp_doorbell) (\<lambda>doorbell.
       bind_m (ring_doorbell E (unat (ps_slot ps)) doorbell) (\<lambda>_.
       set_tr_deque_ptr E port endp_num deque_ptr_and_cycle)))))))"

definition on_req_reset_device :: "'c xhci_env \<Rightarrow> nat \<Rightarrow> u8 \<Rightarrow> bool \<Rightarrow> ('c xhci, unit, errno) st" where
  "on_req_reset_device E port endp_num clear =
     bind_m (get_endp_status E port endp_num) (\<lambda>st.
     if st \<noteq> EpHalted then fail_m EPROTO
     else
       bind_m (reset_endpoint E port endp_num False) (\<lambda>_.
       bind_m (restart_endpoint E port endp_num) (\<lambda>_.
       if clear then
         device_req_no_data E port
           \<lparr>setup_kind = 2, setup_request = 1, setup_value = 0, setup_index = 0, setup_length = 0\<rparr>
       else return_m ())))"

definition port_endp_direction :: "'c xhci_env \<Rightarrow> nat \<Rightarrow> u8 \<Rightarrow> ('c xhci, endp_direction, errno) st" where
  "port_endp_direction E port endp_num =
     with_port E EIO port (\<lambda>ps. of_res (case ps_dev_desc ps of
       None \<Rightarrow> Panic
     | Some d \<Rightarrow> (case dd_config_descs d of
         [] \<Rightarrow> Err EIO
       | c # _ \<Rightarrow> (case cd_interface_descs c of
           [] \<Rightarrow> Err EIO
         | i # _ \<Rightarrow>
             if unat endp_num < length (if_endpoints i)
             then Ok (direction_of (if_endpoints i ! unat endp_num)) else Err EIO))))"

definition port_slot :: "'c xhci_env \<Rightarrow> nat \<Rightarrow> ('c xhci, u8, errno) st" where
  "port_slot E port = with_port E EIO port (\<lambda>ps. return_m (ps_slot ps))"

subsection \<open>The control and the data file of an endpoint\<close>

definition set_if_state :: "nat \<Rightarrow> u8 \<Rightarrow> endp_if_state \<Rightarrow> 'c xhci \<Rightarrow> 'c xhci" where
  "set_if_state port e st X = (case xh_ports X port of
      None \<Rightarrow> X
    | Some ps \<Rightarrow> (case ps_endpoints ps e of
        None \<Rightarrow> X
      | Some es \<Rightarrow> put_endpoint port e (es\<lparr>es_if := st\<rparr>) X))"

definition put_if_state :: "nat \<Rightarrow> u8 \<Rightarrow> endp_if_state \<Rightarrow> ('c xhci, unit, errno) st" where
  "put_if_state port e st = (\<lambda>X. (Ok (), set_if_state port e st X))"

definition transfer_result :: "u8 \<Rightarrow> u32 \<Rightarrow> transfer_status" where
  "transfer_result code n = \<lparr>ts_kind =
       (if code = trb_completion_code_u8 Success then TransferSuccess
        else if code = trb_completion_code_u8 ShortPacket then ShortPacketStatus
        else if code = trb_completion_code_u8 Stall then StalledStatus
        else UnknownStatus),
     ts_bytes_transferred = n\<rparr>"

definition on_write_endp_ctl :: "'c xhci_env \<Rightarrow> nat \<Rightarrow> u8 \<Rightarrow> bytes \<Rightarrow> ('c xhci, nat, errno) st" where
  "on_write_endp_ctl E port endp_num buf =
     with_port_mut E EBADF port (\<lambda>ps.
       bind_m (ok_or EBADF (ps_endpoints ps endp_num)) (\<lambda>es.
       bind_m (ok_or EBADMSG (xe_ctl_req_of_json E buf)) (\<lambda>req.
       bind_m (if es_if es \<noteq> IfInit then fail_m EBADF
         else case req of
           StatusReq \<Rightarrow> put_if_state port endp_num WaitingForStatus
         | ResetReq no_clear_feature \<Rightarrow>
             on_req_reset_device E port endp_num (\<not> no_clear_feature)
         | TransferReq direction n \<Rightarrow>
             if direction = CtlNoData then
               bind_m (xhci_transfer E port (endp_num - 1) None) (\<lambda>(code, bytes_transferred).
               if bytes_transferred > 0 then fail_m EIO
               else with_port_mut E EBADF port (\<lambda>ps.
                 bind_m (ok_or EBADF (ps_endpoints ps endp_num)) (\<lambda>_.
                 put_if_state port endp_num (WaitingForTransferResult (transfer_result code 0)))))
             else put_if_state port endp_num (WaitingForDataPipe direction 0 n)) (\<lambda>_.
       return_m (length buf)))))"

text \<open>
  What the two data operations share: the bytes that the request has left, and the new state after
  some of them were moved.
\<close>

definition pipe_left :: "u32 \<Rightarrow> u32 \<Rightarrow> nat" where
  "pipe_left bytes_transferred bytes_to_transfer =
     unat (ucast bytes_to_transfer - ucast bytes_transferred :: u64)"

definition after_transfer ::
  "'c xhci_env \<Rightarrow> errno \<Rightarrow> nat \<Rightarrow> u8 \<Rightarrow> ctl_direction \<Rightarrow> u8 \<Rightarrow> u32 \<Rightarrow> ('c xhci, nat, errno) st" where
  "after_transfer E err port endp_num dir code some_bytes =
     with_port_mut E err port (\<lambda>ps.
       bind_m (ok_or err (ps_endpoints ps endp_num)) (\<lambda>es. case es_if es of
         WaitingForDataPipe d bytes_transferred bytes_to_transfer \<Rightarrow>
           if d \<noteq> dir then panic_m
           else
             bind_m
               (if bytes_transferred + some_bytes = bytes_to_transfer
                   \<or> code \<noteq> trb_completion_code_u8 Success
                then put_if_state port endp_num
                       (WaitingForTransferResult (transfer_result code some_bytes))
                else put_if_state port endp_num
                       (WaitingForDataPipe d (bytes_transferred + some_bytes) bytes_to_transfer)) (\<lambda>_.
             return_m (unat some_bytes))
       | _ \<Rightarrow> panic_m))"

text \<open>The state of the endpoint, if it waits for data in the direction; the guard is dropped.\<close>

definition data_pipe ::
  "'c xhci_env \<Rightarrow> errno \<Rightarrow> nat \<Rightarrow> u8 \<Rightarrow> ctl_direction \<Rightarrow> nat \<Rightarrow> ('c xhci, unit, errno) st" where
  "data_pipe E err port endp_num dir n =
     with_port_mut E err port (\<lambda>ps.
       bind_m (ok_or err (ps_endpoints ps endp_num)) (\<lambda>es. case es_if es of
         WaitingForDataPipe d bytes_transferred bytes_to_transfer \<Rightarrow>
           if d \<noteq> dir then fail_m EBADF
           else if n > pipe_left bytes_transferred bytes_to_transfer then fail_m EINVAL
           else return_m ()
       | _ \<Rightarrow> fail_m EBADF))"

definition on_write_endp_data :: "'c xhci_env \<Rightarrow> nat \<Rightarrow> u8 \<Rightarrow> bytes \<Rightarrow> ('c xhci, nat, errno) st" where
  "on_write_endp_data E port endp_num buf =
     bind_m (data_pipe E EBADFD port endp_num CtlOut (length buf)) (\<lambda>_.
     bind_m (xhci_transfer_write E port (endp_num - 1) buf) (\<lambda>(code, some_bytes).
     after_transfer E EBADFD port endp_num CtlOut code some_bytes))"

definition on_read_endp_data :: "'c xhci_env \<Rightarrow> nat \<Rightarrow> u8 \<Rightarrow> ('c xhci \<times> bytes, nat, errno) st" where
  "on_read_endp_data E port endp_num = (\<lambda>(X, buf).
     bind_m (on_fst (data_pipe E EBADF port endp_num CtlIn (length buf))) (\<lambda>_.
     bind_m (xhci_transfer_read E port (endp_num - 1)) (\<lambda>(code, some_bytes).
     on_fst (after_transfer E EBADF port endp_num CtlIn code some_bytes))) (X, buf))"

text \<open>The answer is written to the caller's buffer; it is cut off where the buffer ends.\<close>

definition on_read_endp_ctl :: "'c xhci_env \<Rightarrow> nat \<Rightarrow> u8 \<Rightarrow> ('c xhci \<times> bytes, nat, errno) st" where
  "on_read_endp_ctl E port endp_num =
     bind_m (on_fst (with_port_mut E EBADF port (\<lambda>ps.
       bind_m (ok_or EBADF (ps_endpoints ps endp_num)) (\<lambda>es. case es_if es of
         IfInit \<Rightarrow> return_m IdleRes
       | WaitingForStatus \<Rightarrow>
           bind_m (put_if_state port endp_num IfInit) (\<lambda>_.
           bind_m (get_endp_status E port endp_num) (\<lambda>st. return_m (StatusRes st)))
       | WaitingForDataPipe _ _ _ \<Rightarrow> return_m PendingRes
       | WaitingForTransferResult st \<Rightarrow>
           bind_m (put_if_state port endp_num IfInit) (\<lambda>_. return_m (TransferResult st)))))) (\<lambda>res (X, buf).
     let json = xe_json_of_ctl_res E res
     in (if length json \<le> length buf then Ok (length json) else Err EIO, (X, fill_buffer buf json)))"

subsection \<open>Requests to the default control endpoint\<close>

definition port_req_transfer ::
  "'c xhci_env \<Rightarrow> nat \<Rightarrow> u8 dma option \<Rightarrow> usb_setup \<Rightarrow> transfer_kind \<Rightarrow> ('c xhci, unit, errno) st" where
  "port_req_transfer E port data_buffer p transfer_kind =
     bind_m (execute_control_transfer E port p transfer_kind
       [infallible (\<lambda>cycle. trb_data (case data_buffer of None \<Rightarrow> 0 | Some b \<Rightarrow> dma_phys b)
          (setup_length p) (transfer_kind = InTransfer) cycle)]) (\<lambda>_. return_m ())"

definition port_req_setup :: "port_req \<Rightarrow> usb_setup" where
  "port_req_setup req =
     \<lparr>setup_kind = push_bit 7 (case pr_direction req of HostToDevice \<Rightarrow> 0 | DeviceToHost \<Rightarrow> 1)
        OR push_bit 5 (req_type_u8 (req_type_of (pr_req_type req)))
        OR req_recipient_u8 (pr_req_recipient req),
      setup_request = pr_request req, setup_value = pr_value req, setup_index = pr_index req,
      setup_length = pr_length req\<rparr>"

definition port_req_init_st :: "'c xhci_env \<Rightarrow> port_req \<Rightarrow> ('c xhci, port_req_state, errno) st" where
  "port_req_init_st E req =
     (if \<not> pr_transfers_data req then return_m (TmpSetup (port_req_setup req))
      else bind_m (alloc_dma_zeroed_unsized E (unat (pr_length req))) (\<lambda>b.
        if length (dma_data b) \<noteq> unat (pr_length req) then panic_m
        else case pr_direction req of
          DeviceToHost \<Rightarrow> return_m (WaitingForDeviceBytes b (port_req_setup req))
        | HostToDevice \<Rightarrow> return_m (WaitingForHostBytes b (port_req_setup req))))"

text \<open>
  The state of a request handle is taken out of the handle before these run; they put the new one
  back at the end.
\<close>

definition put_req_state :: "nat \<Rightarrow> port_req_state \<Rightarrow> ('c xhci, unit, errno) st" where
  "put_req_state fd st = (\<lambda>X. case xh_handles X fd of
      None \<Rightarrow> (Err EBADF, X)
    | Some (PortReqHandle port _) \<Rightarrow> (Ok (), X\<lparr>xh_handles := (xh_handles X)(fd \<mapsto> PortReqHandle port st)\<rparr>)
    | Some _ \<Rightarrow> (Panic, X))"

definition handle_port_req_write ::
  "'c xhci_env \<Rightarrow> nat \<Rightarrow> nat \<Rightarrow> port_req_state \<Rightarrow> bytes \<Rightarrow> ('c xhci, nat, errno) st" where
  "handle_port_req_write E fd port st buf =
     bind_m (case st of
         ReqInit \<Rightarrow>
           bind_m (ok_or EBADMSG (xe_port_req_of_json E buf)) (\<lambda>req.
           bind_m (port_req_init_st E req) (\<lambda>st'. case st' of
             TmpSetup p \<Rightarrow> bind_m (port_req_transfer E port None p NoDataTransfer) (\<lambda>_. return_m ReqInit)
           | _ \<Rightarrow> return_m st'))
       | WaitingForHostBytes b p \<Rightarrow>
           finally_m
             (if length buf \<noteq> length (dma_data b) then fail_m EINVAL
              else (\<lambda>X. bind_m (port_req_transfer E port (Some b) p OutTransfer) (\<lambda>_. return_m ReqInit)
                (X\<lparr>xh_ctl := xe_store E (dma_phys b) buf (xh_ctl X)\<rparr>)))
             (on_ctl (dma_drop (xe_mem E) b))
       | WaitingForDeviceBytes b p \<Rightarrow> finally_m (fail_m EBADF) (on_ctl (dma_drop (xe_mem E) b))
       | _ \<Rightarrow> panic_m) (\<lambda>st'.
     bind_m (put_req_state fd st') (\<lambda>_. return_m (length buf)))"

definition handle_port_req_read ::
  "'c xhci_env \<Rightarrow> nat \<Rightarrow> nat \<Rightarrow> port_req_state \<Rightarrow> ('c xhci \<times> bytes, nat, errno) st" where
  "handle_port_req_read E fd port st = (\<lambda>(X, buf).
     bind_m (case st of
         WaitingForDeviceBytes b p \<Rightarrow>
           finally_m
             (if length buf \<noteq> length (dma_data b) then fail_m EINVAL
              else bind_m (on_fst (port_req_transfer E port (Some b) p InTransfer)) (\<lambda>_ (X, buf).
                (Ok ReqInit, (X, xe_load E (dma_phys b) (length buf) (xh_ctl X)))))
             (on_fst (on_ctl (dma_drop (xe_mem E) b)))
       | WaitingForHostBytes b p \<Rightarrow> finally_m (fail_m EBADF) (on_fst (on_ctl (dma_drop (xe_mem E) b)))
       | ReqInit \<Rightarrow> fail_m EBADF
       | _ \<Rightarrow> panic_m) (\<lambda>st'.
     bind_m (on_fst (put_req_state fd st')) (\<lambda>_. return_m (length buf))) (X, buf))"

subsection \<open>Blocks on a ring that the controller follows\<close>

lemma push_block_written:
  assumes w: "written m h r" and f: "block_builder f"
  shows "\<exists>t r'. push_block (infallible f) r = (Ok (length h mod m), r') \<and> written m (h @ [t]) r'
    \<and> (\<exists>cycle old. t = f cycle old)
    \<and> ring_get r' (length h mod m) = t \<and> ring_len r' = Suc m
    \<and> dma_phys (ring_trbs r') = dma_phys (ring_trbs r) \<and> dma_virt (ring_trbs r') = dma_virt (ring_trbs r)"
proof -
  let ?i = "length h mod m"
  note cur = written_cursor [OF w]
  have m: "0 < m" "ring_len r = Suc m" using w by (simp_all add: written_def)
  have i: "?i < Suc m" using m(1) by (simp add: less_SucI)
  have adv: "ring_cycle (ring_advance r) = ring_phase r" by (rule ring_advance_i)
  let ?t = "f (ring_phase r) (ring_get (ring_advance r) ?i)"
  have push: "ring_push 2 f r = (Ok ?t, ring_put ?i ?t (ring_advance r))"
    using cur by (simp add: ring_push_def bind_m_def ring_next_eq ring_slot_def ring_phase_def Let_def)
  have block: "push_block (infallible f) r = (Ok ?i, ring_put ?i ?t (ring_advance r))"
    using cur m i adv
    by (simp add: push_block_def bind_m_def next_index_eq fill_block_def infallible_def return_m_def
      flip: ring_slot_def)
  have "written m (h @ [?t]) (ring_put ?i ?t (ring_advance r))"
    using written_push [OF w f order_refl] push by simp
  moreover have "dma_virt (ring_trbs (ring_advance r)) = dma_virt (ring_trbs r)"
    by (simp add: ring_advance_def Let_def ring_wrap_def ring_put_def)
  moreover have "dma_virt (ring_trbs (ring_put ?i ?t (ring_advance r))) = dma_virt (ring_trbs (ring_advance r))"
    by (simp add: ring_put_def)
  ultimately show ?thesis
    using block i m by (intro exI [of _ ?t] exI [of _ "ring_put ?i ?t (ring_advance r)"]) auto
qed

text \<open>The single block of a transfer of at most 64 KiB.\<close>

definition one_block :: "u64 \<Rightarrow> bool \<Rightarrow> u8 \<Rightarrow> nat \<Rightarrow> bool \<Rightarrow> trb \<Rightarrow> trb" where
  "one_block buffer idt td n cycle = trb_set buffer
     (of_nat n OR push_bit 17 (ucast td) OR push_bit 22 (ucast (0 :: u8)))
     (bool_word cycle OR flag_at 1 False OR flag_at 2 True OR flag_at 4 False OR flag_at 5 True
      OR flag_at 6 idt OR flag_at 9 False OR ty_field Normal)"

lemma one_block_normal:
  assumes "td AND 0x1F = td"
  shows "trb_normal buffer (of_nat n) cycle td 0 False True False True idt False t
    = Ok (one_block buffer idt td n cycle t)"
  using assms by (simp add: trb_normal_def one_block_def)

lemma one_block_facts:
  assumes "td AND 0x1F = td"
  shows "block_builder (one_block buffer idt td n)"
    "is_transfer_trb (one_block buffer idt td n cycle t)"
    "read_data (one_block buffer idt td n cycle t) = buffer"
proof -
  have b: "transfer_block (one_block buffer idt td n cycle t) Normal cycle" for cycle t
    by (rule normal_block(1) [OF one_block_normal [OF assms]])
  then show "block_builder (one_block buffer idt td n)"
    by (auto simp: block_builder_def transfer_block_def trb_decodes_def)
  show "is_transfer_trb (one_block buffer idt td n cycle t)" using b by (simp add: transfer_block_def)
  show "read_data (one_block buffer idt td n cycle t) = buffer"
    by (rule normal_block(2) [OF one_block_normal [OF assms]])
qed

lemma transfer_blocks_one:
  assumes "n \<le> max_transfer_size" "td AND 0x1F = td"
  shows "transfer_blocks buffer idt td n = [infallible (one_block buffer idt td n)]"
  using assms
  by (subst transfer_blocks.simps)
    (simp add: Let_def min_def infallible_def one_block_normal [OF assms(2)] fun_eq_iff)

subsection \<open>A controller that executes the blocks of an endpoint\<close>

text \<open>
  What the hardware promises of one endpoint: when its doorbell rings, it takes the next block from
  the ring by its dequeue pointer \<open>dq\<close>, following the link, executes it and posts one transfer event
  with the address of that block, the completion code and the bytes left over. The ring has \<open>m\<close> slots
  besides the link and was filled in order. What executing a block does is left open: \<open>run\<close> answers the code, the bytes left and the new state of controller, device and
  memory.
\<close>

definition executes ::
  "'c xhci_env \<Rightarrow> ('c \<Rightarrow> nat \<times> bool) \<Rightarrow> nat \<Rightarrow> (trb \<Rightarrow> 'c \<Rightarrow> u8 \<times> u32 \<times> 'c) \<Rightarrow> nat \<Rightarrow> u32 \<Rightarrow> ring_id \<Rightarrow> bool"
where
  "executes E dq m run slot db i \<longleftrightarrow> (\<forall>X r h k t p'. with_ring X i = Some r
     \<longrightarrow> written m h r \<longrightarrow> consumed m k (dq (xh_ctl X)) \<longrightarrow> k < length h \<longrightarrow> length h \<le> k + m
     \<longrightarrow> hw_consume r (dq (xh_ctl X)) = (Some t, p')
     \<longrightarrow> (case run t (xh_ctl X) of (code, left, c) \<Rightarrow> dq c = p' \<and> (\<exists>event.
           xe_doorbell E slot db X = ([event], c)
           \<and> trb_type event = trb_type_u8 Transfer
           \<and> transfer_event_trb_pointer event = Some (block_addr r (xe_ac64 E) (fst p' - 1))
           \<and> completion_code event = code \<and> transfer_length event = left)))"

text \<open>The daemon between two operations: nobody waits for an event, and no guard is alive.\<close>

definition quiet :: "'c xhci \<Rightarrow> bool" where
  "quiet X \<longleftrightarrow> xh_guards X = [] \<and> re_states (xh_reactor X) = []
     \<and> (\<forall>f m. (f, m) \<in> set (re_messages (xh_reactor X)) \<longrightarrow> f < xh_future X)"

text \<open>
  An endpoint of a configured device with one ring, of which the controller has taken every block
  that was written.
\<close>

definition endpoint_at ::
  "'c xhci_env \<Rightarrow> ('c \<Rightarrow> nat \<times> bool) \<Rightarrow> nat \<Rightarrow> nat \<Rightarrow> u8 \<Rightarrow> u8 \<Rightarrow> endp_desc \<Rightarrow> endp_if_state \<Rightarrow> 'c xhci \<Rightarrow> bool"
where
  "endpoint_at E dq m port slot e d st X \<longleftrightarrow> port < 256 \<and> e \<noteq> 0 \<and> \<not> is_isoch d
     \<and> (\<exists>ps es r h. xh_ports X port = Some ps \<and> ps_slot ps = slot
         \<and> get_endp_desc ps (e - 1) = Some d
         \<and> ps_endpoints ps e = Some es \<and> es_transfer es = PlainRing r \<and> es_if es = st
         \<and> written m h r \<and> consumed m (length h) (dq (xh_ctl X)) \<and> ring_mapped r (xe_ac64 E))"

lemma await_transfer:
  assumes future: "next_transfer_event_trb (xe_ac64 E) f i r j j = Ok p"
    and ring: "ring_mapped r (xe_ac64 E)" "j < ring_len r"
    and alive: "with_ring X i = Some r"
    and event: "xe_doorbell E slot db (X\<lparr>xh_reactor := (xh_reactor X)\<lparr>re_states := [p]\<rparr>\<rparr>) = ([t], c)"
      "trb_type t = trb_type_u8 Transfer"
      "transfer_event_trb_pointer t = Some (block_addr r (xe_ac64 E) j)"
    and idle: "re_states (xh_reactor X) = []" "map_of (re_messages (xh_reactor X)) f = None"
  shows "await_event E slot db p X = (Ok \<lparr>net_event = t, net_src = Some (ring_get r j)\<rparr>,
    X\<lparr>xh_ctl := c, xh_reactor := (xh_reactor X)\<lparr>re_messages := re_messages (xh_reactor X)
        @ [(f, Some \<lparr>net_event = t, net_src = Some (ring_get r j)\<rparr>)]\<rparr>\<rparr>)"
proof -
  let ?X = "X\<lparr>xh_reactor := (xh_reactor X)\<lparr>re_states := [p]\<rparr>\<rparr>"
  have ack: "acknowledge (xe_ac64 E) (with_ring X) t (xh_reactor ?X)
      = (Ok (), (xh_reactor X)\<lparr>re_messages := re_messages (xh_reactor X)
          @ [(f, Some \<lparr>net_event = t, net_src = Some (ring_get r j)\<rparr>)]\<rparr>)"
    using transfer_acknowledged [OF future ring(1) ring(2) ring(2) ring(2), where rings = "with_ring X"
        and t = t and R = "xh_reactor ?X" and pre = "[]" and post = "[]"] alive event(2,3) idle(1)
    by (simp add: in_transfer_def)
  have "pend_future p = f" by (rule transfer_future [OF future ring(1,2,2)])
  then show ?thesis
    using idle event(1) ack
    by (simp add: await_event_def handle_requests_def Let_def map_add_Some_iff map_add_def)
qed

definition transfer_ok :: "u8 \<Rightarrow> u32 \<Rightarrow> bool" where
  "transfer_ok code left \<longleftrightarrow> code = trb_completion_code_u8 ShortPacket
     \<or> code = trb_completion_code_u8 Success \<and> left = 0"

text \<open>What a transfer keeps besides the endpoint itself.\<close>

definition same_handles :: "'c xhci \<Rightarrow> 'c xhci \<Rightarrow> bool" where
  "same_handles X X' \<longleftrightarrow> xh_handles X' = xh_handles X \<and> xh_next_handle X' = xh_next_handle X"

text \<open>The state after one block was put on the ring and its future registered.\<close>

lemma enqueue_one:
  assumes r: "es_transfer es = PlainRing r"
    and w: "written m h r" and mapped: "ring_mapped r (xe_ac64 E)"
    and f: "block_builder f" "\<And>c t. is_transfer_trb (f c t)"
  shows "\<exists>t r' p. (\<exists>cycle old. t = f cycle old) \<and> written m (h @ [t]) r' \<and> ring_get r' (length h mod m) = t
    \<and> ring_mapped r' (xe_ac64 E) \<and> length h mod m < ring_len r'
    \<and> next_transfer_event_trb (xe_ac64 E) (xh_future X) i r' (length h mod m) (length h mod m) = Ok p
    \<and> enqueue E port e es r i
        (bind_m (push_blocks [infallible f]) (\<lambda>last_index. return_m (last_index, last_index))) X
      = (Ok p, put_endpoint port e (es\<lparr>es_transfer := PlainRing r'\<rparr>) (X\<lparr>xh_future := Suc (xh_future X)\<rparr>))"
proof -
  let ?j = "length h mod m"
  obtain t r' where push: "push_block (infallible f) r = (Ok ?j, r')" "written m (h @ [t]) r'"
    "\<exists>cycle old. t = f cycle old" "ring_get r' ?j = t" "ring_len r' = Suc m"
    "dma_phys (ring_trbs r') = dma_phys (ring_trbs r)" "dma_virt (ring_trbs r') = dma_virt (ring_trbs r)"
    using push_block_written [OF w f(1)] by blast
  have m: "0 < m" "ring_len r = Suc m" using w by (simp_all add: written_def)
  have j: "?j < ring_len r'" using m push(5) by (simp add: less_SucI)
  have mapped': "ring_mapped r' (xe_ac64 E)"
    using mapped push(5-7) m(2) by (simp add: ring_mapped_def)
  have "is_transfer_trb (ring_get r' ?j)" using push(3,4) f(2) by auto
  then obtain p where p: "next_transfer_event_trb (xe_ac64 E) (xh_future X) i r' ?j ?j = Ok p"
    using trb_phys_ptr_block [OF j mapped'] by (simp add: next_transfer_event_trb_def)
  then have "enqueue E port e es r i
        (bind_m (push_blocks [infallible f]) (\<lambda>last_index. return_m (last_index, last_index))) X
      = (Ok p, put_endpoint port e (es\<lparr>es_transfer := PlainRing r'\<rparr>) (X\<lparr>xh_future := Suc (xh_future X)\<rparr>))"
    using push(1) r by (simp add: enqueue_def bind_m_def new_future_def return_m_def put_ring_def)
  with push j mapped' p show ?thesis by blast
qed

lemma execute_transfer_one:
  fixes X :: "'c xhci"
  assumes at: "endpoint_at E dq m port slot e d st X" and q: "quiet X"
    and dci: "endp_num_to_dci e d = Ok dci"
    and ex: "executes E dq m run (unat slot) (ucast dci)
      \<lparr>rid_port = of_nat port, rid_endpoint_num = e, rid_stream_id = 1\<rparr>"
    and f: "block_builder f" "\<And>c t. is_transfer_trb (f c t)"
  shows "\<exists>t event X'. (\<exists>cycle old. t = f cycle old)
    \<and> (case run t (xh_ctl X) of (code, left, c) \<Rightarrow>
        execute_transfer E port e 1 [infallible f] X = (if transfer_ok code left then Ok event else Err EIO, X')
        \<and> completion_code event = code \<and> transfer_length event = left \<and> xh_ctl X' = c)
    \<and> endpoint_at E dq m port slot e d st X' \<and> quiet X' \<and> same_handles X X'"
proof -
  from at obtain ps es r h where ep: "port < 256" "e \<noteq> 0" "\<not> is_isoch d"
    "xh_ports X port = Some ps" "ps_slot ps = slot" "get_endp_desc ps (e - 1) = Some d"
    "ps_endpoints ps e = Some es" "es_transfer es = PlainRing r" "es_if es = st"
    and w: "written m h r" and con: "consumed m (length h) (dq (xh_ctl X))"
    and mapped: "ring_mapped r (xe_ac64 E)"
    unfolding endpoint_at_def by blast
  let ?i = "\<lparr>rid_port = of_nat port, rid_endpoint_num = e, rid_stream_id = 1\<rparr> :: ring_id"
  let ?j = "length h mod m"
  let ?G = "X\<lparr>xh_guards := [(port, True)]\<rparr>"
  from q have quiet: "xh_guards X = []" "re_states (xh_reactor X) = []"
    "\<And>f m. (f, m) \<in> set (re_messages (xh_reactor X)) \<Longrightarrow> f < xh_future X"
    by (auto simp: quiet_def)
  obtain t r' p where enq: "\<exists>cycle old. t = f cycle old" "written m (h @ [t]) r'" "ring_get r' ?j = t"
    "ring_mapped r' (xe_ac64 E)" "?j < ring_len r'"
    "next_transfer_event_trb (xe_ac64 E) (xh_future ?G) ?i r' ?j ?j = Ok p"
    "enqueue E port e es r ?i
        (bind_m (push_blocks [infallible f]) (\<lambda>last_index. return_m (last_index, last_index))) ?G
      = (Ok p, put_endpoint port e (es\<lparr>es_transfer := PlainRing r'\<rparr>) (?G\<lparr>xh_future := Suc (xh_future ?G)\<rparr>))"
    using enqueue_one [OF ep(8) w mapped f, of ?G ?i port e] by blast
  let ?X = "put_endpoint port e (es\<lparr>es_transfer := PlainRing r'\<rparr>) (X\<lparr>xh_future := Suc (xh_future X)\<rparr>)"
  have ports: "xh_ports ?X port = Some (ps\<lparr>ps_endpoints := (ps_endpoints ps)(e \<mapsto> es\<lparr>es_transfer := PlainRing r'\<rparr>)\<rparr>)"
    using ep(4) by (simp add: put_endpoint_def)
  have db: "endp_doorbell e d 1 = Ok (push_bit 16 1 OR ucast dci)" "endp_doorbell e d 0 = Ok (ucast dci)"
    using dci by (simp_all add: endp_doorbell_def)
  have "execute_transfer E port e 1 [infallible f] X =
    bind_m (await_event E (unat slot) (ucast dci) p) (\<lambda>trbs.
     bind_m (ok_or EIO (net_src trbs)) (\<lambda>_.
     bind_m (of_res (handle_transfer_event_trb (net_event trbs))) (\<lambda>_.
     if completion_code (net_event trbs) \<noteq> trb_completion_code_u8 ShortPacket
        \<and> transfer_length (net_event trbs) \<noteq> 0 then fail_m EIO
     else return_m (net_event trbs)))) ?X"
    using ep enq(7) db quiet
    by (simp add: no_guards execute_transfer_def with_port_mut_def transfer_ring_def bind_m_def of_res_def return_m_def)
  moreover obtain p' where hw: "hw_consume r' (dq (xh_ctl X)) = (Some t, p')" "consumed m (Suc (length h)) p'"
    using consume_next [OF enq(2) con] w by (auto simp: written_def)
  have p': "fst p' - 1 = ?j" using hw(2) by (simp add: consumed_def)
  have alive: "with_ring (?X\<lparr>xh_reactor := R\<rparr>) ?i = Some r'" for R
    using ports ep(1) by (simp add: with_ring_def unat_of_nat)
  obtain code left c where run: "run t (xh_ctl X) = (code, left, c)" by (cases "run t (xh_ctl X)") auto
  then obtain event where ev: "dq c = p'"
    "xe_doorbell E (unat slot) (ucast dci) (?X\<lparr>xh_reactor := (xh_reactor ?X)\<lparr>re_states := [p]\<rparr>\<rparr>) = ([event], c)"
    "trb_type event = trb_type_u8 Transfer"
    "transfer_event_trb_pointer event = Some (block_addr r' (xe_ac64 E) ?j)"
    "completion_code event = code" "transfer_length event = left"
    using ex [unfolded executes_def, rule_format, OF alive enq(2), of "length h" "(xh_reactor ?X)\<lparr>re_states := [p]\<rparr>" t p'] hw(1) con p' w
    by (auto simp: written_def)
  let ?n = "\<lparr>net_event = event, net_src = Some (ring_get r' ?j)\<rparr>"
  let ?X' = "?X\<lparr>xh_ctl := c, xh_reactor := (xh_reactor ?X)\<lparr>re_messages := re_messages (xh_reactor ?X)
        @ [(xh_future X, Some ?n)]\<rparr>\<rparr>"
  have fresh: "map_of (re_messages (xh_reactor ?X)) (xh_future X) = None"
    using quiet(3) by (force simp: map_of_eq_None_iff)
  have "await_event E (unat slot) (ucast dci) p ?X = (Ok ?n, ?X')"
    by (rule await_transfer [OF _ enq(4,5) _ ev(2-4) _ fresh])
      (use enq(6) alive [of "xh_reactor X"] quiet in simp_all)
  ultimately have run_ok: "execute_transfer E port e 1 [infallible f] X
      = (if transfer_ok code left then Ok event else Err EIO, ?X')"
    using ev(5,6)
    by (auto simp: bind_m_def return_m_def fail_m_def of_res_def handle_transfer_event_trb_def transfer_ok_def)
  have "endpoint_at E dq m port slot e d st ?X'"
    unfolding endpoint_at_def using ep(1-3)
    by (intro conjI exI [of _ "ps\<lparr>ps_endpoints := (ps_endpoints ps)(e \<mapsto> es\<lparr>es_transfer := PlainRing r'\<rparr>)\<rparr>"]
        exI [of _ "es\<lparr>es_transfer := PlainRing r'\<rparr>"] exI [of _ r'] exI [of _ "h @ [t]"])
      (use ports ep enq(2,4) hw ev(1) in simp_all)
  moreover have "quiet ?X'" using quiet by (auto simp: quiet_def intro: less_SucI)
  moreover have "same_handles X ?X'" by (simp add: same_handles_def)
  ultimately show ?thesis
    using enq(1) run run_ok ev(5,6) by (intro exI [of _ t] exI [of _ event] exI [of _ ?X']) simp
qed

text \<open>
  The block of a transfer as the controller reads it: a normal block with an interrupt on completion
  (bit 5) and the length of the buffer, which carries the data itself (bit 6) or the address.
\<close>

definition describes :: "trb \<Rightarrow> u64 \<Rightarrow> bool \<Rightarrow> nat \<Rightarrow> bool" where
  "describes t buffer idt n \<longleftrightarrow> trb_type t = trb_type_u8 Normal \<and> read_data t = buffer
     \<and> take_bit 17 (trb_status t) = of_nat n \<and> bit (control t) 5 \<and> bit (control t) 6 = idt"

lemma one_block_describes:
  assumes td: "td AND 0x1F = td" and n: "n \<le> max_transfer_size"
  shows "describes (one_block buffer idt td n cycle old) buffer idt n"
proof -
  let ?t = "one_block buffer idt td n cycle old"
  note b = normal_block [OF one_block_normal [OF td, of buffer n cycle idt old]]
  have "take_bit 17 (of_nat n :: u32) = of_nat n"
    using n by (simp add: take_bit_of_nat take_bit_nat_eq_self max_transfer_size_def)
  then have "take_bit 17 (trb_status ?t) = of_nat n" using b(3) by simp
  moreover have "bit (control ?t) 5 \<and> bit (control ?t) 6 = idt"
    by (simp add: one_block_def bit_simps trb_bits)
  ultimately show ?thesis
    using b(1,2) by (simp add: describes_def transfer_block_def trb_decodes_def)
qed

definition immediate :: "endp_desc \<Rightarrow> nat \<Rightarrow> bool" where
  "immediate d n \<longleftrightarrow> n \<le> 8 \<and> 8 \<le> ed_max_packet_size d \<and> direction_of d \<noteq> DirIn"

definition block_data :: "'c xhci_env \<Rightarrow> endp_desc \<Rightarrow> u8 dma \<Rightarrow> 'c \<Rightarrow> u64" where
  "block_data E d b c = (if immediate d (length (dma_data b))
     then from_le (blit (replicate 8 0) 0 (xe_load E (dma_phys b) (length (dma_data b)) c))
     else dma_phys b)"

lemma xhci_transfer_one:
  fixes X :: "'c xhci"
  assumes at: "endpoint_at E dq m port slot e d st X" and q: "quiet X"
    and dci: "endp_num_to_dci e d = Ok dci"
    and ex: "executes E dq m run (unat slot) (ucast dci)
      \<lparr>rid_port = of_nat port, rid_endpoint_num = e, rid_stream_id = 1\<rparr>"
    and n: "length (dma_data b) \<le> max_transfer_size"
  shows "\<exists>t X'. describes t (block_data E d b (xh_ctl X)) (immediate d (length (dma_data b))) (length (dma_data b))
    \<and> (case run t (xh_ctl X) of (code, left, c) \<Rightarrow>
        xhci_transfer E port (e - 1) (Some b) X
          = (if transfer_ok code left then Ok (code, of_nat (length (dma_data b)) - left) else Err EIO, X')
        \<and> xh_ctl X' = c)
    \<and> endpoint_at E dq m port slot e d st X' \<and> quiet X' \<and> same_handles X X'"
proof -
  let ?n = "length (dma_data b)" and ?i = "immediate d (length (dma_data b))"
    and ?B = "block_data E d b (xh_ctl X)"
  define td :: u8 where "td = min (if div_round_up ?n max_transfer_size * size_of_trb < 256
    then of_nat (div_round_up ?n max_transfer_size * size_of_trb) else 0x1F) 0x1F"
  have "td \<le> 0x1F" by (simp add: td_def)
  then have "td < 2 ^ 5" by (simp add: word_le_nat_alt word_less_nat_alt)
  then have td: "td AND 0x1F = td" unfolding low_masks(4) by (rule less_mask_eq)
  from at obtain ps where ep: "e \<noteq> 0" "\<not> is_isoch d" "xh_ports X port = Some ps"
    "get_endp_desc ps (e - 1) = Some d"
    unfolding endpoint_at_def by blast
  have g: "xh_guards X = []" using q by (simp add: quiet_def)
  have tr: "xhci_transfer E port (e - 1) (Some b) X
    = bind_m (execute_transfer E port e 1 [infallible (one_block ?B ?i td ?n)]) (\<lambda>event.
        return_m (completion_code event, of_nat ?n - transfer_length event)) X"
    unfolding transfer_blocks_one [OF n td, symmetric]
    using ep g
    by (simp add: xhci_transfer_def Let_def with_port_mut_def bind_m_def return_m_def no_guards
      block_data_def td_def flip: immediate_def)
  note facts = one_block_facts [OF td, of ?B ?i ?n]
  have "\<exists>t event X'. (\<exists>cycle old. t = one_block ?B ?i td ?n cycle old)
    \<and> (case run t (xh_ctl X) of (code, left, c) \<Rightarrow>
        execute_transfer E port e 1 [infallible (one_block ?B ?i td ?n)] X
          = (if transfer_ok code left then Ok event else Err EIO, X')
        \<and> completion_code event = code \<and> transfer_length event = left \<and> xh_ctl X' = c)
    \<and> endpoint_at E dq m port slot e d st X' \<and> quiet X' \<and> same_handles X X'"
    by (rule execute_transfer_one [OF at q dci ex facts(1)]) (rule facts(2))
  then obtain t event X' where run: "(\<exists>cycle old. t = one_block ?B ?i td ?n cycle old)
    \<and> (case run t (xh_ctl X) of (code, left, c) \<Rightarrow>
        execute_transfer E port e 1 [infallible (one_block ?B ?i td ?n)] X
          = (if transfer_ok code left then Ok event else Err EIO, X')
        \<and> completion_code event = code \<and> transfer_length event = left \<and> xh_ctl X' = c)
    \<and> endpoint_at E dq m port slot e d st X' \<and> quiet X' \<and> same_handles X X'"
    by (elim exE)
  obtain code left c where res: "run t (xh_ctl X) = (code, left, c)" by (cases "run t (xh_ctl X)") auto
  have "describes t ?B ?i ?n" using conjunct1 [OF run] one_block_describes [OF td n] by auto
  moreover have "xhci_transfer E port (e - 1) (Some b) X
      = (if transfer_ok code left then Ok (code, of_nat ?n - left) else Err EIO, X') \<and> xh_ctl X' = c"
    using conjunct1 [OF conjunct2 [OF run]] res
    by (simp add: tr bind_m_def return_m_def)
  ultimately show ?thesis
    using conjunct2 [OF conjunct2 [OF run]] res by (intro exI [of _ t] exI [of _ X']) simp
qed

subsection \<open>The states of an endpoint\<close>

lemma set_if_state_simps [simp]:
  "xh_guards (set_if_state p e st X) = xh_guards X" "xh_ctl (set_if_state p e st X) = xh_ctl X"
  "xh_reactor (set_if_state p e st X) = xh_reactor X" "xh_future (set_if_state p e st X) = xh_future X"
  "(set_if_state p e st X)\<lparr>xh_guards := g\<rparr> = set_if_state p e st (X\<lparr>xh_guards := g\<rparr>)"
  "quiet (set_if_state p e st X) = quiet X" "same_handles X (set_if_state p e st X)"
  "xh_handles (set_if_state p e st X) = xh_handles X"
  "xh_next_handle (set_if_state p e st X) = xh_next_handle X"
  by (simp_all add: set_if_state_def quiet_def same_handles_def split: option.split)

lemma endpoint_at_set_if:
  assumes "endpoint_at E dq m port slot e d st X"
  shows "endpoint_at E dq m port slot e d st' (set_if_state port e st' X)"
proof -
  from assms obtain ps es r h where ep: "port < 256" "e \<noteq> 0" "\<not> is_isoch d"
    "xh_ports X port = Some ps" "ps_slot ps = slot" "get_endp_desc ps (e - 1) = Some d"
    "ps_endpoints ps e = Some es" "es_transfer es = PlainRing r"
    and w: "written m h r" "consumed m (length h) (dq (xh_ctl X))" "ring_mapped r (xe_ac64 E)"
    unfolding endpoint_at_def by blast
  have "xh_ports (set_if_state port e st' X) port
      = Some (ps\<lparr>ps_endpoints := (ps_endpoints ps)(e \<mapsto> es\<lparr>es_if := st'\<rparr>)\<rparr>)"
    using ep by (simp add: set_if_state_def put_endpoint_def)
  then show ?thesis
    unfolding endpoint_at_def using ep(1-3)
    by (intro conjI exI [of _ "ps\<lparr>ps_endpoints := (ps_endpoints ps)(e \<mapsto> es\<lparr>es_if := st'\<rparr>)\<rparr>"]
        exI [of _ "es\<lparr>es_if := st'\<rparr>"] exI [of _ r] exI [of _ h])
      (use ep w in simp_all)
qed

lemma endpoint_at_ctl:
  assumes "endpoint_at E dq m port slot e d st X" and "dq c = dq (xh_ctl X)"
  shows "endpoint_at E dq m port slot e d st (X\<lparr>xh_ctl := c\<rparr>)"
  using assms by (simp add: endpoint_at_def)

lemma quiet_ctl [simp]: "quiet (X\<lparr>xh_ctl := c\<rparr>) = quiet X"
  by (simp add: quiet_def)

text \<open>The access to the port of an endpoint.\<close>

lemma with_endpoint:
  assumes "endpoint_at E dq m port slot e d st X" "quiet X"
  obtains ps es where "ps_endpoints ps e = Some es" "es_if es = st" "xh_ports X port = Some ps"
    "xh_guards X = []"
  using assms unfolding endpoint_at_def quiet_def by blast

lemmas run_endpoint = with_port_mut_def bind_m_def return_m_def fail_m_def put_if_state_def no_guards

lemma data_pipe_eq:
  assumes "endpoint_at E dq m port slot e d (WaitingForDataPipe dir k n) X" "quiet X"
  shows "data_pipe E err port e dir len X = (if len > pipe_left k n then Err EINVAL else Ok (), X)"
  by (rule with_endpoint [OF assms]) (simp add: data_pipe_def run_endpoint)

lemma after_transfer_eq:
  assumes "endpoint_at E dq m port slot e d (WaitingForDataPipe dir k n) X" "quiet X"
  shows "after_transfer E err port e dir code some_bytes X = (Ok (unat some_bytes), set_if_state port e
    (if k + some_bytes = n \<or> code \<noteq> trb_completion_code_u8 Success
     then WaitingForTransferResult (transfer_result code some_bytes)
     else WaitingForDataPipe dir (k + some_bytes) n) X)"
  by (rule with_endpoint [OF assms]) (simp add: after_transfer_def run_endpoint)

lemma write_ctl_transfer:
  assumes "endpoint_at E dq m port slot e d IfInit X" "quiet X"
    and "xe_ctl_req_of_json E json = Some (TransferReq dir n)" "dir \<noteq> CtlNoData"
  shows "on_write_endp_ctl E port e json X
    = (Ok (length json), set_if_state port e (WaitingForDataPipe dir 0 n) X)"
  by (rule with_endpoint [OF assms(1,2)])
    (use assms(3,4) in \<open>simp add: on_write_endp_ctl_def run_endpoint\<close>)

lemma write_ctl_busy:
  assumes "endpoint_at E dq m port slot e d st X" "quiet X" "st \<noteq> IfInit"
    and "xe_ctl_req_of_json E json = Some req"
  shows "on_write_endp_ctl E port e json X = (Err EBADF, X)"
  by (rule with_endpoint [OF assms(1,2)])
    (use assms(3,4) in \<open>simp add: on_write_endp_ctl_def run_endpoint\<close>)

lemma read_ctl_result:
  assumes "endpoint_at E dq m port slot e d (WaitingForTransferResult res) X" "quiet X"
    and "length (xe_json_of_ctl_res E (TransferResult res)) \<le> length buf"
  shows "on_read_endp_ctl E port e (X, buf) = (Ok (length (xe_json_of_ctl_res E (TransferResult res))),
    (set_if_state port e IfInit X, fill_buffer buf (xe_json_of_ctl_res E (TransferResult res))))"
  by (rule with_endpoint [OF assms(1,2)])
    (use assms(3) in \<open>simp add: on_read_endp_ctl_def run_endpoint on_fst_def Let_def\<close>)

text \<open>Memory management does not touch the dequeue pointer of the controller.\<close>

definition memory_apart :: "'c xhci_env \<Rightarrow> ('c \<Rightarrow> nat \<times> bool) \<Rightarrow> bool" where
  "memory_apart E dq \<longleftrightarrow>
     (\<forall>n c. dq (snd (alloc_dma_zeroed_unsized_raw (xe_mem E) (xe_ac64 E) 1 (0 :: u8) n c)) = dq c)
     \<and> (\<forall>b c. dq (snd (dma_drop (xe_mem E) (b :: u8 dma) c)) = dq c)
     \<and> (\<forall>a x c. dq (xe_store E a x c) = dq c)"

lemma alloc_length:
  assumes "alloc_dma_zeroed_unsized_raw K ac64 size_of z n c = (Ok b, c')"
  shows "length (dma_data b) = n"
  using assms
  by (auto simp: alloc_dma_zeroed_unsized_raw_def zeroed_slice_def Let_def bind_m_Ok return_m_def
    panic_m_def split: if_splits prod.splits)

text \<open>The outcome of a transfer in the file of data, from the state that waits for it.\<close>

definition pipe_outcome :: "ctl_direction \<Rightarrow> u32 \<Rightarrow> u8 \<Rightarrow> u32 \<Rightarrow> (nat, errno) res \<times> endp_if_state" where
  "pipe_outcome dir n code left =
     (if transfer_ok code left
      then (Ok (unat (n - left)), WaitingForTransferResult (transfer_result code (n - left)))
      else (Err EIO, WaitingForDataPipe dir 0 n))"

lemma pipe_left_all: "pipe_left 0 n = unat n"
proof -
  have "unat n < 2 ^ 64" using unsigned_less [of n, where ?'a = nat] by simp
  then show ?thesis by (simp add: pipe_left_def unsigned_ucast_eq take_bit_nat_eq_self)
qed

lemma transfer_ok_total: "transfer_ok code left \<Longrightarrow> n - left = n \<or> code \<noteq> trb_completion_code_u8 Success"
  by (auto simp: transfer_ok_def)

text \<open>A transfer, the release of its buffer, and the state of the endpoint after it.\<close>

lemma transfer_settles:
  fixes X :: "'c xhci"
  assumes at: "endpoint_at E dq m port slot e d (WaitingForDataPipe dir 0 (of_nat n)) X"
    and q: "quiet X" and dci: "endp_num_to_dci e d = Ok dci"
    and ex: "executes E dq m run (unat slot) (ucast dci)
      \<lparr>rid_port = of_nat port, rid_endpoint_num = e, rid_stream_id = 1\<rparr>"
    and apart: "memory_apart E dq"
    and n: "length (dma_data b) = n" "n \<le> max_transfer_size"
  obtains t code left c u c' X1 X' where
    "describes t (block_data E d b (xh_ctl X)) (immediate d n) n"
    "run t (xh_ctl X) = (code, left, c)" "dma_drop (xe_mem E) b c = (u, c')"
    "xhci_transfer E port (e - 1) (Some b) X
      = (if transfer_ok code left then Ok (code, of_nat n - left) else Err EIO, X1)"
    "xh_ctl X1 = c"
    "\<And>err. transfer_ok code left \<Longrightarrow> after_transfer E err port e dir code (of_nat n - left) (X1\<lparr>xh_ctl := c'\<rparr>)
      = (Ok (unat (of_nat n - left :: u32)), X')"
    "\<not> transfer_ok code left \<Longrightarrow> X' = X1\<lparr>xh_ctl := c'\<rparr>"
    "endpoint_at E dq m port slot e d (snd (pipe_outcome dir (of_nat n) code left)) X'"
    "xh_ctl X' = c'" "quiet X'" "same_handles X X'"
proof -
  from xhci_transfer_one [OF at q dci ex, of b] n obtain t X1 where
    t: "describes t (block_data E d b (xh_ctl X)) (immediate d n) n"
    and tr: "case run t (xh_ctl X) of (code, left, c') \<Rightarrow>
      xhci_transfer E port (e - 1) (Some b) X
        = (if transfer_ok code left then Ok (code, of_nat n - left) else Err EIO, X1) \<and> xh_ctl X1 = c'"
    and X1: "endpoint_at E dq m port slot e d (WaitingForDataPipe dir 0 (of_nat n)) X1" "quiet X1"
      "same_handles X X1"
    by auto
  obtain code left c where run: "run t (xh_ctl X) = (code, left, c)" by (cases "run t (xh_ctl X)") auto
  obtain u c' where drop: "dma_drop (xe_mem E) b c = (u, c')" by fastforce
  let ?X2 = "X1\<lparr>xh_ctl := c'\<rparr>" and ?st = "snd (pipe_outcome dir (of_nat n) code left)"
  have tr': "xhci_transfer E port (e - 1) (Some b) X
        = (if transfer_ok code left then Ok (code, of_nat n - left) else Err EIO, X1)" "xh_ctl X1 = c"
    using tr run by simp_all
  then have at2: "endpoint_at E dq m port slot e d (WaitingForDataPipe dir 0 (of_nat n)) ?X2"
    using apart X1(1) drop unfolding memory_apart_def by (intro endpoint_at_ctl) (metis snd_conv)+
  have q2: "quiet ?X2" using X1(2) by simp
  let ?X' = "if transfer_ok code left then set_if_state port e ?st ?X2 else ?X2"
  have "after_transfer E err port e dir code (of_nat n - left) ?X2 = (Ok (unat (of_nat n - left :: u32)), ?X')"
    if "transfer_ok code left" for err
    using after_transfer_eq [OF at2 q2, of err code "of_nat n - left"] transfer_ok_total [OF that, of "of_nat n"] that
    by (auto simp: pipe_outcome_def)
  moreover have "endpoint_at E dq m port slot e d ?st ?X'"
    using at2 endpoint_at_set_if [OF at2] by (auto simp: pipe_outcome_def)
  ultimately show ?thesis
    using t run drop tr' q2 X1(3) by (intro that [of t code left c u c' X1 ?X']) (simp_all add: same_handles_def)
qed

lemma data_pipe_ready:
  assumes "endpoint_at E dq m port slot e d (WaitingForDataPipe dir 0 (of_nat n)) X" "quiet X"
    and "n \<le> max_transfer_size"
  shows "data_pipe E err port e dir n X = (Ok (), X)"
  using data_pipe_eq [OF assms(1,2), of err n] assms(3)
  by (simp add: pipe_left_all unat_of_nat max_transfer_size_def)

lemma read_data_outcome:
  fixes X :: "'c xhci"
  assumes at: "endpoint_at E dq m port slot e d (WaitingForDataPipe CtlIn 0 (of_nat (length buf))) X"
    and q: "quiet X" and dci: "endp_num_to_dci e d = Ok dci"
    and ex: "executes E dq m run (unat slot) (ucast dci)
      \<lparr>rid_port = of_nat port, rid_endpoint_num = e, rid_stream_id = 1\<rparr>"
    and apart: "memory_apart E dq"
    and n: "buf \<noteq> []" "length buf \<le> max_transfer_size"
    and alloc: "alloc_dma_zeroed_unsized_raw (xe_mem E) (xe_ac64 E) 1 0 (length buf) (xh_ctl X) = (Ok b, c)"
  obtains t code left c' X' where
    "describes t (block_data E d b c) (immediate d (length buf)) (length buf)"
    "run t c = (code, left, c')"
    "on_read_endp_data E port e (X, buf) = (fst (pipe_outcome CtlIn (of_nat (length buf)) code left),
       (X', if transfer_ok code left then xe_load E (dma_phys b) (length buf) c' else buf))"
    "xh_ctl X' = snd (dma_drop (xe_mem E) b c')"
    "endpoint_at E dq m port slot e d (snd (pipe_outcome CtlIn (of_nat (length buf)) code left)) X'"
    "quiet X'" "same_handles X X'"
proof -
  let ?X = "X\<lparr>xh_ctl := c\<rparr>"
  have "dq c = dq (xh_ctl X)" using apart alloc unfolding memory_apart_def by (metis snd_conv)
  from transfer_settles [OF endpoint_at_ctl [OF at this] _ dci ex apart alloc_length [OF alloc] n(2)]
  obtain t code left c' u c'' X1 X' where
    t: "describes t (block_data E d b c) (immediate d (length buf)) (length buf)"
    and run: "run t c = (code, left, c')" and drop: "dma_drop (xe_mem E) b c' = (u, c'')"
    and tr: "xhci_transfer E port (e - 1) (Some b) ?X
      = (if transfer_ok code left then Ok (code, of_nat (length buf) - left) else Err EIO, X1)" "xh_ctl X1 = c'"
    and after: "\<And>err. transfer_ok code left \<Longrightarrow>
      after_transfer E err port e CtlIn code (of_nat (length buf) - left) (X1\<lparr>xh_ctl := c''\<rparr>)
      = (Ok (unat (of_nat (length buf) - left :: u32)), X')"
    "\<not> transfer_ok code left \<Longrightarrow> X' = X1\<lparr>xh_ctl := c''\<rparr>"
    and X': "endpoint_at E dq m port slot e d (snd (pipe_outcome CtlIn (of_nat (length buf)) code left)) X'"
    "xh_ctl X' = c''" "quiet X'" "same_handles ?X X'"
    using q by simp blast
  have "on_read_endp_data E port e (X, buf) = (fst (pipe_outcome CtlIn (of_nat (length buf)) code left),
       (X', if transfer_ok code left then xe_load E (dma_phys b) (length buf) c' else buf))"
    using data_pipe_ready [OF at q n(2), of EBADF] tr after drop alloc n(1)
    by (simp add: on_read_endp_data_def xhci_transfer_read_def alloc_dma_zeroed_unsized_def on_ctl_def
        bind_m_def on_fst_def finally_m_def pipe_outcome_def)
  then show ?thesis
    using t run drop X' by (intro that [of t code left c' X']) (simp_all add: same_handles_def)
qed

lemma write_data_outcome:
  fixes X :: "'c xhci"
  assumes at: "endpoint_at E dq m port slot e d (WaitingForDataPipe CtlOut 0 (of_nat (length buf))) X"
    and q: "quiet X" and dci: "endp_num_to_dci e d = Ok dci"
    and ex: "executes E dq m run (unat slot) (ucast dci)
      \<lparr>rid_port = of_nat port, rid_endpoint_num = e, rid_stream_id = 1\<rparr>"
    and apart: "memory_apart E dq"
    and n: "buf \<noteq> []" "length buf \<le> max_transfer_size"
    and alloc: "alloc_dma_zeroed_unsized_raw (xe_mem E) (xe_ac64 E) 1 0 (length buf) (xh_ctl X) = (Ok b, c)"
  obtains t code left c' X' where
    "describes t (block_data E d b (xe_store E (dma_phys b) buf c)) (immediate d (length buf)) (length buf)"
    "run t (xe_store E (dma_phys b) buf c) = (code, left, c')"
    "on_write_endp_data E port e buf X = (fst (pipe_outcome CtlOut (of_nat (length buf)) code left), X')"
    "xh_ctl X' = snd (dma_drop (xe_mem E) b c')"
    "endpoint_at E dq m port slot e d (snd (pipe_outcome CtlOut (of_nat (length buf)) code left)) X'"
    "quiet X'" "same_handles X X'"
proof -
  let ?c = "xe_store E (dma_phys b) buf c"
  let ?X = "X\<lparr>xh_ctl := ?c\<rparr>"
  have "dq ?c = dq (xh_ctl X)" using apart alloc unfolding memory_apart_def by (metis snd_conv)
  from transfer_settles [OF endpoint_at_ctl [OF at this] _ dci ex apart alloc_length [OF alloc] n(2)]
  obtain t code left c' u c'' X1 X' where
    t: "describes t (block_data E d b ?c) (immediate d (length buf)) (length buf)"
    and run: "run t ?c = (code, left, c')" and drop: "dma_drop (xe_mem E) b c' = (u, c'')"
    and tr: "xhci_transfer E port (e - 1) (Some b) ?X
      = (if transfer_ok code left then Ok (code, of_nat (length buf) - left) else Err EIO, X1)" "xh_ctl X1 = c'"
    and after: "\<And>err. transfer_ok code left \<Longrightarrow>
      after_transfer E err port e CtlOut code (of_nat (length buf) - left) (X1\<lparr>xh_ctl := c''\<rparr>)
      = (Ok (unat (of_nat (length buf) - left :: u32)), X')"
    "\<not> transfer_ok code left \<Longrightarrow> X' = X1\<lparr>xh_ctl := c''\<rparr>"
    and X': "endpoint_at E dq m port slot e d (snd (pipe_outcome CtlOut (of_nat (length buf)) code left)) X'"
    "xh_ctl X' = c''" "quiet X'" "same_handles ?X X'"
    using q by simp blast
  have "on_write_endp_data E port e buf X = (fst (pipe_outcome CtlOut (of_nat (length buf)) code left), X')"
    using data_pipe_ready [OF at q n(2), of EBADFD] tr after drop alloc n(1)
    by (simp add: on_write_endp_data_def xhci_transfer_write_def alloc_dma_zeroed_unsized_def on_ctl_def
        bind_m_def finally_m_def pipe_outcome_def)
  then show ?thesis
    using t run drop X' by (intro that [of t code left c' X']) (simp_all add: same_handles_def)
qed

subsection \<open>Properties\<close>

text \<open>
  xHCI endpoint property C17. A status request never returns: the answer is computed while the guard of the
  port, taken to look at the state of the endpoint, is still alive, and computing it asks for the port
  again. A reset and a transfer without data hang in the same way; only the transfers that go on in the
  file of data are accepted.
\<close>

theorem endpoint_control_hangs:
  assumes "xe_exclusive E" and "endpoint_at E dq m port slot e d IfInit X" and "quiet X"
    and "xe_ctl_req_of_json E json = Some req"
  shows "case req of
      StatusReq \<Rightarrow> (\<exists>X'. on_write_endp_ctl E port e json X = (Ok (length json), X')
        \<and> fst (on_read_endp_ctl E port e (X', buf)) = NoFuel)
    | ResetReq no_clear_feature \<Rightarrow> fst (on_write_endp_ctl E port e json X) = NoFuel
    | TransferReq direction n \<Rightarrow>
        if direction = CtlNoData then fst (on_write_endp_ctl E port e json X) = NoFuel
        else is_ok (fst (on_write_endp_ctl E port e json X))"
proof -
  obtain ps es where ep: "ps_endpoints ps e = Some es" "es_if es = IfInit" "xh_ports X port = Some ps"
    "xh_guards X = []"
    by (rule with_endpoint [OF assms(2,3)])
  show ?thesis
  proof (cases req)
    case (TransferReq direction n)
    then show ?thesis
      using ep assms(1,4) write_ctl_transfer [OF assms(2,3), of json direction n]
      by (auto simp: on_write_endp_ctl_def run_endpoint xhci_transfer_def with_port_blocked)
  next
    case (ResetReq nc)
    then show ?thesis
      using ep assms(1,4)
      by (simp add: on_write_endp_ctl_def run_endpoint on_req_reset_device_def get_endp_status_def
          with_port_def)
  next
    case StatusReq
    have w: "on_write_endp_ctl E port e json X = (Ok (length json), set_if_state port e WaitingForStatus X)"
      using ep assms(4) StatusReq by (simp add: on_write_endp_ctl_def run_endpoint)
    have at: "endpoint_at E dq m port slot e d WaitingForStatus (set_if_state port e WaitingForStatus X)"
      and q: "quiet (set_if_state port e WaitingForStatus X)"
      using assms(2,3) by (simp_all add: endpoint_at_set_if)
    obtain ps es where "ps_endpoints ps e = Some es" "es_if es = WaitingForStatus"
      "xh_ports (set_if_state port e WaitingForStatus X) port = Some ps"
      by (rule with_endpoint [OF at q])
    then have "fst (on_read_endp_ctl E port e (set_if_state port e WaitingForStatus X, buf)) = NoFuel"
      using ep(4) assms(1)
      by (simp add: on_read_endp_ctl_def run_endpoint on_fst_def get_endp_status_def with_port_def)
    with w StatusReq show ?thesis by simp
  qed
qed


text \<open>
  A transfer of more than 64 KiB is split into blocks whose lengths add up to the
  length of the buffer, chained up to the last, which alone asks for an interrupt. But every one of them
  is given the address of the start of the buffer, so what is behind the first 64 KiB of the buffer is
  never read or written.
\<close>

theorem split_transfer_blocks:
  assumes "td AND 0x1F = td"
  shows "\<exists>ts. map (\<lambda>f. f cycle old) (transfer_blocks buffer idt td n) = map Ok ts
    \<and> length ts = max 1 (div_round_up n max_transfer_size)
    \<and> sum_list (map (\<lambda>t. unat (take_bit 17 (trb_status t))) ts) = n
    \<and> (\<forall>t \<in> set ts. read_data t = buffer)
    \<and> (\<forall>t \<in> set (butlast ts). bit (control t) 4 \<and> \<not> bit (control t) 5)
    \<and> \<not> bit (control (last ts)) 4 \<and> bit (control (last ts)) 5"
proof (induction n rule: less_induct)
  case (less n)
  let ?M = max_transfer_size
  show ?case
  proof (cases "n \<le> ?M")
    case True
    let ?t = "one_block buffer idt td n cycle old"
    have "describes ?t buffer idt n" by (rule one_block_describes [OF assms True])
    moreover have "\<not> bit (control ?t) 4" by (simp add: one_block_def bit_simps trb_bits)
    moreover have "unat (of_nat n :: u32) = n" using True by (intro unat_of_nat_u32) (simp add: max_transfer_size_def)
    moreover have "div_round_up n ?M \<le> 1"
      using True by (cases "n = ?M") (auto simp: div_round_up_def max_transfer_size_def)
    ultimately show ?thesis
      using transfer_blocks_one [OF True assms]
      by (intro exI [of _ "[?t]"]) (simp add: infallible_def describes_def max_def)
  next
    case False
    then have M: "n - ?M < n" "?M < n" by (simp_all add: max_transfer_size_def)
    obtain t where t: "trb_normal buffer (of_nat ?M) cycle td 0 False True True False idt False old = Ok t"
      using assms by (simp add: trb_normal_def)
    note b = normal_block [OF t]
    have bits: "bit (control t) 4" "\<not> bit (control t) 5"
      using t assms by (auto simp: trb_normal_def bit_simps trb_bits)
    have len: "unat (take_bit 17 (trb_status t)) = ?M"
      unfolding b(3) by (simp add: max_transfer_size_def)
    have blocks: "map (\<lambda>f. f cycle old) (transfer_blocks buffer idt td n)
        = Ok t # map (\<lambda>f. f cycle old) (transfer_blocks buffer idt td (n - ?M))"
      using M t by (subst transfer_blocks.simps) (simp add: Let_def min_def)
    have round: "div_round_up n ?M = Suc (div_round_up (n - ?M) ?M)" "0 < div_round_up (n - ?M) ?M"
      using M by (auto simp: div_round_up_def max_transfer_size_def le_div_geq le_mod_geq)
    obtain ts where ts: "map (\<lambda>f. f cycle old) (transfer_blocks buffer idt td (n - ?M)) = map Ok ts"
      "length ts = max 1 (div_round_up (n - ?M) ?M)"
      "sum_list (map (\<lambda>t. unat (take_bit 17 (trb_status t))) ts) = n - ?M"
      "\<forall>t \<in> set ts. read_data t = buffer"
      "\<forall>t \<in> set (butlast ts). bit (control t) 4 \<and> \<not> bit (control t) 5"
      "\<not> bit (control (last ts)) 4" "bit (control (last ts)) 5"
      using less [OF M(1)] by blast
    then have "ts \<noteq> []" by auto
    then show ?thesis
      using ts blocks round M b(2) bits len by (intro exI [of _ "t # ts"]) simp
  qed
qed

subsection \<open>A simulated controller\<close>

text \<open>
  One device on port 1 with a single bulk endpoint to the host, on a ring of four blocks. The
  controller answers every block with the same code, bytes left over and data; memory is one buffer.
  The messages have a simple encoding in place of JSON.
\<close>

record sim =
  sim_dq :: "nat \<times> bool"
  sim_buf :: bytes

definition sim_mem :: "sim mem_ops" where
  "sim_mem = \<lparr>mem_contiguous_fd = return_m 3, mem_mmap = (\<lambda>_ _ _. return_m 0x40000),
     mem_munmap = (\<lambda>_ _. return_m ()), mem_virttophys = (\<lambda>_. return_m 0x50000), mem_close = (\<lambda>_. return_m ())\<rparr>"

definition sim_next :: "nat \<times> bool \<Rightarrow> nat \<times> bool" where
  "sim_next p = (if fst p = 3 then (1, \<not> snd p) else (Suc (fst p), snd p))"

definition sim_run :: "u8 \<Rightarrow> u32 \<Rightarrow> bytes \<Rightarrow> trb \<Rightarrow> sim \<Rightarrow> u8 \<times> u32 \<times> sim" where
  "sim_run code left x t c = (code, left, c\<lparr>sim_dq := sim_next (sim_dq c), sim_buf := x\<rparr>)"

definition sim_event :: "u64 \<Rightarrow> u8 \<Rightarrow> u32 \<Rightarrow> trb" where
  "sim_event p code left = trb_set p (push_bit 24 (ucast code) OR left) (ty_field Transfer) zero_trb"

definition sim_ring_id :: ring_id where
  "sim_ring_id = \<lparr>rid_port = 1, rid_endpoint_num = 1, rid_stream_id = 1\<rparr>"

definition sim_ctl_req_of_json :: "bytes \<Rightarrow> ctl_req option" where
  "sim_ctl_req_of_json b =
     (if b = [0] then Some StatusReq
      else if length b = 2 \<and> b ! 0 = 1 then Some (ResetReq (b ! 1 \<noteq> 0))
      else if length b = 3 \<and> b ! 0 = 2 then Some (TransferReq
        (if b ! 1 = 0 then CtlIn else if b ! 1 = 1 then CtlOut else CtlNoData) (ucast (b ! 2)))
      else None)"

fun sim_json_of_ctl_res :: "ctl_res \<Rightarrow> bytes" where
  "sim_json_of_ctl_res (StatusRes s) = [0, case s of EpDisabled \<Rightarrow> 0 | EpEnabled \<Rightarrow> 1 | EpHalted \<Rightarrow> 2
     | EpStopped \<Rightarrow> 3 | EpError \<Rightarrow> 4]"
| "sim_json_of_ctl_res (TransferResult st) = [1, case ts_kind st of TransferSuccess \<Rightarrow> 0
     | ShortPacketStatus \<Rightarrow> 1 | StalledStatus \<Rightarrow> 2 | UnknownStatus \<Rightarrow> 3, ucast (ts_bytes_transferred st)]"
| "sim_json_of_ctl_res PendingRes = [2]"
| "sim_json_of_ctl_res IdleRes = [3]"

definition sim_env :: "u8 \<Rightarrow> u32 \<Rightarrow> bytes \<Rightarrow> sim xhci_env" where
  "sim_env code left x = \<lparr>xe_mem = sim_mem, xe_load = (\<lambda>a n c. take n (sim_buf c)),
     xe_store = (\<lambda>a y c. c\<lparr>sim_buf := y\<rparr>), xe_ac64 = True,
     xe_doorbell = (\<lambda>slot db X. case with_ring X sim_ring_id of
         None \<Rightarrow> ([], xh_ctl X)
       | Some r \<Rightarrow> (case hw_consume r (sim_dq (xh_ctl X)) of
           (None, _) \<Rightarrow> ([], xh_ctl X)
         | (Some t, p') \<Rightarrow> ([sim_event (block_addr r True (fst p' - 1)) code left],
                          snd (snd (sim_run code left x t (xh_ctl X)))))),
     xe_device_context = (\<lambda>_ _. Some zero_device_context), xe_port_reg = (\<lambda>_ _. Some 1), xe_port_count = 4,
     xe_cie = (\<lambda>_. False), xe_hcc_params1 = 1, xe_hcc_params2 = 0, xe_mmio = (\<lambda>_. 0), xe_exclusive = True,
     xe_ctl_req_of_json = sim_ctl_req_of_json, xe_json_of_ctl_res = sim_json_of_ctl_res,
     xe_port_req_of_json = (\<lambda>_. None), xe_configure_of_json = (\<lambda>_. None),
     xe_json_of_dev_desc = (\<lambda>_. None)\<rparr>"

definition sim_endp :: endp_desc where
  "sim_endp = \<lparr>ed_kind = 5, ed_address = 0x81, ed_attributes = 2, ed_max_packet_size = 512,
     ed_interval = 0, ed_ssc = None, ed_sspc = None\<rparr>"

definition sim_device :: dev_desc where
  "sim_device = \<lparr>dd_kind = 1, dd_usb = 0x200, dd_class = 0, dd_sub_class = 0, dd_protocol = 0,
     dd_packet_size = 64, dd_vendor = 0, dd_product = 0, dd_release = 0, dd_manufacturer_str = None,
     dd_product_str = None, dd_serial_str = None, dd_config_descs =
       [\<lparr>cd_kind = 2, cd_configuration_value = 1, cd_configuration = None, cd_attributes = 0x80,
          cd_max_power = 50, cd_interface_descs =
            [\<lparr>if_kind = 4, if_number = 0, if_alternate_setting = 0, if_class = 8, if_sub_class = 6,
               if_protocol = 0x50, if_interface_str = None, if_endpoints = [sim_endp], if_hid_descs = []\<rparr>]\<rparr>]\<rparr>"

definition sim_input :: "input_context dma" where
  "sim_input = \<lparr>dma_phys = 0x60000, dma_aligned_len = 4096, dma_virt = 0x70000,
     dma_data = [\<lparr>ic_drop = 0, ic_add = 0, ic_control = 0, ic_device = zero_device_context\<rparr>]\<rparr>"

definition sim_xhci :: "sim xhci" where
  "sim_xhci = \<lparr>xh_ports = [1 \<mapsto> \<lparr>ps_slot = 1, ps_cfg_idx = Some 0, ps_input_context = sim_input, ps_dev_desc = Some sim_device,
       ps_endpoints = [1 \<mapsto> \<lparr>es_transfer = PlainRing sample_ring4, es_if = IfInit\<rparr>]\<rparr>],
     xh_guards = [], xh_handles = Map.empty, xh_next_handle = 0,
     xh_reactor = \<lparr>re_states = [], re_cmd = sample_ring4, re_messages = []\<rparr>, xh_future = 0,
     xh_ctl = \<lparr>sim_dq = (0, True), sim_buf = []\<rparr>\<rparr>"

lemma sim_next_consumed:
  assumes "consumed 3 k p"
  shows "consumed 3 (Suc k) (sim_next p)"
proof (cases k)
  case 0
  then show ?thesis using assms by (simp add: consumed_def sim_next_def)
next
  case (Suc n)
  then have p: "p = (Suc (n mod 3), even (n div 3))" using assms by (simp add: consumed_def)
  show ?thesis
    using Suc_turn [of 3 n] p Suc by (cases "Suc (n mod 3) < 3") (auto simp: consumed_def sim_next_def)
qed

lemma consumed_unique: "consumed m k p \<Longrightarrow> consumed m k q \<Longrightarrow> p = q"
  by (cases k) (simp_all add: consumed_def)

lemma sim_event_fields:
  assumes "left < 2 ^ 24" "code \<notin> trb_completion_code_u8 ` {RingUnderrun, RingOverrun, VfEventRingFull}"
  shows "trb_type (sim_event p code left) = trb_type_u8 Transfer"
    "completion_code (sim_event p code left) = code" "transfer_length (sim_event p code left) = left"
    "transfer_event_trb_pointer (sim_event p code left) = Some p"
proof -
  have left: "left AND mask 24 = left" using assms(1) by (rule less_mask_eq)
  show code: "completion_code (sim_event p code left) = code"
    using and_mask_D [OF left]
    by (intro bit_word_eqI) (auto simp: completion_code_def sim_event_def bit_simps)
  show "transfer_length (sim_event p code left) = left"
    unfolding transfer_length_def low_masks(11) using and_mask_D [OF left]
    by (intro bit_word_eqI) (auto simp: sim_event_def bit_simps)
  show "trb_type (sim_event p code left) = trb_type_u8 Transfer"
    by (rule trb_typeI) (simp add: sim_event_def trb_bits del: no_codes)
  show "transfer_event_trb_pointer (sim_event p code left) = Some p"
    using assms(2) by (simp add: transfer_event_trb_pointer_def has_completion_trb_pointer_def code)
      (simp add: sim_event_def)
qed

lemma sim_executes:
  assumes "left < 2 ^ 24" "code \<notin> trb_completion_code_u8 ` {RingUnderrun, RingOverrun, VfEventRingFull}"
  shows "executes (sim_env code left x) sim_dq 3 (sim_run code left x) slot db sim_ring_id"
  unfolding executes_def
proof (intro allI impI)
  fix X :: "sim xhci" and r h k t p'
  assume r: "with_ring X sim_ring_id = Some r" and w: "written 3 h r" and c: "consumed 3 k (sim_dq (xh_ctl X))"
    and k: "k < length h" "length h \<le> k + 3" and hw: "hw_consume r (sim_dq (xh_ctl X)) = (Some t, p')"
  have "consumed 3 (Suc k) p'" using consume_next [OF w c k] hw by auto
  then have "sim_next (sim_dq (xh_ctl X)) = p'" using consumed_unique sim_next_consumed [OF c] by blast
  then show "case sim_run code left x t (xh_ctl X) of (code', left', c) \<Rightarrow> sim_dq c = p' \<and> (\<exists>event.
      xe_doorbell (sim_env code left x) slot db X = ([event], c) \<and> trb_type event = trb_type_u8 Transfer
      \<and> transfer_event_trb_pointer event = Some (block_addr r (xe_ac64 (sim_env code left x)) (fst p' - 1))
      \<and> completion_code event = code' \<and> transfer_length event = left')"
    using r hw sim_event_fields [OF assms] by (simp add: sim_run_def sim_env_def)
qed

lemma sim_apart: "memory_apart (sim_env code left x) sim_dq"
  by (simp add: memory_apart_def sim_env_def sim_mem_def alloc_dma_zeroed_unsized_raw_def zeroed_slice_def
    alloc_and_map_def dma_drop_def st_defs finally_m_def Let_def)

lemma sim_dci: "endp_num_to_dci 1 sim_endp = Ok 3"
  by (simp add: endp_num_to_dci_def sim_endp_def is_control_def endp_ty_def direction_of_def)

lemma sim_at: "endpoint_at (sim_env code left x) sim_dq 3 1 1 1 sim_endp IfInit sim_xhci" "quiet sim_xhci"
proof -
  have "written 3 [] sample_ring4" "ring_mapped sample_ring4 True"
    by (simp_all add: written_def sample_ring4_def ring_len_def ring_get_def ring_mapped_def size_of_trb_def
      ac64_mask_def less_Suc_eq)
  moreover have "\<not> is_isoch sim_endp" by (simp add: is_isoch_def endp_ty_def sim_endp_def)
  ultimately show "endpoint_at (sim_env code left x) sim_dq 3 1 1 1 sim_endp IfInit sim_xhci"
    unfolding endpoint_at_def
    by (auto simp: sim_xhci_def get_endp_desc_def sim_device_def consumed_def sim_env_def
      intro!: exI [of _ "[] :: trb list"])
  show "quiet sim_xhci" by (simp add: quiet_def sim_xhci_def)
qed

lemma sim_alloc:
  "alloc_dma_zeroed_unsized_raw (xe_mem (sim_env code left x)) (xe_ac64 (sim_env code left x)) 1 (0 :: u8) n c
    = (Ok \<lparr>dma_phys = 0x50000, dma_aligned_len = 4096, dma_virt = 0x40000, dma_data = replicate 4 0\<rparr>, c)"
  if "n = 4"
  unfolding that
  by (simp add: sim_env_def sim_mem_def alloc_dma_zeroed_unsized_raw_def zeroed_slice_def
    alloc_and_map_def next_multiple_of_def page_size_def st_defs finally_m_def Let_def)

definition sim_read4 :: bytes where
  "sim_read4 = [2, 0, 4]"

lemma sim_read4_req:
  "xe_ctl_req_of_json (sim_env code left x) sim_read4 = Some (TransferReq CtlIn (of_nat (length buf)))"
  if "length buf = 4"
  using that by (simp add: sim_env_def sim_read4_def sim_ctl_req_of_json_def)

theorem endpoint_control_hangs_witness:
  "\<exists>X'. on_write_endp_ctl (sim_env 1 0 []) 1 1 [0] sim_xhci = (Ok 1, X')
     \<and> fst (on_read_endp_ctl (sim_env 1 0 []) 1 1 (X', replicate 256 0)) = NoFuel"
  using endpoint_control_hangs [OF _ sim_at, of 1 0 "[]" "[0]" StatusReq "replicate 256 0"]
  by (simp add: sim_env_def sim_ctl_req_of_json_def)


theorem split_transfer_blocks_witness:
  "\<exists>ts. map (\<lambda>f. f True zero_trb) (transfer_blocks 0x50000 False 31 70000) = map Ok ts \<and> length ts = 2
    \<and> (\<forall>t \<in> set ts. read_data t = 0x50000)"
  using split_transfer_blocks [where td = 31 and n = 70000 and cycle = True and old = zero_trb
    and buffer = "0x50000" and idt = False]
  by (auto simp: div_round_up_def max_transfer_size_def)

end
