(* ===== verification/Xhci_Descriptors.thy ===== *)
theory Xhci_Descriptors
  imports Xhci_Transfers
begin

text \<open>
  Reading the descriptors of a device (\<open>xhcid/src/xhci/scheme.rs\<close>, \<open>mod.rs\<close>, \<open>usb/\<close>): the packed
  structures that a device answers, the parser of a configuration, and the requests that fetch them.
  A packed structure is read from the start of a byte slice that is at least as long. The parser
  advances by the length that a descriptor claims, so its loop carries fuel. That the link is fast
  enough for companion descriptors is a constant \<open>false\<close> in the source; those branches are dead and
  left out.
\<close>

subsection \<open>Packed descriptors\<close>

record device_descriptor =
  devd_length :: u8
  devd_kind :: u8
  devd_usb :: u16
  devd_class :: u8
  devd_sub_class :: u8
  devd_protocol :: u8
  devd_packet_size :: u8
  devd_vendor :: u16
  devd_product :: u16
  devd_release :: u16
  devd_manufacturer_str :: u8
  devd_product_str :: u8
  devd_serial_str :: u8
  devd_configurations :: u8

definition device_descriptor_of :: "bytes \<Rightarrow> device_descriptor" where
  "device_descriptor_of b = \<lparr>devd_length = b ! 0, devd_kind = b ! 1, devd_usb = from_le (subslice 2 2 b),
     devd_class = b ! 4, devd_sub_class = b ! 5, devd_protocol = b ! 6, devd_packet_size = b ! 7,
     devd_vendor = from_le (subslice 8 2 b), devd_product = from_le (subslice 10 2 b),
     devd_release = from_le (subslice 12 2 b), devd_manufacturer_str = b ! 14, devd_product_str = b ! 15,
     devd_serial_str = b ! 16, devd_configurations = b ! 17\<rparr>"

record device_descriptor_8_byte =
  dev8_length :: u8
  dev8_kind :: u8
  dev8_usb :: u16
  dev8_class :: u8
  dev8_sub_class :: u8
  dev8_protocol :: u8
  dev8_packet_size :: u8

definition device_descriptor_8_byte_of :: "bytes \<Rightarrow> device_descriptor_8_byte" where
  "device_descriptor_8_byte_of b = \<lparr>dev8_length = b ! 0, dev8_kind = b ! 1,
     dev8_usb = from_le (subslice 2 2 b), dev8_class = b ! 4, dev8_sub_class = b ! 5,
     dev8_protocol = b ! 6, dev8_packet_size = b ! 7\<rparr>"

definition minor_usb_vers :: "device_descriptor_8_byte \<Rightarrow> u8" where
  "minor_usb_vers d = ucast (dev8_usb d AND 0xFF)"

definition major_usb_vers :: "device_descriptor_8_byte \<Rightarrow> u8" where
  "major_usb_vers d = ucast (drop_bit 8 (dev8_usb d) AND 0xFF)"

record config_descriptor =
  cfgd_length :: u8
  cfgd_kind :: u8
  cfgd_total_length :: u16
  cfgd_interfaces :: u8
  cfgd_configuration_value :: u8
  cfgd_configuration_str :: u8
  cfgd_attributes :: u8
  cfgd_max_power :: u8

definition config_descriptor_of :: "bytes \<Rightarrow> config_descriptor" where
  "config_descriptor_of b = \<lparr>cfgd_length = b ! 0, cfgd_kind = b ! 1, cfgd_total_length = from_le (subslice 2 2 b),
     cfgd_interfaces = b ! 4, cfgd_configuration_value = b ! 5, cfgd_configuration_str = b ! 6,
     cfgd_attributes = b ! 7, cfgd_max_power = b ! 8\<rparr>"

record interface_descriptor =
  ifd_length :: u8
  ifd_kind :: u8
  ifd_number :: u8
  ifd_alternate_setting :: u8
  ifd_endpoints :: u8
  ifd_class :: u8
  ifd_sub_class :: u8
  ifd_protocol :: u8
  ifd_interface_str :: u8

definition interface_descriptor_of :: "bytes \<Rightarrow> interface_descriptor" where
  "interface_descriptor_of b = \<lparr>ifd_length = b ! 0, ifd_kind = b ! 1, ifd_number = b ! 2,
     ifd_alternate_setting = b ! 3, ifd_endpoints = b ! 4, ifd_class = b ! 5, ifd_sub_class = b ! 6,
     ifd_protocol = b ! 7, ifd_interface_str = b ! 8\<rparr>"

record endpoint_descriptor =
  epd_length :: u8
  epd_kind :: u8
  epd_address :: u8
  epd_attributes :: u8
  epd_max_packet_size :: u16
  epd_interval :: u8

definition endpoint_descriptor_of :: "bytes \<Rightarrow> endpoint_descriptor" where
  "endpoint_descriptor_of b = \<lparr>epd_length = b ! 0, epd_kind = b ! 1, epd_address = b ! 2,
     epd_attributes = b ! 3, epd_max_packet_size = from_le (subslice 4 2 b), epd_interval = b ! 6\<rparr>"

record hid_descriptor =
  hidd_length :: u8
  hidd_kind :: u8
  hidd_hid_spec_release :: u16
  hidd_country_code :: u8
  hidd_num_descriptors :: u8
  hidd_report_desc_ty :: u8
  hidd_report_desc_len :: u16
  hidd_optional_desc_ty :: u8
  hidd_optional_desc_len :: u16

definition hid_descriptor_of :: "bytes \<Rightarrow> hid_descriptor" where
  "hid_descriptor_of b = \<lparr>hidd_length = b ! 0, hidd_kind = b ! 1, hidd_hid_spec_release = from_le (subslice 2 2 b),
     hidd_country_code = b ! 4, hidd_num_descriptors = b ! 5, hidd_report_desc_ty = b ! 6,
     hidd_report_desc_len = from_le (subslice 7 2 b), hidd_optional_desc_ty = b ! 9,
     hidd_optional_desc_len = from_le (subslice 10 2 b)\<rparr>"

record super_speed_companion_descriptor =
  sscd_length :: u8
  sscd_kind :: u8
  sscd_max_burst :: u8
  sscd_attributes :: u8
  sscd_bytes_per_interval :: u16

definition super_speed_companion_descriptor_of :: "bytes \<Rightarrow> super_speed_companion_descriptor" where
  "super_speed_companion_descriptor_of b = \<lparr>sscd_length = b ! 0, sscd_kind = b ! 1, sscd_max_burst = b ! 2,
     sscd_attributes = b ! 3, sscd_bytes_per_interval = from_le (subslice 4 2 b)\<rparr>"

record super_speed_plus_isoch_cmp_descriptor =
  sspd_length :: u8
  sspd_kind :: u8
  sspd_reserved :: u16
  sspd_bytes_per_interval :: u32

definition super_speed_plus_isoch_cmp_descriptor_of :: "bytes \<Rightarrow> super_speed_plus_isoch_cmp_descriptor" where
  "super_speed_plus_isoch_cmp_descriptor_of b = \<lparr>sspd_length = b ! 0, sspd_kind = b ! 1,
     sspd_reserved = from_le (subslice 2 2 b), sspd_bytes_per_interval = from_le (subslice 4 4 b)\<rparr>"

subsection \<open>Parsing a configuration\<close>

datatype any_descriptor =
    AnyDevice device_descriptor
  | AnyConfig config_descriptor
  | AnyInterface interface_descriptor
  | AnyEndpoint endpoint_descriptor
  | AnyHid hid_descriptor
  | AnySuperSpeedCompanion super_speed_companion_descriptor
  | AnySuperSpeedPlusCompanion super_speed_plus_isoch_cmp_descriptor

definition any_descriptor_parse :: "bytes \<Rightarrow> (any_descriptor \<times> nat) option" where
  "any_descriptor_parse bytes =
     (if length bytes < 2 then None
      else
        let len = bytes ! 0; kind = bytes ! 1
        in if length bytes < unat len then None
           else map_option (\<lambda>d. (d, unat len))
             (if kind = 1 then if 18 \<le> length bytes then Some (AnyDevice (device_descriptor_of bytes)) else None
              else if kind = 2 then if 9 \<le> length bytes then Some (AnyConfig (config_descriptor_of bytes)) else None
              else if kind = 4 then if 9 \<le> length bytes then Some (AnyInterface (interface_descriptor_of bytes)) else None
              else if kind = 5 then if 7 \<le> length bytes then Some (AnyEndpoint (endpoint_descriptor_of bytes)) else None
              else if kind = 33 then if 12 \<le> length bytes then Some (AnyHid (hid_descriptor_of bytes)) else None
              else if kind = 48 then
                if 6 \<le> length bytes then Some (AnySuperSpeedCompanion (super_speed_companion_descriptor_of bytes)) else None
              else if kind = 49 then
                if 8 \<le> length bytes then Some (AnySuperSpeedPlusCompanion (super_speed_plus_isoch_cmp_descriptor_of bytes)) else None
              else None))"

fun parse_descriptors :: "nat \<Rightarrow> bytes \<Rightarrow> (any_descriptor list, errno) res" where
  "parse_descriptors 0 b = NoFuel"
| "parse_descriptors (Suc fuel) b = (case any_descriptor_parse b of
      None \<Rightarrow> Ok []
    | Some (d, len) \<Rightarrow> bind_r (parse_descriptors fuel (drop len b)) (\<lambda>ds. Ok (d # ds)))"

definition endp_desc_from :: "endpoint_descriptor \<Rightarrow> endp_desc" where
  "endp_desc_from d = \<lparr>ed_kind = epd_kind d, ed_address = epd_address d, ed_attributes = epd_attributes d,
     ed_max_packet_size = epd_max_packet_size d, ed_interval = epd_interval d, ed_ssc = None, ed_sspc = None\<rparr>"

definition hid_desc_from :: "hid_descriptor \<Rightarrow> hid_desc" where
  "hid_desc_from d = \<lparr>hd_kind = hidd_kind d, hd_hid_spec_release = hidd_hid_spec_release d,
     hd_country = hidd_country_code d, hd_desc_count = hidd_num_descriptors d,
     hd_desc_ty = hidd_report_desc_ty d, hd_desc_len = hidd_report_desc_len d,
     hd_optional_desc_ty = hidd_optional_desc_ty d, hd_optional_desc_len = hidd_optional_desc_len d\<rparr>"

definition super_speed_cmp_from :: "super_speed_companion_descriptor \<Rightarrow> super_speed_cmp" where
  "super_speed_cmp_from d = \<lparr>ssc_kind = sscd_kind d, ssc_max_burst = sscd_max_burst d,
     ssc_attributes = sscd_attributes d, ssc_bytes_per_interval = sscd_bytes_per_interval d\<rparr>"

definition super_speed_plus_isoch_cmp_from :: "super_speed_plus_isoch_cmp_descriptor \<Rightarrow> super_speed_plus_isoch_cmp" where
  "super_speed_plus_isoch_cmp_from d =
     \<lparr>sspc_kind = sspd_kind d, sspc_bytes_per_interval = sspd_bytes_per_interval d\<rparr>"

text \<open>
  The endpoints and HID descriptors behind an interface, and what is left of the descriptors: an
  unexpected descriptor is consumed and ends the list.
\<close>

fun collect_endpoints ::
  "nat \<Rightarrow> u8 \<Rightarrow> endp_desc list \<Rightarrow> hid_desc list \<Rightarrow> any_descriptor list
    \<Rightarrow> endp_desc list \<times> hid_desc list \<times> any_descriptor list" where
  "collect_endpoints n cls endps hids [] = (endps, hids, [])"
| "collect_endpoints n cls endps hids (d # ds) =
     (if n \<le> length endps then (endps, hids, d # ds)
      else case d of
        AnyEndpoint e \<Rightarrow> collect_endpoints n cls (endps @ [endp_desc_from e]) hids ds
      | AnyHid h \<Rightarrow>
          if cls = 3 then collect_endpoints n cls endps (hids @ [hid_desc_from h]) ds
          else (endps, hids, ds)
      | _ \<Rightarrow> (endps, hids, ds))"

lemma collect_endpoints_shorter:
  "collect_endpoints n cls endps hids ds = (a, b, rest) \<Longrightarrow> length rest \<le> length ds"
  by (induction n cls endps hids ds rule: collect_endpoints.induct)
    (auto split: if_splits any_descriptor.splits)

subsection \<open>Fetching descriptors\<close>

fun utf16_decode :: "u16 list \<Rightarrow> nat list option" where
  "utf16_decode [] = Some []"
| "utf16_decode (u # us) =
     (if u < 0xD800 \<or> 0xE000 \<le> u then map_option ((#) (unat u)) (utf16_decode us)
      else if 0xDC00 \<le> u then None
      else case us of
        [] \<Rightarrow> None
      | v # vs \<Rightarrow>
          if 0xDC00 \<le> v \<and> v < 0xE000 then
            map_option ((#) (0x10000 + (unat u - 0xD800) * 0x400 + (unat v - 0xDC00))) (utf16_decode vs)
          else None)"

definition utf8_encode :: "nat \<Rightarrow> string" where
  "utf8_encode c = map char_of
     (if c < 0x80 then [c]
      else if c < 0x800 then [0xC0 + c div 0x40, 0x80 + c mod 0x40]
      else if c < 0x10000 then [0xE0 + c div 0x1000, 0x80 + c div 0x40 mod 0x40, 0x80 + c mod 0x40]
      else [0xF0 + c div 0x40000, 0x80 + c div 0x1000 mod 0x40, 0x80 + c div 0x40 mod 0x40, 0x80 + c mod 0x40])"

definition from_utf16 :: "u16 list \<Rightarrow> string option" where
  "from_utf16 us = map_option (\<lambda>cs. concat (map utf8_encode cs)) (utf16_decode us)"

definition get_desc_raw ::
  "'c xhci_env \<Rightarrow> nat \<Rightarrow> u8 \<Rightarrow> descriptor_kind \<Rightarrow> u8 \<Rightarrow> u64 \<Rightarrow> nat \<Rightarrow> ('c xhci, unit, errno) st" where
  "get_desc_raw E port slot kind index phys len =
     bind_m (with_port_mut E ENOENT port (\<lambda>ps.
       bind_m (ok_or EIO (ps_endpoints ps 0)) (\<lambda>es. case endp_ring (es_transfer es) of
         None \<Rightarrow> panic_m
       | Some r \<Rightarrow> enqueue E port 0 es r (default_control_pipe (of_nat port))
           (control_blocks (setup_get_descriptor kind index 0 (of_nat len)) InTransfer
              [infallible (trb_data phys (of_nat len) True)])))) (\<lambda>future.
     bind_m (await_event E (unat slot) def_control_endp_doorbell future) (\<lambda>trbs.
     bind_m (ok_or EIO (net_src trbs)) (\<lambda>_.
     of_res (handle_transfer_event_trb (net_event trbs)))))"

text \<open>A descriptor of \<open>len\<close> bytes in a buffer of its own.\<close>

definition fetch_desc ::
  "'c xhci_env \<Rightarrow> nat \<Rightarrow> u8 \<Rightarrow> descriptor_kind \<Rightarrow> u8 \<Rightarrow> nat \<Rightarrow> ('c xhci, bytes, errno) st" where
  "fetch_desc E port slot kind index len =
     bind_m (on_ctl (zeroed (xe_mem E) len (replicate len (0 :: u8)))) (\<lambda>desc.
       finally_m
         (bind_m (get_desc_raw E port slot kind index (dma_phys desc) len) (\<lambda>_ X.
          (Ok (xe_load E (dma_phys desc) len (xh_ctl X)), X)))
         (on_ctl (dma_drop (xe_mem E) desc)))"

definition fetch_dev_desc_8_byte :: "'c xhci_env \<Rightarrow> nat \<Rightarrow> u8 \<Rightarrow> ('c xhci, device_descriptor_8_byte, errno) st" where
  "fetch_dev_desc_8_byte E port slot =
     bind_m (fetch_desc E port slot DeviceDesc 0 8) (\<lambda>b. return_m (device_descriptor_8_byte_of b))"

definition fetch_dev_desc :: "'c xhci_env \<Rightarrow> nat \<Rightarrow> u8 \<Rightarrow> ('c xhci, device_descriptor, errno) st" where
  "fetch_dev_desc E port slot =
     bind_m (fetch_desc E port slot DeviceDesc 0 18) (\<lambda>b. return_m (device_descriptor_of b))"

definition fetch_config_desc ::
  "'c xhci_env \<Rightarrow> nat \<Rightarrow> u8 \<Rightarrow> u8 \<Rightarrow> ('c xhci, config_descriptor \<times> bytes, errno) st" where
  "fetch_config_desc E port slot config =
     bind_m (fetch_desc E port slot ConfigurationDesc config 4096) (\<lambda>b.
     return_m (config_descriptor_of b, drop 9 b))"

definition fetch_string_desc :: "'c xhci_env \<Rightarrow> nat \<Rightarrow> u8 \<Rightarrow> u8 \<Rightarrow> ('c xhci, string, errno) st" where
  "fetch_string_desc E port slot index =
     bind_m (fetch_desc E port slot StringDesc index 256) (\<lambda>b.
     let len = unat (b ! 0)
     in if len > 2 then
          return_m (case from_utf16 (map (\<lambda>i. from_le (subslice (2 + 2 * i) 2 b)) [0..<(len - 2) div 2]) of
            None \<Rightarrow> [] | Some s \<Rightarrow> s)
        else return_m [])"

definition fetch_optional_string :: "'c xhci_env \<Rightarrow> nat \<Rightarrow> u8 \<Rightarrow> u8 \<Rightarrow> ('c xhci, string option, errno) st" where
  "fetch_optional_string E port slot index =
     (if index > 0 then bind_m (fetch_string_desc E port slot index) (\<lambda>s. return_m (Some s))
      else return_m None)"

definition new_if_desc ::
  "'c xhci_env \<Rightarrow> nat \<Rightarrow> u8 \<Rightarrow> interface_descriptor \<Rightarrow> endp_desc list \<Rightarrow> hid_desc list
    \<Rightarrow> ('c xhci, if_desc, errno) st" where
  "new_if_desc E port slot d endps hids =
     bind_m (fetch_optional_string E port slot (ifd_interface_str d)) (\<lambda>str.
     return_m \<lparr>if_kind = ifd_kind d, if_number = ifd_number d, if_alternate_setting = ifd_alternate_setting d,
       if_class = ifd_class d, if_sub_class = ifd_sub_class d, if_protocol = ifd_protocol d,
       if_interface_str = str, if_endpoints = endps, if_hid_descs = hids\<rparr>)"

function collect_interfaces ::
  "'c xhci_env \<Rightarrow> nat \<Rightarrow> u8 \<Rightarrow> any_descriptor list \<Rightarrow> ('c xhci, if_desc list, errno) st" where
  "collect_interfaces E port slot [] = return_m []"
| "collect_interfaces E port slot (d # ds) = (case d of
      AnyInterface i \<Rightarrow> (case collect_endpoints (unat (ifd_endpoints i)) (ifd_class i) [] [] ds of
        (endps, hids, rest) \<Rightarrow>
          bind_m (new_if_desc E port slot i endps hids) (\<lambda>x.
          bind_m (collect_interfaces E port slot rest) (\<lambda>xs. return_m (x # xs))))
    | _ \<Rightarrow> return_m [])"
  by pat_completeness auto
termination
  by (relation "measure (\<lambda>(_, _, _, ds). length ds)")
    (auto dest!: sym [of "(_, _, _)"] collect_endpoints_shorter)

definition get_conf_desc ::
  "'c xhci_env \<Rightarrow> nat \<Rightarrow> nat \<Rightarrow> u8 \<Rightarrow> u8 \<Rightarrow> ('c xhci, conf_desc, errno) st" where
  "get_conf_desc E fuel port slot index =
     bind_m (fetch_config_desc E port slot index) (\<lambda>(d, x).
     let extra_length = unat (of_nat (unat (cfgd_total_length d)) - 9 :: u64)
     in if extra_length > length x then panic_m
        else bind_m (of_res (parse_descriptors fuel (take extra_length x))) (\<lambda>descriptors.
          bind_m (collect_interfaces E port slot descriptors) (\<lambda>ifs.
          bind_m (fetch_optional_string E port slot (cfgd_configuration_str d)) (\<lambda>str.
          return_m \<lparr>cd_kind = cfgd_kind d, cd_configuration_value = cfgd_configuration_value d,
            cd_configuration = str, cd_attributes = cfgd_attributes d, cd_max_power = cfgd_max_power d,
            cd_interface_descs = ifs\<rparr>))))"

fun get_conf_descs :: "'c xhci_env \<Rightarrow> nat \<Rightarrow> nat \<Rightarrow> u8 \<Rightarrow> nat list \<Rightarrow> ('c xhci, conf_desc list, errno) st" where
  "get_conf_descs E fuel port slot [] = return_m []"
| "get_conf_descs E fuel port slot (i # is) =
     bind_m (get_conf_desc E fuel port slot (of_nat i)) (\<lambda>c.
     bind_m (get_conf_descs E fuel port slot is) (\<lambda>cs. return_m (c # cs)))"

definition port_ccs :: u32 where
  "port_ccs = 1"

definition get_desc :: "'c xhci_env \<Rightarrow> nat \<Rightarrow> nat \<Rightarrow> u8 \<Rightarrow> ('c xhci, dev_desc, errno) st" where
  "get_desc E fuel port slot = (\<lambda>X. case xe_port_reg E port (xh_ctl X) of
      None \<Rightarrow> (Err ENOENT, X)
    | Some reg \<Rightarrow>
        if reg AND port_ccs = 0 then (Err ENOENT, X)
        else
          bind_m (fetch_dev_desc E port slot) (\<lambda>d.
          bind_m (fetch_optional_string E port slot (devd_manufacturer_str d)) (\<lambda>manufacturer.
          bind_m (fetch_optional_string E port slot (devd_product_str d)) (\<lambda>product.
          bind_m (fetch_optional_string E port slot (devd_serial_str d)) (\<lambda>serial.
          bind_m (get_conf_descs E fuel port slot [0..<unat (devd_configurations d)]) (\<lambda>configs.
          return_m \<lparr>dd_kind = devd_kind d, dd_usb = devd_usb d, dd_class = devd_class d,
            dd_sub_class = devd_sub_class d, dd_protocol = devd_protocol d, dd_packet_size = devd_packet_size d,
            dd_vendor = devd_vendor d, dd_product = devd_product d, dd_release = devd_release d,
            dd_manufacturer_str = manufacturer, dd_product_str = product, dd_serial_str = serial,
            dd_config_descs = configs\<rparr>))))) X)"

subsection \<open>When the parser ends\<close>

text \<open>The rests of a configuration that the loop comes to.\<close>

inductive reaches :: "bytes \<Rightarrow> bytes \<Rightarrow> bool" for b where
  here: "reaches b b"
| step: "reaches b c \<Longrightarrow> any_descriptor_parse c = Some (d, len) \<Longrightarrow> reaches b (drop len c)"

lemma parse_length: "any_descriptor_parse b = Some (d, len) \<Longrightarrow> len \<le> length b"
  by (auto simp: any_descriptor_parse_def Let_def split: if_splits)

lemma reaches_behind:
  assumes "any_descriptor_parse b = Some (d, len)" "reaches (drop len b) c"
  shows "reaches b c"
  using assms(2) by induction (use assms(1) in \<open>auto intro: reaches.intros\<close>)

lemma parse_more: "parse_descriptors f c = Ok ds \<Longrightarrow> parse_descriptors (f + k) c = Ok ds"
  by (induction f arbitrary: c ds) (auto split: option.splits)

lemma parse_ends:
  assumes "\<nexists>c d. reaches b c \<and> any_descriptor_parse c = Some (d, 0)"
  shows "\<exists>ds. parse_descriptors (Suc (length b)) b = Ok ds"
  using assms
proof (induction "length b" arbitrary: b rule: less_induct)
  case less
  show ?case
  proof (cases "any_descriptor_parse b")
    case (Some x)
    obtain d len where x: "x = (d, len)" by fastforce
    with Some less.prems have "len \<noteq> 0" by (auto intro: reaches.here)
    with parse_length Some x have len: "0 < len" "len \<le> length b" by auto
    obtain ds where ds: "parse_descriptors (Suc (length (drop len b))) (drop len b) = Ok ds"
      using less.hyps [of "drop len b"] less.prems len reaches_behind Some x by fastforce
    have "length b = Suc (length (drop len b)) + (len - 1)" using len by simp
    then have "parse_descriptors (length b) (drop len b) = Ok ds" using parse_more [OF ds] by metis
    then show ?thesis using Some x by simp
  qed simp
qed

lemma parse_stuck:
  assumes "reaches b c" "any_descriptor_parse c = Some (d, 0)"
  shows "parse_descriptors fuel b = NoFuel"
proof -
  have stuck: "parse_descriptors fuel c = NoFuel" for fuel
    using assms(2) by (induction fuel) auto
  from assms(1) have "\<forall>fuel. parse_descriptors fuel b = NoFuel"
    using stuck
  proof induction
    case here
    then show ?case by simp
  next
    case (step c d len)
    have "parse_descriptors fuel c = NoFuel" for fuel
      using step by (cases fuel) auto
    with step show ?case by simp
  qed
  then show ?thesis by blast
qed

lemma parse_enough:
  assumes "parse_descriptors fuel b = Ok ds"
  shows "parse_descriptors (Suc (length b)) b = Ok ds"
proof -
  obtain ds' where ds': "parse_descriptors (Suc (length b)) b = Ok ds'"
    using parse_ends [of b] parse_stuck [of b _ _ fuel] assms by fastforce
  have "Ok ds = (Ok ds' :: (any_descriptor list, errno) res)"
    using parse_more [OF assms, of "Suc (length b)"] parse_more [OF ds', of fuel] by (simp only: add.commute)
  with ds' show ?thesis by simp
qed

text \<open>
  USB descriptor property C19. The loop over the descriptors of a configuration ends after at most as many
  rounds as there are bytes, except when it comes to a descriptor that claims a length of zero: then
  it takes the same descriptor for ever.
\<close>

theorem descriptor_loop_ends:
  "if \<exists>c d. reaches b c \<and> any_descriptor_parse c = Some (d, 0)
   then \<forall>fuel. parse_descriptors fuel b = NoFuel
   else \<exists>ds. parse_descriptors (Suc (length b)) b = Ok ds"
  using parse_ends parse_stuck by auto

subsection \<open>Reading back a configuration\<close>

text \<open>The bytes of an interface with its endpoints, in the order of a configuration.\<close>

definition endpoint_bytes :: "endpoint_descriptor \<Rightarrow> bytes" where
  "endpoint_bytes e = [epd_length e, epd_kind e, epd_address e, epd_attributes e]
     @ le_bytes 2 (epd_max_packet_size e) @ [epd_interval e]"

definition interface_bytes :: "interface_descriptor \<Rightarrow> bytes" where
  "interface_bytes i = [ifd_length i, ifd_kind i, ifd_number i, ifd_alternate_setting i, ifd_endpoints i,
     ifd_class i, ifd_sub_class i, ifd_protocol i, ifd_interface_str i]"

type_synonym interface_block = "interface_descriptor \<times> endpoint_descriptor list"

definition block_bytes :: "interface_block \<Rightarrow> bytes" where
  "block_bytes = (\<lambda>(i, es). interface_bytes i @ concat (map endpoint_bytes es))"

definition well_formed_block :: "interface_block \<Rightarrow> bool" where
  "well_formed_block = (\<lambda>(i, es). ifd_length i = 9 \<and> ifd_kind i = 4 \<and> ifd_interface_str i = 0
     \<and> unat (ifd_endpoints i) = length es \<and> list_all (\<lambda>e. epd_length e = 7 \<and> epd_kind e = 5) es)"

definition block_descs :: "interface_block \<Rightarrow> any_descriptor list" where
  "block_descs = (\<lambda>(i, es). AnyInterface i # map AnyEndpoint es)"

definition block_if_desc :: "interface_block \<Rightarrow> if_desc" where
  "block_if_desc = (\<lambda>(d, es). \<lparr>if_kind = ifd_kind d, if_number = ifd_number d,
     if_alternate_setting = ifd_alternate_setting d, if_class = ifd_class d, if_sub_class = ifd_sub_class d,
     if_protocol = ifd_protocol d, if_interface_str = None, if_endpoints = map endp_desc_from es,
     if_hid_descs = []\<rparr>)"

lemma parse_interface:
  "ifd_length i = 9 \<Longrightarrow> ifd_kind i = 4 \<Longrightarrow>
    any_descriptor_parse (interface_bytes i @ rest) = Some (AnyInterface i, 9)"
  by (simp add: any_descriptor_parse_def interface_bytes_def interface_descriptor_of_def Let_def)

lemma parse_endpoint:
  "epd_length e = 7 \<Longrightarrow> epd_kind e = 5 \<Longrightarrow>
    any_descriptor_parse (endpoint_bytes e @ rest) = Some (AnyEndpoint e, 7)"
  by (simp add: any_descriptor_parse_def endpoint_bytes_def endpoint_descriptor_of_def Let_def subslice_def
      nth_append)

lemma descriptor_lengths [simp]:
  "length (interface_bytes i) = 9" "length (endpoint_bytes e) = 7"
  by (simp_all add: interface_bytes_def endpoint_bytes_def)

lemma parse_endpoints:
  assumes "list_all (\<lambda>e. epd_length e = 7 \<and> epd_kind e = 5) es"
    and "parse_descriptors fuel rest = Ok ds"
  shows "parse_descriptors (length es + fuel) (concat (map endpoint_bytes es) @ rest)
    = Ok (map AnyEndpoint es @ ds)"
  using assms
proof (induction es)
  case (Cons e es)
  then show ?case by (simp add: parse_endpoint)
qed simp

lemma parse_blocks:
  assumes "list_all well_formed_block bs" and "any_descriptor_parse rest = None"
  shows "\<exists>fuel. parse_descriptors fuel (concat (map block_bytes bs) @ rest) = Ok (concat (map block_descs bs))"
  using assms(1)
proof (induction bs)
  case Nil
  show ?case using assms(2) by (intro exI [of _ 1]) simp
next
  case (Cons b bs)
  obtain i es where b: "b = (i, es)" by fastforce
  from Cons obtain fuel where "parse_descriptors fuel (concat (map block_bytes bs) @ rest)
    = Ok (concat (map block_descs bs))" by auto
  from parse_endpoints [OF _ this, of es] Cons.prems b
  have "parse_descriptors (length es + fuel) (concat (map endpoint_bytes es) @ concat (map block_bytes bs) @ rest)
    = Ok (map AnyEndpoint es @ concat (map block_descs bs))" by (simp add: well_formed_block_def)
  then show ?case
    using Cons.prems b
    by (intro exI [of _ "Suc (length es + fuel)"])
      (simp add: block_bytes_def block_descs_def well_formed_block_def parse_interface)
qed

lemma collect_all:
  assumes "length endps + length es = n"
  shows "collect_endpoints n cls endps hids (map AnyEndpoint es @ concat (map block_descs bs))
    = (endps @ map endp_desc_from es, hids, concat (map block_descs bs))"
  using assms
proof (induction es arbitrary: endps)
  case Nil
  then show ?case
    by (cases bs) (auto simp: block_descs_def split: prod.split)
qed auto

lemma collect_blocks:
  assumes "list_all well_formed_block bs"
  shows "collect_interfaces E port slot (concat (map block_descs bs)) X = (Ok (map block_if_desc bs), X)"
  using assms
proof (induction bs)
  case (Cons b bs)
  obtain i es where b: "b = (i, es)" by fastforce
  have "collect_endpoints (unat (ifd_endpoints i)) (ifd_class i) [] []
      (map AnyEndpoint es @ concat (map block_descs bs)) = (map endp_desc_from es, [], concat (map block_descs bs))"
    using Cons.prems b collect_all [of "[]" es] by (simp add: well_formed_block_def)
  then show ?case
    using Cons b
    by (simp add: block_descs_def well_formed_block_def new_if_desc_def fetch_optional_string_def
        bind_m_def return_m_def block_if_desc_def)
qed (simp add: return_m_def)

text \<open>
  USB descriptor property C20. A configuration made of interfaces that are each followed by as many endpoints
  as they announce is read back interface by interface, and what comes behind a descriptor that the
  parser does not know (a class-specific one, say) is left out without an error.
\<close>

theorem configuration_read_back:
  assumes "list_all well_formed_block bs" and "any_descriptor_parse rest = None"
  shows "\<exists>ds. parse_descriptors (Suc (length (concat (map block_bytes bs) @ rest))) (concat (map block_bytes bs) @ rest)
      = Ok ds
    \<and> collect_interfaces E port slot ds X = (Ok (map block_if_desc bs), X)"
  using parse_blocks [OF assms] collect_blocks [OF assms(1)] parse_enough by blast

text \<open>A disk with a bulk endpoint, behind which comes a descriptor of a class (kind 36).\<close>

definition sample_block :: interface_block where
  "sample_block = (\<lparr>ifd_length = 9, ifd_kind = 4, ifd_number = 0, ifd_alternate_setting = 0, ifd_endpoints = 1,
     ifd_class = 8, ifd_sub_class = 6, ifd_protocol = 0x50, ifd_interface_str = 0\<rparr>,
     [\<lparr>epd_length = 7, epd_kind = 5, epd_address = 0x81, epd_attributes = 2, epd_max_packet_size = 512,
       epd_interval = 0\<rparr>])"

theorem configuration_read_back_witness:
  "\<exists>ds. parse_descriptors 22 (block_bytes sample_block @ [5, 36, 0, 0, 0]) = Ok ds
    \<and> collect_interfaces (sim_env 1 0 []) 1 1 ds sim_xhci = (Ok [block_if_desc sample_block], sim_xhci)"
  using configuration_read_back [of "[sample_block]" "[5, 36, 0, 0, 0]" "sim_env 1 0 []" 1 1 sim_xhci]
  by (simp add: well_formed_block_def sample_block_def any_descriptor_parse_def Let_def block_bytes_def
      interface_bytes_def endpoint_bytes_def del: parse_descriptors.simps)

end
