(* ===== verification/Xhci_Configure.thy ===== *)
theory Xhci_Configure
  imports Xhci_Descriptors
begin

text \<open>
  Configuring the endpoints of a device (\<open>xhcid/src/xhci/scheme.rs\<close>), with what it reads of the
  controller: the capability registers (\<open>capability.rs\<close>), the list of extended capabilities and the
  speeds of a port (\<open>extended.rs\<close>, \<open>mod.rs\<close>, \<open>port.rs\<close>).

  The extended capabilities are a list in read-only registers, linked by offsets that the controller
  chooses, so walking it carries fuel. Arithmetic on \<open>u8\<close> and \<open>u16\<close> wraps and a shift takes its
  amount modulo the width, as in a release build.
\<close>

subsection \<open>Capability registers\<close>

definition read_flag :: "u32 \<Rightarrow> u32 \<Rightarrow> bool" where
  "read_flag reg flags \<longleftrightarrow> reg AND flags = flags"

definition cap_ac64 :: "u32 \<Rightarrow> bool" where
  "cap_ac64 hcc_params1 = read_flag hcc_params1 1"

definition cap_lec :: "u32 \<Rightarrow> bool" where
  "cap_lec hcc_params2 = read_flag hcc_params2 (push_bit 4 1)"

definition cap_cic :: "u32 \<Rightarrow> bool" where
  "cap_cic hcc_params2 = read_flag hcc_params2 (push_bit 5 1)"

definition cap_max_psa_size :: "u32 \<Rightarrow> u8" where
  "cap_max_psa_size hcc_params1 = ucast (drop_bit 12 (hcc_params1 AND 0xF000))"

definition cap_max_ports :: "u32 \<Rightarrow> u8" where
  "cap_max_ports hcs_params1 = ucast (drop_bit 24 (hcs_params1 AND 0xFF000000))"

definition cap_max_slots :: "u32 \<Rightarrow> u8" where
  "cap_max_slots hcs_params1 = ucast (hcs_params1 AND 0xFF)"

definition cap_ext_caps_ptr_in_dwords :: "u32 \<Rightarrow> u16" where
  "cap_ext_caps_ptr_in_dwords hcc_params1 = ucast (drop_bit 16 (hcc_params1 AND 0xFFFF0000))"

definition cap_max_scratchpad_bufs_lo :: "u32 \<Rightarrow> u8" where
  "cap_max_scratchpad_bufs_lo hcs_params2 = ucast (drop_bit 27 (hcs_params2 AND 0xF8000000))"

definition cap_spr :: "u32 \<Rightarrow> bool" where
  "cap_spr hcs_params2 = read_flag hcs_params2 (push_bit 26 1)"

definition cap_max_scratchpad_bufs_hi :: "u32 \<Rightarrow> u8" where
  "cap_max_scratchpad_bufs_hi hcs_params2 = ucast (drop_bit 21 (hcs_params2 AND 0x03E00000))"

definition cap_max_scratchpad_bufs :: "u32 \<Rightarrow> u16" where
  "cap_max_scratchpad_bufs hcs_params2 =
     ucast (cap_max_scratchpad_bufs_lo hcs_params2) OR push_bit 5 (ucast (cap_max_scratchpad_bufs_hi hcs_params2))"

definition port_speed :: "u32 \<Rightarrow> u8" where
  "port_speed portsc = ucast (drop_bit 10 (portsc AND push_bit 10 0xF))"

definition port_link_state :: "u32 \<Rightarrow> u8" where
  "port_link_state portsc = ucast (drop_bit 5 (portsc AND push_bit 5 0xF))"

subsection \<open>Protocol speeds\<close>

datatype psie = Bps | Kbps | Mbps | Gbps
datatype plt = Symmetric | PltReserved | AsymmetricRx | AsymmetricTx
datatype lp = SuperSpeed | SuperSpeedPlus | LpRsvd2 | LpRsvd3

text \<open>The transmutes: the raw fields have two bits.\<close>

definition psie_of :: "u8 \<Rightarrow> psie" where
  "psie_of w = (if w = 0 then Bps else if w = 1 then Kbps else if w = 2 then Mbps else Gbps)"

definition plt_of :: "u8 \<Rightarrow> plt" where
  "plt_of w = (if w = 0 then Symmetric else if w = 1 then PltReserved else if w = 2 then AsymmetricRx
     else AsymmetricTx)"

definition lp_of :: "u8 \<Rightarrow> lp" where
  "lp_of w = (if w = 0 then SuperSpeed else if w = 1 then SuperSpeedPlus else if w = 2 then LpRsvd2 else LpRsvd3)"

definition psiv :: "u32 \<Rightarrow> u8" where
  "psiv a = ucast (a AND 0xF)"

definition psie_raw :: "u32 \<Rightarrow> u8" where
  "psie_raw a = ucast (drop_bit 4 (a AND 0x30))"

definition speed_psie :: "u32 \<Rightarrow> psie" where
  "speed_psie a = psie_of (psie_raw a)"

definition plt_raw :: "u32 \<Rightarrow> u8" where
  "plt_raw a = ucast (drop_bit 6 (a AND 0xC0))"

definition speed_plt :: "u32 \<Rightarrow> plt" where
  "speed_plt a = plt_of (plt_raw a)"

definition pfd :: "u32 \<Rightarrow> bool" where
  "pfd a = read_flag a (push_bit 8 1)"

definition lp_raw :: "u32 \<Rightarrow> u8" where
  "lp_raw a = ucast (drop_bit 14 (a AND 0xC000))"

definition speed_lp :: "u32 \<Rightarrow> lp" where
  "speed_lp a = lp_of (lp_raw a)"

definition psim :: "u32 \<Rightarrow> u16" where
  "psim a = ucast (drop_bit 16 (a AND 0xFFFF0000))"

definition is_lowspeed :: "u32 \<Rightarrow> bool" where
  "is_lowspeed a \<longleftrightarrow> psim a = 1500 \<and> speed_psie a = Kbps \<and> \<not> pfd a"

definition is_fullspeed :: "u32 \<Rightarrow> bool" where
  "is_fullspeed a \<longleftrightarrow> psim a = 12 \<and> speed_psie a = Mbps \<and> \<not> pfd a"

definition is_highspeed :: "u32 \<Rightarrow> bool" where
  "is_highspeed a \<longleftrightarrow> psim a = 480 \<and> speed_psie a = Mbps \<and> \<not> pfd a"

definition is_superspeed_gen1x1 :: "u32 \<Rightarrow> bool" where
  "is_superspeed_gen1x1 a \<longleftrightarrow> psim a = 5 \<and> speed_psie a = Gbps \<and> pfd a \<and> speed_lp a = SuperSpeed"

definition is_superspeedplus_gen2x1 :: "u32 \<Rightarrow> bool" where
  "is_superspeedplus_gen2x1 a \<longleftrightarrow> psim a = 10 \<and> speed_psie a = Gbps \<and> pfd a \<and> speed_lp a = SuperSpeedPlus"

definition is_superspeedplus_gen1x2 :: "u32 \<Rightarrow> bool" where
  "is_superspeedplus_gen1x2 a \<longleftrightarrow> psim a = 10 \<and> speed_psie a = Gbps \<and> pfd a \<and> speed_lp a = SuperSpeedPlus"

definition is_superspeedplus_gen2x2 :: "u32 \<Rightarrow> bool" where
  "is_superspeedplus_gen2x2 a \<longleftrightarrow> psim a = 20 \<and> speed_psie a = Gbps \<and> pfd a \<and> speed_lp a = SuperSpeedPlus"

definition is_superspeed_gen_x :: "u32 \<Rightarrow> bool" where
  "is_superspeed_gen_x a \<longleftrightarrow> is_superspeed_gen1x1 a \<or> is_superspeedplus_gen2x1 a
     \<or> is_superspeedplus_gen1x2 a \<or> is_superspeedplus_gen2x2 a"

text \<open>The raw value of a symmetric speed, from psiv, psie, psim, full duplex and link protocol.\<close>

definition default_supp_proto_speeds :: "u32 list" where
  "default_supp_proto_speeds =
     [push_bit 4 2 OR push_bit 16 12 OR 1,
      push_bit 4 1 OR push_bit 16 1500 OR 2,
      push_bit 4 2 OR push_bit 16 480 OR 3,
      push_bit 8 1 OR push_bit 4 3 OR push_bit 16 5 OR push_bit 14 0 OR 4,
      push_bit 8 1 OR push_bit 4 3 OR push_bit 16 10 OR push_bit 14 1 OR 5,
      push_bit 8 1 OR push_bit 4 3 OR push_bit 16 10 OR push_bit 14 1 OR 6,
      push_bit 8 1 OR push_bit 4 3 OR push_bit 16 20 OR push_bit 14 1 OR 7]"

subsection \<open>Extended capabilities\<close>

text \<open>A capability at an offset: its identifier and the offset of the next one.\<close>

definition ext_cap_next :: "(nat \<Rightarrow> u32) \<Rightarrow> nat \<Rightarrow> u8 \<times> nat option" where
  "ext_cap_next mmio off =
     (let reg = mmio off; next_rel = push_bit 2 (ucast (ucast (drop_bit 8 (reg AND 0xFF00)) :: u8)) :: u16
      in (ucast (reg AND 0xFF), if next_rel \<noteq> 0 then Some (off + unat next_rel) else None))"

definition compat_port_offset :: "(nat \<Rightarrow> u32) \<Rightarrow> nat \<Rightarrow> u8" where
  "compat_port_offset mmio off = ucast (mmio (off + 8) AND 0xFF)"

definition compat_port_count :: "(nat \<Rightarrow> u32) \<Rightarrow> nat \<Rightarrow> u8" where
  "compat_port_count mmio off = ucast (drop_bit 8 (mmio (off + 8) AND 0xFF00))"

definition in_compat_port_range :: "(nat \<Rightarrow> u32) \<Rightarrow> nat \<Rightarrow> u8 \<Rightarrow> bool" where
  "in_compat_port_range mmio off port \<longleftrightarrow> compat_port_offset mmio off \<le> port
     \<and> port < compat_port_offset mmio off + compat_port_count mmio off"

definition proto_psic :: "(nat \<Rightarrow> u32) \<Rightarrow> nat \<Rightarrow> u8" where
  "proto_psic mmio off = ucast (drop_bit 28 (mmio (off + 8) AND 0xF0000000))"

definition proto_slot_ty :: "(nat \<Rightarrow> u32) \<Rightarrow> nat \<Rightarrow> u8" where
  "proto_slot_ty mmio off = ucast (mmio (off + 12) AND 0x1F)"

definition protocol_speeds :: "(nat \<Rightarrow> u32) \<Rightarrow> nat \<Rightarrow> u32 list" where
  "protocol_speeds mmio off = map (\<lambda>i. mmio (off + 16 + 4 * i)) [0..<unat (proto_psic mmio off)]"

fun find_protocol :: "nat \<Rightarrow> (nat \<Rightarrow> u32) \<Rightarrow> u8 \<Rightarrow> nat \<Rightarrow> (nat option, errno) res" where
  "find_protocol 0 mmio port off = NoFuel"
| "find_protocol (Suc fuel) mmio port off = (case ext_cap_next mmio off of (cap_num, next) \<Rightarrow>
     if cap_num = 2 \<and> in_compat_port_range mmio off (port + 1) then Ok (Some off)
     else case next of None \<Rightarrow> Ok None | Some off' \<Rightarrow> find_protocol fuel mmio port off')"

text \<open>The offset of the list is shifted in 16 bits.\<close>

definition supported_protocol :: "'c xhci_env \<Rightarrow> nat \<Rightarrow> u8 \<Rightarrow> (nat option, errno) res" where
  "supported_protocol E fuel port =
     find_protocol fuel (xe_mmio E) port (unat (push_bit 2 (cap_ext_caps_ptr_in_dwords (xe_hcc_params1 E))))"

definition supported_protocol_speeds :: "'c xhci_env \<Rightarrow> nat \<Rightarrow> u8 \<Rightarrow> (u32 list, errno) res" where
  "supported_protocol_speeds E fuel port =
     bind_r (supported_protocol E fuel port) (\<lambda>p. Ok (case p of
        None \<Rightarrow> default_supp_proto_speeds
      | Some off \<Rightarrow>
          if proto_psic (xe_mmio E) off \<noteq> 0 then protocol_speeds (xe_mmio E) off
          else default_supp_proto_speeds))"

definition lookup_psiv :: "'c xhci_env \<Rightarrow> nat \<Rightarrow> u8 \<Rightarrow> u8 \<Rightarrow> (u32 option, errno) res" where
  "lookup_psiv E fuel port v =
     bind_r (supported_protocol_speeds E fuel port) (\<lambda>speeds. Ok (find (\<lambda>s. psiv s = v) speeds))"

subsection \<open>The fields of an endpoint context\<close>

definition leading_zeros :: "u8 \<Rightarrow> nat" where
  "leading_zeros w = length (takeWhile (\<lambda>i. \<not> bit w i) (rev [0..<8]))"

definition endp_ctx_interval :: "u32 \<Rightarrow> endp_desc \<Rightarrow> u8" where
  "endp_ctx_interval speed_id d =
     (if (is_lowspeed speed_id \<or> is_fullspeed speed_id) \<and> is_interrupt d then
        8 - of_nat (leading_zeros (ed_interval d)) - 1 + 3
      else if is_fullspeed speed_id \<and> is_isoch d then ed_interval d - 1 + 3
      else if (is_fullspeed speed_id \<or> is_superspeed d \<or> is_superspeedplus d)
              \<and> (is_interrupt d \<or> is_isoch d) then ed_interval d - 1
      else 0)"

definition endp_ctx_max_burst :: "u32 \<Rightarrow> dev_desc \<Rightarrow> endp_desc \<Rightarrow> (u8, errno) res" where
  "endp_ctx_max_burst speed_id dev d =
     (if is_highspeed speed_id \<and> (is_interrupt d \<or> is_isoch d) then
        if major_version dev = 2 then Ok (ucast (drop_bit 11 (ed_max_packet_size d AND 0x0C00))) else Panic
      else if is_superspeed d then Ok (max_burst d)
      else Ok 0)"

definition endp_ctx_max_packet_size :: "endp_desc \<Rightarrow> u16" where
  "endp_ctx_max_packet_size d = ed_max_packet_size d AND 0x07FF"

definition endp_ctx_max_esit_payload ::
  "u32 \<Rightarrow> dev_desc \<Rightarrow> endp_desc \<Rightarrow> u16 \<Rightarrow> u8 \<Rightarrow> (u32, errno) res" where
  "endp_ctx_max_esit_payload speed_id dev d max_packet_size max_burst_size =
     (if major_version dev = 2 \<and> is_periodic d then Ok (ucast max_packet_size * (ucast max_burst_size + 1))
      else if \<not> has_ssp_companion d then
        (case ed_ssc d of None \<Rightarrow> Panic | Some ssc \<Rightarrow> Ok (ucast (ssc_bytes_per_interval ssc)))
      else if has_ssp_companion d then
        (case ed_sspc d of None \<Rightarrow> Panic | Some sspc \<Rightarrow> Ok (sspc_bytes_per_interval sspc))
      else if is_fullspeed speed_id \<and> is_interrupt d then Ok 64
      else if is_fullspeed speed_id \<and> is_isoch d then Ok 1024
      else if is_highspeed speed_id \<and> (is_interrupt d \<or> is_isoch d) \<or> is_superspeed d \<and> is_interrupt d
        then Ok (3 * 1024)
      else if is_superspeed d \<and> is_isoch d then Ok (48 * 1024)
      else Ok 0)"

definition avg_trb_len :: "endp_desc \<Rightarrow> (u16, errno) res" where
  "avg_trb_len d = (case endp_ty d of
      CtrlEp \<Rightarrow> Err EIO | BulkEp \<Rightarrow> Ok 3072 | IsochEp \<Rightarrow> Ok 3072 | InterruptEp \<Rightarrow> Ok 1024)"

definition primary_stream_count :: "u8 option \<Rightarrow> u8 \<Rightarrow> u8" where
  "primary_stream_count log_max log_max_psa_size = (case log_max of
      None \<Rightarrow> 0
    | Some l \<Rightarrow> if log_max_psa_size \<noteq> 0 then min l (log_max_psa_size + 1) - 1 else 0)"

record endp_fields =
  ef_mult :: u8
  ef_primary_streams :: u8
  ef_interval :: u8
  ef_ep_ty :: u8
  ef_max_burst :: u8
  ef_max_packet_size :: u16
  ef_avg_trb_len :: u16
  ef_max_esit_payload :: u32

text \<open>The fields in the order in which they are computed, with the assertions on their width.\<close>

definition endp_fields_of ::
  "'c xhci_env \<Rightarrow> u32 \<Rightarrow> dev_desc \<Rightarrow> endp_desc \<Rightarrow> (endp_fields, errno) res" where
  "endp_fields_of E speed_id dev d =
     (let streams = primary_stream_count (log_max_streams d) (cap_max_psa_size (xe_hcc_params1 E));
          mult = isoch_mult (cap_lec (xe_hcc_params2 E)) d;
          mps = endp_ctx_max_packet_size d
      in bind_r (endp_ctx_max_burst speed_id dev d) (\<lambda>burst.
         bind_r (endp_ctx_max_esit_payload speed_id dev d mps burst) (\<lambda>esit.
         bind_r (xhci_ep_type d) (\<lambda>ty.
         bind_r (avg_trb_len d) (\<lambda>avg.
         if ty AND 0x7 \<noteq> ty \<or> mult AND 0x3 \<noteq> mult \<or> ty = 0 then Panic
         else Ok \<lparr>ef_mult = mult, ef_primary_streams = streams, ef_interval = endp_ctx_interval speed_id d,
                  ef_ep_ty = ty, ef_max_burst = burst, ef_max_packet_size = mps, ef_avg_trb_len = avg,
                  ef_max_esit_payload = esit\<rparr>)))))"

text \<open>The endpoint context with these fields; 3 retries, and host initiate is not disabled.\<close>

definition endp_context :: "endp_fields \<Rightarrow> u64 \<Rightarrow> endpoint_context" where
  "endp_context f ring_ptr =
     \<lparr>ep_a = push_bit 8 (ucast (ef_mult f)) OR push_bit 10 (ucast (ef_primary_streams f))
         OR push_bit 15 (bool_word (ef_primary_streams f \<noteq> 0)) OR push_bit 16 (ucast (ef_interval f))
         OR push_bit 24 (ucast (ucast (drop_bit 16 (ef_max_esit_payload f AND 0x00FF0000)) :: u8)),
      ep_b = push_bit 1 3 OR push_bit 3 (ucast (ef_ep_ty f)) OR push_bit 7 (bool_word False)
         OR push_bit 8 (ucast (ef_max_burst f)) OR push_bit 16 (ucast (ef_max_packet_size f)),
      ep_trl = ucast ring_ptr,
      ep_trh = ucast (drop_bit 32 ring_ptr),
      ep_c = ucast (ef_avg_trb_len f) OR push_bit 16 (ucast (ucast (ef_max_esit_payload f) :: u16))\<rparr>"

subsection \<open>Configuring a device\<close>

text \<open>Writes through the guard of a port, and to the input context of a port.\<close>

definition modify_port :: "nat \<Rightarrow> (port_state \<Rightarrow> port_state) \<Rightarrow> ('c xhci, unit, errno) st" where
  "modify_port port f = (\<lambda>X. (Ok (), case xh_ports X port of
      None \<Rightarrow> X
    | Some ps \<Rightarrow> X\<lparr>xh_ports := (xh_ports X)(port \<mapsto> f ps)\<rparr>))"

definition modify_input :: "nat \<Rightarrow> (input_context \<Rightarrow> input_context) \<Rightarrow> ('c xhci, unit, errno) st" where
  "modify_input port f = modify_port port (\<lambda>ps. ps\<lparr>ps_input_context :=
     (ps_input_context ps)\<lparr>dma_data := map f (dma_data (ps_input_context ps))\<rparr>\<rparr>)"

text \<open>The number of endpoints and the highest device context index.\<close>

fun count_endpoints :: "endp_desc list \<Rightarrow> u8 \<Rightarrow> u8 \<Rightarrow> (u8 \<times> u8, errno) res" where
  "count_endpoints [] n entries = Ok (n, entries)"
| "count_endpoints (d # ds) n entries =
     bind_r (endp_num_to_dci (n + 1) d) (\<lambda>entry.
     count_endpoints ds (n + 1) (if entry > entries then entry else entries))"

definition begin_configure ::
  "'c xhci_env \<Rightarrow> nat \<Rightarrow> configure_endpoints_req \<Rightarrow> ('c xhci, u8 \<times> u8 \<times> u8, errno) st" where
  "begin_configure E port req =
     with_port_mut E EBADFD port (\<lambda>ps.
       bind_m (modify_port port (\<lambda>ps. ps\<lparr>ps_cfg_idx := Some (cer_config_desc req)\<rparr>)) (\<lambda>_.
       case ps_dev_desc ps of
         None \<Rightarrow> panic_m
       | Some d \<Rightarrow>
           if unat (cer_config_desc req) < length (dd_config_descs d) then
             let c = dd_config_descs d ! unat (cer_config_desc req)
             in bind_m (of_res (count_endpoints (concat (map if_endpoints (cd_interface_descs c))) 0 1))
                  (\<lambda>(n, entries).
                  if n \<ge> 31 then fail_m EIO else return_m (n, entries + 1, cd_configuration_value c))
           else fail_m EBADFD))"

definition write_slot_context ::
  "'c xhci_env \<Rightarrow> nat \<Rightarrow> configure_endpoints_req \<Rightarrow> u8 \<Rightarrow> u8 \<Rightarrow> ('c xhci, unit, errno) st" where
  "write_slot_context E port req entries configuration_value =
     with_port E EBADFD port (\<lambda>ps X. modify_input port (\<lambda>ic. ic\<lparr>ic_add := 1, ic_drop := 0,
       ic_device := (ic_device ic)\<lparr>dev_slot := (dev_slot (ic_device ic))\<lparr>slot_a :=
         (slot_a (dev_slot (ic_device ic)) AND NOT 0xF8000000) OR (push_bit 27 (ucast entries) AND 0xF8000000)\<rparr>\<rparr>,
       ic_control := (if xe_cie E (xh_ctl X) then
           push_bit 16 (ucast (case_option 0 id (cer_alternate_setting req)))
           OR push_bit 8 (ucast (case_option 0 id (cer_interface_desc req))) OR ucast configuration_value
         else 0)\<rparr>) X)"

text \<open>
  The ring of an endpoint, or its array of streams with one ring, and the pointer for the
  controller. What an endpoint had before is freed.
\<close>

definition drop_transfer :: "'c xhci_env \<Rightarrow> ring_or_streams \<Rightarrow> ('c xhci, unit, errno) st" where
  "drop_transfer E t = on_ctl (case t of
      PlainRing r \<Rightarrow> dma_drop (xe_mem E) (ring_trbs r)
    | StreamRings a \<Rightarrow> bind_m (dma_drop (xe_mem E) (sca_contexts a)) (\<lambda>_.
        drop_all (xe_mem E) (map ring_trbs (List.map_filter (sca_rings a) (map of_nat [0..<2 ^ 16])))))"

definition new_transfer ::
  "'c xhci_env \<Rightarrow> endp_desc \<Rightarrow> u8 \<Rightarrow> ('c xhci, ring_or_streams \<times> u64, errno) st" where
  "new_transfer E d primary_streams =
     (if log_max_streams d \<noteq> None then
        bind_m (on_ctl (stream_context_array_new (xe_mem E) (xe_ac64 E) (2 ^ (unat primary_streams + 1)))) (\<lambda>a.
        bind_m (on_failure_m (on_ctl (add_ring (xe_mem E) (xe_ac64 E) 1 True a))
                  (drop_transfer E (StreamRings a))) (\<lambda>a'.
        return_m (StreamRings a', sca_register a')))
      else
        bind_m (on_ctl (ring_new (xe_mem E) (xe_ac64 E) 16 True)) (\<lambda>r.
        return_m (PlainRing r, ring_register r)))"

definition replace_endpoint :: "'c xhci_env \<Rightarrow> nat \<Rightarrow> u8 \<Rightarrow> endpoint_state \<Rightarrow> ('c xhci, unit, errno) st" where
  "replace_endpoint E port e es = (\<lambda>X.
     let old = Option.bind (xh_ports X port) (\<lambda>ps. ps_endpoints ps e);
         X' = put_endpoint port e es X
     in (Ok (), case old of None \<Rightarrow> X' | Some o' \<Rightarrow> snd (drop_transfer E (es_transfer o') X')))"

definition configure_endpoint :: "'c xhci_env \<Rightarrow> nat \<Rightarrow> u32 \<Rightarrow> u8 \<Rightarrow> ('c xhci, unit, errno) st" where
  "configure_endpoint E port speed_id endp_idx =
     (let endp_num = endp_idx + 1
      in with_port_mut E EBADFD port (\<lambda>ps. case ps_dev_desc ps of
           None \<Rightarrow> panic_m
         | Some dev \<Rightarrow>
             bind_m (ok_or EIO (get_endp_desc ps endp_idx)) (\<lambda>d.
             bind_m (of_res (endp_num_to_dci endp_num d)) (\<lambda>endp_num_xhc.
             bind_m (of_res (endp_fields_of E speed_id dev d)) (\<lambda>f.
             bind_m (new_transfer E d (ef_primary_streams f)) (\<lambda>(t, ring_ptr).
             bind_m (on_failure_m (if ring_ptr AND 0xFFFFFFFFFFFFFF81 \<noteq> ring_ptr then panic_m else return_m ())
                       (drop_transfer E t)) (\<lambda>_.
             bind_m (replace_endpoint E port endp_num \<lparr>es_transfer = t, es_if = IfInit\<rparr>) (\<lambda>_.
             if ef_primary_streams f AND 0x1F \<noteq> ef_primary_streams f then panic_m
             else bind_m (modify_input port (\<lambda>ic. ic\<lparr>ic_add :=
                            ic_add ic OR push_bit (unat endp_num_xhc mod 32) 1\<rparr>)) (\<lambda>_.
               if 31 \<le> unat endp_num_xhc - 1 then fail_m EIO
               else modify_input port (\<lambda>ic. ic\<lparr>ic_device := (ic_device ic)\<lparr>dev_endpoints :=
                      (dev_endpoints (ic_device ic))[unat endp_num_xhc - 1 := endp_context f ring_ptr]\<rparr>\<rparr>))))))))))"

primrec configure_each :: "'c xhci_env \<Rightarrow> nat \<Rightarrow> u32 \<Rightarrow> nat list \<Rightarrow> ('c xhci, unit, errno) st" where
  "configure_each E port speed_id [] = return_m ()"
| "configure_each E port speed_id (i # is) =
     bind_m (configure_endpoint E port speed_id (of_nat i)) (\<lambda>_. configure_each E port speed_id is)"

definition send_configuration :: "'c xhci_env \<Rightarrow> nat \<Rightarrow> ('c xhci, unit, errno) st" where
  "send_configuration E port =
     with_port E EBADFD port (\<lambda>ps.
       bind_m (execute_command E (trb_configure_endpoint (ps_slot ps) (dma_phys (ps_input_context ps))))
         (\<lambda>(event, _). of_res (handle_event_trb event)))"

definition configure_endpoints_once ::
  "'c xhci_env \<Rightarrow> nat \<Rightarrow> nat \<Rightarrow> configure_endpoints_req \<Rightarrow> ('c xhci, unit, errno) st" where
  "configure_endpoints_once E fuel port req =
     bind_m (begin_configure E port req) (\<lambda>(n, entries, configuration_value).
     bind_m (\<lambda>X. (case xe_port_reg E port (xh_ctl X) of None \<Rightarrow> Panic | Some reg \<Rightarrow> Ok (port_speed reg), X))
       (\<lambda>port_speed_id.
     bind_m (of_res (lookup_psiv E fuel (of_nat port) port_speed_id)) (\<lambda>s.
     bind_m (ok_or EIO s) (\<lambda>speed_id.
     bind_m (write_slot_context E port req entries configuration_value) (\<lambda>_.
     bind_m (configure_each E port speed_id [0..<unat n]) (\<lambda>_.
     bind_m (send_configuration E port) (\<lambda>_.
     set_configuration E port configuration_value)))))))"

definition xhci_configure_endpoints :: "'c xhci_env \<Rightarrow> nat \<Rightarrow> nat \<Rightarrow> bytes \<Rightarrow> ('c xhci, unit, errno) st" where
  "xhci_configure_endpoints E fuel port json_buf =
     bind_m (ok_or EBADMSG (xe_configure_of_json E json_buf)) (\<lambda>req.
     if (cer_interface_desc req \<noteq> None) \<noteq> (cer_alternate_setting req \<noteq> None) then fail_m EBADMSG
     else
       bind_m (with_port E EBADFD port (\<lambda>ps. return_m (ps_cfg_idx ps = Some (cer_config_desc req)))) (\<lambda>already.
       bind_m (if \<not> already then configure_endpoints_once E fuel port req else return_m ()) (\<lambda>_.
       case (cer_interface_desc req, cer_alternate_setting req) of
         (Some interface_num, Some alternate_setting) \<Rightarrow> set_interface E port interface_num alternate_setting
       | _ \<Rightarrow> return_m ())))"

subsection \<open>Descriptors of a device have no companions\<close>

definition companionless :: "dev_desc \<Rightarrow> bool" where
  "companionless d \<longleftrightarrow> (\<forall>c \<in> set (dd_config_descs d). \<forall>i \<in> set (cd_interface_descs c).
     \<forall>e \<in> set (if_endpoints i). ed_ssc e = None)"

lemma collect_endpoints_companions:
  assumes "collect_endpoints n cls endps hids ds = (a, b, rest)" "\<forall>e \<in> set endps. ed_ssc e = None"
  shows "\<forall>e \<in> set a. ed_ssc e = None"
  using assms
  by (induction n cls endps hids ds rule: collect_endpoints.induct)
    (auto simp: endp_desc_from_def split: if_splits any_descriptor.splits)

lemma collect_interfaces_companions:
  assumes "collect_interfaces E port slot ds X = (Ok ifs, X')" "i \<in> set ifs" "e \<in> set (if_endpoints i)"
  shows "ed_ssc e = None"
  using assms
proof (induction E port slot ds arbitrary: ifs X X' rule: collect_interfaces.induct)
  case (2 E port slot d ds)
  show ?case
  proof (cases "\<exists>j. d = AnyInterface j")
    case True
    then obtain j where j: "d = AnyInterface j" by blast
    obtain a b rest where col: "collect_endpoints (unat (ifd_endpoints j)) (ifd_class j) [] [] ds = (a, b, rest)"
      by (cases "collect_endpoints (unat (ifd_endpoints j)) (ifd_class j) [] [] ds") auto
    from 2(2) j col obtain x xs Y Z where runs: "new_if_desc E port slot j a b X = (Ok x, Y)"
      "collect_interfaces E port slot rest Y = (Ok xs, Z)" "ifs = x # xs"
      by (auto simp: bind_m_Ok return_m_def)
    from runs(1) have "if_endpoints x = a" by (auto simp: new_if_desc_def bind_m_Ok return_m_def)
    then show ?thesis
      using 2(1) [OF j col [symmetric] refl runs(2)] runs(3) 2(3,4) collect_endpoints_companions [OF col] by auto
  next
    case False
    then show ?thesis using 2(2,3) by (cases d) (auto simp: return_m_def)
  qed
qed (simp add: return_m_def)

lemma get_conf_descs_companions:
  assumes "get_conf_descs E fuel port slot is X = (Ok cs, X')" "c \<in> set cs" "i \<in> set (cd_interface_descs c)"
    "e \<in> set (if_endpoints i)"
  shows "ed_ssc e = None"
  using assms
proof (induction "is" arbitrary: cs X)
  case (Cons k ks)
  then obtain x xs Y where runs: "get_conf_desc E fuel port slot (of_nat k) X = (Ok x, Y)"
    "get_conf_descs E fuel port slot ks Y = (Ok xs, X')" "cs = x # xs"
    by (auto simp: bind_m_Ok return_m_def)
  show ?case
  proof (cases "c = x")
    case True
    then show ?thesis
      using runs(1) Cons.prems(3,4) collect_interfaces_companions
      by (fastforce simp: get_conf_desc_def bind_m_Ok return_m_def panic_m_def Let_def of_res_def split: if_splits)
  next
    case False
    then show ?thesis using Cons.IH [OF runs(2)] runs(3) Cons.prems by auto
  qed
qed (simp add: return_m_def)

lemma get_desc_companionless:
  assumes "get_desc E fuel port slot X = (Ok d, X')"
  shows "companionless d"
  using assms get_conf_descs_companions
  by (fastforce simp: companionless_def get_desc_def bind_m_Ok return_m_def split: option.splits if_splits)

subsection \<open>Endpoints that cannot be configured\<close>

lemma count_endpoints_ok:
  assumes "unat n + length ds < 256"
  shows "\<exists>entries'. count_endpoints ds n entries = Ok (n + of_nat (length ds), entries')"
  using assms
proof (induction ds arbitrary: n entries)
  case (Cons d ds)
  then have "unat (n + 1) = unat n + 1" by (subst unat_plus_simple [THEN iffD1]) (auto simp: word_le_nat_alt unat_word_ariths)
  moreover have "n + 1 \<noteq> 0" using calculation by (metis Suc_eq_plus1 nat.simps(3) unat_0)
  ultimately show ?case
    using Cons.IH [of "n + 1"] Cons.prems
    by (cases "endp_num_to_dci (n + 1) d")
      (auto simp: endp_num_to_dci_def direction_of_def ac_simps split: if_splits)
qed simp

lemma no_companion_no_payload:
  assumes "ed_ssc e = None" "major_version dev \<noteq> 2 \<or> \<not> is_periodic e"
  shows "endp_ctx_max_esit_payload speed_id dev e mps burst = Panic"
  using assms by (auto simp: endp_ctx_max_esit_payload_def has_ssp_companion_def)

lemma no_companion_no_fields:
  assumes "ed_ssc e = None" "major_version dev \<noteq> 2 \<or> \<not> is_periodic e"
  shows "endp_fields_of E speed_id dev e = Panic"
  by (simp add: endp_fields_of_def Let_def endp_ctx_max_burst_def no_companion_no_payload [OF assms])

text \<open>The configuration up to the first endpoint.\<close>

lemma configure_first:
  assumes port: "xh_guards X = []" "xh_ports X port = Some ps" "ps_dev_desc ps = Some dev"
    and cfg: "unat (cer_config_desc req) < length (dd_config_descs dev)"
    and endps: "concat (map if_endpoints (cd_interface_descs (dd_config_descs dev ! unat (cer_config_desc req)))) = e # es"
      "length es < 30"
    and speed: "xe_port_reg E port (xh_ctl X) = Some reg"
      "lookup_psiv E fuel (of_nat port) (port_speed reg) = Ok (Some speed_id)"
    and none: "endp_fields_of E speed_id dev e = Panic"
  shows "fst (configure_endpoints_once E fuel port req X) = Panic"
proof -
  obtain n entries where n: "count_endpoints (e # es) 0 1 = Ok (n, entries)" "unat n = Suc (length es)"
    using count_endpoints_ok [of 0 "e # es" 1] endps(2) by (auto simp: unat_of_nat unat_word_ariths simp del: count_endpoints.simps)
  then have small: "\<not> 31 \<le> n" using endps(2) by (simp add: word_le_nat_alt)
  let ?X = "X\<lparr>xh_ports := (xh_ports X)(port \<mapsto> ps\<lparr>ps_cfg_idx := Some (cer_config_desc req)\<rparr>)\<rparr>"
  let ?v = "cd_configuration_value (dd_config_descs dev ! unat (cer_config_desc req))"
  have start: "begin_configure E port req X = (Ok (n, entries + 1, ?v), ?X)"
    using port cfg endps n(1) small
    by (simp add: begin_configure_def with_port_mut_def modify_port_def bind_m_def return_m_def of_res_def
        Let_def no_guards del: count_endpoints.simps)
  define X2 where "X2 = snd (write_slot_context E port req (entries + 1) ?v ?X)"
  have slot: "write_slot_context E port req (entries + 1) ?v ?X = (Ok (), X2)" "xh_guards X2 = []"
    "\<exists>ps2. xh_ports X2 port = Some ps2 \<and> ps_dev_desc ps2 = Some dev \<and> get_endp_desc ps2 0 = Some e"
    using port cfg endps
    by (simp_all add: X2_def write_slot_context_def with_port_def modify_input_def modify_port_def get_endp_desc_def
        Let_def)
  then have "fst (configure_endpoint E port speed_id 0 X2) = Panic"
    using none
    by (auto simp: configure_endpoint_def with_port_mut_def bind_m_def return_m_def of_res_def endp_num_to_dci_def
        direction_of_def)
  then have "fst (configure_each E port speed_id [0..<unat n] X2) = Panic"
    using n(2) by (auto simp: upt_conv_Cons bind_m_def simp del: upt_Suc split: prod.splits res.splits)
  then show ?thesis
    using start slot(1) speed
    by (auto simp: configure_endpoints_once_def bind_m_def of_res_def return_m_def split: prod.splits res.splits)
qed

text \<open>
  A configuration whose first endpoint is not a periodic endpoint of a
  USB 2 device, a bulk endpoint of a disk for instance, makes the daemon panic: the payload of such an
  endpoint is taken from its companion descriptor, which the descriptors that the daemon reads never have.
\<close>

theorem bulk_configuration_panics:
  assumes "xh_guards X = []" "xh_ports X port = Some ps" "ps_dev_desc ps = Some dev" "companionless dev"
    and "xe_configure_of_json E json = Some req"
    and "(cer_interface_desc req = None) = (cer_alternate_setting req = None)"
    and "ps_cfg_idx ps \<noteq> Some (cer_config_desc req)"
    and "unat (cer_config_desc req) < length (dd_config_descs dev)"
    and "concat (map if_endpoints (cd_interface_descs (dd_config_descs dev ! unat (cer_config_desc req)))) = e # es"
    and "length es < 30" and "major_version dev \<noteq> 2 \<or> \<not> is_periodic e"
    and "xe_port_reg E port (xh_ctl X) = Some reg"
    and "lookup_psiv E fuel (of_nat port) (port_speed reg) = Ok (Some speed_id)"
  shows "fst (xhci_configure_endpoints E fuel port json X) = Panic"
proof -
  have "e \<in> set (concat (map if_endpoints (cd_interface_descs (dd_config_descs dev ! unat (cer_config_desc req)))))"
    using assms(9) by simp
  then have "ed_ssc e = None" using assms(4,8) nth_mem by (fastforce simp: companionless_def)
  from no_companion_no_fields [OF this assms(11)]
  have "fst (configure_endpoints_once E fuel port req X) = Panic"
    by (rule configure_first [OF assms(1,2,3,8,9,10,12,13)])
  then show ?thesis
    using assms(1,2,5,6,7)
    by (auto simp: xhci_configure_endpoints_def with_port_def return_m_def bind_m_def no_guards
        split: prod.splits res.splits)
qed

subsection \<open>Endpoints that are configured\<close>

text \<open>The fields of an endpoint context as the controller reads them (xHCI section 6.2.3).\<close>

definition context_shows :: "endpoint_context \<Rightarrow> endp_fields \<Rightarrow> u64 \<Rightarrow> bool \<Rightarrow> bool" where
  "context_shows c f dequeue cycle \<longleftrightarrow>
     take_bit 2 (drop_bit 8 (ep_a c)) = ucast (ef_mult f)
   \<and> take_bit 5 (drop_bit 10 (ep_a c)) = ucast (ef_primary_streams f)
   \<and> bit (ep_a c) 15 = (ef_primary_streams f \<noteq> 0)
   \<and> take_bit 8 (drop_bit 16 (ep_a c)) = ucast (ef_interval f)
   \<and> take_bit 2 (drop_bit 1 (ep_b c)) = 3
   \<and> take_bit 3 (drop_bit 3 (ep_b c)) = ucast (ef_ep_ty f)
   \<and> \<not> bit (ep_b c) 7
   \<and> take_bit 8 (drop_bit 8 (ep_b c)) = ucast (ef_max_burst f)
   \<and> drop_bit 16 (ep_b c) = ucast (ef_max_packet_size f)
   \<and> (push_bit 32 (ucast (ep_trh c)) OR ucast (ep_trl c)) AND NOT 0xF = dequeue
   \<and> bit (ep_trl c) 0 = cycle
   \<and> take_bit 16 (ep_c c) = ucast (ef_avg_trb_len f)
   \<and> push_bit 16 (drop_bit 24 (ep_a c)) OR drop_bit 16 (ep_c c) = ef_max_esit_payload f"

lemma bit_below:
  fixes w :: "'a::len word"
  assumes "unat w < 2 ^ n" "bit w k"
  shows "k < n"
proof (rule ccontr)
  assume k: "\<not> k < n"
  have "take_bit n (unat w) = unat w" using assms(1) by (simp add: take_bit_nat_eq_self)
  then have "\<not> bit (unat w) k" using k by (metis bit_take_bit_iff)
  then show False using assms(2) bit_imp_le_length [OF assms(2)] by (simp add: bit_unsigned_iff)
qed

lemma bit_above: "unat w < 2 ^ n \<Longrightarrow> n \<le> k \<Longrightarrow> \<not> bit w k"
  using bit_below leD by blast

lemma payload_hi: "(ucast (drop_bit 16 (p AND 0x00FF0000)) :: u8) = ucast (drop_bit 16 (p :: u32))"
proof -
  have m: "(0x00FF0000 :: u32) = push_bit 16 (mask 8)" by (simp add: mask_eq_exp_minus_1)
  show ?thesis unfolding m by (rule bit_word_eqI) (simp add: bit_simps conj_commute)
qed

lemma retries_bits: "push_bit 1 (3 :: u32) = flag_at 1 True OR flag_at 2 True"
  by (simp add: flag_at_def bool_word_def)

lemma bit_ep_a:
  "bit (ep_a (endp_context f r)) k \<longleftrightarrow> k < 32 \<and> (8 \<le> k \<and> bit (ef_mult f) (k - 8)
     \<or> 10 \<le> k \<and> bit (ef_primary_streams f) (k - 10) \<or> k = 15 \<and> ef_primary_streams f \<noteq> 0
     \<or> 16 \<le> k \<and> bit (ef_interval f) (k - 16) \<or> 24 \<le> k \<and> bit (ef_max_esit_payload f) (k - 8))"
proof (cases "24 \<le> k")
  case True
  then have "16 + (k - 24) = k - 8" by simp
  with True show ?thesis
    unfolding endp_context_def payload_hi by (auto simp: bit_simps simp flip: flag_at_def)
next
  case False
  then show ?thesis
    unfolding endp_context_def payload_hi by (auto simp: bit_simps simp flip: flag_at_def)
qed

lemma bit_ep_b:
  "bit (ep_b (endp_context f r)) k \<longleftrightarrow> k < 32 \<and> (k = 1 \<or> k = 2 \<or> 3 \<le> k \<and> bit (ef_ep_ty f) (k - 3)
     \<or> 8 \<le> k \<and> bit (ef_max_burst f) (k - 8) \<or> 16 \<le> k \<and> bit (ef_max_packet_size f) (k - 16))"
proof (cases "k < 32")
  case True
  then show ?thesis
    unfolding endp_context_def retries_bits
    by (simp add: bit_simps less_imp_diff_less flip: flag_at_def)
next
  case False
  then show ?thesis
    using bit_imp_le_length [of "ep_b (endp_context f r)" k] by auto
qed

lemma bit_ep_c:
  "bit (ep_c (endp_context f r)) k \<longleftrightarrow> k < 32 \<and> (bit (ef_avg_trb_len f) k
     \<or> 16 \<le> k \<and> bit (ef_max_esit_payload f) (k - 16))"
  unfolding endp_context_def by (cases "16 \<le> k") (auto simp: bit_simps)

lemma field_eqI:
  fixes w :: u32 and v :: "'b::len word"
  assumes "\<And>k. k < n \<Longrightarrow> k < 32 \<Longrightarrow> bit w (s + k) = bit v k" and "\<And>k. bit v k \<Longrightarrow> k < n"
  shows "take_bit n (drop_bit s w) = ucast v"
proof (rule bit_word_eqI)
  fix k
  assume k: "k < LENGTH(32)"
  show "bit (take_bit n (drop_bit s w)) k = bit (ucast v :: u32) k"
    using assms(1) [of k] assms(2) [of k] k by (auto simp: bit_simps)
qed

lemma endp_context_words:
  assumes f: "unat (ef_mult f) < 2 ^ 2" "unat (ef_primary_streams f) < 2 ^ 5" "unat (ef_ep_ty f) < 2 ^ 3"
  shows "take_bit 2 (drop_bit 8 (ep_a (endp_context f r))) = ucast (ef_mult f)"
    "take_bit 5 (drop_bit 10 (ep_a (endp_context f r))) = ucast (ef_primary_streams f)"
    "take_bit 8 (drop_bit 16 (ep_a (endp_context f r))) = ucast (ef_interval f)"
    "take_bit 3 (drop_bit 3 (ep_b (endp_context f r))) = ucast (ef_ep_ty f)"
    "take_bit 8 (drop_bit 8 (ep_b (endp_context f r))) = ucast (ef_max_burst f)"
    "take_bit 16 (drop_bit 16 (ep_b (endp_context f r))) = ucast (ef_max_packet_size f)"
    "take_bit 16 (drop_bit 0 (ep_c (endp_context f r))) = ucast (ef_avg_trb_len f)"
proof -
  have above: "\<not> bit (ef_mult f) (Suc (Suc k))" "\<not> bit (ef_mult f) (8 + k)" "\<not> bit (ef_primary_streams f) (6 + k)"
    "\<not> bit (ef_ep_ty f) (5 + k)" "\<not> bit (ef_ep_ty f) (13 + k)" "\<not> bit (ef_max_burst f) (8 + k)" for k
    using f [THEN bit_above] bit_imp_le_length [of "ef_max_burst f" "8 + k"] by auto
  show "take_bit 2 (drop_bit 8 (ep_a (endp_context f r))) = ucast (ef_mult f)"
    by (rule field_eqI) (simp_all add: bit_ep_a bit_below [OF f(1)])
  show "take_bit 5 (drop_bit 10 (ep_a (endp_context f r))) = ucast (ef_primary_streams f)"
    by (rule field_eqI) (simp_all add: bit_ep_a above bit_below [OF f(2)])
  show "take_bit 8 (drop_bit 16 (ep_a (endp_context f r))) = ucast (ef_interval f)"
    by (rule field_eqI) (simp add: bit_ep_a above, use bit_imp_le_length in fastforce)
  show "take_bit 3 (drop_bit 3 (ep_b (endp_context f r))) = ucast (ef_ep_ty f)"
    by (rule field_eqI) (simp_all add: bit_ep_b bit_below [OF f(3)])
  show "take_bit 8 (drop_bit 8 (ep_b (endp_context f r))) = ucast (ef_max_burst f)"
    by (rule field_eqI) (simp add: bit_ep_b above, use bit_imp_le_length in fastforce)
  show "take_bit 16 (drop_bit 16 (ep_b (endp_context f r))) = ucast (ef_max_packet_size f)"
    by (rule field_eqI) (simp add: bit_ep_b above, use bit_imp_le_length in fastforce)
  show "take_bit 16 (drop_bit 0 (ep_c (endp_context f r))) = ucast (ef_avg_trb_len f)"
    by (rule field_eqI) (simp add: bit_ep_c, use bit_imp_le_length in fastforce)
qed

lemma endp_context_rest:
  assumes "unat (ef_mult f) < 2 ^ 2" "unat (ef_primary_streams f) < 2 ^ 5" "unat (ef_ep_ty f) < 2 ^ 3"
    and "unat (ef_max_esit_payload f) < 2 ^ 24"
  shows "bit (ep_a (endp_context f r)) 15 = (ef_primary_streams f \<noteq> 0)"
    "take_bit 2 (drop_bit 1 (ep_b (endp_context f r))) = 3"
    "\<not> bit (ep_b (endp_context f r)) 7"
    "push_bit 16 (drop_bit 24 (ep_a (endp_context f r))) OR drop_bit 16 (ep_c (endp_context f r))
      = ef_max_esit_payload f"
proof -
  show "bit (ep_a (endp_context f r)) 15 = (ef_primary_streams f \<noteq> 0)"
    using bit_above [OF assms(1), of 7] bit_above [OF assms(2), of 5] by (simp add: bit_ep_a)
  have "take_bit 2 (drop_bit 1 (ep_b (endp_context f r))) = mask 2"
    by (rule bit_word_eqI) (auto simp: bit_simps bit_ep_b less_2_cases_iff)
  then show "take_bit 2 (drop_bit 1 (ep_b (endp_context f r))) = 3" by (simp add: low_masks)
  show "\<not> bit (ep_b (endp_context f r)) 7"
    using bit_above [OF assms(3), of 4] by (simp add: bit_ep_b)
  show "push_bit 16 (drop_bit 24 (ep_a (endp_context f r))) OR drop_bit 16 (ep_c (endp_context f r))
      = ef_max_esit_payload f"
  proof (rule bit_word_eqI)
    fix k
    assume "k < LENGTH(32)"
    have "\<not> bit (ef_avg_trb_len f) (16 + k)" "16 \<le> k \<Longrightarrow> \<not> bit (ef_interval f) (k - 8)"
      "16 \<le> k \<Longrightarrow> \<not> bit (ef_mult f) k" "16 \<le> k \<Longrightarrow> \<not> bit (ef_primary_streams f) (k - 2)"
      "24 \<le> k \<Longrightarrow> \<not> bit (ef_max_esit_payload f) k"
      using bit_imp_le_length [of "ef_avg_trb_len f" "16 + k"] bit_imp_le_length [of "ef_interval f" "k - 8"]
        assms(1,2,4) [THEN bit_above] by auto
    then show "bit (push_bit 16 (drop_bit 24 (ep_a (endp_context f r))) OR drop_bit 16 (ep_c (endp_context f r))) k
        = bit (ef_max_esit_payload f) k"
      using \<open>k < LENGTH(32)\<close>
      by (cases "16 \<le> k"; cases "24 \<le> k") (simp_all add: bit_simps bit_ep_a bit_ep_c)
  qed
qed

lemma pointer_words: "push_bit 32 (ucast (ucast (drop_bit 32 p) :: u32)) OR ucast (ucast p :: u32) = (p :: u64)"
proof (rule bit_word_eqI)
  fix k
  assume "k < LENGTH(64)"
  then show "bit (push_bit 32 (ucast (ucast (drop_bit 32 p) :: u32)) OR ucast (ucast p :: u32) :: u64) k = bit p k"
    by (cases "32 \<le> k") (auto simp: bit_simps)
qed

lemma aligned_pointer:
  fixes p :: u64
  assumes "p AND 0x7F = 0"
  shows "(p OR 1) AND 0xFFFFFFFFFFFFFF81 = p OR 1" "(p OR 1) AND NOT 0xF = p" "bit (p OR 1) 0"
proof -
  have "p AND mask 7 = 0" using assms by (simp add: low_masks)
  then have "\<not> bit (p AND mask 7) k" for k by simp
  then have low: "k < 7 \<Longrightarrow> \<not> bit p k" for k by (metis bit_and_iff bit_mask_iff bit_imp_possible_bit)
  define M :: u64 where "M = push_bit 1 (mask 6)"
  have bits: "bit M k \<longleftrightarrow> 1 \<le> k \<and> k < 7" for k
    unfolding M_def bit_push_bit_iff bit_mask_iff by auto
  have m: "(0xFFFFFFFFFFFFFF81 :: u64) = NOT M" "(0xF :: u64) = mask 4"
    by (simp_all add: M_def mask_eq_exp_minus_1)
  show "(p OR 1) AND 0xFFFFFFFFFFFFFF81 = p OR 1"
    unfolding m by (rule bit_word_eqI) (auto simp: bit_or_iff bit_and_iff bit_not_iff bits bit_1_iff low)
  show "(p OR 1) AND NOT 0xF = p"
    unfolding m by (rule bit_word_eqI) (auto simp: bit_or_iff bit_and_iff bit_not_iff bit_mask_iff bit_1_iff low)
  show "bit (p OR 1) 0" by (simp add: bit_simps)
qed

lemma endp_context_shows:
  assumes "unat (ef_mult f) < 2 ^ 2" "unat (ef_primary_streams f) < 2 ^ 5" "unat (ef_ep_ty f) < 2 ^ 3"
    and "unat (ef_max_esit_payload f) < 2 ^ 24" and "p AND 0x7F = 0"
  shows "context_shows (endp_context f (p OR 1)) f p True"
proof -
  have "drop_bit 16 w = take_bit 16 (drop_bit 16 w)" for w :: u32
    by (rule bit_word_eqI) (auto simp: bit_simps dest: bit_imp_le_length)
  moreover have "ep_trl (endp_context f (p OR 1)) = ucast (p OR 1)"
    "ep_trh (endp_context f (p OR 1)) = ucast (drop_bit 32 (p OR 1))"
    by (simp_all add: endp_context_def)
  moreover have "bit (ucast (p OR 1) :: u32) 0" by (simp add: bit_simps)
  ultimately show ?thesis
    using endp_context_words [OF assms(1-3), of "p OR 1"] endp_context_rest [OF assms(1-4), of "p OR 1"]
      aligned_pointer(2) [OF assms(5)] pointer_words [of "p OR 1"]
    unfolding context_shows_def by simp
qed

lemma replace_endpoint_eq:
  "\<exists>c. replace_endpoint E port e es X = (Ok (), (put_endpoint port e es X)\<lparr>xh_ctl := c\<rparr>)"
proof (cases "Option.bind (xh_ports X port) (\<lambda>ps. ps_endpoints ps e)")
  case None
  then show ?thesis
    by (intro exI [of _ "xh_ctl X"]) (simp add: replace_endpoint_def put_endpoint_def split: option.split)
next
  case (Some a)
  then show ?thesis
    by (cases "fst (drop_transfer E (es_transfer a) (put_endpoint port e es X))")
      (auto simp: replace_endpoint_def drop_transfer_def on_ctl_def split: prod.split)
qed

text \<open>The fields of an interrupt endpoint of a USB 2 device.\<close>

lemma interrupt_fields:
  assumes "major_version dev = 2" "is_interrupt d" "is_periodic d" "ed_ssc d = None"
  shows "\<exists>f. endp_fields_of E speed_id dev d = Ok f \<and> ef_mult f = 0 \<and> ef_primary_streams f = 0
    \<and> ef_interval f = (if is_lowspeed speed_id \<or> is_fullspeed speed_id
        then 10 - of_nat (leading_zeros (ed_interval d)) else 0)
    \<and> ef_ep_ty f = (if direction_of d = DirIn then 7 else 3)
    \<and> ef_max_packet_size f = ed_max_packet_size d AND 0x7FF \<and> ef_avg_trb_len f = 1024
    \<and> unat (ef_max_esit_payload f) < 2 ^ 24"
proof -
  have ty: "endp_ty d = InterruptEp" using assms(2) by (simp add: is_interrupt_def)
  then have kinds: "\<not> is_isoch d" "\<not> is_bulk d" "\<not> is_control d"
    by (simp_all add: is_isoch_def is_bulk_def is_control_def)
  define b :: u8 where "b = (if is_highspeed speed_id then ucast (drop_bit 11 (ed_max_packet_size d AND 0x0C00)) else 0)"
  have burst: "endp_ctx_max_burst speed_id dev d = Ok b"
    using assms kinds by (simp add: endp_ctx_max_burst_def is_superspeed_def b_def)
  let ?p = "endp_ctx_max_packet_size d"
  have esit: "endp_ctx_max_esit_payload speed_id dev d ?p b = Ok (ucast ?p * (ucast b + 1))"
    using assms by (simp add: endp_ctx_max_esit_payload_def)
  have small: "unat ?p < 65536" "unat b < 256"
    using unsigned_less [of ?p, where ?'a = nat] unsigned_less [of b, where ?'a = nat] by simp_all
  then have "unat (ucast ?p :: u32) = unat ?p" "unat (ucast b + 1 :: u32) = unat b + 1"
    by (simp_all add: unsigned_ucast_eq unat_word_ariths take_bit_nat_eq_self)
  moreover have "unat ?p * (unat b + 1) \<le> 65535 * 256" using small by (intro mult_le_mono) simp_all
  ultimately have bound: "unat (ucast ?p * (ucast b + 1) :: u32) < 2 ^ 24" by (simp add: unat_word_ariths)
  have "xhci_ep_type d = Ok (if direction_of d = DirIn then 7 else 3)"
    using assms(2) kinds by (auto simp: xhci_ep_type_def direction_of_def)
  moreover have "endp_ctx_interval speed_id d = (if is_lowspeed speed_id \<or> is_fullspeed speed_id
        then 10 - of_nat (leading_zeros (ed_interval d)) else 0)"
    using assms(2,4) kinds by (simp add: endp_ctx_interval_def is_superspeed_def is_superspeedplus_def)
  moreover have "log_max_streams d = None" "isoch_mult lec d = 0" for lec
    using assms(4) kinds by (simp_all add: log_max_streams_def isoch_mult_def)
  ultimately show ?thesis
    using burst esit bound ty
    by (simp add: endp_fields_of_def Let_def avg_trb_len_def primary_stream_count_def endp_ctx_max_packet_size_def)
qed


subsection \<open>Two devices\<close>

text \<open>
  The disk of the simulated controller before it is configured, at high speed (speed 3), and a mouse with
  an interrupt endpoint.
\<close>

definition sim_configure :: configure_endpoints_req where
  "sim_configure = \<lparr>cer_config_desc = 0, cer_interface_desc = None, cer_alternate_setting = None\<rparr>"

definition sim_fast_env :: "sim xhci_env" where
  "sim_fast_env = (sim_env 1 0 [])\<lparr>xe_port_reg := (\<lambda>_ _. Some 0xC01), xe_configure_of_json := (\<lambda>_. Some sim_configure)\<rparr>"

definition sim_port :: "dev_desc \<Rightarrow> port_state" where
  "sim_port d = \<lparr>ps_slot = 1, ps_cfg_idx = None, ps_input_context = sim_input, ps_dev_desc = Some d,
     ps_endpoints = Map.empty\<rparr>"

definition sim_attached :: "port_state \<Rightarrow> sim xhci" where
  "sim_attached ps = sim_xhci\<lparr>xh_ports := [1 \<mapsto> ps]\<rparr>"

lemma sim_high_speed: "lookup_psiv sim_fast_env 1 port (port_speed 0xC01) = Ok (Some 0x01E00023)"
  by (simp add: lookup_psiv_def supported_protocol_speeds_def supported_protocol_def sim_fast_env_def sim_env_def
      cap_ext_caps_ptr_in_dwords_def ext_cap_next_def default_supp_proto_speeds_def port_speed_def psiv_def)

lemma sim_no_guards: "xh_guards (sim_attached ps) = []" "xh_ports (sim_attached ps) 1 = Some ps"
  by (simp_all add: sim_attached_def sim_xhci_def)

theorem bulk_configuration_panics_witness:
  "fst (xhci_configure_endpoints sim_fast_env 1 1 [] (sim_attached (sim_port sim_device))) = Panic"
  by (rule bulk_configuration_panics [OF sim_no_guards, where dev = sim_device and req = sim_configure
        and e = sim_endp and es = "[]" and reg = "0xC01" and speed_id = "0x01E00023"])
    (use sim_high_speed [of 1] in \<open>simp_all add: sim_port_def companionless_def sim_device_def sim_endp_def
      sim_fast_env_def sim_configure_def is_periodic_def is_interrupt_def is_isoch_def endp_ty_def\<close>)

definition mouse_endp :: endp_desc where
  "mouse_endp = \<lparr>ed_kind = 5, ed_address = 0x81, ed_attributes = 3, ed_max_packet_size = 4,
     ed_interval = 10, ed_ssc = None, ed_sspc = None\<rparr>"

definition mouse_device :: dev_desc where
  "mouse_device = sim_device\<lparr>dd_config_descs :=
     [\<lparr>cd_kind = 2, cd_configuration_value = 1, cd_configuration = None, cd_attributes = 0x80,
        cd_max_power = 50, cd_interface_descs =
          [\<lparr>if_kind = 4, if_number = 0, if_alternate_setting = 0, if_class = 3, if_sub_class = 1,
             if_protocol = 2, if_interface_str = None, if_endpoints = [mouse_endp], if_hid_descs = []\<rparr>]\<rparr>]\<rparr>"

definition mouse_port :: port_state where
  "mouse_port = (sim_port mouse_device)\<lparr>ps_cfg_idx := Some 0\<rparr>"


end
