(* ===== verification/Xhci_Scheme.thy ===== *)
theory Xhci_Scheme
  imports Xhci_Configure Handle_Table Rust_Fmt
begin

text \<open>
  The files that the xHCI daemon serves (\<open>xhcid/src/xhci/scheme.rs\<close>): the names of the files, the
  table of open handles, and the operations on them, which end in the handlers of the endpoints, of
  the port requests and of the configuration.

  The regular expressions are matchers: \<open>\d\<close> stands for the ASCII digits, since the conversion
  of any other digit to a number fails and the path is refused all the same. Offsets are natural numbers below \<open>2 ^ 64\<close>; signed sums
  wrap around.
\<close>

subsection \<open>Names\<close>

datatype scheme_parameters =
    ParTopLevel
  | ParPort nat
  | ParPortDesc nat
  | ParPortState nat
  | ParPortReq nat
  | ParEndpoints nat
  | ParEndpoint nat u8 string
  | ParConfigureEndpoints nat

datatype handle_type = DirectoryType | FileType | CharacterType

definition port_name :: "nat \<Rightarrow> string \<Rightarrow> string" where
  "port_name n rest = ''port'' @ dec n @ rest"

fun to_scheme :: "xhci_handle \<Rightarrow> string" where
  "to_scheme (TopLevel _ _) = []"
| "to_scheme (PortHandle n _ _) = port_name n []"
| "to_scheme (PortDesc n _ _) = port_name n ''/descriptors''"
| "to_scheme (PortStateHandle n _) = port_name n ''/state''"
| "to_scheme (PortReqHandle n _) = port_name n ''/request''"
| "to_scheme (EndpointsHandle n _ _) = port_name n ''/endpoints''"
| "to_scheme (EndpointHandle n e EpData) = port_name n (''/endpoints/'' @ dec (unat e) @ ''/data'')"
| "to_scheme (EndpointHandle n e EpCtl) = port_name n (''/endpoints/'' @ dec (unat e) @ ''/ctl'')"
| "to_scheme (EndpointHandle n e (EpRoot _ _)) = port_name n (''/endpoints/'' @ dec (unat e))"
| "to_scheme (ConfigureEndpointsHandle n) = port_name n ''/configure''"

fun get_handle_type :: "xhci_handle \<Rightarrow> (handle_type, errno) res" where
  "get_handle_type (TopLevel _ _) = Ok DirectoryType"
| "get_handle_type (PortHandle _ _ _) = Ok DirectoryType"
| "get_handle_type (EndpointsHandle _ _ _) = Ok DirectoryType"
| "get_handle_type (PortDesc _ _ _) = Ok FileType"
| "get_handle_type (PortReqHandle _ (WaitingForDeviceBytes _ _)) = Ok CharacterType"
| "get_handle_type (PortReqHandle _ (WaitingForHostBytes _ _)) = Ok CharacterType"
| "get_handle_type (PortReqHandle _ Tmp) = Panic"
| "get_handle_type (PortReqHandle _ (TmpSetup _)) = Panic"
| "get_handle_type (PortStateHandle _ _) = Ok CharacterType"
| "get_handle_type (PortReqHandle _ ReqInit) = Ok CharacterType"
| "get_handle_type (ConfigureEndpointsHandle _) = Ok CharacterType"
| "get_handle_type (EndpointHandle _ _ EpData) = Ok CharacterType"
| "get_handle_type (EndpointHandle _ _ EpCtl) = Ok CharacterType"
| "get_handle_type (EndpointHandle _ _ (EpRoot _ _)) = Ok DirectoryType"

fun get_buf_len :: "xhci_handle \<Rightarrow> nat option" where
  "get_buf_len (TopLevel _ buf) = Some (length buf)"
| "get_buf_len (PortHandle _ _ buf) = Some (length buf)"
| "get_buf_len (EndpointsHandle _ _ buf) = Some (length buf)"
| "get_buf_len (PortDesc _ _ buf) = Some (length buf)"
| "get_buf_len (PortReqHandle _ (WaitingForDeviceBytes b _)) = Some (length (dma_data b))"
| "get_buf_len (PortReqHandle _ (WaitingForHostBytes b _)) = Some (length (dma_data b))"
| "get_buf_len (EndpointHandle _ _ (EpRoot _ buf)) = Some (length buf)"
| "get_buf_len _ = None"

text \<open>The parts of the patterns: a fixed text, and one to three digits that something else follows.\<close>

definition strip_prefix :: "string \<Rightarrow> string \<Rightarrow> string option" where
  "strip_prefix p s = (if take (length p) s = p then Some (drop (length p) s) else None)"

definition match_digits :: "string \<Rightarrow> (string \<times> string) option" where
  "match_digits s =
     (let ds = takeWhile is_digit s
      in if 1 \<le> length ds \<and> length ds \<le> 3 then Some (ds, dropWhile is_digit s) else None)"

definition match_port :: "string \<Rightarrow> (string \<times> string) option" where
  "match_port s = Option.bind (strip_prefix ''port'' s) match_digits"

definition regex_port :: "string \<Rightarrow> string \<Rightarrow> string option" where
  "regex_port rest s = Option.bind (match_port s) (\<lambda>(ds, t). if t = rest then Some ds else None)"

definition match_endpoint :: "string \<Rightarrow> (string \<times> string \<times> string) option" where
  "match_endpoint s =
     Option.bind (match_port s) (\<lambda>(ds, t).
     Option.bind (strip_prefix ''/endpoints/'' t) (\<lambda>u.
     Option.bind (match_digits u) (\<lambda>(es, v). Some (ds, es, v))))"

definition regex_port_specific_endpoint :: "string \<Rightarrow> (string \<times> string) option" where
  "regex_port_specific_endpoint s =
     Option.bind (match_endpoint s) (\<lambda>(ds, es, v). if v = [] then Some (ds, es) else None)"

text \<open>This pattern is not anchored at the start: it is tried at every position.\<close>

fun regex_port_sub_endpoint :: "string \<Rightarrow> (string \<times> string \<times> string) option" where
  "regex_port_sub_endpoint s =
     (case Option.bind (match_endpoint s) (\<lambda>(ds, es, v).
             if v = ''/ctl'' \<or> v = ''/data'' then Some (ds, es, tl v) else None) of
        Some m \<Rightarrow> Some m
      | None \<Rightarrow> (case s of [] \<Rightarrow> None | _ # t \<Rightarrow> regex_port_sub_endpoint t))"

declare regex_port_sub_endpoint.simps [simp del]

definition parse_or :: "nat \<Rightarrow> string \<Rightarrow> (nat, errno) res" where
  "parse_or bound s = (case parse_unsigned bound s of None \<Rightarrow> Err ENOENT | Some n \<Rightarrow> Ok n)"

definition port_params :: "(nat \<Rightarrow> scheme_parameters) \<Rightarrow> string \<Rightarrow> (scheme_parameters, errno) res" where
  "port_params f ds = bind_r (parse_or (2 ^ 64) ds) (\<lambda>n. Ok (f n))"

definition endpoint_params :: "string \<Rightarrow> string \<Rightarrow> string \<Rightarrow> (scheme_parameters, errno) res" where
  "endpoint_params ds es ty =
     bind_r (parse_or (2 ^ 64) ds) (\<lambda>n. bind_r (parse_or 256 es) (\<lambda>e. Ok (ParEndpoint n (of_nat e) ty)))"

definition from_scheme :: "string \<Rightarrow> (scheme_parameters, errno) res" where
  "from_scheme s =
     (case regex_port ''/configure'' s of Some ds \<Rightarrow> port_params ParConfigureEndpoints ds | None \<Rightarrow>
      case regex_port ''/descriptors'' s of Some ds \<Rightarrow> port_params ParPortDesc ds | None \<Rightarrow>
      case regex_port ''/state'' s of Some ds \<Rightarrow> port_params ParPortState ds | None \<Rightarrow>
      case regex_port ''/request'' s of Some ds \<Rightarrow> port_params ParPortReq ds | None \<Rightarrow>
      case regex_port ''/endpoints'' s of Some ds \<Rightarrow> port_params ParEndpoints ds | None \<Rightarrow>
      case regex_port_specific_endpoint s of Some (ds, es) \<Rightarrow> endpoint_params ds es ''root'' | None \<Rightarrow>
      case regex_port_sub_endpoint s of Some (ds, es, ty) \<Rightarrow> endpoint_params ds es ty | None \<Rightarrow>
      if s = [] then Ok ParTopLevel else Err ENOENT)"

subsection \<open>Opening\<close>

definition connected :: "u32 \<Rightarrow> bool" where
  "connected reg \<longleftrightarrow> reg AND port_ccs \<noteq> 0"

definition top_level_contents :: "'c xhci_env \<Rightarrow> 'c \<Rightarrow> string" where
  "top_level_contents E c = concat (map (\<lambda>i. port_name i [CHR 0x0A])
     (filter (\<lambda>i. case xe_port_reg E i c of None \<Rightarrow> False | Some reg \<Rightarrow> connected reg) [0..<xe_port_count E]))"

definition open_handle_top_level :: "'c xhci_env \<Rightarrow> u64 \<Rightarrow> ('c xhci, xhci_handle, errno) st" where
  "open_handle_top_level E flags =
     (if flags AND o_directory \<noteq> 0 \<or> flags AND o_stat \<noteq> 0 then
        (\<lambda>X. (Ok (TopLevel 0 (str_bytes (top_level_contents E (xh_ctl X)))), X))
      else fail_m EISDIR)"

definition port_desc_json :: "'c xhci_env \<Rightarrow> nat \<Rightarrow> ('c xhci, bytes, errno) st" where
  "port_desc_json E port = with_port E ENOENT port (\<lambda>ps. ok_or EIO (xe_json_of_dev_desc E (ps_dev_desc ps)))"

text \<open>Files that are not directories.\<close>

definition no_directory :: "u64 \<Rightarrow> errno \<Rightarrow> ('c xhci, 'a, errno) st \<Rightarrow> ('c xhci, 'a, errno) st" where
  "no_directory flags e m = (if flags AND o_directory \<noteq> 0 \<and> flags AND o_stat = 0 then fail_m e else m)"

definition open_handle_port_descriptors :: "'c xhci_env \<Rightarrow> nat \<Rightarrow> u64 \<Rightarrow> ('c xhci, xhci_handle, errno) st" where
  "open_handle_port_descriptors E port flags = no_directory flags ENOTDIR
     (bind_m (port_desc_json E port) (\<lambda>contents. return_m (PortDesc port 0 contents)))"

definition xhci_slot_state :: "'c xhci_env \<Rightarrow> nat \<Rightarrow> ('c xhci, u8, errno) st" where
  "xhci_slot_state E slot = (\<lambda>X. (case xe_device_context E slot (xh_ctl X) of
      None \<Rightarrow> Panic | Some ctx \<Rightarrow> Ok (slot_state (dev_slot ctx)), X))"

definition open_handle_port :: "'c xhci_env \<Rightarrow> nat \<Rightarrow> u64 \<Rightarrow> ('c xhci, xhci_handle, errno) st" where
  "open_handle_port E port flags =
     (if flags AND o_directory \<noteq> 0 \<or> flags AND o_stat \<noteq> 0 then
        bind_m (with_port E ENOENT port (\<lambda>ps. xhci_slot_state E (unat (ps_slot ps)))) (\<lambda>state.
        return_m (PortHandle port 0 (str_bytes (''descriptors'' @ [CHR 0x0A] @ ''endpoints'' @ [CHR 0x0A]
          @ (if state \<noteq> slot_state_u8 slot_state_tag.Configured then ''configure'' @ [CHR 0x0A] else [])))))
      else fail_m EISDIR)"

definition open_handle_port_state :: "nat \<Rightarrow> u64 \<Rightarrow> ('c xhci, xhci_handle, errno) st" where
  "open_handle_port_state port flags = no_directory flags ENOTDIR (return_m (PortStateHandle port 0))"

definition endpoint_keys :: "port_state \<Rightarrow> u8 list" where
  "endpoint_keys ps = filter (\<lambda>e. ps_endpoints ps e \<noteq> None) (map of_nat [0..<256])"

definition open_handle_port_endpoints :: "'c xhci_env \<Rightarrow> nat \<Rightarrow> u64 \<Rightarrow> ('c xhci, xhci_handle, errno) st" where
  "open_handle_port_endpoints E port flags =
     (if flags AND o_directory = 0 \<and> flags AND o_stat = 0 then fail_m EISDIR
      else with_port E ENOENT port (\<lambda>ps. return_m (EndpointsHandle port 0
        (str_bytes (concat (map (\<lambda>e. dec (unat e) @ [CHR 0x0A]) (endpoint_keys ps)))))))"

definition open_handle_endpoint_root :: "'c xhci_env \<Rightarrow> nat \<Rightarrow> u8 \<Rightarrow> u64 \<Rightarrow> ('c xhci, xhci_handle, errno) st" where
  "open_handle_endpoint_root E port e flags =
     (if flags AND o_directory = 0 \<and> flags AND o_stat = 0 then fail_m EISDIR
      else with_port_mut E ENOENT port (\<lambda>ps.
        if ps_endpoints ps e = None then fail_m ENOENT
        else return_m (EndpointHandle port e
          (EpRoot 0 (str_bytes (''ctl'' @ [CHR 0x0A] @ ''data'' @ [CHR 0x0A]))))))"

definition open_handle_single_endpoint ::
  "'c xhci_env \<Rightarrow> nat \<Rightarrow> u8 \<Rightarrow> string \<Rightarrow> u64 \<Rightarrow> ('c xhci, xhci_handle, errno) st" where
  "open_handle_single_endpoint E port e ty flags =
     (if ty = ''root'' then open_handle_endpoint_root E port e flags
      else if ty = ''ctl'' \<or> ty = ''data'' then no_directory flags EISDIR
        (with_port E ENOENT port (\<lambda>ps.
           if ps_endpoints ps e = None then fail_m ENOENT
           else return_m (EndpointHandle port e (if ty = ''ctl'' then EpCtl else EpData))))
      else panic_m)"

definition open_handle_configure_endpoints :: "nat \<Rightarrow> u64 \<Rightarrow> ('c xhci, xhci_handle, errno) st" where
  "open_handle_configure_endpoints port flags = no_directory flags ENOTDIR
     (if flags AND o_rdwr \<noteq> o_wronly \<and> flags AND o_stat = 0 then fail_m EACCES
      else return_m (ConfigureEndpointsHandle port))"

definition open_handle_port_request :: "nat \<Rightarrow> u64 \<Rightarrow> ('c xhci, xhci_handle, errno) st" where
  "open_handle_port_request port flags = no_directory flags ENOTDIR (return_m (PortReqHandle port ReqInit))"

fun open_parameters :: "'c xhci_env \<Rightarrow> u64 \<Rightarrow> scheme_parameters \<Rightarrow> ('c xhci, xhci_handle, errno) st" where
  "open_parameters E flags ParTopLevel = open_handle_top_level E flags"
| "open_parameters E flags (ParPort n) = open_handle_port E n flags"
| "open_parameters E flags (ParPortDesc n) = open_handle_port_descriptors E n flags"
| "open_parameters E flags (ParPortState n) = open_handle_port_state n flags"
| "open_parameters E flags (ParPortReq n) = open_handle_port_request n flags"
| "open_parameters E flags (ParEndpoints n) = open_handle_port_endpoints E n flags"
| "open_parameters E flags (ParEndpoint n e ty) = open_handle_single_endpoint E n e ty flags"
| "open_parameters E flags (ParConfigureEndpoints n) = open_handle_configure_endpoints n flags"

definition xhci_add_handle :: "xhci_handle \<Rightarrow> 'c xhci \<Rightarrow> nat \<times> 'c xhci" where
  "xhci_add_handle h X = (let fd = xh_next_handle X
     in (fd, X\<lparr>xh_next_handle := fd + 1, xh_handles := (xh_handles X)(fd \<mapsto> h)\<rparr>))"

definition xhci_open :: "'c xhci_env \<Rightarrow> string \<Rightarrow> u64 \<Rightarrow> nat \<Rightarrow> ('c xhci, nat, errno) st" where
  "xhci_open E path flags uid =
     (if uid \<noteq> 0 then fail_m EACCES
      else bind_m (of_res (from_scheme path)) (\<lambda>p.
        bind_m (open_parameters E flags p) (\<lambda>h X. case xhci_add_handle h X of (fd, X') \<Rightarrow> (Ok fd, X'))))"

subsection \<open>Operations on a handle\<close>

definition with_handle :: "nat \<Rightarrow> (xhci_handle \<Rightarrow> ('c xhci, 'a, errno) st) \<Rightarrow> ('c xhci, 'a, errno) st" where
  "with_handle fd body = (\<lambda>X. case xh_handles X fd of None \<Rightarrow> (Err EBADF, X) | Some h \<Rightarrow> body h X)"

definition put_handle :: "nat \<Rightarrow> xhci_handle \<Rightarrow> 'c xhci \<Rightarrow> 'c xhci" where
  "put_handle fd h X = X\<lparr>xh_handles := (xh_handles X)(fd \<mapsto> h)\<rparr>"

record stat =
  st_mode :: u16
  st_size :: nat

definition mode_of :: "handle_type \<Rightarrow> u16" where
  "mode_of t = (case t of DirectoryType \<Rightarrow> 0x4000 | FileType \<Rightarrow> 0x8000 | CharacterType \<Rightarrow> 0x2000)"

definition xhci_fstat :: "nat \<Rightarrow> stat \<Rightarrow> ('c xhci, stat, errno) st" where
  "xhci_fstat fd st = with_handle fd (\<lambda>h.
     bind_m (of_res (get_handle_type h)) (\<lambda>t.
     return_m \<lparr>st_mode = mode_of t OR (case h of ConfigureEndpointsHandle _ \<Rightarrow> 0x80 | _ \<Rightarrow> 0),
               st_size = (case get_buf_len h of None \<Rightarrow> st_size st | Some n \<Rightarrow> n)\<rparr>))"

text \<open>
  The name goes to the start of the buffer, and a buffer that is too short for it fails the
  expectation. The answer is the end of the cursor over the buffer.
\<close>

definition xhci_fpath :: "nat \<Rightarrow> ('c xhci \<times> bytes, nat, errno) st" where
  "xhci_fpath fd = (\<lambda>(X, buf). case xh_handles X fd of
      None \<Rightarrow> (Err EBADF, (X, buf))
    | Some h \<Rightarrow>
        let name = str_bytes (to_scheme h)
        in (if length name \<le> length buf then Ok (length buf) else Panic, (X, fill_buffer buf name)))"

text \<open>The offset and the contents of a handle to a directory or a fixed file.\<close>

fun contents_of :: "xhci_handle \<Rightarrow> (nat \<times> bytes) option" where
  "contents_of (TopLevel off buf) = Some (off, buf)"
| "contents_of (PortHandle _ off buf) = Some (off, buf)"
| "contents_of (PortDesc _ off buf) = Some (off, buf)"
| "contents_of (EndpointsHandle _ off buf) = Some (off, buf)"
| "contents_of (EndpointHandle _ _ (EpRoot off buf)) = Some (off, buf)"
| "contents_of _ = None"

fun set_offset :: "nat \<Rightarrow> xhci_handle \<Rightarrow> xhci_handle" where
  "set_offset off (TopLevel _ buf) = TopLevel off buf"
| "set_offset off (PortHandle n _ buf) = PortHandle n off buf"
| "set_offset off (PortDesc n _ buf) = PortDesc n off buf"
| "set_offset off (EndpointsHandle n _ buf) = EndpointsHandle n off buf"
| "set_offset off (EndpointHandle n e (EpRoot _ buf)) = EndpointHandle n e (EpRoot off buf)"
| "set_offset off (PortStateHandle n _) = PortStateHandle n off"
| "set_offset off h = h"

definition seek_to :: "nat \<Rightarrow> nat \<Rightarrow> int \<Rightarrow> nat \<Rightarrow> nat option" where
  "seek_to max_off offset pos whence =
     (if whence = 0 then Some (nat (max 0 (min pos (int max_off))))
      else if whence = 1 then Some (nat (max 0 (min (i64_wrap (i64_wrap (int offset) + pos)) (int max_off))))
      else if whence = 2 then Some (nat (max 0 (min (i64_wrap (int max_off + pos)) (int max_off))))
      else None)"

definition xhci_seek :: "nat \<Rightarrow> int \<Rightarrow> nat \<Rightarrow> ('c xhci, int, errno) st" where
  "xhci_seek fd pos whence = with_handle fd (\<lambda>h. case contents_of h of
      Some (offset, buf) \<Rightarrow>
        bind_m (ok_or EINVAL (seek_to (length buf) offset pos whence)) (\<lambda>off X.
        (Ok (int off), put_handle fd (set_offset off h) X))
    | None \<Rightarrow> (case h of
        PortStateHandle n _ \<Rightarrow>
          if whence \<le> 2 then (\<lambda>X. (Ok pos, put_handle fd (PortStateHandle n (nat (pos mod 2 ^ 64))) X))
          else fail_m EINVAL
      | _ \<Rightarrow> fail_m ESPIPE))"

text \<open>
  A read of a text from its offset. The count leaves out what was read before, and the bytes are taken
  from the start of the text.
\<close>

definition write_dyn_string :: "bytes \<Rightarrow> bytes \<Rightarrow> nat \<Rightarrow> nat \<times> bytes" where
  "write_dyn_string src buf offset =
     (let max_bytes_to_read = min (length src) (length buf);
          bytes_to_read = max offset max_bytes_to_read - offset
      in (bytes_to_read, take bytes_to_read src @ drop bytes_to_read buf))"

definition port_state_text :: "u8 \<Rightarrow> string" where
  "port_state_text state =
     (if state = 0 then port_state_str port_state_tag.EnabledOrDisabled
      else if state = 1 then port_state_str port_state_tag.DefaultState
      else if state = 2 then port_state_str port_state_tag.Addressed
      else if state = 3 then port_state_str port_state_tag.Configured
      else ''unknown'')"

definition xhci_read :: "'c xhci_env \<Rightarrow> nat \<Rightarrow> ('c xhci \<times> bytes, nat, errno) st" where
  "xhci_read E fd = (\<lambda>(X, buf). case xh_handles X fd of
      None \<Rightarrow> (Err EBADF, (X, buf))
    | Some h \<Rightarrow> (case contents_of h of
        Some (offset, src) \<Rightarrow> (case write_dyn_string src buf offset of
          (n, buf') \<Rightarrow> (Ok n, (put_handle fd (set_offset (offset + n) h) X, buf')))
      | None \<Rightarrow> (case h of
          EndpointHandle port e EpCtl \<Rightarrow> on_read_endp_ctl E port e (X, buf)
        | EndpointHandle port e EpData \<Rightarrow> on_read_endp_data E port e (X, buf)
        | PortStateHandle port offset \<Rightarrow>
            bind_m (on_fst (with_port E EBADF port (\<lambda>ps X.
              (case xe_device_context E (unat (ps_slot ps)) (xh_ctl X) of
                 None \<Rightarrow> Err EBADF | Some ctx \<Rightarrow> Ok (slot_state (dev_slot ctx)), X)))) (\<lambda>state (X, buf).
            case write_dyn_string (str_bytes (port_state_text state)) buf offset of
              (n, buf') \<Rightarrow> (Ok n, (put_handle fd (PortStateHandle port (offset + n)) X, buf'))) (X, buf)
        | PortReqHandle port st \<Rightarrow>
            handle_port_req_read E fd port st (put_handle fd (PortReqHandle port Tmp) X, buf)
        | _ \<Rightarrow> (Err EBADF, (X, buf)))))"

definition xhci_write :: "'c xhci_env \<Rightarrow> nat \<Rightarrow> nat \<Rightarrow> bytes \<Rightarrow> ('c xhci, nat, errno) st" where
  "xhci_write E fuel fd buf = with_handle fd (\<lambda>h. case h of
      ConfigureEndpointsHandle port \<Rightarrow>
        bind_m (xhci_configure_endpoints E fuel port buf) (\<lambda>_. return_m (length buf))
    | EndpointHandle port e EpCtl \<Rightarrow> on_write_endp_ctl E port e buf
    | EndpointHandle port e EpData \<Rightarrow> on_write_endp_data E port e buf
    | PortReqHandle port st \<Rightarrow>
        (\<lambda>X. handle_port_req_write E fd port st buf (put_handle fd (PortReqHandle port Tmp) X))
    | _ \<Rightarrow> fail_m EBADF)"

text \<open>The buffer of a request that is closed half-way is freed with the handle.\<close>

definition drop_handle :: "'c xhci_env \<Rightarrow> xhci_handle \<Rightarrow> ('c xhci, unit, errno) st" where
  "drop_handle E h = (case h of
      PortReqHandle _ (WaitingForDeviceBytes b _) \<Rightarrow> on_ctl (dma_drop (xe_mem E) b)
    | PortReqHandle _ (WaitingForHostBytes b _) \<Rightarrow> on_ctl (dma_drop (xe_mem E) b)
    | _ \<Rightarrow> return_m ())"

definition xhci_remove_handle :: "nat \<Rightarrow> 'c xhci \<Rightarrow> 'c xhci" where
  "xhci_remove_handle fd X = X\<lparr>xh_handles := (xh_handles X)(fd := None)\<rparr>"

definition xhci_close :: "'c xhci_env \<Rightarrow> nat \<Rightarrow> ('c xhci, nat, errno) st" where
  "xhci_close E fd = with_handle fd (\<lambda>h X. (Ok 0, snd (drop_handle E h (xhci_remove_handle fd X))))"

interpretation xhci_handles: closing_table
  "\<lambda>X. \<forall>fd. xh_handles X fd \<noteq> None \<longrightarrow> fd < xh_next_handle X" xh_handles xhci_add_handle xhci_remove_handle
  by unfold_locales (auto simp: xhci_add_handle_def xhci_remove_handle_def Let_def less_Suc_eq split: if_splits)

subsection \<open>Names of handles are read back\<close>

fun handle_params :: "xhci_handle \<Rightarrow> scheme_parameters" where
  "handle_params (TopLevel _ _) = ParTopLevel"
| "handle_params (PortHandle n _ _) = ParPort n"
| "handle_params (PortDesc n _ _) = ParPortDesc n"
| "handle_params (PortStateHandle n _) = ParPortState n"
| "handle_params (PortReqHandle n _) = ParPortReq n"
| "handle_params (EndpointsHandle n _ _) = ParEndpoints n"
| "handle_params (EndpointHandle n e EpData) = ParEndpoint n e ''data''"
| "handle_params (EndpointHandle n e EpCtl) = ParEndpoint n e ''ctl''"
| "handle_params (EndpointHandle n e (EpRoot _ _)) = ParEndpoint n e ''root''"
| "handle_params (ConfigureEndpointsHandle n) = ParConfigureEndpoints n"

fun params_port :: "scheme_parameters \<Rightarrow> nat" where
  "params_port ParTopLevel = 0"
| "params_port (ParPort n) = n"
| "params_port (ParPortDesc n) = n"
| "params_port (ParPortState n) = n"
| "params_port (ParPortReq n) = n"
| "params_port (ParEndpoints n) = n"
| "params_port (ParEndpoint n e ty) = n"
| "params_port (ParConfigureEndpoints n) = n"

text \<open>What cannot continue a number.\<close>

definition ends_digits :: "string \<Rightarrow> bool" where
  "ends_digits s \<longleftrightarrow> (case s of [] \<Rightarrow> True | c # _ \<Rightarrow> \<not> is_digit c)"

lemma ends_digits_simps [simp]: "ends_digits []" "ends_digits (CHR ''/'' # s)"
  by (simp_all add: ends_digits_def is_digit_def)

lemma match_digits_dec:
  assumes "n < 1000" "ends_digits rest"
  shows "match_digits (dec n @ rest) = Some (dec n, rest)"
proof -
  have all: "c \<in> set (dec n) \<Longrightarrow> is_digit c" for c using dec_digits [of n] by (simp add: list_all_iff)
  have "takeWhile is_digit rest = []" "dropWhile is_digit rest = rest"
    using assms(2) by (auto simp: ends_digits_def split: list.splits)
  then have "takeWhile is_digit (dec n @ rest) = dec n" "dropWhile is_digit (dec n @ rest) = rest"
    using all by simp_all
  then show ?thesis
    using length_dec [OF assms(1)] by (simp add: match_digits_def Suc_le_eq)
qed

lemma match_port_name:
  assumes "n < 1000" "ends_digits rest"
  shows "match_port (port_name n rest) = Some (dec n, rest)"
  using match_digits_dec [OF assms] by (simp add: match_port_def port_name_def strip_prefix_def)

lemma regex_port_name:
  "n < 1000 \<Longrightarrow> ends_digits rest \<Longrightarrow> regex_port r (port_name n rest) = (if rest = r then Some (dec n) else None)"
  by (simp add: regex_port_def match_port_name)

lemma match_endpoint_name:
  assumes "n < 1000" "ends_digits rest"
  shows "match_endpoint (port_name n (''/endpoints/'' @ dec (unat (e :: u8)) @ rest)) = Some (dec n, dec (unat e), rest)"
proof -
  have "unat e < 1000" using unsigned_less [of e, where ?'a = nat] by simp
  from match_digits_dec [OF this assms(2)] match_port_name [OF assms(1), of "''/endpoints/'' @ dec (unat e) @ rest"]
  show ?thesis by (simp add: match_endpoint_def strip_prefix_def)
qed

lemma match_endpoint_other:
  "n < 1000 \<Longrightarrow> ends_digits rest \<Longrightarrow> strip_prefix ''/endpoints/'' rest = None \<Longrightarrow>
    match_endpoint (port_name n rest) = None"
  by (simp add: match_endpoint_def match_port_name)

lemma no_slash_no_endpoint:
  assumes "CHR ''/'' \<notin> set s"
  shows "match_endpoint s = None"
proof (cases "match_port s")
  case (Some m)
  then obtain ds t where m: "match_port s = Some (ds, t)" by (cases m) auto
  then have "set t \<subseteq> set s"
    by (auto simp: match_port_def match_digits_def strip_prefix_def Let_def bind_eq_Some_conv split: if_splits
        dest: in_set_dropD set_dropWhileD)
  with assms have "CHR ''/'' \<notin> set t" by blast
  then have "strip_prefix ''/endpoints/'' t = None"
    by (cases t) (auto simp: strip_prefix_def)
  with m show ?thesis by (simp add: match_endpoint_def)
qed (simp add: match_endpoint_def)

lemma no_slash_no_sub_endpoint: "CHR ''/'' \<notin> set s \<Longrightarrow> regex_port_sub_endpoint s = None"
proof (induction s)
  case Nil
  then show ?case by (subst regex_port_sub_endpoint.simps) (simp add: no_slash_no_endpoint)
next
  case (Cons c s)
  then show ?case by (subst regex_port_sub_endpoint.simps) (simp add: no_slash_no_endpoint)
qed

lemma parse_or_dec [simp]: "n < b \<Longrightarrow> parse_or b (dec n) = Ok n"
  by (simp add: parse_or_def)

lemma endpoint_params_dec:
  "n < 1000 \<Longrightarrow> endpoint_params (dec n) (dec (unat (e :: u8))) ty = Ok (ParEndpoint n e ty)"
  using unsigned_less [of e, where ?'a = nat] by (simp add: endpoint_params_def)

lemma from_scheme_endpoint:
  assumes "n < 1000"
  shows "from_scheme (port_name n (''/endpoints/'' @ dec (unat (e :: u8)))) = Ok (ParEndpoint n e ''root'')"
    "from_scheme (port_name n (''/endpoints/'' @ dec (unat e) @ ''/ctl'')) = Ok (ParEndpoint n e ''ctl'')"
    "from_scheme (port_name n (''/endpoints/'' @ dec (unat e) @ ''/data'')) = Ok (ParEndpoint n e ''data'')"
proof -
  have ports: "regex_port r (port_name n (''/endpoints/'' @ t)) = (if ''/endpoints/'' @ t = r then Some (dec n) else None)" for r t
    using regex_port_name [OF assms, of "''/endpoints/'' @ t" r] by simp
  note m = match_endpoint_name [OF assms, of _ e]
  show "from_scheme (port_name n (''/endpoints/'' @ dec (unat (e :: u8)))) = Ok (ParEndpoint n e ''root'')"
    using m [of "[]"] ports [of _ "dec (unat e)"]
    by (simp add: from_scheme_def regex_port_specific_endpoint_def endpoint_params_dec [OF assms])
  have sub: "regex_port_sub_endpoint (port_name n (''/endpoints/'' @ dec (unat e) @ t)) = Some (dec n, dec (unat e), tl t)"
    if "t = ''/ctl'' \<or> t = ''/data''" for t
    using m [of t] that by (subst regex_port_sub_endpoint.simps) auto
  show "from_scheme (port_name n (''/endpoints/'' @ dec (unat e) @ ''/ctl'')) = Ok (ParEndpoint n e ''ctl'')"
    using m [of "''/ctl''"] ports [of _ "dec (unat e) @ ''/ctl''"] sub [of "''/ctl''"]
    by (simp add: from_scheme_def regex_port_specific_endpoint_def endpoint_params_dec [OF assms])
  show "from_scheme (port_name n (''/endpoints/'' @ dec (unat e) @ ''/data'')) = Ok (ParEndpoint n e ''data'')"
    using m [of "''/data''"] ports [of _ "dec (unat e) @ ''/data''"] sub [of "''/data''"]
    by (simp add: from_scheme_def regex_port_specific_endpoint_def endpoint_params_dec [OF assms])
qed

lemma from_scheme_port:
  assumes "n < 1000"
  shows "from_scheme (port_name n []) = Err ENOENT"
proof -
  have "CHR ''/'' \<notin> set (dec n)" using dec_digits [of n] by (auto simp: list_all_iff is_digit_def)
  then have none: "regex_port_sub_endpoint (port_name n []) = None"
    by (intro no_slash_no_sub_endpoint) (simp add: port_name_def)
  have "port_name n [] \<noteq> []" by (simp add: port_name_def)
  with none show ?thesis
    using regex_port_name [OF assms, of "[]"] match_endpoint_other [OF assms, of "[]"]
    by (simp add: from_scheme_def regex_port_specific_endpoint_def strip_prefix_def)
qed

text \<open>
  xHCI file property C22. The name that the daemon reports for a handle opens the same file again, for every
  handle except the directory of a port, whose name no pattern matches: it is refused.
\<close>

theorem handle_names_reopen:
  assumes "params_port (handle_params h) < 1000"
  shows "from_scheme (to_scheme h) = (case handle_params h of ParPort _ \<Rightarrow> Err ENOENT | p \<Rightarrow> Ok p)"
proof -
  have plain: "from_scheme (port_name n rest) = port_params f (dec n)"
    if "n < 1000" "(rest, f) \<in> {(''/configure'', ParConfigureEndpoints), (''/descriptors'', ParPortDesc),
      (''/state'', ParPortState), (''/request'', ParPortReq), (''/endpoints'', ParEndpoints)}" for n rest f
    using that regex_port_name [OF that(1), of rest] by (auto simp: from_scheme_def)
  have "from_scheme [] = Ok ParTopLevel" by code_simp
  moreover have "port_params f (dec n) = Ok (f n)" if "n < 1000" for f n
    using that by (simp add: port_params_def)
  ultimately show ?thesis
    using assms plain from_scheme_endpoint from_scheme_port
    by (cases h rule: to_scheme.cases) simp_all
qed

subsection \<open>Reading directories and fixed files\<close>

lemma contents_set_offset: "contents_of h = Some (off, src) \<Longrightarrow> contents_of (set_offset off' h) = Some (off', src)"
  by (cases h rule: contents_of.cases) simp_all

lemma set_offset_again: "set_offset off (set_offset off' h) = set_offset off h"
  by (cases "(off', h)" rule: set_offset.cases) simp_all

text \<open>
  The first read of a directory or of the descriptors gives what fits in the buffer;
  after that every read with a buffer of at most the same size reports the end of the file and changes nothing,
  even when there is more: a client that reads such a file in pieces sees only its beginning.
\<close>

theorem piecewise_read_truncates:
  assumes "xh_handles X fd = Some h" "contents_of h = Some (0, src)" "n = min (length src) (length buf)"
  shows "\<exists>X'. xhci_read E fd (X, buf) = (Ok n, (X', take n src @ drop n buf))
    \<and> (\<forall>buf'. length buf' \<le> length buf \<longrightarrow> xhci_read E fd (X', buf') = (Ok 0, (X', buf')))"
proof (intro exI conjI allI impI)
  let ?X = "put_handle fd (set_offset n h) X"
  show "xhci_read E fd (X, buf) = (Ok n, (?X, take n src @ drop n buf))"
    using assms by (simp add: xhci_read_def write_dyn_string_def Let_def)
  fix buf' :: bytes
  assume "length buf' \<le> length buf"
  then have "max n (min (length src) (length buf')) = n" using assms(3) by simp
  moreover have "(xh_handles X)(fd \<mapsto> set_offset n h) = (xh_handles X)(fd \<mapsto> set_offset n h, fd \<mapsto> set_offset n h)"
    by simp
  ultimately show "xhci_read E fd (?X, buf') = (Ok 0, (?X, buf'))"
    using contents_set_offset [OF assms(2), of n]
    by (simp add: xhci_read_def write_dyn_string_def put_handle_def set_offset_again Let_def)
qed

theorem piecewise_read_truncates_witness:
  "\<exists>X'. xhci_read (sim_env 1 0 []) 0 (sim_xhci\<lparr>xh_handles := [0 \<mapsto> TopLevel 0 [1, 2, 3]]\<rparr>, [0, 0]) = (Ok 2, (X', [1, 2]))
    \<and> xhci_read (sim_env 1 0 []) 0 (X', [0, 0]) = (Ok 0, (X', [0, 0]))"
  using piecewise_read_truncates [of "sim_xhci\<lparr>xh_handles := [0 \<mapsto> TopLevel 0 [1, 2, 3]]\<rparr>" 0 "TopLevel 0 [1, 2, 3]"
      "[1, 2, 3]" 2 "[0, 0]" "sim_env 1 0 []"]
  by auto

subsection \<open>Requests that fail\<close>

text \<open>The table of handles is not touched by transfers.\<close>

abbreviation same_table :: "(nat \<rightharpoonup> xhci_handle) \<Rightarrow> 'c xhci \<Rightarrow> bool" where
  "same_table H X \<equiv> xh_handles X = H"

lemma keeps_on_ctl [intro]: "keeps (same_table H) (on_ctl m)"
  by (auto simp: keeps_def on_ctl_def split: prod.split)

lemma keeps_with_port_mut [intro]:
  fixes body :: "port_state \<Rightarrow> ('c xhci, 'a, errno) st"
  assumes "\<And>ps. keeps (same_table H) (body ps)"
  shows "keeps (same_table H) (with_port_mut E e port body)"
proof (rule keepsI)
  fix X :: "'c xhci"
  assume H: "xh_handles X = H"
  have "xh_handles (snd (body ps (X\<lparr>xh_guards := g\<rparr>))) = H" for ps g
    using keepsD [OF assms, of "X\<lparr>xh_guards := g\<rparr>"] H by simp
  then have body: "body ps (X\<lparr>xh_guards := g\<rparr>) = (r, X') \<Longrightarrow> xh_handles X' = H" for ps g r X'
    by (metis snd_conv)
  with H show "xh_handles (snd (with_port_mut E e port body X)) = H"
    by (auto simp: with_port_mut_def split: option.split prod.split)
qed

lemma keeps_enqueue [intro]: "keeps (same_table H) (enqueue E port e es r i m)"
  by (auto simp: enqueue_def keeps_def bind_m_def new_future_def split: prod.split)

lemma keeps_await_event [intro]: "keeps (same_table H) (await_event E i d p)"
  by (auto simp: keeps_def await_event_def Let_def split: prod.split option.split)

declare keeps_finally [intro]

lemma keeps_control_transfer [intro]: "keeps (same_table H) (execute_control_transfer E port p tk d)"
  unfolding execute_control_transfer_def by (intro keeps_bind keeps_with_port_mut) (auto split: prod.split)

lemma keeps_port_req_transfer [intro]: "keeps (same_table H) (port_req_transfer E port b p tk)"
  unfolding port_req_transfer_def by blast

lemma put_req_state_ok:
  "xh_handles X fd = Some (PortReqHandle port st) \<Longrightarrow>
    put_req_state fd st' X = (Ok (), X\<lparr>xh_handles := (xh_handles X)(fd \<mapsto> PortReqHandle port st')\<rparr>)"
  by (simp add: put_req_state_def)

text \<open>A step of a request that fails does so before the handle gets its next state.\<close>

lemma request_fails:
  fixes m :: "('c xhci, port_req_state, errno) st"
  assumes keeps: "\<And>H. keeps (same_table H) m" and h: "xh_handles X fd = Some (PortReqHandle port Tmp)"
    and r: "bind_m m (\<lambda>st'. bind_m (put_req_state fd st') (\<lambda>_. return_m n)) X = (Err e, X')"
  shows "xh_handles X' fd = Some (PortReqHandle port Tmp)"
proof -
  obtain x Y where m: "m X = (x, Y)" by fastforce
  have Y: "xh_handles Y = xh_handles X" using keepsD [OF keeps, of X "xh_handles X"] m by simp
  show ?thesis
    using r m h Y put_req_state_ok [of Y fd port Tmp]
    by (cases x) (auto simp: bind_m_def return_m_def)
qed

lemma keeps_req_init [intro]: "keeps (same_table H) (port_req_init_st E req)"
  unfolding port_req_init_st_def alloc_dma_zeroed_unsized_def
  by (auto split: req_direction.split)

lemma write_request_fails:
  assumes "xh_handles X fd = Some (PortReqHandle port st)" "xhci_write E fuel fd buf X = (Err e, X')"
  shows "xh_handles X' fd = Some (PortReqHandle port Tmp)"
proof (rule request_fails)
  let ?m = "case st of
         ReqInit \<Rightarrow>
           bind_m (ok_or EBADMSG (xe_port_req_of_json E buf)) (\<lambda>req.
           bind_m (port_req_init_st E req) (\<lambda>st'. case st' of
             TmpSetup p \<Rightarrow> bind_m (port_req_transfer E port None p NoDataTransfer) (\<lambda>_. return_m ReqInit)
           | _ \<Rightarrow> return_m st'))
       | WaitingForHostBytes b p \<Rightarrow>
           finally_m
             (if length buf \<noteq> length (dma_data b) then fail_m EINVAL
              else (\<lambda>X. bind_m (port_req_transfer E port (Some b) p OutTransfer) (\<lambda>_. return_m ReqInit)
                (X\<lparr>xh_ctl := xe_store E (dma_phys b) buf (xh_ctl X)\<rparr>)))
             (on_ctl (dma_drop (xe_mem E) b))
       | WaitingForDeviceBytes b p \<Rightarrow> finally_m (fail_m EBADF) (on_ctl (dma_drop (xe_mem E) b))
       | _ \<Rightarrow> panic_m"
  show "bind_m ?m (\<lambda>st'. bind_m (put_req_state fd st') (\<lambda>_. return_m (length buf)))
      (put_handle fd (PortReqHandle port Tmp) X) = (Err e, X')"
    using assms by (simp add: xhci_write_def with_handle_def handle_port_req_write_def)
  show "xh_handles (put_handle fd (PortReqHandle port Tmp) X) fd = Some (PortReqHandle port Tmp)"
    by (simp add: put_handle_def)
  have stored: "keeps (same_table H) (\<lambda>X. m (X\<lparr>xh_ctl := f (xh_ctl X)\<rparr>))" if "keeps (same_table H) m" for H m f
    using that by (auto simp: keeps_def)
  show "keeps (same_table H) ?m" for H
    by (cases st) (auto intro!: stored keeps_bind split: port_req_state.split)
qed

text \<open>
  A request on the default control endpoint that fails, by a message that cannot be
  decoded or a device that stalls, leaves its handle without a state: the next write, read or status
  call on the handle makes the daemon panic.
\<close>

theorem failed_request_poisons:
  assumes "xh_handles X fd = Some (PortReqHandle port st)" "xhci_write E fuel fd buf X = (Err e, X')"
  shows "fst (xhci_write E fuel fd buf' X') = Panic \<and> fst (xhci_read E fd (X', buf')) = Panic
    \<and> fst (xhci_fstat fd stt X') = Panic"
  using write_request_fails [OF assms]
  by (simp add: xhci_write_def xhci_read_def xhci_fstat_def with_handle_def handle_port_req_write_def
      handle_port_req_read_def panic_m_def bind_m_def of_res_def)

theorem failed_request_poisons_witness:
  "\<exists>X'. xhci_write (sim_env 1 0 []) 1 0 [7] (sim_xhci\<lparr>xh_handles := [0 \<mapsto> PortReqHandle 1 ReqInit]\<rparr>) = (Err EBADMSG, X')
    \<and> fst (xhci_write (sim_env 1 0 []) 1 0 [0] X') = Panic"
proof -
  let ?X = "sim_xhci\<lparr>xh_handles := [0 \<mapsto> PortReqHandle 1 ReqInit]\<rparr>"
  let ?X' = "sim_xhci\<lparr>xh_handles := [0 \<mapsto> PortReqHandle 1 Tmp]\<rparr>"
  have run: "xhci_write (sim_env 1 0 []) 1 0 [7] ?X = (Err EBADMSG, ?X')"
    by (simp add: xhci_write_def with_handle_def handle_port_req_write_def sim_env_def bind_m_def fail_m_def put_handle_def)
  from failed_request_poisons [OF _ run, of 1 ReqInit "[0]"] run show ?thesis by auto
qed

theorem handle_names_reopen_witness:
  "from_scheme (to_scheme (EndpointHandle 12 3 EpCtl)) = Ok (ParEndpoint 12 3 ''ctl'')"
  using handle_names_reopen [of "EndpointHandle 12 3 EpCtl"] by simp

end
