(* ===== verification/Usb_Stack.thy ===== *)
theory Usb_Stack
  imports Xhci_Scheme
begin

text \<open>
  A class driver over the whole USB stack: the files that the client library opens
  (\<open>xhcid/src/driver_interface.rs\<close>) are those of the xHCI daemon (\<open>xhcid/src/xhci/scheme.rs\<close>),
  whose transfers go over the rings to the controller and come back through the event reactor.

  The kernel stands between the two: it takes the name of the scheme off a path, passes the calls on
  with the user's identity, and copies what a read answers. Both sides use the same encoding of messages;
  what the proof needs of it is that the daemon decodes what the client encodes, and the other way round.
\<close>

subsection \<open>Files of the daemon\<close>

definition open_flags :: "open_mode \<Rightarrow> u64" where
  "open_flags mode = (case mode of OpenRead \<Rightarrow> 0x10000 | OpenWrite \<Rightarrow> o_wronly)"

definition kernel_open :: "'c xhci_env \<Rightarrow> string \<Rightarrow> string \<Rightarrow> open_mode \<Rightarrow> ('c xhci, nat, errno) st" where
  "kernel_open E scheme path mode = (case strip_prefix (''/scheme/'' @ scheme @ ''/'') path of
      None \<Rightarrow> fail_m ENODEV
    | Some p \<Rightarrow> xhci_open E p (open_flags mode) 0)"

definition kernel_read :: "'c xhci_env \<Rightarrow> nat \<Rightarrow> nat \<Rightarrow> ('c xhci, bytes, errno) st" where
  "kernel_read E fd n = (\<lambda>X. case xhci_read E fd (X, replicate n 0) of
      (Ok k, (X', buf)) \<Rightarrow> (Ok (take k buf), X')
    | (Err e, (X', buf)) \<Rightarrow> (Err e, X')
    | (Panic, (X', buf)) \<Rightarrow> (Panic, X')
    | (NoFuel, (X', buf)) \<Rightarrow> (NoFuel, X'))"

definition daemon_client :: "'c xhci_env \<Rightarrow> nat \<Rightarrow> string \<Rightarrow> 'c xhci client_env \<Rightarrow> 'c xhci client_env" where
  "daemon_client E fuel scheme C = C\<lparr>env_open := kernel_open E scheme, env_read := kernel_read E,
     env_write := xhci_write E fuel, env_close := (\<lambda>fd X. snd (xhci_close E fd X))\<rparr>"

text \<open>The messages of a transfer of \<open>n\<close> bytes: what one side encodes, the other side decodes.\<close>

definition same_codec :: "'c xhci_env \<Rightarrow> 'c xhci client_env \<Rightarrow> ctl_direction \<Rightarrow> u32 \<Rightarrow> bool" where
  "same_codec E C dir n \<longleftrightarrow>
     (\<exists>json. json_of_ctl_req C (TransferReq dir n) = Some json \<and> xe_ctl_req_of_json E json = Some (TransferReq dir n))
     \<and> (\<forall>st. ts_bytes_transferred st \<le> n \<longrightarrow> length (xe_json_of_ctl_res E (TransferResult st)) \<le> 256
          \<and> ctl_res_of_json C (xe_json_of_ctl_res E (TransferResult st)) = Some (TransferResult st))"

subsection \<open>Opening an endpoint\<close>

lemma endpoint_path:
  "strip_prefix (''/scheme/'' @ ch_scheme h @ ''/'') (port_path h (''endpoints/'' @ rest))
    = Some (port_name (ch_port h) (''/endpoints/'' @ rest))"
  by (simp add: strip_prefix_def port_path_def port_name_def)

lemma daemon_opens:
  assumes "endpoint_at E dq m port slot e d st X" "quiet X" "ch_port h = port"
  shows "kernel_open E (ch_scheme h) (port_path h (''endpoints/'' @ dec (unat e) @ ''/ctl'')) OpenRead X
      = (Ok (xh_next_handle X), X\<lparr>xh_next_handle := xh_next_handle X + 1,
          xh_handles := (xh_handles X)(xh_next_handle X \<mapsto> EndpointHandle port e EpCtl)\<rparr>)"
    and "kernel_open E (ch_scheme h) (port_path h (''endpoints/'' @ dec (unat e) @ ''/data'')) OpenRead X
      = (Ok (xh_next_handle X), X\<lparr>xh_next_handle := xh_next_handle X + 1,
          xh_handles := (xh_handles X)(xh_next_handle X \<mapsto> EndpointHandle port e EpData)\<rparr>)"
proof -
  have port: "port < 1000" using assms(1) by (simp add: endpoint_at_def)
  from assms(1) obtain ps es where ps: "xh_ports X port = Some ps" "ps_endpoints ps e = Some es"
    unfolding endpoint_at_def by blast
  have g: "xh_guards X = []" using assms(2) by (simp add: quiet_def)
  have open_it: "open_handle_single_endpoint E port e ty (open_flags OpenRead) X
      = (Ok (EndpointHandle port e (if ty = ''ctl'' then EpCtl else EpData)), X)"
    if "ty = ''ctl'' \<or> ty = ''data''" for ty
    using that ps g
    by (auto simp: open_handle_single_endpoint_def no_directory_def open_flags_def o_directory_def with_port_def
        return_m_def no_guards)
  show "kernel_open E (ch_scheme h) (port_path h (''endpoints/'' @ dec (unat e) @ ''/ctl'')) OpenRead X
      = (Ok (xh_next_handle X), X\<lparr>xh_next_handle := xh_next_handle X + 1,
          xh_handles := (xh_handles X)(xh_next_handle X \<mapsto> EndpointHandle port e EpCtl)\<rparr>)"
    using from_scheme_endpoint(2) [OF port, of e] open_it [of "''ctl''"] assms(3)
    unfolding kernel_open_def endpoint_path option.case
    by (simp add: xhci_open_def of_res_def bind_m_def xhci_add_handle_def Let_def)
  show "kernel_open E (ch_scheme h) (port_path h (''endpoints/'' @ dec (unat e) @ ''/data'')) OpenRead X
      = (Ok (xh_next_handle X), X\<lparr>xh_next_handle := xh_next_handle X + 1,
          xh_handles := (xh_handles X)(xh_next_handle X \<mapsto> EndpointHandle port e EpData)\<rparr>)"
    using from_scheme_endpoint(3) [OF port, of e] open_it [of "''data''"] assms(3)
    unfolding kernel_open_def endpoint_path option.case
    by (simp add: xhci_open_def of_res_def bind_m_def xhci_add_handle_def Let_def)
qed

lemma endpoint_at_handles:
  "endpoint_at E dq m port slot e d st (X\<lparr>xh_next_handle := k, xh_handles := H\<rparr>) = endpoint_at E dq m port slot e d st X"
  "quiet (X\<lparr>xh_next_handle := k, xh_handles := H\<rparr>) = quiet X"
  by (simp_all add: endpoint_at_def quiet_def)

text \<open>The two files of an endpoint.\<close>

definition opened :: "nat \<Rightarrow> u8 \<Rightarrow> endp_handle \<Rightarrow> 'c xhci \<Rightarrow> bool" where
  "opened port e h X \<longleftrightarrow> xh_handles X (eh_ctl h) = Some (EndpointHandle port e EpCtl)
     \<and> xh_handles X (eh_data h) = Some (EndpointHandle port e EpData)"

lemma stack_opens:
  fixes X :: "'c xhci"
  assumes at: "endpoint_at E dq m port slot e d st X" and q: "quiet X" and port: "ch_port h = port"
  shows "\<exists>eh X'. open_endpoint (daemon_client E fuel (ch_scheme h) C) h e X = (Ok eh, X')
    \<and> opened port e eh X' \<and> endpoint_at E dq m port slot e d st X' \<and> quiet X' \<and> xh_ctl X' = xh_ctl X"
proof -
  let ?k = "xh_next_handle X"
  let ?X1 = "X\<lparr>xh_next_handle := ?k + 1, xh_handles := (xh_handles X)(?k \<mapsto> EndpointHandle port e EpCtl)\<rparr>"
  let ?X2 = "?X1\<lparr>xh_next_handle := ?k + 2, xh_handles := (xh_handles ?X1)(?k + 1 \<mapsto> EndpointHandle port e EpData)\<rparr>"
  have at1: "endpoint_at E dq m port slot e d st ?X1" "quiet ?X1"
    using at q by (simp_all only: endpoint_at_handles)
  have "open_endpoint (daemon_client E fuel (ch_scheme h) C) h e X = (Ok \<lparr>eh_data = ?k + 1, eh_ctl = ?k\<rparr>, ?X2)"
    using daemon_opens(1) [OF at q port] daemon_opens(2) [OF at1 port]
    by (simp add: open_endpoint_def open_endpoint_ctl_def open_endpoint_data_def daemon_client_def map_err_m_def
        bind_m_def on_failure_m_def return_m_def)
  moreover have "endpoint_at E dq m port slot e d st ?X2" "quiet ?X2"
    using at1 by (simp_all only: endpoint_at_handles)
  ultimately show ?thesis
    by (intro exI [of _ "\<lparr>eh_data = ?k + 1, eh_ctl = ?k\<rparr>"] exI [of _ ?X2]) (simp add: opened_def)
qed

subsection \<open>A transfer\<close>

lemma daemon_client_sel [simp]:
  "env_read (daemon_client E fuel scheme C) = kernel_read E"
  "env_write (daemon_client E fuel scheme C) = xhci_write E fuel"
  "json_of_ctl_req (daemon_client E fuel scheme C) = json_of_ctl_req C"
  "ctl_res_of_json (daemon_client E fuel scheme C) = ctl_res_of_json C"
  by (simp_all add: daemon_client_def)

lemma opened_set_if [simp]: "opened port e h (set_if_state p n st X) = opened port e h X"
  by (simp add: opened_def)

lemma opened_same: "same_handles X X' \<Longrightarrow> opened port e h X' = opened port e h X"
  by (simp add: opened_def same_handles_def)

lemma opened_files:
  assumes "opened port e h X"
  shows "xhci_write E fuel (eh_ctl h) json X = on_write_endp_ctl E port e json X"
    "xhci_read E (eh_ctl h) (X, buf) = on_read_endp_ctl E port e (X, buf)"
    "xhci_write E fuel (eh_data h) json X = on_write_endp_data E port e json X"
    "xhci_read E (eh_data h) (X, buf) = on_read_endp_data E port e (X, buf)"
  using assms by (simp_all add: opened_def xhci_write_def xhci_read_def with_handle_def)

text \<open>The request is written to the control file, and the result read back from it.\<close>

lemma stack_request:
  assumes "endpoint_at E dq m port slot e d IfInit X" "quiet X" "opened port e h X"
    and "same_codec E C dir n" "dir \<noteq> CtlNoData"
  shows "ctl_request (daemon_client E fuel scheme C) h (TransferReq dir n) X
    = (Ok (), set_if_state port e (WaitingForDataPipe dir 0 n) X)"
proof -
  obtain json where json: "json_of_ctl_req C (TransferReq dir n) = Some json"
    "xe_ctl_req_of_json E json = Some (TransferReq dir n)"
    using assms(4) unfolding same_codec_def by blast
  show ?thesis
    using json write_ctl_transfer [OF assms(1,2) json(2) assms(5)] opened_files(1) [OF assms(3), of E fuel json]
    by (simp add: ctl_request_def write_file_def map_err_m_def st_defs)
qed

lemma stack_response:
  assumes "endpoint_at E dq m port slot e d (WaitingForTransferResult res) X" "quiet X" "opened port e h X"
    and "same_codec E C dir n" "ts_bytes_transferred res \<le> n"
  shows "ctl_response (daemon_client E fuel scheme C) h X = (Ok (TransferResult res), set_if_state port e IfInit X)"
proof -
  have codec: "length (xe_json_of_ctl_res E (TransferResult res)) \<le> 256"
    "ctl_res_of_json C (xe_json_of_ctl_res E (TransferResult res)) = Some (TransferResult res)"
    using assms(4,5) unfolding same_codec_def by blast+
  then show ?thesis
    using read_ctl_result [OF assms(1,2), of "replicate 256 0"] opened_files(2) [OF assms(3), of E "replicate 256 0"]
    by (simp add: ctl_response_def kernel_read_def fill_buffer_def map_err_m_def st_defs)
qed

text \<open>
  What a transfer of \<open>n\<close> bytes may leave untransferred, and that the memory is there to be
  loaded afterwards: facts of the controller.
\<close>

definition well_behaved :: "'c xhci_env \<Rightarrow> (trb \<Rightarrow> 'c \<Rightarrow> u8 \<times> u32 \<times> 'c) \<Rightarrow> nat \<Rightarrow> bool" where
  "well_behaved E run n \<longleftrightarrow>
     (\<forall>t c. case run t c of (code, left, c') \<Rightarrow> unat left \<le> n \<and> (\<forall>a. length (xe_load E a n c') = n))"

lemma residue:
  assumes "length buf \<le> max_transfer_size" "unat left \<le> length buf"
  shows "unat (of_nat (length buf) :: u32) = length buf" "unat (of_nat (length buf) - left :: u32) = length buf - unat left"
    "of_nat (length buf) - left \<le> (of_nat (length buf) :: u32)"
proof -
  show n: "unat (of_nat (length buf) :: u32) = length buf"
    using assms(1) by (simp add: max_transfer_size_def unsigned_of_nat take_bit_nat_eq_self)
  have le: "left \<le> of_nat (length buf)" using assms(2) n by (simp add: word_le_nat_alt)
  then show d: "unat (of_nat (length buf) - left :: u32) = length buf - unat left"
    using n by (simp add: unat_sub)
  then show "of_nat (length buf) - left \<le> (of_nat (length buf) :: u32)"
    using n by (simp add: word_le_nat_alt)
qed

lemma stack_reads:
  fixes X :: "'c xhci"
  assumes at: "endpoint_at E dq m port slot e d IfInit X" and q: "quiet X" and op: "opened port e h X"
    and dci: "endp_num_to_dci e d = Ok dci"
    and ex: "executes E dq m run (unat slot) (ucast dci)
      \<lparr>rid_port = of_nat port, rid_endpoint_num = e, rid_stream_id = 1\<rparr>"
    and apart: "memory_apart E dq" and well: "well_behaved E run (length buf)"
    and n: "buf \<noteq> []" "length buf \<le> max_transfer_size"
    and alloc: "alloc_dma_zeroed_unsized_raw (xe_mem E) (xe_ac64 E) 1 0 (length buf) (xh_ctl X) = (Ok b, c)"
    and codec: "same_codec E C CtlIn (of_nat (length buf))"
  shows "\<exists>t code left c' X'. describes t (block_data E d b c) (immediate d (length buf)) (length buf)
    \<and> run t c = (code, left, c')
    \<and> transfer_read (daemon_client E fuel scheme C) h (X, buf)
      = (if transfer_ok code left
         then (Ok (transfer_result code (of_nat (length buf) - left)),
               (X', fill_buffer buf (take (length buf - unat left) (xe_load E (dma_phys b) (length buf) c'))))
         else (Err (IoError EIO), (X', buf)))
    \<and> endpoint_at E dq m port slot e d
        (if transfer_ok code left then IfInit else WaitingForDataPipe CtlIn 0 (of_nat (length buf))) X'
    \<and> quiet X'"
proof -
  let ?n = "of_nat (length buf) :: u32" and ?z = "replicate (length buf) (0 :: u8)"
  let ?X1 = "set_if_state port e (WaitingForDataPipe CtlIn 0 ?n) X"
  have z: "?z \<noteq> []" "length ?z \<le> max_transfer_size" using n by simp_all
  have at1: "endpoint_at E dq m port slot e d (WaitingForDataPipe CtlIn 0 (of_nat (length ?z))) ?X1"
    using endpoint_at_set_if [OF at] by simp
  have q1: "quiet ?X1" using q by simp
  have alloc1: "alloc_dma_zeroed_unsized_raw (xe_mem E) (xe_ac64 E) 1 0 (length ?z) (xh_ctl ?X1) = (Ok b, c)"
    using alloc by simp
  obtain t code left c' X2 where run: "describes t (block_data E d b c) (immediate d (length buf)) (length buf)"
      "run t c = (code, left, c')"
    and rd: "on_read_endp_data E port e (?X1, ?z) = (fst (pipe_outcome CtlIn ?n code left),
       (X2, if transfer_ok code left then xe_load E (dma_phys b) (length buf) c' else ?z))"
    and X2: "endpoint_at E dq m port slot e d (snd (pipe_outcome CtlIn ?n code left)) X2"
       "quiet X2" "same_handles ?X1 X2"
    by (rule read_data_outcome [OF at1 q1 dci ex apart z alloc1, unfolded length_replicate])
  have "case run t c of (code, left, c') \<Rightarrow> unat left \<le> length buf \<and> (\<forall>a. length (xe_load E a (length buf) c') = length buf)"
    using well unfolding well_behaved_def by (elim allE)
  then have left: "unat left \<le> length buf" and load: "length (xe_load E (dma_phys b) (length buf) c') = length buf"
    using run(2) by simp_all
  note res = residue [OF n(2) left]
  have op1: "opened port e h ?X1" and op2: "opened port e h X2"
    using op opened_same [OF X2(3)] by simp_all
  have req: "ctl_request (daemon_client E fuel scheme C) h (TransferReq CtlIn ?n) X = (Ok (), ?X1)"
    using stack_request [OF at q op codec] by simp
  show ?thesis
  proof (cases "transfer_ok code left")
    case True
    let ?r = "transfer_result code (?n - left)"
    let ?X3 = "set_if_state port e IfInit X2"
    have at2: "endpoint_at E dq m port slot e d (WaitingForTransferResult ?r) X2"
      using X2(1) True by (simp add: pipe_outcome_def)
    have resp: "ctl_response (daemon_client E fuel scheme C) h X2 = (Ok (TransferResult ?r), ?X3)"
      using stack_response [OF at2 X2(2) op2 codec] res(3) by (simp add: transfer_result_def)
    have full: "ts_kind ?r = TransferSuccess \<Longrightarrow> left = 0"
      using True by (auto simp: transfer_result_def transfer_ok_def split: if_splits)
    have "transfer_read (daemon_client E fuel scheme C) h (X, buf) = (Ok ?r,
        (?X3, fill_buffer buf (take (length buf - unat left) (xe_load E (dma_phys b) (length buf) c'))))"
      using req rd resp True opened_files(4) [OF op1, of E ?z] load res(1,2) full
      by (simp add: transfer_read_def generic_transfer_def read_into_def kernel_read_def
          pipe_outcome_def on_fst_def st_defs) (metis diff_zero unsigned_0)
    moreover have "endpoint_at E dq m port slot e d IfInit ?X3" "quiet ?X3"
      using endpoint_at_set_if [OF at2] X2(2) by simp_all
    ultimately show ?thesis 
      using run True by (intro exI [of _ t] exI [of _ code] exI [of _ left] exI [of _ c'] exI [of _ ?X3]) simp
  next
    case False
    have "transfer_read (daemon_client E fuel scheme C) h (X, buf) = (Err (IoError EIO), (X2, buf))"
      using req rd False opened_files(4) [OF op1, of E ?z]
      by (simp add: transfer_read_def generic_transfer_def read_into_def kernel_read_def
          pipe_outcome_def on_fst_def st_defs)
    then show ?thesis 
      using run False X2(1,2)
      by (intro exI [of _ t] exI [of _ code] exI [of _ left] exI [of _ c'] exI [of _ X2]) (simp add: pipe_outcome_def)
  qed
qed

subsection \<open>From the device to the driver\<close>

text \<open>
  USB stack property C2. A driver opens an endpoint of its device through the client library and reads from it. The
  controller executes exactly one block, which describes a buffer as long as the driver's. When the
  controller reports success, or fewer bytes than asked for, the driver gets this report with the number of bytes
  transferred, its buffer starts with as many bytes as the device has stored and is otherwise unchanged, and the
  endpoint is ready for the next transfer. When the controller reports anything else the driver gets an I/O error,
  its buffer is unchanged, and the endpoint is left waiting for the data.
\<close>

theorem stack_reads_device:
  fixes X :: "'c xhci"
  assumes at: "endpoint_at E dq m port slot e d IfInit X" and q: "quiet X" and port: "ch_port h = port"
    and dci: "endp_num_to_dci e d = Ok dci"
    and ex: "executes E dq m run (unat slot) (ucast dci)
      \<lparr>rid_port = of_nat port, rid_endpoint_num = e, rid_stream_id = 1\<rparr>"
    and apart: "memory_apart E dq" and well: "well_behaved E run (length buf)"
    and n: "buf \<noteq> []" "length buf \<le> max_transfer_size"
    and alloc: "alloc_dma_zeroed_unsized_raw (xe_mem E) (xe_ac64 E) 1 0 (length buf) (xh_ctl X) = (Ok b, c)"
    and codec: "same_codec E C CtlIn (of_nat (length buf))"
  shows "\<exists>t code left c' X'. describes t (block_data E d b c) (immediate d (length buf)) (length buf)
    \<and> run t c = (code, left, c')
    \<and> bind_m (on_fst (open_endpoint (daemon_client E fuel (ch_scheme h) C) h e))
        (transfer_read (daemon_client E fuel (ch_scheme h) C)) (X, buf)
      = (if transfer_ok code left
         then (Ok (transfer_result code (of_nat (length buf) - left)),
               (X', fill_buffer buf (take (length buf - unat left) (xe_load E (dma_phys b) (length buf) c'))))
         else (Err (IoError EIO), (X', buf)))
    \<and> endpoint_at E dq m port slot e d
        (if transfer_ok code left then IfInit else WaitingForDataPipe CtlIn 0 (of_nat (length buf))) X'
    \<and> quiet X'"
proof -
  from stack_opens [OF at q port, of fuel C] obtain eh X1 where
    op: "open_endpoint (daemon_client E fuel (ch_scheme h) C) h e X = (Ok eh, X1)"
      "opened port e eh X1" "endpoint_at E dq m port slot e d IfInit X1" "quiet X1" "xh_ctl X1 = xh_ctl X"
    by (elim exE conjE) (rule that)
  have "bind_m (on_fst (open_endpoint (daemon_client E fuel (ch_scheme h) C) h e))
        (transfer_read (daemon_client E fuel (ch_scheme h) C)) (X, buf)
      = transfer_read (daemon_client E fuel (ch_scheme h) C) eh (X1, buf)"
    using op(1) by (simp add: bind_m_def on_fst_def)
  then show ?thesis
    using stack_reads [OF op(3,4,2) dci ex apart well n _ codec, of b c fuel "ch_scheme h"] alloc op(5) by simp
qed

text \<open>A client of the simulated controller, which encodes the messages the way the controller's daemon does.\<close>

definition sim_ctl_res_of_json :: "bytes \<Rightarrow> ctl_res option" where
  "sim_ctl_res_of_json b =
     (if length b = 3 \<and> b ! 0 = 1 then Some (TransferResult
        \<lparr>ts_kind = (if b ! 1 = 0 then TransferSuccess else if b ! 1 = 1 then ShortPacketStatus
           else if b ! 1 = 2 then StalledStatus else UnknownStatus),
         ts_bytes_transferred = ucast (b ! 2)\<rparr>)
      else None)"

definition sim_client :: "sim xhci client_env" where
  "sim_client = \<lparr>env_open = (\<lambda>_ _. fail_m ENODEV), env_read = (\<lambda>_ _. fail_m EBADF), env_write = (\<lambda>_ _. fail_m EBADF),
     env_close = (\<lambda>_ X. X),
     json_of_ctl_req = (\<lambda>r. case r of TransferReq CtlIn n \<Rightarrow> Some [2, 0, ucast n] | _ \<Rightarrow> None),
     ctl_res_of_json = sim_ctl_res_of_json, json_of_port_req = (\<lambda>_. None), json_of_configure = (\<lambda>_. None)\<rparr>"

lemma byte_round: "n \<le> 255 \<Longrightarrow> ucast (ucast n :: u8) = n" for n :: u32
proof -
  assume "n \<le> 255"
  then have "unat n < 256" using word_le_nat_alt [of n 255] by simp
  then have "take_bit 8 (unat n) = unat n" by (simp add: take_bit_nat_eq_self)
  then show ?thesis by (intro iffD2 [OF word_unat_eq_iff]) (simp add: unsigned_ucast_eq unsigned_take_bit_eq)
qed

lemma sim_same_codec: "same_codec (sim_env code left x) sim_client CtlIn 4"
proof -
  have "sim_ctl_res_of_json (sim_json_of_ctl_res (TransferResult st)) = Some (TransferResult st)"
    if "ts_bytes_transferred st \<le> 4" for st :: transfer_status
  proof -
    have "ts_bytes_transferred st \<le> 255" using that by (rule order_trans) simp
    from byte_round [OF this] show ?thesis
      by (cases st, cases "ts_kind st") (simp_all add: sim_ctl_res_of_json_def)
  qed
  then show ?thesis
    by (auto simp: same_codec_def sim_client_def sim_env_def sim_ctl_req_of_json_def)
qed

text \<open>The device answers three of the four bytes (code 13, one byte left over).\<close>

theorem stack_reads_device_witness:
  "\<exists>X'. bind_m (on_fst (open_endpoint (daemon_client (sim_env 13 1 [1, 2, 3, 4]) 0 ''usb.xhci'' sim_client)
        \<lparr>ch_scheme = ''usb.xhci'', ch_port = 1\<rparr> 1))
      (transfer_read (daemon_client (sim_env 13 1 [1, 2, 3, 4]) 0 ''usb.xhci'' sim_client)) (sim_xhci, [9, 9, 9, 9])
    = (Ok \<lparr>ts_kind = ShortPacketStatus, ts_bytes_transferred = 3\<rparr>, (X', [1, 2, 3, 9]))"
proof -
  let ?E = "sim_env 13 1 [1, 2, 3, 4]" and ?h = "\<lparr>ch_scheme = ''usb.xhci'', ch_port = 1\<rparr>"
  have ex: "executes ?E sim_dq 3 (sim_run 13 1 [1, 2, 3, 4]) (unat (1 :: u8)) (ucast (3 :: u8))
      \<lparr>rid_port = of_nat 1, rid_endpoint_num = 1, rid_stream_id = 1\<rparr>"
    using sim_executes [of 1 13 "[1, 2, 3, 4]" 1 3] by (auto simp: sim_ring_id_def)
  have well: "well_behaved ?E (sim_run 13 1 [1, 2, 3, 4]) (length [9, 9, 9, 9 :: u8])"
    by (simp add: well_behaved_def sim_run_def sim_env_def)
  have port: "ch_port ?h = 1" by simp
  have codec: "same_codec ?E sim_client CtlIn (of_nat (length [9, 9, 9, 9 :: u8]))"
    using sim_same_codec by simp
  show ?thesis
    using stack_reads_device [OF sim_at port sim_dci ex sim_apart well _ _ sim_alloc codec, of 0]
    by (auto simp: max_transfer_size_def sim_run_def transfer_ok_def transfer_result_def fill_buffer_def sim_env_def)
qed

end
