(* ===== verification/Virtio_Queue.thy ===== *)
theory Virtio_Queue
  imports Dma_Mem "HOL-Library.Multiset"
begin

text \<open>
  The split virtqueue of \<open>virtio-core\<close>: descriptors, the available and the used ring and the chain builder
  (\<open>spec/split_virtqueue.rs\<close>), and the queue with its pending requests (\<open>transport.rs\<close>).

  The driver writes the descriptors and the available ring, the device the used ring. The device is the pair of
  functions \<open>ve_bell\<close> and \<open>ve_wait\<close> of the record \<open>virtio_env\<close>, a parameter: what it does when it is notified,
  and until the next time the task that awaits a request is woken. Both see the whole queue and answer the used
  ring; the memory of the buffers is part of the state \<open>'d\<close>. The stack of free descriptors is a queue, as in the
  code: a descriptor is taken from the front and given back at the end.
\<close>

subsection \<open>Descriptors and chains\<close>

record descriptor =
  desc_address :: u64
  desc_size :: u32
  desc_flags :: u16
  desc_next :: u16

definition zero_descriptor :: descriptor where
  "zero_descriptor = \<lparr>desc_address = 0, desc_size = 0, desc_flags = 0, desc_next = 0\<rparr>"

definition df_next :: u16 where "df_next = 1"
definition df_write_only :: u16 where "df_write_only = 2"
definition df_indirect :: u16 where "df_indirect = 4"

definition descriptor_flags :: "descriptor \<Rightarrow> u16" where
  "descriptor_flags d = desc_flags d AND (df_next OR df_write_only OR df_indirect)"

definition flags_contain :: "u16 \<Rightarrow> u16 \<Rightarrow> bool" where
  "flags_contain flags other \<longleftrightarrow> flags AND other = other"

definition set_next :: "u16 option \<Rightarrow> descriptor \<Rightarrow> descriptor" where
  "set_next next d = d\<lparr>desc_next := (case next of None \<Rightarrow> 0 | Some i \<Rightarrow> i)\<rparr>"

record buffer =
  buf_addr :: u64
  buf_size :: nat
  buf_flags :: u16

definition buffer_new :: "nat \<Rightarrow> 'a dma \<Rightarrow> buffer" where
  "buffer_new size_of val = \<lparr>buf_addr = dma_phys val, buf_size = size_of, buf_flags = 0\<rparr>"

definition buffer_new_unsized :: "nat \<Rightarrow> 'a dma \<Rightarrow> buffer" where
  "buffer_new_unsized size_of val =
     \<lparr>buf_addr = dma_phys val, buf_size = size_of * length (dma_data val), buf_flags = 0\<rparr>"

definition buffer_new_sized :: "'a dma \<Rightarrow> nat \<Rightarrow> buffer" where
  "buffer_new_sized val n = \<lparr>buf_addr = dma_phys val, buf_size = n, buf_flags = 0\<rparr>"

definition buffer_flags :: "u16 \<Rightarrow> buffer \<Rightarrow> buffer" where
  "buffer_flags flags b = b\<lparr>buf_flags := flags\<rparr>"

definition chain_new :: "buffer list" where
  "chain_new = []"

definition chain :: "buffer \<Rightarrow> buffer list \<Rightarrow> buffer list" where
  "chain b bs = bs @ [b\<lparr>buf_flags := buf_flags b OR df_next\<rparr>]"

definition chain_build :: "buffer list \<Rightarrow> (buffer list, 'e) res" where
  "chain_build bs = (if bs = [] then Panic
     else Ok (butlast bs @ [(last bs)\<lparr>buf_flags := buf_flags (last bs) AND NOT df_next\<rparr>]))"

subsection \<open>Sizes of the parts of a queue\<close>

definition virtio_align :: "u64 \<Rightarrow> u64 \<Rightarrow> u64" where
  "virtio_align val a = (val + a) AND NOT a"

definition is_power_of_two :: "nat \<Rightarrow> bool" where
  "is_power_of_two n \<longleftrightarrow> n \<in> set (map (\<lambda>k. 2 ^ k) [0..<64])"

definition part_size :: "nat \<Rightarrow> u64 \<Rightarrow> nat" where
  "part_size n a = next_multiple_of (unat (virtio_align (of_nat n) a)) page_size"

definition queue_part_sizes :: "nat \<Rightarrow> (nat \<times> nat \<times> nat, 'e) res" where
  "queue_part_sizes queue_size =
     (if \<not> is_power_of_two queue_size then Panic
      else let desc = 16 * queue_size;
               avail = (4 + 2) + 2 * queue_size;
               used = (4 + 2) + 8 * queue_size
           in Ok (part_size desc 16, part_size avail 2, part_size used 4))"

subsection \<open>The rings\<close>

text \<open>
  The memory of a ring is seen through the structure that it is cast to, so \<open>ring_mem\<close> only keeps where it
  is: its physical and virtual address and its length.
\<close>

datatype ring_mem = OwnedMem u64 u64 nat | BorrowedMem u64 u64 nat

primrec mem_physical :: "ring_mem \<Rightarrow> u64" where
  "mem_physical (OwnedMem phys _ _) = phys"
| "mem_physical (BorrowedMem phys _ _) = phys"

record available =
  av_mem :: ring_mem
  av_queue_size :: nat
  av_head :: u16
  av_elements :: "u16 list"

record used_element =
  ue_table_index :: u32
  ue_written :: u32

record used =
  us_mem :: ring_mem
  us_queue_size :: nat
  us_head :: u16
  us_elements :: "used_element list"

definition avail_set :: "nat \<Rightarrow> u16 \<Rightarrow> available \<Rightarrow> (available, 'e) res" where
  "avail_set index x a = (let i = index mod av_queue_size a
     in if i < length (av_elements a) then Ok (a\<lparr>av_elements := (av_elements a)[i := x]\<rparr>) else Panic)"

definition used_get :: "nat \<Rightarrow> used \<Rightarrow> (used_element, 'e) res" where
  "used_get index u = (let i = index mod us_queue_size u
     in if i < length (us_elements u) then Ok (us_elements u ! i) else Panic)"

definition used_set_table_index :: "nat \<Rightarrow> u32 \<Rightarrow> used \<Rightarrow> (used, 'e) res" where
  "used_set_table_index index x u = (let i = index mod 256
     in if i < length (us_elements u)
        then Ok (u\<lparr>us_elements := (us_elements u)[i := (us_elements u ! i)\<lparr>ue_table_index := x\<rparr>]\<rparr>)
        else Panic)"

text \<open>A ring is made of memory whose contents are given; its entries are set to values that are no index.\<close>

primrec avail_fill :: "nat list \<Rightarrow> available \<Rightarrow> (available, 'e) res" where
  "avail_fill [] a = Ok a"
| "avail_fill (i # is) a = bind_r (avail_set i 0xFFFF a) (avail_fill is)"

definition avail_from_raw :: "available \<Rightarrow> (available, 'e) res" where
  "avail_from_raw a = avail_fill [0..<av_queue_size a] a"

primrec used_fill :: "nat list \<Rightarrow> used \<Rightarrow> (used, 'e) res" where
  "used_fill [] u = Ok u"
| "used_fill (i # is) u = bind_r (used_set_table_index i 0xFFFFFFFF u) (used_fill is)"

definition used_from_raw :: "used \<Rightarrow> (used, 'e) res" where
  "used_from_raw u = used_fill [0..<us_queue_size u] u"

definition owned_mem :: "'a dma \<Rightarrow> ring_mem" where
  "owned_mem m = OwnedMem (dma_phys m) (dma_virt m) (length (dma_data m))"

definition available_new :: "'d mem_ops \<Rightarrow> nat \<Rightarrow> ('d, available, errno) st" where
  "available_new K queue_size =
     bind_m (of_res (queue_part_sizes queue_size)) (\<lambda>(_, _, size).
     bind_m (zeroed_slice K 1 (0 :: u8) size) (\<lambda>mem.
     of_res (avail_from_raw \<lparr>av_mem = owned_mem mem, av_queue_size = queue_size, av_head = 0,
       av_elements = replicate queue_size 0\<rparr>)))"

definition used_new :: "'d mem_ops \<Rightarrow> nat \<Rightarrow> ('d, used, errno) st" where
  "used_new K queue_size =
     bind_m (of_res (queue_part_sizes queue_size)) (\<lambda>(_, _, size).
     bind_m (zeroed_slice K 1 (0 :: u8) size) (\<lambda>mem.
     of_res (used_from_raw \<lparr>us_mem = owned_mem mem, us_queue_size = queue_size, us_head = 0,
       us_elements = replicate queue_size \<lparr>ue_table_index = 0, ue_written = 0\<rparr>\<rparr>)))"

subsection \<open>The queue\<close>

record virtqueue =
  vq_index :: u16
  vq_waker :: "u32 set"
  vq_used :: used
  vq_descriptor :: "descriptor dma"
  vq_available :: available
  vq_used_head :: u16
  vq_vector :: u16
  vq_bell :: u64
  vq_stack :: "u16 list"

abbreviation vq_table :: "virtqueue \<Rightarrow> descriptor list" where
  "vq_table q \<equiv> dma_data (vq_descriptor q)"

definition vq_put :: "u16 \<Rightarrow> (descriptor \<Rightarrow> descriptor) \<Rightarrow> virtqueue \<Rightarrow> virtqueue" where
  "vq_put i f q = q\<lparr>vq_descriptor := (vq_descriptor q)
     \<lparr>dma_data := (vq_table q)[unat i := f (vq_table q ! unat i)]\<rparr>\<rparr>"

definition all_descriptors :: "virtqueue \<Rightarrow> u16 list" where
  "all_descriptors q = map of_nat [0..<unat (of_nat (length (vq_table q)) :: u16)]"

definition queue_new :: "descriptor dma \<Rightarrow> available \<Rightarrow> used \<Rightarrow> u64 \<Rightarrow> u16 \<Rightarrow> u16 \<Rightarrow> virtqueue" where
  "queue_new descriptor available used bell queue_index vector =
     \<lparr>vq_index = queue_index, vq_waker = {}, vq_used = used, vq_descriptor = descriptor, vq_available = available,
      vq_used_head = 0, vq_vector = vector, vq_bell = bell,
      vq_stack = map of_nat [0..<unat (of_nat (length (dma_data descriptor)) :: u16)]\<rparr>"

definition queue_reinit :: "virtqueue \<Rightarrow> virtqueue" where
  "queue_reinit q = q\<lparr>vq_used_head := 0, vq_available := (vq_available q)\<lparr>av_head := 0\<rparr>,
     vq_stack := all_descriptors q\<rparr>"

definition descriptor_len :: "virtqueue \<Rightarrow> nat" where
  "descriptor_len q = length (vq_table q)"

record 'd virtio_env =
  ve_mem :: "'d mem_ops"
  ve_load :: "u64 \<Rightarrow> nat \<Rightarrow> 'd \<Rightarrow> bytes"
  ve_store :: "u64 \<Rightarrow> bytes \<Rightarrow> 'd \<Rightarrow> 'd"
  ve_bell :: "u16 \<Rightarrow> virtqueue \<Rightarrow> 'd \<Rightarrow> used \<times> 'd"
  ve_wait :: "virtqueue \<Rightarrow> 'd \<Rightarrow> used \<times> 'd"

primrec send_buffers ::
  "buffer list \<Rightarrow> u16 option \<Rightarrow> u16 option \<Rightarrow> (virtqueue, u16 option \<times> u16 option, 'e) st" where
  "send_buffers [] first previous q = (Ok (first, previous), q)"
| "send_buffers (b # bs) first previous q = (case vq_stack q of
      [] \<Rightarrow> (Panic, q)
    | i # st \<Rightarrow>
        if length (vq_table q) \<le> unat i then (Panic, q\<lparr>vq_stack := st\<rparr>)
        else let q1 = vq_put i (\<lambda>d. d\<lparr>desc_address := buf_addr b, desc_flags := buf_flags b,
                    desc_size := of_nat (buf_size b)\<rparr>) (q\<lparr>vq_stack := st\<rparr>);
                 q2 = (case previous of None \<Rightarrow> q1 | Some j \<Rightarrow> vq_put j (set_next (Some i)) q1)
             in send_buffers bs (Some (case first of None \<Rightarrow> i | Some f \<Rightarrow> f)) (Some i) q2)"

definition send :: "'d virtio_env \<Rightarrow> buffer list \<Rightarrow> (virtqueue \<times> 'd, u32, 'e) st" where
  "send E bs = (\<lambda>(q, d). case (send_buffers bs None None q :: (u16 option \<times> u16 option, 'e) res \<times> virtqueue) of
      (Ok (Some first, Some previous), q1) \<Rightarrow>
        (let q2 = vq_put previous (set_next None) q1; index = av_head (vq_available q2)
         in case (avail_set (unat index) first (vq_available q2) :: (available, 'e) res) of
              Ok a \<Rightarrow>
                (let q3 = q2\<lparr>vq_available := a\<lparr>av_head := index + 1\<rparr>\<rparr>
                 in case ve_bell E (vq_index q3) q3 d of (u, d') \<Rightarrow> (Ok (ucast first), (q3\<lparr>vq_used := u\<rparr>, d')))
            | _ \<Rightarrow> (Panic, (q2, d)))
    | (_, q1) \<Rightarrow> (Panic, (q1, d)))"

text \<open>
  The chain of a completed request is put back. A chain that goes on beyond the number of descriptors comes back
  to one of them, and the loop of the code never ends.
\<close>

primrec recycle :: "nat \<Rightarrow> u32 \<Rightarrow> (virtqueue, unit, 'e) st" where
  "recycle 0 i q = (NoFuel, q)"
| "recycle (Suc n) i q =
     (if length (vq_table q) \<le> unat i then (Panic, q)
      else let d = vq_table q ! unat i; q' = q\<lparr>vq_stack := vq_stack q @ [ucast i]\<rparr>
           in if flags_contain (descriptor_flags d) df_next then recycle n (ucast (desc_next d)) q'
              else (Ok (), q'))"

definition poll :: "u32 \<Rightarrow> (virtqueue, u32 option, 'e) st" where
  "poll first q =
     (let q1 = q\<lparr>vq_waker := insert first (vq_waker q)\<rparr>; used_head = us_head (vq_used q1)
      in if used_head = vq_used_head q1 then (Ok None, q1)
         else case (used_get (unat (used_head - 1)) (vq_used q1) :: (used_element, 'e) res) of
             Ok element \<Rightarrow>
               if ue_table_index element = first then
                 bind_m (recycle (Suc (length (vq_table q1))) first) (\<lambda>_ q2.
                   (Ok (Some (ue_written element)),
                    q2\<lparr>vq_waker := vq_waker q2 - {first}, vq_used_head := used_head\<rparr>)) q1
               else (Ok None, q1)
           | _ \<Rightarrow> (Panic, q1))"

text \<open>\<open>block_on\<close> polls the request whenever its task is woken.\<close>

primrec await_request :: "nat \<Rightarrow> 'd virtio_env \<Rightarrow> u32 \<Rightarrow> (virtqueue \<times> 'd, u32, 'e) st" where
  "await_request 0 E first s = (NoFuel, s)"
| "await_request (Suc n) E first s =
     bind_m (on_fst (poll first)) (\<lambda>r. case r of
         Some written \<Rightarrow> return_m written
       | None \<Rightarrow> (\<lambda>(q, d). case ve_wait E q d of (u, d') \<Rightarrow> await_request n E first (q\<lparr>vq_used := u\<rparr>, d'))) s"

definition send_and_wait :: "nat \<Rightarrow> 'd virtio_env \<Rightarrow> buffer list \<Rightarrow> (virtqueue \<times> 'd, u32, 'e) st" where
  "send_and_wait fuel E bs = bind_m (send E bs) (await_request fuel E)"

subsection \<open>The parts of a queue have room for their entries\<close>

text \<open>
  Virtqueue property C26. For every size of a queue that a device can report, a power of two up to
  \<open>2 ^ 15\<close>, the sizes computed for the descriptor table, the available and the used ring are whole pages
  that have room for all their entries. The memory of both rings is allocated with the size of the used ring, which
  is enough for either, although the rounding of the code is not the one of its name.
\<close>

theorem queue_parts_fit:
  assumes "is_power_of_two n" "n \<le> 2 ^ 15"
  shows "\<exists>d a u. queue_part_sizes n = (Ok (d, a, u) :: (nat \<times> nat \<times> nat, 'e) res)
    \<and> 16 * n \<le> d \<and> 4 + 2 * n + 2 \<le> min a u \<and> 4 + 8 * n + 2 \<le> u
    \<and> page_size dvd d \<and> page_size dvd a \<and> page_size dvd u"
proof -
  let ?fits = "\<lambda>n. case (part_size (16 * n) 16, part_size (4 + 2 + 2 * n) 2, part_size (4 + 2 + 8 * n) 4) of
    (d, a, u) \<Rightarrow> 16 * n \<le> d \<and> 4 + 2 * n + 2 \<le> min a u \<and> 4 + 8 * n + 2 \<le> u
      \<and> d mod page_size = 0 \<and> a mod page_size = 0 \<and> u mod page_size = 0"
  obtain k where n: "n = 2 ^ k" using assms(1) by (auto simp: is_power_of_two_def)
  then have "k \<le> 15" using assms(2) power_le_imp_le_exp [of "2 :: nat" k 15] by simp
  then have "k \<in> {0, 1, 2, 3, 4, 5, 6, 7, 8, 9, 10, 11, 12, 13, 14, 15}"
    unfolding insert_iff empty_iff by presburger
  then have "?fits n"
    by (elim insertE emptyE) (simp_all add: n part_size_def virtio_align_def next_multiple_of_def page_size_def)
  then show ?thesis
    using assms(1) by (auto simp: queue_part_sizes_def Let_def dvd_eq_mod_eq_0)
qed

theorem queue_parts_fit_witness:
  "\<exists>d a u. queue_part_sizes 256 = (Ok (d, a, u) :: (nat \<times> nat \<times> nat, errno) res) \<and> 4 + 8 * 256 + 2 \<le> u"
proof -
  have "is_power_of_two 256" unfolding is_power_of_two_def set_map by (rule image_eqI [of _ _ 8]) simp_all
  from queue_parts_fit [OF this, where 'e = errno] show ?thesis by auto
qed

subsection \<open>Chains of descriptors\<close>

definition has_next :: "u16 \<Rightarrow> bool" where
  "has_next flags \<longleftrightarrow> bit flags 0"

lemma contains_next [simp]: "flags_contain (descriptor_flags d) df_next = has_next (desc_flags d)"
  by (simp add: flags_contain_def descriptor_flags_def df_next_def df_write_only_def df_indirect_def and.assoc
      has_next_def and_one_eq_one_iff)

fun chained :: "buffer list \<Rightarrow> bool" where
  "chained [] = False"
| "chained [b] = (\<not> has_next (buf_flags b))"
| "chained (b # bs) = (has_next (buf_flags b) \<and> chained bs)"

lemma chained_iff:
  "chained bs \<longleftrightarrow> bs \<noteq> [] \<and> (\<forall>b \<in> set (butlast bs). has_next (buf_flags b)) \<and> \<not> has_next (buf_flags (last bs))"
  by (induction bs rule: chained.induct) auto

text \<open>What the chain builder builds is a chain of the buffers given to it, with their other flags.\<close>

lemma chain_build_chained:
  assumes "bs \<noteq> []"
  shows "\<exists>cs. chain_build (fold chain bs chain_new) = Ok cs \<and> chained cs \<and> length cs = length bs
    \<and> (\<forall>k < length bs. buf_addr (cs ! k) = buf_addr (bs ! k) \<and> buf_size (cs ! k) = buf_size (bs ! k)
        \<and> (\<forall>n > 0. bit (buf_flags (cs ! k)) n = bit (buf_flags (bs ! k)) n))"
proof -
  let ?f = "\<lambda>b. b\<lparr>buf_flags := buf_flags b OR df_next\<rparr>"
  have fold: "fold chain bs acc = acc @ map ?f bs" for acc
    by (induction bs arbitrary: acc) (simp_all add: chain_def)
  have bits: "bit (w OR df_next) n = (n = 0 \<or> bit w n)" "bit (w AND NOT df_next) n = (n \<noteq> 0 \<and> bit w n)" for w n
    by (auto simp: df_next_def bit_simps dest: bit_imp_le_length)
  have last: "last (map ?f bs) = ?f (last bs)" using assms by (simp add: last_map)
  let ?cs = "map ?f (butlast bs) @ [(?f (last bs))\<lparr>buf_flags := buf_flags (?f (last bs)) AND NOT df_next\<rparr>]"
  have "chain_build (fold chain bs chain_new) = Ok ?cs"
    using assms by (simp add: chain_build_def fold chain_new_def last map_butlast)
  moreover have "chained ?cs" by (auto simp: chained_iff has_next_def bits)
  moreover have "length ?cs = length bs" using assms by simp
  moreover have "buf_addr (?cs ! k) = buf_addr (bs ! k) \<and> buf_size (?cs ! k) = buf_size (bs ! k)
      \<and> (\<forall>n > 0. bit (buf_flags (?cs ! k)) n = bit (buf_flags (bs ! k)) n)" if "k < length bs" for k
  proof (cases "k = length bs - 1")
    case True
    then show ?thesis using assms by (simp add: nth_append last_conv_nth bits)
  next
    case False
    then have "k < length bs - 1" using that by simp
    then show ?thesis using that by (simp add: nth_append nth_butlast bits)
  qed
  ultimately show ?thesis by blast
qed

text \<open>A list of descriptors of the table that shows a list of buffers to the device.\<close>

definition holds :: "descriptor list \<Rightarrow> u16 \<Rightarrow> buffer \<Rightarrow> bool" where
  "holds T i b \<longleftrightarrow> desc_address (T ! unat i) = buf_addr b \<and> desc_size (T ! unat i) = of_nat (buf_size b)
     \<and> desc_flags (T ! unat i) = buf_flags b"

fun shows_chain :: "descriptor list \<Rightarrow> u16 list \<Rightarrow> buffer list \<Rightarrow> bool" where
  "shows_chain T [] [] = True"
| "shows_chain T [i] [b] = holds T i b"
| "shows_chain T (i # j # is) (b # bs) = (holds T i b \<and> desc_next (T ! unat i) = j \<and> shows_chain T (j # is) bs)"
| "shows_chain T _ _ = False"

lemma shows_chain_length: "shows_chain T ds bs \<Longrightarrow> length ds = length bs"
  by (induction T ds bs rule: shows_chain.induct) auto

lemma shows_chain_frame:
  "shows_chain T ds bs \<Longrightarrow> \<forall>i \<in> set ds. T' ! unat i = T ! unat i \<Longrightarrow> shows_chain T' ds bs"
  by (induction T ds bs rule: shows_chain.induct) (auto simp: holds_def)

text \<open>The link of the last descriptor of a chain does not matter.\<close>

lemma shows_chain_last:
  assumes "shows_chain T ds bs" "distinct ds" "ds \<noteq> []" "\<forall>i \<in> set ds. unat i < length T"
  shows "shows_chain (T[unat (last ds) := (T ! unat (last ds))\<lparr>desc_next := x\<rparr>]) ds bs"
  using assms
proof (induction T ds bs rule: shows_chain.induct)
  case (3 T i j "is" b bs)
  have "unat i \<noteq> unat (last (j # is))"
  proof
    assume "unat i = unat (last (j # is))"
    then have "i = last (j # is)" by (simp only: word_unat_eq_iff)
    then have "i \<in> set (j # is)" using last_in_set [of "j # is"] by simp
    then show False using "3.prems"(2) by simp
  qed
  then show ?case using 3 by (simp add: holds_def)
qed (auto simp: holds_def)

subsection \<open>Sending a chain and giving it back\<close>

lemma nth_word_update:
  "unat k < length xs \<Longrightarrow> xs[unat k := v] ! unat k = v" "k \<noteq> i \<Longrightarrow> xs[unat i := v] ! unat k = xs ! unat k"
  by (simp_all add: word_unat_eq_iff)

abbreviation with_table :: "descriptor list \<Rightarrow> virtqueue \<Rightarrow> virtqueue" where
  "with_table T q \<equiv> q\<lparr>vq_descriptor := (vq_descriptor q)\<lparr>dma_data := T\<rparr>\<rparr>"

text \<open>
  The loop over the buffers takes the front of the stack, writes the buffers to these descriptors, and links
  each of them from the one before, the first from \<open>previous\<close> when there is one.
\<close>

lemma send_buffers_ok:
  fixes q :: virtqueue
  assumes "vq_stack q = ds @ rest" "length ds = length bs" "distinct ds"
    and "\<forall>i \<in> set ds. unat i < length (vq_table q)"
    and "case previous of None \<Rightarrow> True | Some j \<Rightarrow> j \<notin> set ds \<and> unat j < length (vq_table q)"
  shows "\<exists>T. (send_buffers bs first previous q :: (u16 option \<times> u16 option, 'e) res \<times> virtqueue)
      = (Ok (if ds = [] then first else Some (case first of None \<Rightarrow> hd ds | Some f \<Rightarrow> f),
             if ds = [] then previous else Some (last ds)), (with_table T q)\<lparr>vq_stack := rest\<rparr>)
    \<and> length T = length (vq_table q) \<and> shows_chain T ds bs
    \<and> (\<forall>i. i \<notin> set ds \<and> previous \<noteq> Some i \<longrightarrow> T ! unat i = vq_table q ! unat i)
    \<and> (\<forall>j. previous = Some j \<longrightarrow> T ! unat j =
         (if ds = [] then vq_table q ! unat j else (vq_table q ! unat j)\<lparr>desc_next := hd ds\<rparr>))"
  using assms
proof (induction bs arbitrary: ds first previous q)
  case Nil
  then show ?case by (intro exI [of _ "vq_table q"]) simp
next
  case (Cons b bs)
  then obtain i ds' where ds: "ds = i # ds'" by (cases ds) auto
  let ?w = "\<lambda>d. d\<lparr>desc_address := buf_addr b, desc_flags := buf_flags b, desc_size := of_nat (buf_size b)\<rparr>"
  let ?q1 = "vq_put i ?w (q\<lparr>vq_stack := ds' @ rest\<rparr>)"
  let ?q2 = "case previous of None \<Rightarrow> ?q1 | Some j \<Rightarrow> vq_put j (set_next (Some i)) ?q1"
  have i: "unat i < length (vq_table q)" and len: "length (vq_table ?q2) = length (vq_table q)"
    using Cons.prems(4) ds by (auto simp: vq_put_def split: option.split)
  have st: "vq_stack ?q2 = ds' @ rest" by (simp add: vq_put_def split: option.split)
  have i2: "vq_table ?q2 ! unat i = ?w (vq_table q ! unat i)"
    using Cons.prems(5) i ds by (auto simp: vq_put_def nth_word_update split: option.split)
  have j2: "vq_table ?q2 ! unat j = (vq_table q ! unat j)\<lparr>desc_next := i\<rparr>" if "previous = Some j" for j
    using Cons.prems(5) that ds i by (auto simp: vq_put_def nth_word_update set_next_def)
  have o2: "vq_table ?q2 ! unat k = vq_table q ! unat k" if "k \<noteq> i" "previous \<noteq> Some k" for k
    using that by (cases previous) (simp_all add: vq_put_def nth_word_update)
  have pre: "length ds' = length bs" "distinct ds'" "\<forall>k \<in> set ds'. unat k < length (vq_table ?q2)"
    "case Some i of None \<Rightarrow> True | Some j \<Rightarrow> j \<notin> set ds' \<and> unat j < length (vq_table ?q2)"
    using Cons.prems(2,3,4) len i ds by simp_all
  let ?f = "case first of None \<Rightarrow> i | Some f \<Rightarrow> f"
  from Cons.IH [OF st pre, of "Some ?f"] obtain T where
    T: "(send_buffers bs (Some ?f) (Some i) ?q2 :: (u16 option \<times> u16 option, 'e) res \<times> virtqueue)
      = (Ok (if ds' = [] then Some ?f else Some (case Some ?f of None \<Rightarrow> hd ds' | Some f \<Rightarrow> f),
             if ds' = [] then Some i else Some (last ds')), (with_table T ?q2)\<lparr>vq_stack := rest\<rparr>)"
    "length T = length (vq_table ?q2)" "shows_chain T ds' bs"
    "\<forall>k. k \<notin> set ds' \<and> Some i \<noteq> Some k \<longrightarrow> T ! unat k = vq_table ?q2 ! unat k"
    "\<forall>j. Some i = Some j \<longrightarrow> T ! unat j =
       (if ds' = [] then vq_table ?q2 ! unat j else (vq_table ?q2 ! unat j)\<lparr>desc_next := hd ds'\<rparr>)"
    by (elim exE conjE) (rule that)
  note Ti = T(5) [THEN spec, THEN mp, OF refl]
  have "(with_table T ?q2)\<lparr>vq_stack := rest\<rparr> = (with_table T q)\<lparr>vq_stack := rest\<rparr>"
    by (simp add: vq_put_def split: option.split)
  moreover have "(send_buffers (b # bs) first previous q :: (u16 option \<times> u16 option, 'e) res \<times> virtqueue)
      = send_buffers bs (Some ?f) (Some i) ?q2"
    using Cons.prems(1) ds i by (simp add: Let_def)
  ultimately have "(send_buffers (b # bs) first previous q :: (u16 option \<times> u16 option, 'e) res \<times> virtqueue)
      = (Ok (Some ?f, Some (last ds)), (with_table T q)\<lparr>vq_stack := rest\<rparr>)"
    using T(1) ds by simp
  moreover have "shows_chain T ds (b # bs)"
    using T(3) Ti i2 ds pre(1) by (cases ds'; cases bs) (simp_all add: holds_def)
  moreover have "T ! unat k = vq_table q ! unat k" if "k \<notin> set ds \<and> previous \<noteq> Some k" for k
    using T(4) o2 [of k] that ds by auto
  moreover have "T ! unat j = (vq_table q ! unat j)\<lparr>desc_next := i\<rparr>" if "previous = Some j" for j
    using T(4) j2 [OF that] that Cons.prems(5) ds by auto
  ultimately show ?case
    using T(2) len ds by (intro exI [of _ T]) (simp del: send_buffers.simps cong: option.case_cong)
qed

lemma wide_u16:
  fixes i :: u16
  shows "unat (ucast i :: u32) = unat i" "ucast (ucast i :: u32) = i"
proof -
  have "unat i < 2 ^ 16" using unsigned_less [of i, where ?'a = nat] by simp
  then show "unat (ucast i :: u32) = unat i" by (simp add: unsigned_ucast_eq take_bit_nat_eq_self)
  show "ucast (ucast i :: u32) = i" by (rule bit_word_eqI) (simp add: bit_simps)
qed

text \<open>The chain of a completed request is followed to its end and put back in order.\<close>

lemma recycle_ok:
  assumes "shows_chain (vq_table q) ds bs" "chained bs" "\<forall>i \<in> set ds. unat i < length (vq_table q)" "length ds \<le> n"
  shows "recycle n (ucast (hd ds)) q = (Ok () :: (unit, 'e) res, q\<lparr>vq_stack := vq_stack q @ ds\<rparr>)"
  using assms
proof (induction ds arbitrary: bs n q)
  case Nil
  then show ?case by (cases bs) auto
next
  case (Cons i ds)
  obtain m where n: "n = Suc m" using Cons.prems(4) by (cases n) auto
  obtain b bs' where bs: "bs = b # bs'" using shows_chain_length [OF Cons.prems(1)] by (cases bs) auto
  show ?case
  proof (cases ds)
    case Nil
    then have "bs' = []" "holds (vq_table q) i b" using Cons.prems(1) bs by (cases bs'; simp)+
    then show ?thesis
      using Cons.prems(2,3) bs n Nil by (simp add: wide_u16 holds_def Let_def)
  next
    case (Cons j ds')
    let ?q = "q\<lparr>vq_stack := vq_stack q @ [i]\<rparr>"
    have c: "holds (vq_table q) i b" "desc_next (vq_table q ! unat i) = j" "shows_chain (vq_table ?q) ds bs'"
      using Cons.prems(1) bs local.Cons by simp_all
    then have "bs' \<noteq> []" using shows_chain_length [OF c(3)] local.Cons by auto
    then have "has_next (buf_flags b)" "chained bs'" using Cons.prems(2) bs by (cases bs'; simp)+
    moreover from this(2) have "recycle m (ucast (hd ds)) ?q = (Ok () :: (unit, 'e) res, ?q\<lparr>vq_stack := vq_stack ?q @ ds\<rparr>)"
      using Cons.IH [OF c(3)] Cons.prems(3,4) n by simp
    ultimately show ?thesis
      using c(1,2) Cons.prems(3) n local.Cons by (simp add: wide_u16 holds_def Let_def)
  qed
qed

text \<open>The shape that a queue has from its creation on: as many entries in either ring as descriptors.\<close>

definition same_size :: "used \<Rightarrow> used \<Rightarrow> bool" where
  "same_size u u' \<longleftrightarrow> us_queue_size u' = us_queue_size u \<and> length (us_elements u') = length (us_elements u)"

definition vq_shape :: "virtqueue \<Rightarrow> bool" where
  "vq_shape q \<longleftrightarrow> (let n = length (vq_table q) in 0 < n \<and> n \<le> 2 ^ 15
     \<and> av_queue_size (vq_available q) = n \<and> length (av_elements (vq_available q)) = n
     \<and> us_queue_size (vq_used q) = n \<and> length (us_elements (vq_used q)) = n)"

lemma all_descriptors_set:
  assumes "vq_shape q"
  shows "distinct (all_descriptors q)" "set (all_descriptors q) = {i. unat i < length (vq_table q)}"
    "length (all_descriptors q) = length (vq_table q)"
proof -
  let ?n = "length (vq_table q)"
  have n: "?n \<le> 2 ^ 15" using assms by (simp add: vq_shape_def Let_def)
  have u: "unat (of_nat k :: u16) = k" if "k \<le> 2 ^ 15" for k
    using that by (simp add: unsigned_of_nat take_bit_nat_eq_self)
  then have all: "all_descriptors q = map of_nat [0..<?n]" using n by (simp add: all_descriptors_def)
  have "inj_on (of_nat :: nat \<Rightarrow> u16) {0..<?n}"
    by (rule inj_on_inverseI [where g = unat]) (use u n in auto)
  then show "distinct (all_descriptors q)" by (simp add: all distinct_map)
  show "set (all_descriptors q) = {i. unat i < ?n}"
  proof (intro set_eqI iffI)
    fix i assume "i \<in> set (all_descriptors q)"
    then show "i \<in> {i. unat i < ?n}" using u n all by auto
  next
    fix i :: u16 assume "i \<in> {i. unat i < ?n}"
    then show "i \<in> set (all_descriptors q)"
      using all by (auto intro!: image_eqI [of _ _ "unat i"])
  qed
  show "length (all_descriptors q) = ?n" by (simp add: all)
qed

text \<open>The queue after the driver has written its side, before the device is notified.\<close>

definition offered :: "descriptor list \<Rightarrow> u16 \<Rightarrow> u16 list \<Rightarrow> virtqueue \<Rightarrow> virtqueue" where
  "offered T i rest q = (let a = vq_available q; n = unat (av_head a) mod av_queue_size a
     in (with_table T (q\<lparr>vq_stack := rest\<rparr>))\<lparr>
          vq_available := a\<lparr>av_elements := (av_elements a)[n := i], av_head := av_head a + 1\<rparr>\<rparr>)"

lemma send_ok:
  fixes q :: virtqueue and E :: "'d virtio_env"
  assumes "vq_shape q" "vq_stack q = ds @ rest" "length ds = length bs" "bs \<noteq> []" "distinct ds"
    and "\<forall>i \<in> set ds. unat i < length (vq_table q)"
  shows "\<exists>T. (send E bs (q, d) :: (u32, 'e) res \<times> virtqueue \<times> 'd) = (case ve_bell E (vq_index q) (offered T (hd ds) rest q) d of (u, d') \<Rightarrow>
        (Ok (ucast (hd ds)), ((offered T (hd ds) rest q)\<lparr>vq_used := u\<rparr>, d')))
    \<and> length T = length (vq_table q) \<and> shows_chain T ds bs
    \<and> (\<forall>i. i \<notin> set ds \<longrightarrow> T ! unat i = vq_table q ! unat i)"
proof -
  have none: "case (None :: u16 option) of None \<Rightarrow> True | Some j \<Rightarrow> j \<notin> set ds \<and> unat j < length (vq_table q)" by simp
  have ds: "ds \<noteq> []" using assms(3,4) by auto
  from send_buffers_ok [OF assms(2,3,5,6) none, of None] obtain T where
    T: "(send_buffers bs None None q :: (u16 option \<times> u16 option, 'e) res \<times> virtqueue)
      = (Ok (if ds = [] then None else Some (case None of None \<Rightarrow> hd ds | Some f \<Rightarrow> f),
             if ds = [] then None else Some (last ds)), (with_table T q)\<lparr>vq_stack := rest\<rparr>)"
    "length T = length (vq_table q)" "shows_chain T ds bs"
    "\<forall>i. i \<notin> set ds \<and> None \<noteq> Some i \<longrightarrow> T ! unat i = vq_table q ! unat i"
    by (elim exE conjE) (rule that)
  let ?T = "T[unat (last ds) := (T ! unat (last ds))\<lparr>desc_next := 0\<rparr>]"
  have "shows_chain ?T ds bs"
    using shows_chain_last [OF T(3) assms(5) ds] assms(6) T(2) by simp
  moreover have "\<forall>i. i \<notin> set ds \<longrightarrow> ?T ! unat i = vq_table q ! unat i"
  proof (intro allI impI)
    fix i assume i: "i \<notin> set ds"
    then have "i \<noteq> last ds" using last_in_set [OF ds] by auto
    then show "?T ! unat i = vq_table q ! unat i" using T(4) i by (simp add: nth_word_update)
  qed
  moreover have "unat (av_head (vq_available q)) mod av_queue_size (vq_available q) < length (av_elements (vq_available q))"
    using assms(1) by (simp add: vq_shape_def Let_def)
  then have "(send E bs (q, d) :: (u32, 'e) res \<times> virtqueue \<times> 'd) = (case ve_bell E (vq_index q) (offered ?T (hd ds) rest q) d of (u, d') \<Rightarrow>
        (Ok (ucast (hd ds)), ((offered ?T (hd ds) rest q)\<lparr>vq_used := u\<rparr>, d')))"
    using T(1) ds by (simp add: send_def vq_put_def set_next_def avail_set_def offered_def Let_def)
  ultimately show ?thesis using T(2) by (intro exI [of _ ?T]) simp
qed

subsection \<open>Requests in flight\<close>

text \<open>
  The requests that were sent and not yet answered, each with its descriptors and its buffers. Every descriptor
  is free or part of exactly one of them, and the table shows each request to the device as it was sent.
\<close>

type_synonym request = "u16 list \<times> buffer list"

definition vq_inv :: "virtqueue \<Rightarrow> request list \<Rightarrow> bool" where
  "vq_inv q rs \<longleftrightarrow> vq_shape q
     \<and> mset (vq_stack q) + mset (concat (map fst rs)) = mset (all_descriptors q)
     \<and> (\<forall>(ds, bs) \<in> set rs. shows_chain (vq_table q) ds bs \<and> chained bs)"

definition last_used :: "virtqueue \<Rightarrow> used_element" where
  "last_used q = us_elements (vq_used q) ! (unat (us_head (vq_used q) - 1) mod length (vq_table q))"

lemma vq_inv_descriptors:
  assumes "vq_inv q rs"
  shows "distinct (vq_stack q @ concat (map fst rs))"
    "set (vq_stack q @ concat (map fst rs)) = {i. unat i < length (vq_table q)}"
    "length (vq_stack q @ concat (map fst rs)) = length (vq_table q)"
proof -
  have shape: "vq_shape q" and m: "mset (vq_stack q @ concat (map fst rs)) = mset (all_descriptors q)"
    using assms by (simp_all add: vq_inv_def)
  note all = all_descriptors_set [OF shape]
  show "distinct (vq_stack q @ concat (map fst rs))" using all(1) mset_eq_imp_distinct_iff [OF m] by blast
  show "set (vq_stack q @ concat (map fst rs)) = {i. unat i < length (vq_table q)}"
    using all(2) mset_eq_setD [OF m] by blast
  show "length (vq_stack q @ concat (map fst rs)) = length (vq_table q)"
    using all(3) mset_eq_length [OF m] by simp
qed

lemma vq_inv_request:
  assumes "vq_inv q rs" "(ds, bs) \<in> set rs"
  shows "shows_chain (vq_table q) ds bs" "chained bs" "\<forall>i \<in> set ds. unat i < length (vq_table q)"
    "length ds \<le> length (vq_table q)" "ds \<noteq> []"
proof -
  show c: "shows_chain (vq_table q) ds bs" "chained bs" using assms by (auto simp: vq_inv_def)
  obtain xs ys where rs: "rs = xs @ (ds, bs) # ys" using split_list [OF assms(2)] by blast
  show "\<forall>i \<in> set ds. unat i < length (vq_table q)"
    using vq_inv_descriptors(2) [OF assms(1)] rs by auto
  show "length ds \<le> length (vq_table q)"
    using vq_inv_descriptors(3) [OF assms(1)] rs by simp
  show "ds \<noteq> []" using c shows_chain_length [OF c(1)] by (cases bs) auto
qed

text \<open>Polling a request in flight looks at the last entry of the used ring only.\<close>

lemma poll_request:
  assumes inv: "vq_inv q rs" and r: "(ds, bs) \<in> set rs"
  shows "poll (ucast (hd ds)) q =
     (if us_head (vq_used q) = vq_used_head q \<or> ue_table_index (last_used q) \<noteq> ucast (hd ds)
      then (Ok None, q\<lparr>vq_waker := insert (ucast (hd ds)) (vq_waker q)\<rparr>)
      else (Ok (Some (ue_written (last_used q))) :: (u32 option, 'e) res,
        q\<lparr>vq_waker := vq_waker q - {ucast (hd ds)}, vq_stack := vq_stack q @ ds, vq_used_head := us_head (vq_used q)\<rparr>))"
proof -
  let ?i = "ucast (hd ds) :: u32"
  let ?q = "q\<lparr>vq_waker := insert ?i (vq_waker q)\<rparr>"
  have shape: "vq_shape q" using inv by (simp add: vq_inv_def)
  then have get: "used_get (unat (us_head (vq_used q) - 1)) (vq_used q) = (Ok (last_used q) :: (used_element, 'e) res)"
    by (simp add: used_get_def vq_shape_def last_used_def Let_def)
  have "recycle (Suc (length (vq_table ?q))) ?i ?q = (Ok () :: (unit, 'e) res, ?q\<lparr>vq_stack := vq_stack ?q @ ds\<rparr>)"
    using vq_inv_request [OF inv r] by (intro recycle_ok) simp_all
  then show ?thesis
    using get by (simp add: poll_def bind_m_def insert_Diff_if Let_def del: recycle.simps)
qed

inductive vq_step :: "'d virtio_env \<Rightarrow> virtqueue \<times> request list \<Rightarrow> virtqueue \<times> request list \<Rightarrow> bool"
  for E :: "'d virtio_env" where
  send: "chained bs \<Longrightarrow> length bs \<le> length (vq_stack q) \<Longrightarrow>
     send E bs (q, d) = (Ok first :: (u32, errno) res, (q', d')) \<Longrightarrow> same_size (vq_used q) (vq_used q') \<Longrightarrow>
     vq_step E (q, rs) (q', rs @ [(take (length bs) (vq_stack q), bs)])"
| device: "same_size (vq_used q) u \<Longrightarrow> vq_step E (q, rs) (q\<lparr>vq_used := u\<rparr>, rs)"
| pending: "(ds, bs) \<in> set rs \<Longrightarrow> poll (ucast (hd ds)) q = (Ok None :: (u32 option, errno) res, q') \<Longrightarrow>
     vq_step E (q, rs) (q', rs)"
| ready: "(ds, bs) \<in> set rs \<Longrightarrow> poll (ucast (hd ds)) q = (Ok (Some w) :: (u32 option, errno) res, q') \<Longrightarrow>
     vq_step E (q, rs) (q', remove1 (ds, bs) rs)"

lemma vq_inv_send:
  fixes E :: "'d virtio_env"
  assumes inv: "vq_inv q rs" and bs: "chained bs" "length bs \<le> length (vq_stack q)"
  shows "\<exists>T u d'. send E bs (q, d) = (Ok (ucast (hd (vq_stack q))) :: (u32, 'e) res,
        ((offered T (hd (vq_stack q)) (drop (length bs) (vq_stack q)) q)\<lparr>vq_used := u\<rparr>, d'))
    \<and> ve_bell E (vq_index q) (offered T (hd (vq_stack q)) (drop (length bs) (vq_stack q)) q) d = (u, d')
    \<and> shows_chain T (take (length bs) (vq_stack q)) bs \<and> length T = length (vq_table q)
    \<and> (same_size (vq_used q) u \<longrightarrow>
        vq_inv ((offered T (hd (vq_stack q)) (drop (length bs) (vq_stack q)) q)\<lparr>vq_used := u\<rparr>)
          (rs @ [(take (length bs) (vq_stack q), bs)]))"
proof -
  let ?ds = "take (length bs) (vq_stack q)" and ?rest = "drop (length bs) (vq_stack q)"
  have shape: "vq_shape q" using inv by (simp add: vq_inv_def)
  have ne: "bs \<noteq> []" using bs(1) by auto
  note all = vq_inv_descriptors [OF inv]
  have ds: "distinct ?ds" "\<forall>i \<in> set ?ds. unat i < length (vq_table q)" "length ?ds = length bs"
    using all(1,2) bs(2) by (auto dest: in_set_takeD)
  have hd: "hd ?ds = hd (vq_stack q)" using ne by (simp add: hd_take)
  have app: "vq_stack q = ?ds @ ?rest" by simp
  from send_ok [OF shape app ds(3) ne ds(1,2), of E d, unfolded hd] obtain T where
    T: "(send E bs (q, d) :: (u32, 'e) res \<times> virtqueue \<times> 'd)
       = (case ve_bell E (vq_index q) (offered T (hd (vq_stack q)) ?rest q) d of (u, d') \<Rightarrow>
        (Ok (ucast (hd (vq_stack q))), ((offered T (hd (vq_stack q)) ?rest q)\<lparr>vq_used := u\<rparr>, d')))"
    "length T = length (vq_table q)" "shows_chain T ?ds bs"
    "\<forall>i. i \<notin> set ?ds \<longrightarrow> T ! unat i = vq_table q ! unat i"
    by (elim exE conjE) (rule that)
  obtain u d' where bell: "ve_bell E (vq_index q) (offered T (hd (vq_stack q)) ?rest q) d = (u, d')" by fastforce
  have old: "shows_chain T ds' bs' \<and> chained bs'" if "(ds', bs') \<in> set rs" for ds' bs'
  proof -
    note r = vq_inv_request [OF inv that]
    have "set ds' \<inter> set (vq_stack q) = {}" using all(1) that by fastforce
    then have "\<forall>i \<in> set ds'. T ! unat i = vq_table q ! unat i" using T(4) by (auto dest: in_set_takeD)
    then show ?thesis using shows_chain_frame [OF r(1)] r(2) by blast
  qed
  have "vq_inv ((offered T (hd (vq_stack q)) ?rest q)\<lparr>vq_used := u\<rparr>) (rs @ [(?ds, bs)])" if "same_size (vq_used q) u"
  proof -
    have "mset ?ds + mset ?rest = mset (vq_stack q)" by (metis app mset_append)
    then have "mset ?rest + mset (concat (map fst (rs @ [(?ds, bs)]))) = mset (all_descriptors q)"
      using inv by (simp add: vq_inv_def ac_simps)
    then show ?thesis
      using shape that T(2,3) bs(1) old
      by (auto simp: vq_inv_def vq_shape_def same_size_def offered_def all_descriptors_def Let_def)
  qed
  then show ?thesis using T bell by (intro exI [of _ T] exI [of _ u] exI [of _ d']) simp
qed

lemma vq_inv_step: "vq_step E s s' \<Longrightarrow> vq_inv (fst s) (snd s) \<Longrightarrow> vq_inv (fst s') (snd s')"
proof (induction rule: vq_step.induct)
  case (send bs q d first q' d' rs)
  obtain T u d'' where run: "send E bs (q, d) = (Ok (ucast (hd (vq_stack q))) :: (u32, errno) res,
        ((offered T (hd (vq_stack q)) (drop (length bs) (vq_stack q)) q)\<lparr>vq_used := u\<rparr>, d''))"
    and inv: "same_size (vq_used q) u \<longrightarrow>
        vq_inv ((offered T (hd (vq_stack q)) (drop (length bs) (vq_stack q)) q)\<lparr>vq_used := u\<rparr>)
          (rs @ [(take (length bs) (vq_stack q), bs)])"
    using vq_inv_send [where E = E and d = d, OF send.prems [unfolded fst_conv snd_conv] send.hyps(1,2)]
    by (elim exE conjE) (rule that)
  from run send.hyps(3) have q': "q' = (offered T (hd (vq_stack q)) (drop (length bs) (vq_stack q)) q)\<lparr>vq_used := u\<rparr>"
    by simp
  with send.hyps(4) have "same_size (vq_used q) u" by simp
  with inv q' show ?case by simp
next
  case (device q u rs)
  then show ?case by (simp add: vq_inv_def vq_shape_def same_size_def all_descriptors_def)
next
  case (pending ds bs rs q q')
  then have "q' = q\<lparr>vq_waker := insert (ucast (hd ds)) (vq_waker q)\<rparr>"
    using poll_request [of q rs ds bs, where 'e = errno] by (simp split: if_splits)
  then show ?case using pending.prems by (simp add: vq_inv_def vq_shape_def all_descriptors_def)
next
  case (ready ds bs rs q w q')
  then have q': "q' = q\<lparr>vq_waker := vq_waker q - {ucast (hd ds)}, vq_stack := vq_stack q @ ds,
      vq_used_head := us_head (vq_used q)\<rparr>"
    using poll_request [of q rs ds bs, where 'e = errno] by (simp split: if_splits)
  have "mset (concat (map fst rs)) = mset ds + mset (concat (map fst (remove1 (ds, bs) rs)))"
    using ready.hyps(1) by (induction rs) auto
  then show ?case
    using ready.prems
    by (auto simp: q' vq_inv_def vq_shape_def all_descriptors_def add.assoc dest: set_remove1_subset [THEN subsetD])
qed

lemma vq_inv_steps: "(vq_step E)\<^sup>*\<^sup>* s s' \<Longrightarrow> vq_inv (fst s) (snd s) \<Longrightarrow> vq_inv (fst s') (snd s')"
  by (induction rule: rtranclp_induct) (auto dest: vq_inv_step)

lemma queue_new_inv:
  assumes "0 < length (dma_data D)" "length (dma_data D) \<le> 2 ^ 15"
    and "av_queue_size a = length (dma_data D)" "length (av_elements a) = length (dma_data D)"
    and "us_queue_size u = length (dma_data D)" "length (us_elements u) = length (dma_data D)"
  shows "vq_inv (queue_new D a u b i v) []"
  using assms by (simp add: vq_inv_def vq_shape_def queue_new_def all_descriptors_def)

text \<open>
  Virtqueue property C23. From its creation on, whatever requests are sent, however they are polled, and whatever
  the device writes to the used ring, a queue keeps its descriptors apart: each is free or belongs to exactly one
  request in flight, and the table still shows every request in flight to the device as it was sent. A chain that fits
  into the free descriptors can be sent, and polling a request in flight neither panics nor loops.
\<close>

theorem virtqueue_safe:
  assumes "0 < length (dma_data D)" "length (dma_data D) \<le> 2 ^ 15"
    and "av_queue_size a = length (dma_data D)" "length (av_elements a) = length (dma_data D)"
    and "us_queue_size u = length (dma_data D)" "length (us_elements u) = length (dma_data D)"
    and steps: "(vq_step E)\<^sup>*\<^sup>* (queue_new D a u b i v, []) (q, rs)"
  shows "distinct (vq_stack q @ concat (map fst rs))
    \<and> set (vq_stack q @ concat (map fst rs)) = {i. unat i < length (vq_table q)}
    \<and> (\<forall>(ds, bs) \<in> set rs. shows_chain (vq_table q) ds bs
        \<and> is_ok (fst (poll (ucast (hd ds)) q :: (u32 option, errno) res \<times> virtqueue)))
    \<and> (\<forall>cs d. chained cs \<and> length cs \<le> length (vq_stack q) \<longrightarrow>
        is_ok (fst (send E cs (q, d) :: (u32, errno) res \<times> virtqueue \<times> 'd)))"
proof (intro conjI ballI allI impI)
  have inv: "vq_inv q rs" using vq_inv_steps [OF steps] queue_new_inv [OF assms(1-6)] by simp
  show "distinct (vq_stack q @ concat (map fst rs))" "set (vq_stack q @ concat (map fst rs)) = {i. unat i < length (vq_table q)}"
    by (rule vq_inv_descriptors [OF inv])+
  show "case r of (ds, bs) \<Rightarrow> shows_chain (vq_table q) ds bs
      \<and> is_ok (fst (poll (ucast (hd ds)) q :: (u32 option, errno) res \<times> virtqueue))" if "r \<in> set rs" for r
    using vq_inv_request(1) [OF inv] poll_request [OF inv, where 'e = errno] that by (cases r) simp
  show "is_ok (fst (send E cs (q, d) :: (u32, errno) res \<times> virtqueue \<times> 'd))"
    if "chained cs \<and> length cs \<le> length (vq_stack q)" for cs d
    using vq_inv_send [OF inv, of cs E d, where 'e = errno] that by (elim exE conjE) auto
qed

subsection \<open>A request on an idle queue\<close>

text \<open>What the device sees of a chain: address, length and whether it may write.\<close>

type_synonym buffer_view = "u64 \<times> u32 \<times> bool"

definition view :: "buffer \<Rightarrow> buffer_view" where
  "view b = (buf_addr b, of_nat (buf_size b), bit (buf_flags b) 1)"

primrec chain_of :: "nat \<Rightarrow> descriptor list \<Rightarrow> u16 \<Rightarrow> buffer_view list" where
  "chain_of 0 T i = []"
| "chain_of (Suc n) T i = (let d = T ! unat i
     in (desc_address d, desc_size d, bit (desc_flags d) 1)
        # (if has_next (desc_flags d) then chain_of n T (desc_next d) else []))"

lemma chain_of_shows:
  "shows_chain T ds bs \<Longrightarrow> chained bs \<Longrightarrow> length ds \<le> n \<Longrightarrow> chain_of n T (hd ds) = map view bs"
proof (induction T ds bs arbitrary: n rule: shows_chain.induct)
  case (2 T i b)
  then show ?case by (cases n) (simp_all add: holds_def view_def Let_def)
next
  case (3 T i j "is" b bs)
  then have "bs \<noteq> []" by (cases bs) auto
  with 3 show ?case by (cases n; cases bs) (simp_all add: holds_def view_def Let_def)
qed auto

text \<open>
  A device handles requests by \<open>serve\<close> when, after at most \<open>L\<close> more wake-ups, it enters the chain that was offered
  last into the used ring with the number of bytes that \<open>serve\<close> answers, and changes the memory as it does.
\<close>

definition posted :: "used \<Rightarrow> u32 \<Rightarrow> u32 \<Rightarrow> used" where
  "posted u i w = u\<lparr>us_elements := (us_elements u)[unat (us_head u) mod us_queue_size u :=
     \<lparr>ue_table_index = i, ue_written = w\<rparr>], us_head := us_head u + 1\<rparr>"

primrec completes :: "'d virtio_env \<Rightarrow> nat \<Rightarrow> virtqueue \<Rightarrow> u32 \<Rightarrow> u32 \<times> 'd \<Rightarrow> used \<times> 'd \<Rightarrow> bool" where
  "completes E 0 q i r s \<longleftrightarrow> s = (posted (vq_used q) i (fst r), snd r)"
| "completes E (Suc k) q i r s \<longleftrightarrow> fst s = vq_used q
     \<and> (\<forall>W. completes E k q i r (ve_wait E (q\<lparr>vq_waker := W\<rparr>) (snd s)))"

definition handles :: "'d virtio_env \<Rightarrow> (buffer_view list \<Rightarrow> 'd \<Rightarrow> u32 \<times> 'd) \<Rightarrow> nat \<Rightarrow> bool" where
  "handles E serve L \<longleftrightarrow> (\<forall>q d. vq_shape q \<and> av_head (vq_available q) = us_head (vq_used q) + 1 \<longrightarrow>
     (let n = length (vq_table q); i = av_elements (vq_available q) ! (unat (us_head (vq_used q)) mod n)
      in \<exists>k \<le> L. completes E k q (ucast i) (serve (chain_of n (vq_table q) i) d) (ve_bell E (vq_index q) q d)))"

definition vq_idle :: "virtqueue \<Rightarrow> bool" where
  "vq_idle q \<longleftrightarrow> vq_inv q [] \<and> av_head (vq_available q) = us_head (vq_used q) \<and> vq_used_head q = us_head (vq_used q)"

lemma posted_last:
  assumes "vq_shape q"
  shows "last_used (q\<lparr>vq_used := posted (vq_used q) i w\<rparr>) = \<lparr>ue_table_index = i, ue_written = w\<rparr>"
    "same_size (vq_used q) (posted (vq_used q) i w)"
proof -
  have n: "us_queue_size (vq_used q) = length (vq_table q)" "length (us_elements (vq_used q)) = length (vq_table q)"
    "0 < length (vq_table q)"
    using assms by (simp_all add: vq_shape_def Let_def)
  then show "last_used (q\<lparr>vq_used := posted (vq_used q) i w\<rparr>) = \<lparr>ue_table_index = i, ue_written = w\<rparr>"
    by (simp add: last_used_def posted_def)
  show "same_size (vq_used q) (posted (vq_used q) i w)" by (simp add: same_size_def posted_def)
qed

lemma vq_inv_cong:
  "vq_inv (q\<lparr>vq_waker := W\<rparr>) rs = vq_inv q rs"
  "same_size (vq_used q) u \<Longrightarrow> vq_inv (q\<lparr>vq_used := u\<rparr>) rs = vq_inv q rs"
  by (simp_all add: vq_inv_def vq_shape_def all_descriptors_def same_size_def)

lemma await_completes:
  fixes E :: "'d virtio_env"
  assumes "vq_inv q [(ds, bs)]" "us_head (vq_used q) = vq_used_head q"
    and "completes E k q (ucast (hd ds)) (w, d') s" "k < fuel"
  shows "\<exists>W. await_request fuel E (ucast (hd ds)) (q\<lparr>vq_used := fst s\<rparr>, snd s)
    = (Ok w :: (u32, 'e) res, (q\<lparr>vq_waker := W, vq_used := posted (vq_used q) (ucast (hd ds)) w,
        vq_stack := vq_stack q @ ds, vq_used_head := us_head (vq_used q) + 1\<rparr>, d'))"
  using assms
proof (induction k arbitrary: q s fuel)
  case 0
  then obtain m where f: "fuel = Suc m" by (cases fuel) auto
  let ?u = "posted (vq_used q) (ucast (hd ds)) w"
  have shape: "vq_shape q" using 0(1) by (simp add: vq_inv_def)
  note p = posted_last [OF shape, of "ucast (hd ds)" w]
  have inv: "vq_inv (q\<lparr>vq_used := ?u\<rparr>) [(ds, bs)]" using 0(1) vq_inv_cong(2) [OF p(2)] by simp
  have "us_head ?u \<noteq> vq_used_head q" using 0(2) by (simp add: posted_def)
  then show ?case
    using 0(3) poll_request [OF inv, of ds bs, where 'e = 'e] p(1)
    by (intro exI [of _ "vq_waker q - {ucast (hd ds)}"])
      (simp add: f bind_m_def on_fst_def return_m_def posted_def)
next
  case (Suc k)
  then obtain m where f: "fuel = Suc m" by (cases fuel) auto
  let ?i = "ucast (hd ds) :: u32"
  let ?W = "insert ?i (vq_waker q)"
  let ?q = "q\<lparr>vq_waker := ?W\<rparr>"
  have same: "q\<lparr>vq_used := vq_used q\<rparr> = q" by simp
  have pend: "poll ?i q = (Ok None :: (u32 option, 'e) res, ?q)"
    using poll_request [OF Suc.prems(1), of ds bs, where 'e = 'e] Suc.prems(2) by simp
  have next_wait: "fst s = vq_used q" "completes E k q ?i (w, d') (ve_wait E ?q (snd s))"
    using Suc.prems(3) by simp_all
  have waker: "completes E k (q\<lparr>vq_waker := W\<rparr>) i r s' = completes E k q i r s'" for W i r s'
    by (induction k arbitrary: s') simp_all
  have "\<exists>W. await_request m E ?i (?q\<lparr>vq_used := fst (ve_wait E ?q (snd s))\<rparr>, snd (ve_wait E ?q (snd s)))
      = (Ok w :: (u32, 'e) res, (?q\<lparr>vq_waker := W, vq_used := posted (vq_used ?q) ?i w, vq_stack := vq_stack ?q @ ds,
          vq_used_head := us_head (vq_used ?q) + 1\<rparr>, d'))"
    by (rule Suc.IH) (use Suc.prems(1,2,4) next_wait(2) f in \<open>simp_all add: vq_inv_cong waker\<close>)
  then show ?case
    using pend next_wait(1)
    by (simp add: f bind_m_def on_fst_def same case_prod_beta)
qed

text \<open>
  Virtqueue property C24. On an idle queue, and for every device that handles requests, sending a chain that is
  not longer than the table and awaiting it shows exactly the buffers of the chain to the device, answers the number
  of bytes that the device has written, and leaves the queue idle with all its descriptors free. This holds at every position
  of the 16-bit indices of the rings, so for any number of requests one after the other.
\<close>

theorem request_completes:
  fixes E :: "'d virtio_env"
  assumes idle: "vq_idle q" and bs: "chained bs" "length bs \<le> length (vq_table q)"
    and dev: "handles E serve L" "L < fuel"
  shows "\<exists>q'. send_and_wait fuel E bs (q, d) = (Ok (fst (serve (map view bs) d)) :: (u32, 'e) res,
      (q', snd (serve (map view bs) d))) \<and> vq_idle q' \<and> vq_index q' = vq_index q \<and> length (vq_table q') = length (vq_table q)"
proof -
  have inv: "vq_inv q []" and heads: "av_head (vq_available q) = us_head (vq_used q)" "vq_used_head q = us_head (vq_used q)"
    using idle by (simp_all add: vq_idle_def)
  have st: "length (vq_stack q) = length (vq_table q)" using vq_inv_descriptors(3) [OF inv] by simp
  let ?ds = "take (length bs) (vq_stack q)" and ?rest = "drop (length bs) (vq_stack q)" and ?h = "hd (vq_stack q)"
  obtain T u d1 where run: "send E bs (q, d) = (Ok (ucast ?h) :: (u32, 'e) res, ((offered T ?h ?rest q)\<lparr>vq_used := u\<rparr>, d1))"
    and bell: "ve_bell E (vq_index q) (offered T ?h ?rest q) d = (u, d1)"
    and T: "shows_chain T ?ds bs" "length T = length (vq_table q)"
    and inv1: "same_size (vq_used q) u \<longrightarrow> vq_inv ((offered T ?h ?rest q)\<lparr>vq_used := u\<rparr>) ([] @ [(?ds, bs)])"
    using vq_inv_send [where E = E and d = d and 'e = 'e, OF inv bs(1) bs(2) [folded st]] by (elim exE conjE) (rule that)
  let ?q = "offered T ?h ?rest q"
  have hd: "hd ?ds = ?h" using bs(1) by (cases bs) (simp_all add: hd_take)
  have shape: "vq_shape q" "vq_shape ?q"
    using inv T(2) by (simp_all add: vq_inv_def vq_shape_def offered_def Let_def)
  let ?n = "length (vq_table q)"
  have n: "0 < ?n" "av_queue_size (vq_available q) = ?n" "length (av_elements (vq_available q)) = ?n"
    using shape(1) by (simp_all add: vq_shape_def Let_def)
  have head: "av_elements (vq_available ?q) ! (unat (us_head (vq_used ?q)) mod ?n) = ?h"
    using n heads(1) by (simp add: offered_def Let_def)
  have chain: "chain_of ?n (vq_table ?q) ?h = map view bs"
    using chain_of_shows [OF T(1) bs(1), of ?n] bs(2) hd st by (simp add: offered_def Let_def)
  have tab: "length (vq_table ?q) = ?n" "us_head (vq_used ?q) = us_head (vq_used q)" "vq_index ?q = vq_index q"
    "av_head (vq_available ?q) = us_head (vq_used q) + 1" "vq_used ?q = vq_used q" "vq_used_head ?q = vq_used_head q"
    "vq_stack ?q = ?rest"
    using T(2) heads(1) by (simp_all add: offered_def Let_def)
  obtain w d' where r: "serve (map view bs) d = (w, d')" by fastforce
  obtain k where k: "k \<le> L" "completes E k ?q (ucast ?h) (w, d') (u, d1)"
    using dev(1) [unfolded handles_def, THEN spec, THEN spec, of ?q d] shape(2) tab(1-4) head chain r bell
    by (auto simp: Let_def)
  have "vq_inv ?q [(?ds, bs)]"
  proof -
    have "same_size (vq_used q) (vq_used q)" by (simp add: same_size_def)
    moreover have "same_size (vq_used q) u"
      using k(2) posted_last(2) [OF shape(2)] tab(5) by (cases k) (auto simp: same_size_def)
    ultimately show ?thesis using inv1 vq_inv_cong(2) [of ?q u] tab(5) by simp
  qed
  from await_completes [OF this, of E k w d' "(u, d1)" fuel, where 'e = 'e] obtain W where
    fin: "await_request fuel E (ucast ?h) (?q\<lparr>vq_used := u\<rparr>, d1) = (Ok w :: (u32, 'e) res,
      (?q\<lparr>vq_waker := W, vq_used := posted (vq_used q) (ucast ?h) w, vq_stack := ?rest @ ?ds,
          vq_used_head := us_head (vq_used q) + 1\<rparr>, d'))"
    using heads(2) k dev(2) tab hd by auto
  let ?q' = "?q\<lparr>vq_waker := W, vq_used := posted (vq_used q) (ucast ?h) w, vq_stack := ?rest @ ?ds,
          vq_used_head := us_head (vq_used q) + 1\<rparr>"
  have "mset (?rest @ ?ds) = mset (vq_stack q)" by (metis append_take_drop_id mset_append union_commute)
  then have "vq_idle ?q'"
    using inv T(2) tab(4) posted_last(2) [OF shape(1), of "ucast ?h" w]
    by (auto simp: vq_idle_def vq_inv_def vq_shape_def same_size_def posted_def offered_def all_descriptors_def Let_def)
  moreover have "send_and_wait fuel E bs (q, d) = (Ok w :: (u32, 'e) res, (?q', d'))"
    using run fin by (simp add: send_and_wait_def bind_m_def)
  ultimately show ?thesis using r tab(1,3) by (intro exI [of _ ?q']) simp
qed

subsection \<open>Two completions at once\<close>

text \<open>A request that the device has entered into the used ring and that the driver has not seen yet.\<close>

definition reported :: "virtqueue \<Rightarrow> u32 \<Rightarrow> bool" where
  "reported q i \<longleftrightarrow> (\<exists>k < unat (us_head (vq_used q) - vq_used_head q).
     ue_table_index (us_elements (vq_used q) ! (unat (vq_used_head q + of_nat k) mod length (vq_table q))) = i)"

definition polls :: "u32 list \<Rightarrow> virtqueue \<Rightarrow> virtqueue" where
  "polls is q = fold (\<lambda>i q. snd (poll i q :: (u32 option, errno) res \<times> virtqueue)) is q"

text \<open>
  Virtqueue property C25. When the device completes two requests before either is polled, the one that it completed
  first is lost: polling looks at the last entry of the used ring only, and seeing the last one marks all
  of them as seen. However often the two requests are polled, the first stays pending until the device completes another
  request after it, and even then only the last is found.
\<close>

theorem completion_lost:
  assumes inv: "vq_inv q rs" and a: "(da, ba) \<in> set rs" and b: "(db, bb) \<in> set rs" and ab: "hd da \<noteq> hd db"
    and "reported q (ucast (hd da))" "reported q (ucast (hd db))" and last: "ue_table_index (last_used q) = ucast (hd db)"
    and "set is \<subseteq> {ucast (hd da), ucast (hd db)}"
  shows "fst (poll (ucast (hd da)) (polls is q)) = (Ok None :: (u32 option, errno) res)"
proof -
  let ?a = "ucast (hd da) :: u32" and ?b = "ucast (hd db) :: u32"
  have "?a \<noteq> ?b" using ab wide_u16(2) by metis
  define good where "good p \<longleftrightarrow> us_head (vq_used p) = vq_used_head p \<or> (\<exists>W. p = q\<lparr>vq_waker := W\<rparr>)" for p
  have same: "last_used (q\<lparr>vq_waker := W\<rparr>) = last_used q" for W by (simp add: last_used_def)
  have seen: "us_head (vq_used p) = vq_used_head p \<Longrightarrow>
      (poll i p :: (u32 option, errno) res \<times> virtqueue) = (Ok None, p\<lparr>vq_waker := insert i (vq_waker p)\<rparr>)" for p i
    by (simp add: poll_def Let_def)
  have fresh: "poll ?a (q\<lparr>vq_waker := W\<rparr>) = (Ok None :: (u32 option, errno) res, q\<lparr>vq_waker := insert ?a W\<rparr>)"
    "good (snd (poll ?b (q\<lparr>vq_waker := W\<rparr>) :: (u32 option, errno) res \<times> virtqueue))" for W
    using poll_request [of "q\<lparr>vq_waker := W\<rparr>" rs da ba, where 'e = errno]
      poll_request [of "q\<lparr>vq_waker := W\<rparr>" rs db bb, where 'e = errno] inv a b last \<open>?a \<noteq> ?b\<close>
    by (auto simp: vq_inv_cong same good_def)
  have step: "good (snd (poll i p :: (u32 option, errno) res \<times> virtqueue))" if "good p" "i \<in> {?a, ?b}" for p i
    using that seen [of p i] fresh by (auto simp: good_def)
  have "good (fold (\<lambda>i q. snd (poll i q :: (u32 option, errno) res \<times> virtqueue)) is p)"
    if "good p" "set is \<subseteq> {?a, ?b}" for p "is"
    using that by (induction "is" arbitrary: p) (simp_all add: step)
  moreover have "good q" unfolding good_def by (intro disjI2 exI [of _ "vq_waker q"]) simp
  ultimately have "good (polls is q)" using assms(8) by (simp add: polls_def)
  then show ?thesis using seen [of "polls is q" ?a] fresh(1) by (auto simp: good_def)
qed

subsection \<open>A sample queue\<close>

definition sample_table :: "descriptor dma" where
  "sample_table = \<lparr>dma_phys = 0x1000, dma_aligned_len = 4096, dma_virt = 0x2000, dma_data = replicate 4 zero_descriptor\<rparr>"

definition sample_avail :: available where
  "sample_avail = \<lparr>av_mem = OwnedMem 0x3000 0x4000 4096, av_queue_size = 4, av_head = 0, av_elements = replicate 4 0xFFFF\<rparr>"

definition sample_used :: used where
  "sample_used = \<lparr>us_mem = OwnedMem 0x5000 0x6000 4096, us_queue_size = 4, us_head = 0,
     us_elements = replicate 4 \<lparr>ue_table_index = 0xFFFFFFFF, ue_written = 0\<rparr>\<rparr>"

definition sample_queue :: virtqueue where
  "sample_queue = queue_new sample_table sample_avail sample_used 0x8000 0 0"

lemma sample_queue_idle: "vq_idle sample_queue"
  by (simp add: vq_idle_def sample_queue_def queue_new_inv sample_table_def sample_avail_def sample_used_def)
    (simp add: queue_new_def)

text \<open>A device that answers a request at once when it is notified.\<close>

definition prompt_device :: "'d mem_ops \<Rightarrow> (u64 \<Rightarrow> nat \<Rightarrow> 'd \<Rightarrow> bytes) \<Rightarrow> (u64 \<Rightarrow> bytes \<Rightarrow> 'd \<Rightarrow> 'd)
    \<Rightarrow> (buffer_view list \<Rightarrow> 'd \<Rightarrow> u32 \<times> 'd) \<Rightarrow> 'd virtio_env" where
  "prompt_device K load store serve = \<lparr>ve_mem = K, ve_load = load, ve_store = store,
     ve_bell = (\<lambda>_ q d. let n = length (vq_table q); i = av_elements (vq_available q) ! (unat (us_head (vq_used q)) mod n);
         r = serve (chain_of n (vq_table q) i) d
       in (posted (vq_used q) (ucast i) (fst r), snd r)),
     ve_wait = (\<lambda>q d. (vq_used q, d))\<rparr>"

lemma prompt_handles: "handles (prompt_device K load store serve) serve 0"
  by (simp add: handles_def prompt_device_def Let_def)

definition no_mem :: "'d mem_ops" where
  "no_mem = \<lparr>mem_contiguous_fd = fail_m ENOMEM, mem_mmap = (\<lambda>_ _ _. fail_m ENOMEM), mem_munmap = (\<lambda>_ _. fail_m ENOMEM),
     mem_virttophys = (\<lambda>_. fail_m ENOMEM), mem_close = (\<lambda>_. fail_m ENOMEM)\<rparr>"

definition count_env :: "nat virtio_env" where
  "count_env = prompt_device no_mem (\<lambda>_ _ _. []) (\<lambda>_ _ d. d) (\<lambda>bs d. (of_nat (length bs), Suc d))"

definition sample_buffer :: buffer where
  "sample_buffer = \<lparr>buf_addr = 0x7000, buf_size = 16, buf_flags = df_write_only\<rparr>"

lemma sample_chained: "chained [sample_buffer\<lparr>buf_flags := 3\<rparr>, sample_buffer]" "chained [sample_buffer]"
  by (simp_all add: sample_buffer_def df_write_only_def has_next_def)

theorem request_completes_witness:
  "\<exists>q'. send_and_wait 1 count_env [sample_buffer\<lparr>buf_flags := 3\<rparr>, sample_buffer] (sample_queue, 5)
    = (Ok 2 :: (u32, errno) res, (q', 6)) \<and> vq_idle q'"
proof -
  have n: "length (vq_table sample_queue) = 4" by (simp add: sample_queue_def queue_new_def sample_table_def)
  show ?thesis
    using request_completes [where d = "5 :: nat" and 'e = errno, OF sample_queue_idle sample_chained(1) _
        prompt_handles [where K = no_mem and load = "\<lambda>_ _ _. []" and store = "\<lambda>_ _ d. d"
          and serve = "\<lambda>bs d. (of_nat (length bs), Suc d)"], of 1] n
    by (auto simp: count_env_def)
qed

theorem virtqueue_safe_witness:
  "\<exists>q. (vq_step count_env)\<^sup>*\<^sup>* (sample_queue, []) (q, [([0], [sample_buffer])]) \<and> distinct (vq_stack q @ [0])
    \<and> shows_chain (vq_table q) [0] [sample_buffer]"
proof -
  have st: "vq_stack sample_queue = [0, 1, 2, 3]" "vq_inv sample_queue []"
    using sample_queue_idle by (simp_all add: vq_idle_def sample_queue_def queue_new_def sample_table_def upt_rec)
  obtain T u d' where run: "send count_env [sample_buffer] (sample_queue, 0) = (Ok 0 :: (u32, errno) res,
        ((offered T 0 [1, 2, 3] sample_queue)\<lparr>vq_used := u\<rparr>, d'))"
    and bell: "ve_bell count_env (vq_index sample_queue) (offered T 0 [1, 2, 3] sample_queue) 0 = (u, d')"
    using vq_inv_send [where E = count_env and d = 0 and 'e = errno, OF st(2) sample_chained(2)] st(1)
    by (simp add: drop_Cons') blast
  let ?q = "(offered T 0 [1, 2, 3] sample_queue)\<lparr>vq_used := u\<rparr>"
  have "same_size (vq_used sample_queue) (vq_used ?q)"
    using bell by (auto simp: count_env_def prompt_device_def same_size_def posted_def offered_def Let_def)
  then have "vq_step count_env (sample_queue, []) (?q, [] @ [(take (length [sample_buffer]) (vq_stack sample_queue), [sample_buffer])])"
    using vq_step.send [where E = count_env and rs = "[]", OF sample_chained(2) _ run] st(1) by simp
  then have steps: "(vq_step count_env)\<^sup>*\<^sup>* (queue_new sample_table sample_avail sample_used 0x8000 0 0, []) (?q, [([0], [sample_buffer])])"
    using st(1) by (simp add: sample_queue_def)
  have "distinct (vq_stack ?q @ [0]) \<and> shows_chain (vq_table ?q) [0] [sample_buffer]"
    using virtqueue_safe [OF _ _ _ _ _ _ steps]
    by (simp add: sample_table_def sample_avail_def sample_used_def del: append.simps)
  then show ?thesis using steps by (intro exI [of _ ?q]) (simp add: sample_queue_def)
qed

text \<open>Two requests of one buffer each, both completed.\<close>

definition sample_pair :: virtqueue where
  "sample_pair = (let d = \<lparr>desc_address = 0x7000, desc_size = 16, desc_flags = 2, desc_next = 0\<rparr>
     in sample_queue\<lparr>vq_stack := [2, 3], vq_descriptor := sample_table\<lparr>dma_data := [d, d, zero_descriptor, zero_descriptor]\<rparr>,
          vq_available := sample_avail\<lparr>av_head := 2, av_elements := [0, 1, 0xFFFF, 0xFFFF]\<rparr>,
          vq_used := posted (posted sample_used 0 16) 1 16\<rparr>)"

theorem completion_lost_witness:
  "fst (poll 0 (polls [0, 1, 0, 1, 0] sample_pair)) = (Ok None :: (u32 option, errno) res)"
proof -
  have inv: "vq_inv sample_pair [([0], [sample_buffer]), ([1], [sample_buffer])]"
    by (simp add: sample_pair_def sample_queue_def queue_new_def sample_table_def sample_avail_def sample_used_def
        sample_buffer_def vq_inv_def vq_shape_def posted_def all_descriptors_def holds_def df_write_only_def has_next_def
        Let_def upt_rec add_mset_commute)
  have rep: "reported sample_pair 0" "reported sample_pair 1" "ue_table_index (last_used sample_pair) = 1"
    by (simp_all add: reported_def last_used_def sample_pair_def sample_queue_def queue_new_def sample_table_def
        sample_used_def posted_def Let_def) (auto intro: exI [of _ 0] exI [of _ 1])
  show ?thesis
    using completion_lost [OF inv, of "[0]" "[sample_buffer]" "[1]" "[sample_buffer]" "[0, 1, 0, 1, 0]"] rep by simp
qed

end
