(* ===== verification/Virtio_Transport.thy ===== *)
theory Virtio_Transport
  imports Virtio_Queue
begin

text \<open>
  The PCI transport of \<open>virtio-core\<close>: the registers of the common configuration
  (\<open>spec/transport_pci.rs\<close>), the operations of \<open>StandardTransport\<close> (\<open>transport.rs\<close>) and the search for the device
  (\<open>probe.rs\<close>).

  The registers belong to the device: \<open>te_get\<close> and \<open>te_set\<close> of the record \<open>transport_env\<close> say what it answers and
  what a write does. What the PCI daemon tells of the function is the record \<open>pci_function\<close>. Both are parameters. The
  thread that wakes the tasks of a queue is the function \<open>ve_wait\<close> of the queue's environment.
\<close>

subsection \<open>Registers\<close>

datatype cfg_field = DeviceFeatureSelect | DeviceFeature | DriverFeatureSelect | DriverFeature | ConfigMsixVector
  | NumQueues | DeviceStatus | ConfigGeneration | QueueSelect | QueueSize | QueueMsixVector | QueueEnable
  | QueueNotifyOff | QueueDesc | QueueDriver | QueueDevice

definition status_acknowledge :: u64 where "status_acknowledge = 1"
definition status_driver :: u64 where "status_driver = 2"
definition status_driver_ok :: u64 where "status_driver_ok = 4"
definition status_features_ok :: u64 where "status_features_ok = 8"

definition virtio_f_version_1 :: u32 where "virtio_f_version_1 = 32"

record 'd transport_env =
  te_get :: "cfg_field \<Rightarrow> 'd \<Rightarrow> u64"
  te_set :: "cfg_field \<Rightarrow> u64 \<Rightarrow> 'd \<Rightarrow> 'd"
  te_space :: "nat \<Rightarrow> nat \<Rightarrow> 'd \<Rightarrow> bytes"
  te_physmap :: "u64 \<Rightarrow> nat \<Rightarrow> ('d, u64, errno) st"
  te_mem :: "'d mem_ops"

record transport =
  tr_notify :: u64
  tr_notify_mul :: u32
  tr_queue_index :: u16

definition transport_new :: "u64 \<Rightarrow> u32 \<Rightarrow> transport" where
  "transport_new notify notify_mul = \<lparr>tr_notify = notify, tr_notify_mul = notify_mul, tr_queue_index = 0\<rparr>"

definition set_reg :: "'d transport_env \<Rightarrow> cfg_field \<Rightarrow> u64 \<Rightarrow> ('d, unit, errno) st" where
  "set_reg E f v = (\<lambda>d. (Ok (), te_set E f v d))"

definition get_reg :: "'d transport_env \<Rightarrow> cfg_field \<Rightarrow> ('d, u64, errno) st" where
  "get_reg E f = (\<lambda>d. (Ok (te_get E f d), d))"

definition load_config :: "'d transport_env \<Rightarrow> u8 \<Rightarrow> u8 \<Rightarrow> ('d, u64, errno) st" where
  "load_config E offset n = (\<lambda>d.
     (if n \<in> {1, 2, 4, 8} then Ok (from_le (te_space E (unat offset) (unat n) d)) else Panic, d))"

definition transport_reset :: "'d transport_env \<Rightarrow> ('d, unit, errno) st" where
  "transport_reset E =
     bind_m (set_reg E DeviceStatus 0) (\<lambda>_.
     bind_m (get_reg E DeviceStatus) (\<lambda>s. if s = 0 then return_m () else panic_m))"

definition check_device_feature :: "'d transport_env \<Rightarrow> u32 \<Rightarrow> ('d, bool, errno) st" where
  "check_device_feature E feature =
     bind_m (set_reg E DeviceFeatureSelect (ucast (drop_bit 5 feature))) (\<lambda>_.
     bind_m (get_reg E DeviceFeature) (\<lambda>f.
     return_m (f AND push_bit (unat (feature AND 31)) 1 \<noteq> 0)))"

definition ack_driver_feature :: "'d transport_env \<Rightarrow> u32 \<Rightarrow> ('d, unit, errno) st" where
  "ack_driver_feature E feature =
     bind_m (set_reg E DriverFeatureSelect (ucast (drop_bit 5 feature))) (\<lambda>_.
     bind_m (get_reg E DriverFeature) (\<lambda>current.
     set_reg E DriverFeature (current OR push_bit (unat (feature AND 31)) 1)))"

definition finalize_features :: "'d transport_env \<Rightarrow> ('d, unit, errno) st" where
  "finalize_features E =
     bind_m (check_device_feature E virtio_f_version_1) (\<lambda>offered.
     if \<not> offered then panic_m
     else bind_m (ack_driver_feature E virtio_f_version_1) (\<lambda>_.
       bind_m (get_reg E DeviceStatus) (\<lambda>status.
       bind_m (set_reg E DeviceStatus (status OR status_features_ok)) (\<lambda>_.
       bind_m (get_reg E DeviceStatus) (\<lambda>confirm.
       if confirm AND status_features_ok = status_features_ok then return_m () else panic_m)))))"

definition insert_status :: "'d transport_env \<Rightarrow> u64 \<Rightarrow> ('d, unit, errno) st" where
  "insert_status E status =
     bind_m (get_reg E DeviceStatus) (\<lambda>old. set_reg E DeviceStatus (old OR status))"

definition run_device :: "'d transport_env \<Rightarrow> ('d, unit, errno) st" where
  "run_device E = insert_status E status_driver_ok"

text \<open>The addresses of a queue, its vector and the bit that enables it.\<close>

definition announce_queue :: "'d transport_env \<Rightarrow> u64 \<Rightarrow> u64 \<Rightarrow> u64 \<Rightarrow> u16 \<Rightarrow> ('d, unit, errno) st" where
  "announce_queue E desc driver device vector =
     bind_m (set_reg E QueueDesc desc) (\<lambda>_.
     bind_m (set_reg E QueueDriver driver) (\<lambda>_.
     bind_m (set_reg E QueueDevice device) (\<lambda>_.
     bind_m (set_reg E QueueMsixVector (ucast vector)) (\<lambda>_.
     bind_m (get_reg E QueueMsixVector) (\<lambda>v.
     if v = ucast vector then set_reg E QueueEnable 1 else panic_m)))))"

definition drop_ring :: "'d mem_ops \<Rightarrow> ring_mem \<Rightarrow> ('d, unit, errno) st" where
  "drop_ring K m = (case m of
      OwnedMem _ virt n \<Rightarrow> mem_munmap K virt (next_multiple_of n page_size)
    | BorrowedMem _ _ _ \<Rightarrow> return_m ())"

definition setup_queue :: "'d transport_env \<Rightarrow> u16 \<Rightarrow> (transport \<times> 'd, virtqueue, errno) st" where
  "setup_queue E vector = (\<lambda>(t, d).
     let queue_index = tr_queue_index t; t' = t\<lparr>tr_queue_index := queue_index + 1\<rparr>;
         run =
           bind_m (set_reg E QueueSelect (ucast queue_index)) (\<lambda>_.
           bind_m (get_reg E QueueSize) (\<lambda>queue_size.
           bind_m (get_reg E QueueNotifyOff) (\<lambda>notify_off.
           bind_m (zeroed_slice (te_mem E) 16 zero_descriptor (unat queue_size)) (\<lambda>descriptor.
           on_failure_m (
             bind_m (available_new (te_mem E) (unat queue_size)) (\<lambda>avail.
             on_failure_m (
               bind_m (used_new (te_mem E) (unat queue_size)) (\<lambda>used.
               on_failure_m (
                 bind_m (announce_queue E (dma_phys descriptor) (mem_physical (av_mem avail))
                   (mem_physical (us_mem used)) vector) (\<lambda>_.
                 return_m (queue_new descriptor avail used
                   (tr_notify t + ucast (tr_notify_mul t * ucast notify_off)) queue_index vector)))
               (drop_ring (te_mem E) (us_mem used))))
             (drop_ring (te_mem E) (av_mem avail))))
           (dma_drop (te_mem E) descriptor)))))
     in case run d of (r, d') \<Rightarrow> (r, (t', d')))"

definition reinit_queue :: "'d transport_env \<Rightarrow> (virtqueue \<times> 'd, unit, errno) st" where
  "reinit_queue E = (\<lambda>(q, d). let q' = queue_reinit q
     in case bind_m (set_reg E QueueSelect (ucast (vq_index q'))) (\<lambda>_.
          announce_queue E (dma_phys (vq_descriptor q')) (mem_physical (av_mem (vq_available q')))
            (mem_physical (us_mem (vq_used q'))) (vq_vector q')) d of
        (r, d') \<Rightarrow> (r, (q', d')))"

subsection \<open>Finding the device\<close>

datatype pci_bar = NoBar | Memory32 u32 u32 | Memory64 u64 u64 | PortBar u16

fun expect_port :: "pci_bar \<Rightarrow> (u16, 'e) res" where
  "expect_port (PortBar port) = Ok port"
| "expect_port _ = Panic"

fun expect_mem :: "pci_bar \<Rightarrow> (u64 \<times> u64, 'e) res" where
  "expect_mem (Memory32 addr n) = Ok (ucast addr, ucast n)"
| "expect_mem (Memory64 addr n) = Ok (addr, n)"
| "expect_mem _ = Panic"

record 'd pci_function =
  pci_vendor :: u16
  pci_bars :: "pci_bar list"
  pci_vendor_capabilities :: "('d, bytes list, errno) st"
  pci_has_msix :: "('d, bool, errno) st"
  pci_enable_msix :: "('d, unit, errno) st"

record pci_capability =
  pc_cfg_type :: u8
  pc_bar :: u8
  pc_offset :: u32
  pc_length :: u32

definition pci_capability_of :: "bytes \<Rightarrow> pci_capability" where
  "pci_capability_of b = \<lparr>pc_cfg_type = b ! 0, pc_bar = b ! 1, pc_offset = from_le (subslice 5 4 b),
     pc_length = from_le (subslice 9 4 b)\<rparr>"

definition notify_off_multiplier :: "bytes \<Rightarrow> u32" where
  "notify_off_multiplier b = from_le (subslice 13 4 b)"

definition align_down :: "u64 \<Rightarrow> u64" where
  "align_down addr = addr AND NOT (of_nat (page_size - 1))"

definition map_capability :: "'d transport_env \<Rightarrow> 'd pci_function \<Rightarrow> pci_capability \<Rightarrow> ('d, u64, errno) st" where
  "map_capability E P c =
     (if length (pci_bars P) \<le> unat (pc_bar c) then panic_m
      else bind_m (of_res (expect_mem (pci_bars P ! unat (pc_bar c)))) (\<lambda>(bar, _).
        let addr = bar + ucast (pc_offset c); aligned_addr = align_down addr; offset = addr - aligned_addr
        in bind_m (te_physmap E aligned_addr (unat (offset + ucast (pc_length c)))) (\<lambda>virt.
           return_m (virt + offset))))"

record found =
  found_common :: "u64 option"
  found_notify :: "(u64 \<times> u32) option"
  found_device :: "u64 option"

primrec probe_capabilities ::
  "'d transport_env \<Rightarrow> 'd pci_function \<Rightarrow> bytes list \<Rightarrow> found \<Rightarrow> ('d, found, errno) st" where
  "probe_capabilities E P [] f = return_m f"
| "probe_capabilities E P (raw # rest) f =
     (let c = pci_capability_of raw
      in if pc_cfg_type c \<notin> {1, 2, 4} then probe_capabilities E P rest f
         else bind_m (map_capability E P c) (\<lambda>address.
           probe_capabilities E P rest
             (if pc_cfg_type c = 1 then f\<lparr>found_common := Some address\<rparr>
              else if pc_cfg_type c = 2 then f\<lparr>found_notify := Some (address, notify_off_multiplier raw)\<rparr>
              else f\<lparr>found_device := Some address\<rparr>)))"

definition transport_reinit :: "'d transport_env \<Rightarrow> ('d, unit, errno) st" where
  "transport_reinit E =
     bind_m (insert_status E status_acknowledge) (\<lambda>_. insert_status E status_driver)"

definition probe_device :: "'d transport_env \<Rightarrow> 'd pci_function \<Rightarrow> ('d, transport, errno) st" where
  "probe_device E P =
     (if pci_vendor P \<noteq> 6900 then panic_m
      else bind_m (pci_vendor_capabilities P) (\<lambda>caps.
        bind_m (probe_capabilities E P caps \<lparr>found_common = None, found_notify = None, found_device = None\<rparr>) (\<lambda>f.
        case (found_common f, found_device f, found_notify f) of
          (Some common, Some device, Some (notify, mul)) \<Rightarrow>
            if mul = 0 then panic_m
            else bind_m (pci_has_msix P) (\<lambda>has_msix.
              if \<not> has_msix then panic_m
              else bind_m (pci_enable_msix P) (\<lambda>_.
                bind_m (transport_reset E) (\<lambda>_.
                bind_m (transport_reinit E) (\<lambda>_.
                return_m (transport_new notify mul)))))
        | _ \<Rightarrow> panic_m)))"

end
