(* ===== verification/Scheme_Support.thy ===== *)
theory Scheme_Support
  imports Rust_Fmt Handle_Table
begin

text \<open>
  What the schemes of the disk, input and network daemons share: the ordered maps that hold their handles and that
  some calls walk through (\<open>BTreeMap\<close>), the paths that clients pass as UTF-8 strings, and the loops that copy a
  name into the buffer of a client.
\<close>

subsection \<open>Ordered maps\<close>

text \<open>
  A \<open>BTreeMap\<close> is the list of its entries in the order of their keys, which is the order in which the code
  iterates over them; a lookup is \<open>map_of\<close>.
\<close>

primrec bt_insert :: "'k :: linorder \<Rightarrow> 'v \<Rightarrow> ('k \<times> 'v) list \<Rightarrow> ('k \<times> 'v) list" where
  "bt_insert k v [] = [(k, v)]"
| "bt_insert k v (e # m) =
     (if k < fst e then (k, v) # e # m else if k = fst e then (k, v) # m else e # bt_insert k v m)"

definition bt_remove :: "'k \<Rightarrow> ('k \<times> 'v) list \<Rightarrow> ('k \<times> 'v) list" where
  "bt_remove k m = filter (\<lambda>e. fst e \<noteq> k) m"

definition bt_values :: "('v \<Rightarrow> 'w) \<Rightarrow> ('k \<times> 'v) list \<Rightarrow> ('k \<times> 'w) list" where
  "bt_values f m = map (\<lambda>(k, v). (k, f v)) m"

definition bt_ordered :: "('k :: linorder \<times> 'v) list \<Rightarrow> bool" where
  "bt_ordered m \<longleftrightarrow> sorted_wrt (<) (map fst m)"

lemma bt_insert_get [simp]: "map_of (bt_insert k v m) = (map_of m)(k \<mapsto> v)"
  by (induction m) auto

lemma bt_remove_get [simp]: "map_of (bt_remove k m) = (map_of m)(k := None)"
  by (induction m) (auto simp: bt_remove_def)

lemma bt_values_get [simp]: "map_of (bt_values f m) k = map_option f (map_of m k)"
  by (induction m) (auto simp: bt_values_def)

lemma bt_insert_keys [simp]: "fst ` set (bt_insert k v m) = insert k (fst ` set m)"
  by (induction m) auto

lemma bt_ordered_empty [simp]: "bt_ordered []"
  by (simp add: bt_ordered_def)

lemma bt_ordered_insert [simp]: "bt_ordered m \<Longrightarrow> bt_ordered (bt_insert k v m)"
proof (induction m)
  case (Cons e m)
  have "\<forall>x \<in> fst ` set (bt_insert k v m). fst e < x" if "fst e < k"
    using that Cons.prems unfolding bt_insert_keys by (auto simp: bt_ordered_def)
  then show ?case using Cons by (auto simp: bt_ordered_def)
qed (simp add: bt_ordered_def)

lemma bt_ordered_remove [simp]: "bt_ordered m \<Longrightarrow> bt_ordered (bt_remove k m)"
  by (induction m) (auto simp: bt_ordered_def bt_remove_def)

lemma bt_ordered_values [simp]: "bt_ordered (bt_values f m) = bt_ordered m"
  by (simp add: bt_ordered_def bt_values_def case_prod_beta comp_def)

lemma bt_ordered_distinct: "bt_ordered m \<Longrightarrow> distinct (map fst m)"
  by (auto simp: bt_ordered_def strict_sorted_iff)

lemma bt_set_get: "bt_ordered m \<Longrightarrow> (k, v) \<in> set m \<longleftrightarrow> map_of m k = Some v"
  using bt_ordered_distinct [of m] by auto

text \<open>The values of a map.\<close>

lemma bt_insert_values: "map_of m k = None \<Longrightarrow> snd ` set (bt_insert k v m) = insert v (snd ` set m)"
proof (induction m)
  case (Cons e m)
  then have "k \<noteq> fst e" "map_of m k = None" by (auto split: if_splits)
  then show ?case using Cons.IH by auto
qed simp

subsection \<open>Lookups that succeed\<close>

lemma guard_Ok:
  "(if b then Err e else r) = Ok a \<longleftrightarrow> \<not> b \<and> r = Ok a"
  "(case x of None \<Rightarrow> Err e | Some y \<Rightarrow> f y) = Ok a \<longleftrightarrow> (\<exists>y. x = Some y \<and> f y = Ok a)"
  by (auto split: option.split)

subsection \<open>Paths\<close>

definition str_is_cont :: "char \<Rightarrow> bool" where
  "str_is_cont c \<longleftrightarrow> 128 \<le> (of_char c :: nat) \<and> (of_char c :: nat) < 192"

text \<open>\<open>path.trim_matches('/')\<close>.\<close>

definition trim_slashes :: "string \<Rightarrow> string" where
  "trim_slashes path = rev (dropWhile (\<lambda>c. c = CHR ''/'') (rev (dropWhile (\<lambda>c. c = CHR ''/'') path)))"

text \<open>
  A path is the list of its bytes. The position of an ASCII character is counted in characters, that is, in bytes
  that do not continue a character, while slicing counts bytes and panics inside a character.
\<close>

definition char_position :: "char \<Rightarrow> string \<Rightarrow> nat option" where
  "char_position c s = (if c \<in> set s
     then Some (length (filter (\<lambda>x. \<not> str_is_cont x) (takeWhile (\<lambda>x. x \<noteq> c) s))) else None)"

definition str_boundary :: "string \<Rightarrow> nat \<Rightarrow> bool" where
  "str_boundary s i \<longleftrightarrow> i \<le> length s \<and> (i < length s \<longrightarrow> \<not> str_is_cont (s ! i))"

definition str_to :: "nat \<Rightarrow> string \<Rightarrow> (string, 'e) res" where
  "str_to i s = (if str_boundary s i then Ok (take i s) else Panic)"

definition str_from :: "nat \<Rightarrow> string \<Rightarrow> (string, 'e) res" where
  "str_from i s = (if str_boundary s i then Ok (drop i s) else Panic)"

lemma digits_ascii: "list_all is_digit s \<Longrightarrow> c \<in> set s \<Longrightarrow> \<not> str_is_cont c \<and> c \<noteq> CHR ''/'' \<and> c \<noteq> CHR ''p''"
  by (auto simp: list_all_iff is_digit_def str_is_cont_def)

lemma trim_digits: "list_all is_digit s \<Longrightarrow> s \<noteq> [] \<Longrightarrow> list_all is_digit t \<Longrightarrow> t \<noteq> [] \<Longrightarrow>
    trim_slashes s = s \<and> trim_slashes (s @ CHR ''p'' # t) = s @ CHR ''p'' # t"
proof -
  assume s: "list_all is_digit s" "s \<noteq> []" and t: "list_all is_digit t" "t \<noteq> []"
  have "hd s \<noteq> CHR ''/''" "last s \<noteq> CHR ''/''" "last t \<noteq> CHR ''/''"
    using digits_ascii [OF s(1)] digits_ascii [OF t(1)] s(2) t(2) hd_in_set last_in_set by metis+
  moreover have "dropWhile (\<lambda>c. c = CHR ''/'') xs = xs" if "xs \<noteq> []" "hd xs \<noteq> CHR ''/''" for xs
    using that by (cases xs) auto
  ultimately show ?thesis using s(2) t(2) by (simp add: trim_slashes_def hd_rev)
qed

text \<open>A path of the form \<open><digits>p<digits>\<close> is split at its \<open>p\<close>.\<close>

lemma split_digits:
  assumes s: "list_all is_digit s" and t: "list_all is_digit t" "t \<noteq> []"
  shows "char_position CHR ''p'' (s @ CHR ''p'' # t) = Some (length s)"
    and "str_to (length s) (s @ CHR ''p'' # t) = (Ok s :: (string, 'e) res)"
    and "str_from (Suc (length s)) (s @ CHR ''p'' # t) = (Ok t :: (string, 'e) res)"
    and "char_position CHR ''p'' s = None"
proof -
  have "takeWhile (\<lambda>x. x \<noteq> CHR ''p'') (s @ CHR ''p'' # t) = s"
    using digits_ascii [OF s] by (auto simp: takeWhile_append2)
  moreover have "filter (\<lambda>x. \<not> str_is_cont x) s = s"
    using digits_ascii [OF s] by (simp add: filter_id_conv)
  ultimately show "char_position CHR ''p'' (s @ CHR ''p'' # t) = Some (length s)"
    by (simp add: char_position_def)
  show "str_to (length s) (s @ CHR ''p'' # t) = (Ok s :: (string, 'e) res)"
    by (simp add: str_to_def str_boundary_def str_is_cont_def nth_append)
  show "str_from (Suc (length s)) (s @ CHR ''p'' # t) = (Ok t :: (string, 'e) res)"
    using digits_ascii [OF t(1), of "t ! 0"] t(2) by (auto simp: str_from_def str_boundary_def nth_append)
  show "char_position CHR ''p'' s = None"
    using digits_ascii [OF s] by (auto simp: char_position_def)
qed

subsection \<open>Names copied into a buffer\<close>

text \<open>\<open>while i < buf.len() && j < name.len()\<close>, with the rest of the name as an argument.\<close>

fun copy_loop :: "nat \<Rightarrow> 'a list \<Rightarrow> 'a list \<Rightarrow> nat \<times> 'a list" where
  "copy_loop i [] buf = (i, buf)"
| "copy_loop i (b # bs) buf = (if i < length buf then copy_loop (Suc i) bs (buf[i := b]) else (i, buf))"

lemma copy_loop_eq:
  "i \<le> length buf \<Longrightarrow> copy_loop i name buf = (let n = min (length buf - i) (length name)
     in (i + n, take i buf @ take n name @ drop (i + n) buf))"
proof (induction i name buf rule: copy_loop.induct)
  case (2 i b bs buf)
  show ?case
  proof (cases "i < length buf")
    case True
    then obtain n where n: "length buf - i = Suc n" "length buf - Suc i = n" by (metis Suc_diff_Suc)
    have "drop (Suc (i + k)) (buf[i := b]) = drop (Suc (i + k)) buf" for k by simp
    then show ?thesis using "2.IH" True n
      by (simp add: Let_def take_Suc_conv_app_nth del: drop_update_cancel)
  qed (use "2.prems" in simp)
qed (simp add: Let_def)

lemma copy_loop_length [simp]: "length (snd (copy_loop i name buf)) = length buf"
  by (induction i name buf rule: copy_loop.induct) auto

end
