(* ===== verification/Disk_Scheme.thy ===== *)
theory Disk_Scheme
  imports Block_IO Scheme_Support
begin

text \<open>
  The schemes through which \<open>ahcid\<close>, \<open>ided\<close> and \<open>bcm2835-sdhcid\<close> serve their disks (\<open>scheme.rs\<close> of each), and the
  disks with their partitions (\<open>DiskWrapper\<close> of \<open>driver-block\<close>). The disks are the parameter \<open>disk_rw\<close>, one
  function per method of the trait \<open>Disk\<close>, on a state of the type \<open>'d\<close> for each disk; the parser of partition
  tables is a third-party library and the parameter \<open>G\<close>.

  The operations take the record \<open>block_scheme\<close> with any extension: what the drivers keep besides, the registers of
  the controller for instance, is not touched by the scheme. Names beginning with \<open>ahci\<close>, \<open>ide\<close> and \<open>bcm\<close> belong to
  the three drivers; where the text of two drivers is the same, so is the definition.
\<close>

subsection \<open>Disks and partitions\<close>

record 'd disk_rw = "'d disk_ops" +
  disk_write :: "nat \<Rightarrow> bytes \<Rightarrow> 'd \<Rightarrow> (nat option, errno) res \<times> 'd"

record partition =
  part_start_lba :: u64
  part_size :: u64

record 'd disk_wrapper =
  dw_disk :: 'd
  dw_pt :: "partition list option"

type_synonym 'd partition_parser = "'d device \<Rightarrow> (partition list option, io_error) res \<times> 'd device"

definition disk_pt :: "'d partition_parser \<Rightarrow> ('d, 'z) disk_ops_scheme \<Rightarrow> ('d, partition list option, errno) st" where
  "disk_pt G D d = (case disk_block_length D d of
      (Ok n, d1) \<Rightarrow>
        if n \<noteq> 512 then (Ok None, d1)
        else (case G \<lparr>dev_disk = d1, dev_offset = 0, dev_block_bytes = replicate 512 0\<rparr> of
          (Ok pt, dev) \<Rightarrow> (Ok pt, dev_disk dev) | (Err _, dev) \<Rightarrow> (Ok None, dev_disk dev)
        | (Panic, dev) \<Rightarrow> (Panic, dev_disk dev) | (NoFuel, dev) \<Rightarrow> (NoFuel, dev_disk dev))
    | (Err _, d1) \<Rightarrow> (Ok None, d1) | (Panic, d1) \<Rightarrow> (Panic, d1) | (NoFuel, d1) \<Rightarrow> (NoFuel, d1))"

definition disk_wrapper_new :: "'d partition_parser \<Rightarrow> ('d, 'z) disk_ops_scheme \<Rightarrow> 'd \<Rightarrow> ('d disk_wrapper, errno) res" where
  "disk_wrapper_new G D d = (case disk_pt G D d of
     (r, d') \<Rightarrow> map_res (\<lambda>pt. \<lparr>dw_disk = d', dw_pt = pt\<rparr>) r)"

subsection \<open>The scheme\<close>

datatype disk_handle = ListH bytes | DiskH nat | PartitionH nat u32

record 'd block_scheme =
  bs_name :: string
  bs_disks :: "'d disk_wrapper list"
  bs_handles :: "(nat \<times> disk_handle) list"
  bs_next_id :: nat

fun wrap_disks :: "'d partition_parser \<Rightarrow> ('d, 'z) disk_ops_scheme \<Rightarrow> 'd list \<Rightarrow> ('d disk_wrapper list, errno) res" where
  "wrap_disks G D [] = Ok []"
| "wrap_disks G D (d # ds) = bind_r (disk_wrapper_new G D d) (\<lambda>w. map_res ((#) w) (wrap_disks G D ds))"

definition bcm_scheme_new :: "'d partition_parser \<Rightarrow> 'd disk_rw \<Rightarrow> string \<Rightarrow> 'd list \<Rightarrow> ('d block_scheme, errno) res" where
  "bcm_scheme_new G D name ds =
     map_res (\<lambda>ws. \<lparr>bs_name = name, bs_disks = ws, bs_handles = [], bs_next_id = 0\<rparr>) (wrap_disks G D ds)"

fun lock_conflict :: "nat \<Rightarrow> u32 option \<Rightarrow> disk_handle \<Rightarrow> bool" where
  "lock_conflict disk_i part_i_opt (DiskH i) = (disk_i = i)"
| "lock_conflict disk_i part_i_opt (PartitionH i p) =
     (disk_i = i \<and> (case part_i_opt of Some part_i \<Rightarrow> part_i = p | None \<Rightarrow> True))"
| "lock_conflict disk_i part_i_opt (ListH _) = False"

definition check_locks :: "nat \<Rightarrow> u32 option \<Rightarrow> ('d, 'z) block_scheme_scheme \<Rightarrow> (unit, errno) res" where
  "check_locks disk_i part_i_opt S =
     (if list_ex (\<lambda>(_, h). lock_conflict disk_i part_i_opt h) (bs_handles S) then Err ENOLCK else Ok ())"

definition disk_list :: "'d disk_wrapper list \<Rightarrow> string" where
  "disk_list ws = concat (map (\<lambda>(disk_index, w). dec disk_index @ [CHR 0x0A]
     @ (case dw_pt w of None \<Rightarrow> []
        | Some ps \<Rightarrow> concat (map (\<lambda>part_index. dec disk_index @ ''p'' @ dec part_index @ [CHR 0x0A]) [0..<length ps])))
     (enumerate 0 ws))"

definition bs_add_handle :: "disk_handle \<Rightarrow> ('d, 'z) block_scheme_scheme \<Rightarrow> nat \<times> ('d, 'z) block_scheme_scheme" where
  "bs_add_handle h S = (let fd = bs_next_id S
     in (fd, S\<lparr>bs_next_id := fd + 1, bs_handles := bt_insert fd h (bs_handles S)\<rparr>))"

definition bs_remove_handle :: "nat \<Rightarrow> ('d, 'z) block_scheme_scheme \<Rightarrow> ('d, 'z) block_scheme_scheme" where
  "bs_remove_handle fd S = S\<lparr>bs_handles := bt_remove fd (bs_handles S)\<rparr>"

definition wants_list :: "u64 \<Rightarrow> bool" where
  "wants_list flags \<longleftrightarrow> flags AND o_directory = o_directory \<or> flags AND o_stat = o_stat"

definition ahci_path_handle :: "string \<Rightarrow> u64 \<Rightarrow> ('d, 'z) block_scheme_scheme \<Rightarrow> (disk_handle, errno) res" where
  "ahci_path_handle path_str flags S =
     (if path_str = [] then
        if \<not> wants_list flags then Err EISDIR else Ok (ListH (str_bytes (disk_list (bs_disks S))))
      else case char_position CHR ''p'' path_str of
        Some p_pos \<Rightarrow>
          bind_r (str_to p_pos path_str) (\<lambda>disk_id_str.
          if length path_str \<le> p_pos + 1 then Err ENOENT
          else bind_r (str_from (p_pos + 1) path_str) (\<lambda>part_id_str.
            case parse_unsigned (2 ^ 64) disk_id_str of None \<Rightarrow> Err ENOENT
            | Some i \<Rightarrow> (case parse_unsigned (2 ^ 32) part_id_str of None \<Rightarrow> Err ENOENT
              | Some p \<Rightarrow>
                  if length (bs_disks S) \<le> i then Err ENOENT
                  else case dw_pt (bs_disks S ! i) of None \<Rightarrow> Err ENOENT
                    | Some ps \<Rightarrow> if length ps \<le> p then Err ENOENT
                        else bind_r (check_locks i (Some (of_nat p)) S) (\<lambda>_. Ok (PartitionH i (of_nat p))))))
      | None \<Rightarrow>
          (case parse_unsigned (2 ^ 64) path_str of None \<Rightarrow> Err ENOENT
           | Some i \<Rightarrow> if length (bs_disks S) \<le> i then Err ENOENT
               else bind_r (check_locks i None S) (\<lambda>_. Ok (DiskH i))))"

definition ahci_xopen :: "string \<Rightarrow> u64 \<Rightarrow> u32 \<Rightarrow> (('d, 'z) block_scheme_scheme, nat, errno) st" where
  "ahci_xopen path flags uid S =
     (if uid \<noteq> 0 then (Err EACCES, S)
      else case ahci_path_handle (trim_slashes path) flags S of
        Ok h \<Rightarrow> (case bs_add_handle h S of (fd, S') \<Rightarrow> (Ok fd, S'))
      | Err e \<Rightarrow> (Err e, S) | Panic \<Rightarrow> (Panic, S) | NoFuel \<Rightarrow> (NoFuel, S))"

text \<open>\<open>ided\<close> and \<open>bcm2835-sdhcid\<close> enter the handle in each branch.\<close>

definition ide_xopen :: "string \<Rightarrow> u64 \<Rightarrow> u32 \<Rightarrow> (('d, 'z) block_scheme_scheme, nat, errno) st" where
  "ide_xopen path flags uid S =
     (if uid = 0 then
        let path_str = trim_slashes path
        in if path_str = [] then
             if wants_list flags then
               (case bs_add_handle (ListH (str_bytes (disk_list (bs_disks S)))) S of (fd, S') \<Rightarrow> (Ok fd, S'))
             else (Err EISDIR, S)
           else (case char_position CHR ''p'' path_str of
             Some p_pos \<Rightarrow>
               bind_m (of_res (str_to p_pos path_str)) (\<lambda>disk_id_str.
               if length path_str \<le> p_pos + 1 then fail_m ENOENT
               else bind_m (of_res (str_from (p_pos + 1) path_str)) (\<lambda>part_id_str.
                 bind_m (ok_or ENOENT (parse_unsigned (2 ^ 64) disk_id_str)) (\<lambda>i.
                 bind_m (ok_or ENOENT (parse_unsigned (2 ^ 32) part_id_str)) (\<lambda>p.
                 if i < length (bs_disks S) then
                   (if (case dw_pt (bs_disks S ! i) of None \<Rightarrow> True | Some ps \<Rightarrow> length ps \<le> p) then fail_m ENOENT
                    else bind_m (of_res (check_locks i (Some (of_nat p)) S)) (\<lambda>_ S.
                      case bs_add_handle (PartitionH i (of_nat p)) S of (fd, S') \<Rightarrow> (Ok fd, S')))
                 else fail_m ENOENT)))) S
           | None \<Rightarrow>
               bind_m (ok_or ENOENT (parse_unsigned (2 ^ 64) path_str)) (\<lambda>i.
               if i < length (bs_disks S) then
                 bind_m (of_res (check_locks i None S)) (\<lambda>_ S.
                   case bs_add_handle (DiskH i) S of (fd, S') \<Rightarrow> (Ok fd, S'))
               else fail_m ENOENT) S)
      else (Err EACCES, S))"

text \<open>
  An operation of a disk, which may also use a buffer. The partition of a handle is looked up again at every call.
\<close>

definition on_disk :: "nat \<Rightarrow> ('d \<times> 'x, 'a, errno) st \<Rightarrow> (('d, 'z) block_scheme_scheme \<times> 'x, 'a, errno) st" where
  "on_disk i m = (\<lambda>(S, x).
     if length (bs_disks S) \<le> i then (Err EBADF, (S, x))
     else case m (dw_disk (bs_disks S ! i), x) of
       (r, (d, x')) \<Rightarrow> (r, (S\<lparr>bs_disks := (bs_disks S)[i := (bs_disks S ! i)\<lparr>dw_disk := d\<rparr>]\<rparr>, x')))"

definition the_partition :: "nat \<Rightarrow> u32 \<Rightarrow> ('d, 'z) block_scheme_scheme \<Rightarrow> (partition, errno) res" where
  "the_partition i p S =
     (if length (bs_disks S) \<le> i then Err EBADF
      else case dw_pt (bs_disks S ! i) of None \<Rightarrow> Err EBADF
        | Some ps \<Rightarrow> if length ps \<le> unat p then Err EBADF else Ok (ps ! unat p))"

datatype file_mode = ModeDir | ModeFile

record disk_stat =
  dst_mode :: file_mode
  dst_size :: u64
  dst_blksize :: u32
  dst_blocks :: u64

definition ahci_fstat :: "'d disk_rw \<Rightarrow> nat \<Rightarrow> (('d, 'z) block_scheme_scheme \<times> disk_stat, unit, errno) st" where
  "ahci_fstat D fd = (\<lambda>(S, stat). case map_of (bs_handles S) fd of
      None \<Rightarrow> (Err EBADF, (S, stat))
    | Some (ListH data) \<Rightarrow> (Ok (), (S, stat\<lparr>dst_mode := ModeDir, dst_size := of_nat (length data)\<rparr>))
    | Some (DiskH number) \<Rightarrow>
        on_disk number (\<lambda>(d, stat). case disk_size D d of (n, d1) \<Rightarrow>
          bind_m (on_fst (disk_block_length D)) (\<lambda>bl (d, stat). (Ok (), (d, stat\<lparr>dst_blksize := of_nat bl\<rparr>)))
            (d1, stat\<lparr>dst_mode := ModeFile, dst_size := of_nat n\<rparr>)) (S, stat)
    | Some (PartitionH disk_id part_num) \<Rightarrow>
        bind_m (of_res (the_partition disk_id part_num S)) (\<lambda>part.
          on_disk disk_id (\<lambda>(d, stat).
            bind_m (on_fst (disk_block_length D)) (\<lambda>bl (d, stat).
            bind_m (on_fst (disk_block_length D)) (\<lambda>bl' (d, stat).
              (Ok (), (d, stat\<lparr>dst_blksize := of_nat bl', dst_blocks := part_size part\<rparr>)))
              (d, stat\<lparr>dst_size := part_size part * of_nat bl\<rparr>))
              (d, stat\<lparr>dst_mode := ModeFile\<rparr>)))
          (S, stat))"

definition handle_name :: "disk_handle \<Rightarrow> string" where
  "handle_name h = (case h of
      ListH _ \<Rightarrow> [] | DiskH number \<Rightarrow> dec number | PartitionH i p \<Rightarrow> dec i @ ''p'' @ dec (unat p))"

definition ahci_fpath :: "nat \<Rightarrow> bytes \<Rightarrow> ('d, 'z) block_scheme_scheme \<Rightarrow> (nat \<times> bytes, errno) res" where
  "ahci_fpath fd buf S = (case map_of (bs_handles S) fd of
      None \<Rightarrow> Err EBADF
    | Some h \<Rightarrow> Ok (
        let (i, buf1) = copy_loop 0 (str_bytes (bs_name S)) buf;
            (i, buf2) = (if i < length buf1 then (i + 1, buf1[i := 0x3A]) else (i, buf1))
        in copy_loop i (str_bytes (handle_name h)) buf2))"

definition dread :: "('d, 'y) disk_ops_scheme \<Rightarrow> nat \<Rightarrow> ('d \<times> bytes, nat option, errno) st" where
  "dread D block = (\<lambda>(d, buf). case disk_read D block buf d of (r, buf', d') \<Rightarrow> (r, (d', buf')))"

definition dwrite :: "'d disk_rw \<Rightarrow> nat \<Rightarrow> ('d \<times> bytes, nat option, errno) st" where
  "dwrite D block = (\<lambda>(d, buf). case disk_write D block buf d of (r, d') \<Rightarrow> (r, (d', buf)))"

text \<open>
  The block of a handle at a byte offset, given to the transfer. \<open>read\<close> and \<open>write\<close> find it in the same way.
\<close>

definition disk_transfer ::
  "'d disk_rw \<Rightarrow> nat \<Rightarrow> u64 \<Rightarrow> (nat \<Rightarrow> ('d \<times> bytes, nat option, errno) st)
     \<Rightarrow> (('d, 'z) block_scheme_scheme \<times> bytes, nat option, errno) st" where
  "disk_transfer D number offset io =
     on_disk number (bind_m (on_fst (disk_block_length D)) (\<lambda>blk_len.
       if blk_len = 0 then panic_m else io (unat offset div blk_len)))"

definition partition_transfer ::
  "'d disk_rw \<Rightarrow> nat \<Rightarrow> u32 \<Rightarrow> u64 \<Rightarrow> (nat \<Rightarrow> ('d \<times> bytes, nat option, errno) st)
     \<Rightarrow> (('d, 'z) block_scheme_scheme \<times> bytes, nat option, errno) st" where
  "partition_transfer D disk_num part_num offset io = (\<lambda>(S, buf).
     on_disk disk_num (bind_m (on_fst (disk_block_length D)) (\<lambda>blksize.
       if blksize = 0 then panic_m
       else let rel_block = unat offset div blksize
            in bind_m (of_res (the_partition disk_num part_num S)) (\<lambda>part.
                 let abs_block = part_start_lba part + of_nat rel_block
                 in if unat (part_size part) \<le> rel_block then fail_m EOVERFLOW else io (unat abs_block)))) (S, buf))"

definition ahci_read :: "'d disk_rw \<Rightarrow> nat \<Rightarrow> u64 \<Rightarrow> (('d, 'z) block_scheme_scheme \<times> bytes, nat option, errno) st" where
  "ahci_read D fd offset = (\<lambda>(S, buf). case map_of (bs_handles S) fd of
      None \<Rightarrow> (Err EBADF, (S, buf))
    | Some (ListH data) \<Rightarrow>
        let src = drop (unat offset) data; byte_count = min (length src) (length buf)
        in (Ok (Some byte_count), (S, take byte_count src @ drop byte_count buf))
    | Some (DiskH number) \<Rightarrow> disk_transfer D number offset (dread D) (S, buf)
    | Some (PartitionH disk_num part_num) \<Rightarrow> partition_transfer D disk_num part_num offset (dread D) (S, buf))"

definition ahci_write :: "'d disk_rw \<Rightarrow> nat \<Rightarrow> u64 \<Rightarrow> (('d, 'z) block_scheme_scheme \<times> bytes, nat option, errno) st" where
  "ahci_write D fd offset = (\<lambda>(S, buf). case map_of (bs_handles S) fd of
      None \<Rightarrow> (Err EBADF, (S, buf))
    | Some (ListH data) \<Rightarrow> (Err EBADF, (S, buf))
    | Some (DiskH number) \<Rightarrow> disk_transfer D number offset (dwrite D) (S, buf)
    | Some (PartitionH disk_num part_num) \<Rightarrow> partition_transfer D disk_num part_num offset (dwrite D) (S, buf))"

definition ahci_fsize :: "'d disk_rw \<Rightarrow> nat \<Rightarrow> (('d, 'z) block_scheme_scheme, u64, errno) st" where
  "ahci_fsize D fd S = (case (case map_of (bs_handles S) fd of
      None \<Rightarrow> (Err EBADF, (S, ()))
    | Some (ListH data) \<Rightarrow> (Ok (of_nat (length data)), (S, ()))
    | Some (DiskH number) \<Rightarrow>
        on_disk number (\<lambda>(d, _). case disk_size D d of (n, d') \<Rightarrow> (Ok (of_nat n), (d', ()))) (S, ())
    | Some (PartitionH disk_num part_num) \<Rightarrow>
        bind_m (of_res (the_partition disk_num part_num S)) (\<lambda>part.
          on_disk disk_num (bind_m (on_fst (disk_block_length D)) (\<lambda>bl.
            return_m (of_nat bl * part_size part)))) (S, ())) of (r, (S', _)) \<Rightarrow> (r, S'))"

definition ide_fsize :: "'d disk_rw \<Rightarrow> nat \<Rightarrow> (('d, 'z) block_scheme_scheme, u64, errno) st" where
  "ide_fsize D fd S = (case map_of (bs_handles S) fd of
      None \<Rightarrow> (Err EBADF, S)
    | Some (ListH data) \<Rightarrow> (Ok (of_nat (length data)), S)
    | Some (DiskH number) \<Rightarrow>
        (case on_disk number (\<lambda>(d, _). case disk_size D d of (n, d') \<Rightarrow> (Ok (of_nat n), (d', ()))) (S, ()) of
          (r, (S', _)) \<Rightarrow> (r, S'))
    | Some (PartitionH disk_num part_num) \<Rightarrow>
        bind_m (of_res (the_partition disk_num part_num S)) (\<lambda>part S.
          case on_disk disk_num (bind_m (on_fst (disk_block_length D)) (\<lambda>bl.
            return_m (of_nat bl * part_size part))) (S, ()) of (r, (S', _)) \<Rightarrow> (r, S')) S)"

definition ahci_close :: "nat \<Rightarrow> (('d, 'z) block_scheme_scheme, nat, errno) st" where
  "ahci_close fd S = (case map_of (bs_handles S) fd of
      None \<Rightarrow> (Err EBADF, S) | Some _ \<Rightarrow> (Ok 0, bs_remove_handle fd S))"

subsection \<open>The controllers behind the schemes\<close>

text \<open>The registers of an AHCI controller that its interrupt handler uses; \<open>hba_ports\<close> is their number.\<close>

record 'h hba_ops =
  hba_is :: "'h \<Rightarrow> u32"
  hba_set_is :: "u32 \<Rightarrow> 'h \<Rightarrow> 'h"
  hba_pi :: "'h \<Rightarrow> u32"
  port_is :: "nat \<Rightarrow> 'h \<Rightarrow> u32"
  port_set_is :: "nat \<Rightarrow> u32 \<Rightarrow> 'h \<Rightarrow> 'h"

definition hba_ports :: nat where "hba_ports = 32"

record ('d, 'h) ahci_scheme = "'d block_scheme" +
  ah_hba :: 'h

record ('d, 'c) ide_scheme = "'d block_scheme" +
  ic_chans :: "'c list"

definition ahci_scheme_new ::
  "'d partition_parser \<Rightarrow> 'd disk_rw \<Rightarrow> string \<Rightarrow> 'h \<Rightarrow> 'd list \<Rightarrow> (('d, 'h) ahci_scheme, errno) res" where
  "ahci_scheme_new G D name hba ds = map_res (\<lambda>ws.
     \<lparr>bs_name = name, bs_disks = ws, bs_handles = [], bs_next_id = 0, ah_hba = hba\<rparr>) (wrap_disks G D ds)"

definition ide_scheme_new ::
  "'d partition_parser \<Rightarrow> 'd disk_rw \<Rightarrow> string \<Rightarrow> 'c list \<Rightarrow> 'd list \<Rightarrow> (('d, 'c) ide_scheme, errno) res" where
  "ide_scheme_new G D name chans ds = map_res (\<lambda>ws.
     \<lparr>bs_name = name, bs_disks = ws, bs_handles = [], bs_next_id = 0, ic_chans = chans\<rparr>) (wrap_disks G D ds)"

definition ack_ports :: "'h hba_ops \<Rightarrow> u32 \<Rightarrow> nat list \<Rightarrow> 'h \<Rightarrow> 'h" where
  "ack_ports H pi_is = fold (\<lambda>i h. if pi_is AND push_bit i 1 > 0 then port_set_is H i (port_is H i h) h else h)"

definition ahci_irq :: "'h hba_ops \<Rightarrow> ('d, 'h) ahci_scheme \<Rightarrow> bool \<times> ('d, 'h) ahci_scheme" where
  "ahci_irq H S = (let is = hba_is H (ah_hba S)
     in if is > 0
        then (True, S\<lparr>ah_hba := hba_set_is H is (ack_ports H (hba_pi H (ah_hba S) AND is) [0..<hba_ports] (ah_hba S))\<rparr>)
        else (False, S))"

definition ide_irq :: "nat \<Rightarrow> ('d, 'c) ide_scheme \<Rightarrow> (bool, errno) res" where
  "ide_irq chan_i S = (if chan_i < length (ic_chans S) then Ok True else Panic)"

subsection \<open>Calls\<close>

text \<open>The operations whose text \<open>ided\<close> and \<open>bcm2835-sdhcid\<close> share with \<open>ahcid\<close>.\<close>

definition ide_fstat :: "'d disk_rw \<Rightarrow> nat \<Rightarrow> (('d, 'z) block_scheme_scheme \<times> disk_stat, unit, errno) st" where
  "ide_fstat = ahci_fstat"

definition ide_fpath :: "nat \<Rightarrow> bytes \<Rightarrow> ('d, 'z) block_scheme_scheme \<Rightarrow> (nat \<times> bytes, errno) res" where
  "ide_fpath = ahci_fpath"

definition ide_read :: "'d disk_rw \<Rightarrow> nat \<Rightarrow> u64 \<Rightarrow> (('d, 'z) block_scheme_scheme \<times> bytes, nat option, errno) st" where
  "ide_read = ahci_read"

definition ide_write :: "'d disk_rw \<Rightarrow> nat \<Rightarrow> u64 \<Rightarrow> (('d, 'z) block_scheme_scheme \<times> bytes, nat option, errno) st" where
  "ide_write = ahci_write"

definition ide_close :: "nat \<Rightarrow> (('d, 'z) block_scheme_scheme, nat, errno) st" where
  "ide_close = ahci_close"

definition bcm_xopen :: "string \<Rightarrow> u64 \<Rightarrow> u32 \<Rightarrow> (('d, 'z) block_scheme_scheme, nat, errno) st" where
  "bcm_xopen = ide_xopen"

definition bcm_fstat :: "'d disk_rw \<Rightarrow> nat \<Rightarrow> (('d, 'z) block_scheme_scheme \<times> disk_stat, unit, errno) st" where
  "bcm_fstat = ahci_fstat"

definition bcm_fpath :: "nat \<Rightarrow> bytes \<Rightarrow> ('d, 'z) block_scheme_scheme \<Rightarrow> (nat \<times> bytes, errno) res" where
  "bcm_fpath = ahci_fpath"

definition bcm_read :: "'d disk_rw \<Rightarrow> nat \<Rightarrow> u64 \<Rightarrow> (('d, 'z) block_scheme_scheme \<times> bytes, nat option, errno) st" where
  "bcm_read = ahci_read"

definition bcm_write :: "'d disk_rw \<Rightarrow> nat \<Rightarrow> u64 \<Rightarrow> (('d, 'z) block_scheme_scheme \<times> bytes, nat option, errno) st" where
  "bcm_write = ahci_write"

definition bcm_fsize :: "'d disk_rw \<Rightarrow> nat \<Rightarrow> (('d, 'z) block_scheme_scheme, u64, errno) st" where
  "bcm_fsize = ide_fsize"

definition bcm_close :: "nat \<Rightarrow> (('d, 'z) block_scheme_scheme, nat, errno) st" where
  "bcm_close = ahci_close"

text \<open>The calls of a client and what it is answered; a buffer is part of the call and of the answer.\<close>

datatype disk_call =
    CallOpen string u64 u32 | CallFstat nat disk_stat | CallFpath nat bytes | CallRead nat bytes u64
  | CallWrite nat bytes u64 | CallFsize nat | CallClose nat

datatype disk_answer =
    Opened nat | Statted disk_stat | Named nat bytes | Moved "nat option" bytes | Sized u64 | Closed

definition with_buffer :: "('s \<times> 'x, 'a, 'e) st \<Rightarrow> 'x \<Rightarrow> ('a \<Rightarrow> 'x \<Rightarrow> 'b) \<Rightarrow> ('s, 'b, 'e) st" where
  "with_buffer m x g S = (case m (S, x) of (r, (S', x')) \<Rightarrow> (map_res (\<lambda>a. g a x') r, S'))"

fun ahci_call :: "'d disk_rw \<Rightarrow> disk_call \<Rightarrow> (('d, 'z) block_scheme_scheme, disk_answer, errno) st" where
  "ahci_call D (CallOpen path flags uid) S = bind_m (ahci_xopen path flags uid) (\<lambda>fd. return_m (Opened fd)) S"
| "ahci_call D (CallFstat fd stat) S = with_buffer (ahci_fstat D fd) stat (\<lambda>_. Statted) S"
| "ahci_call D (CallFpath fd buf) S = (map_res (\<lambda>(n, b). Named n b) (ahci_fpath fd buf S), S)"
| "ahci_call D (CallRead fd buf offset) S = with_buffer (ahci_read D fd offset) buf Moved S"
| "ahci_call D (CallWrite fd buf offset) S = with_buffer (ahci_write D fd offset) buf Moved S"
| "ahci_call D (CallFsize fd) S = bind_m (ahci_fsize D fd) (\<lambda>n. return_m (Sized n)) S"
| "ahci_call D (CallClose fd) S = bind_m (ahci_close fd) (\<lambda>_. return_m Closed) S"

fun ide_call :: "'d disk_rw \<Rightarrow> disk_call \<Rightarrow> (('d, 'z) block_scheme_scheme, disk_answer, errno) st" where
  "ide_call D (CallOpen path flags uid) S = bind_m (ide_xopen path flags uid) (\<lambda>fd. return_m (Opened fd)) S"
| "ide_call D (CallFstat fd stat) S = with_buffer (ide_fstat D fd) stat (\<lambda>_. Statted) S"
| "ide_call D (CallFpath fd buf) S = (map_res (\<lambda>(n, b). Named n b) (ide_fpath fd buf S), S)"
| "ide_call D (CallRead fd buf offset) S = with_buffer (ide_read D fd offset) buf Moved S"
| "ide_call D (CallWrite fd buf offset) S = with_buffer (ide_write D fd offset) buf Moved S"
| "ide_call D (CallFsize fd) S = bind_m (ide_fsize D fd) (\<lambda>n. return_m (Sized n)) S"
| "ide_call D (CallClose fd) S = bind_m (ide_close fd) (\<lambda>_. return_m Closed) S"

fun bcm_call :: "'d disk_rw \<Rightarrow> disk_call \<Rightarrow> (('d, 'z) block_scheme_scheme, disk_answer, errno) st" where
  "bcm_call D (CallOpen path flags uid) S = bind_m (bcm_xopen path flags uid) (\<lambda>fd. return_m (Opened fd)) S"
| "bcm_call D (CallFstat fd stat) S = with_buffer (bcm_fstat D fd) stat (\<lambda>_. Statted) S"
| "bcm_call D (CallFpath fd buf) S = (map_res (\<lambda>(n, b). Named n b) (bcm_fpath fd buf S), S)"
| "bcm_call D (CallRead fd buf offset) S = with_buffer (bcm_read D fd offset) buf Moved S"
| "bcm_call D (CallWrite fd buf offset) S = with_buffer (bcm_write D fd offset) buf Moved S"
| "bcm_call D (CallFsize fd) S = bind_m (bcm_fsize D fd) (\<lambda>n. return_m (Sized n)) S"
| "bcm_call D (CallClose fd) S = bind_m (bcm_close fd) (\<lambda>_. return_m Closed) S"

primrec run_calls :: "('c \<Rightarrow> 's \<Rightarrow> 'r \<times> 's) \<Rightarrow> 'c list \<Rightarrow> 's \<Rightarrow> 'r list \<times> 's" where
  "run_calls call [] s = ([], s)"
| "run_calls call (c # cs) s = (case call c s of (r, s1) \<Rightarrow>
     case run_calls call cs s1 of (rs, s2) \<Rightarrow> (r # rs, s2))"

subsection \<open>The three drivers answer alike\<close>

definition enter :: "(disk_handle, errno) res \<Rightarrow> (('d, 'z) block_scheme_scheme, nat, errno) st" where
  "enter r S = (case r of
      Ok h \<Rightarrow> (case bs_add_handle h S of (fd, S') \<Rightarrow> (Ok fd, S'))
    | Err e \<Rightarrow> (Err e, S) | Panic \<Rightarrow> (Panic, S) | NoFuel \<Rightarrow> (NoFuel, S))"

lemma enter_bind: "enter (bind_r r f) S = bind_m (of_res r) (\<lambda>a. enter (f a)) S"
  by (cases r) (simp_all add: enter_def of_res_def bind_m_def)

lemma enter_simps: "enter (Err e) = fail_m e" "enter (Ok h) = (\<lambda>S. case bs_add_handle h S of (fd, S') \<Rightarrow> (Ok fd, S'))"
  "enter (if b then r else r') = (if b then enter r else enter r')"
  "enter (case x of None \<Rightarrow> r | Some y \<Rightarrow> f y) = (case x of None \<Rightarrow> enter r | Some y \<Rightarrow> enter (f y))"
  by (auto simp: enter_def fail_m_def split: option.split)

lemma bind_ok_or: "bind_m (ok_or e x) f = (case x of None \<Rightarrow> fail_m e | Some y \<Rightarrow> f y)"
  by (auto simp: st_defs split: option.split)

lemma bind_of_res: "bind_m (of_res (Ok a)) f = f a" "bind_m (of_res (Err e)) f = fail_m e"
  "bind_m (of_res Panic) f = panic_m" "bind_m (of_res NoFuel) f = (\<lambda>s. (NoFuel, s))"
  by (simp_all add: st_defs of_res_def)

lemma ide_xopen_eq: "ide_xopen path flags uid S = ahci_xopen path flags uid S"
proof -
  let ?p = "trim_slashes path"
  have ahci: "ahci_xopen path flags uid S = (if uid \<noteq> 0 then (Err EACCES, S) else enter (ahci_path_handle ?p flags S) S)"
    by (simp add: ahci_xopen_def enter_def)
  have b: "bind_m (of_res r) (\<lambda>a. enter (f a)) S = enter (bind_r r f) S" for r f by (simp add: enter_bind)
  have part: "(if i < length (bs_disks S) then
        (if (case dw_pt (bs_disks S ! i) of None \<Rightarrow> True | Some ps \<Rightarrow> length ps \<le> p) then fail_m ENOENT
         else bind_m (of_res (check_locks i (Some q) S)) (\<lambda>_ S. case bs_add_handle (PartitionH i q) S of (fd, S') \<Rightarrow> (Ok fd, S')))
        else fail_m ENOENT) S
      = enter (if length (bs_disks S) \<le> i then Err ENOENT
          else case dw_pt (bs_disks S ! i) of None \<Rightarrow> Err ENOENT
            | Some ps \<Rightarrow> if length ps \<le> p then Err ENOENT
                else bind_r (check_locks i (Some q) S) (\<lambda>_. Ok (PartitionH i q))) S" for i p q
    by (auto simp: enter_simps enter_bind split: option.split)
  show ?thesis
  proof (cases "char_position CHR ''p'' ?p")
    case None
    then show ?thesis
      by (auto simp: ahci ide_xopen_def ahci_path_handle_def Let_def enter_simps enter_bind bind_ok_or fail_m_def
          split: option.split)
  next
    case (Some k)
    then have "?p \<noteq> []" by (auto simp: char_position_def)
    then show ?thesis
      by (cases "str_to k ?p :: (string, errno) res"; cases "str_from (k + 1) ?p :: (string, errno) res")
        (auto simp: ahci Some ide_xopen_def ahci_path_handle_def Let_def enter_simps bind_of_res bind_ok_or part
          enter_def [of Panic] enter_def [of NoFuel] panic_m_def split: option.split)
  qed
qed

lemma ide_fsize_eq: "ide_fsize D fd S = ahci_fsize D fd S"
  by (auto simp: ide_fsize_def ahci_fsize_def st_defs of_res_def split: option.splits disk_handle.splits
      res.splits prod.splits)

lemma run_calls_cong: "(\<And>c s. f c s = g c s) \<Longrightarrow> run_calls f cs s = run_calls g cs s"
  by (induction cs arbitrary: s) (auto split: prod.splits)

lemma ide_call_eq: "ide_call D c s = ahci_call D c s"
  by (cases c) (simp_all add: bind_m_def ide_xopen_eq ide_fsize_eq ide_fstat_def ide_fpath_def ide_read_def
      ide_write_def ide_close_def)

lemma bcm_call_eq: "bcm_call D c s = ahci_call D c s"
  by (cases c) (simp_all add: bind_m_def bcm_xopen_def bcm_fsize_def ide_xopen_eq ide_fsize_eq bcm_fstat_def
      bcm_fpath_def bcm_read_def bcm_write_def bcm_close_def)

text \<open>
  Disk scheme property C28. The schemes of \<open>ided\<close> and \<open>bcm2835-sdhcid\<close> and that of \<open>ahcid\<close> are three programs for the
  same interface: on the same disks, every sequence of calls is answered alike by all of them and leaves the
  same state, errors and panics included.
\<close>

theorem disk_schemes_equivalent:
  fixes S :: "('d, 'z) block_scheme_scheme"
  shows "run_calls (ide_call D) cs S = run_calls (ahci_call D) cs S
    \<and> run_calls (bcm_call D) cs S = run_calls (ahci_call D) cs S"
  by (intro conjI run_calls_cong ide_call_eq bcm_call_eq)

subsection \<open>Locks\<close>

fun overlap :: "disk_handle \<Rightarrow> disk_handle \<Rightarrow> bool" where
  "overlap (DiskH i) (DiskH j) = (i = j)"
| "overlap (DiskH i) (PartitionH j _) = (i = j)"
| "overlap (PartitionH i _) (DiskH j) = (i = j)"
| "overlap (PartitionH i p) (PartitionH j q) = (i = j \<and> p = q)"
| "overlap _ _ = False"

definition exclusive :: "(nat \<times> disk_handle) list \<Rightarrow> bool" where
  "exclusive m \<longleftrightarrow> (\<forall>k h l g. (k, h) \<in> set m \<and> (l, g) \<in> set m \<and> k \<noteq> l \<longrightarrow> \<not> overlap h g)"

lemma overlap_sym: "overlap h g = overlap g h"
  by (cases h; cases g) auto

lemma bt_insert_set: "set (bt_insert k v m) \<subseteq> insert (k, v) (set m)"
  by (induction m) auto

lemma bt_remove_set: "set (bt_remove k m) \<subseteq> set m"
  by (auto simp: bt_remove_def)

text \<open>
  What a scheme with locks promises: a call leaves the handles as they are, drops one, or enters one that overlaps with
  no open handle. Then no two open handles ever overlap.
\<close>

locale locking_scheme =
  fixes handles :: "'s \<Rightarrow> (nat \<times> disk_handle) list"
    and call :: "'c \<Rightarrow> 's \<Rightarrow> 'r \<times> 's"
  assumes call_handles: "handles (snd (call c s)) = handles s
    \<or> (\<exists>i. handles (snd (call c s)) = bt_remove i (handles s))
    \<or> (\<exists>i h. handles (snd (call c s)) = bt_insert i h (handles s) \<and> (\<forall>(k, g) \<in> set (handles s). \<not> overlap h g))"
begin

lemma call_exclusive: "exclusive (handles s) \<Longrightarrow> exclusive (handles (snd (call c s)))"
proof -
  assume e: "exclusive (handles s)"
  have "exclusive m" if "set m \<subseteq> set (handles s)" for m
    using e that unfolding exclusive_def by blast
  moreover have "exclusive m" if m: "set m \<subseteq> insert (i, h) (set (handles s))" "\<forall>(k, g) \<in> set (handles s). \<not> overlap h g" for m i h
    unfolding exclusive_def
  proof (intro allI impI, elim conjE)
    fix k h1 l h2 assume *: "(k, h1) \<in> set m" "(l, h2) \<in> set m" "k \<noteq> l"
    then consider "(k, h1) \<in> set (handles s)" "(l, h2) \<in> set (handles s)"
      | "h1 = h" "(l, h2) \<in> set (handles s)" | "h2 = h" "(k, h1) \<in> set (handles s)"
      using m(1) by blast
    then show "\<not> overlap h1 h2"
      using e m(2) *(3) overlap_sym by cases (unfold exclusive_def, fast+)
  qed
  ultimately show ?thesis using call_handles [of c s] bt_remove_set bt_insert_set e by metis
qed

lemma run_exclusive: "exclusive (handles s) \<Longrightarrow> exclusive (handles (snd (run_calls call cs s)))"
proof (induction cs arbitrary: s)
  case (Cons c cs)
  then show ?case using call_exclusive [of s c] by (auto split: prod.splits) (metis snd_conv)
qed simp

end

lemma on_disk_handles [simp]:
  "bs_handles (fst (snd (on_disk i m s))) = bs_handles (fst s)"
  "bs_next_id (fst (snd (on_disk i m s))) = bs_next_id (fst s)"
  by (simp_all add: on_disk_def case_prod_beta)

lemma bind_of_res_handles:
  "(\<And>a. bs_handles (fst (snd (f a s))) = bs_handles (fst s)) \<Longrightarrow>
    bs_handles (fst (snd (bind_m (of_res r) f s))) = bs_handles (fst s)"
  by (cases r) (simp_all add: bind_of_res fail_m_def panic_m_def)

lemma transfer_handles [simp]:
  "bs_handles (fst (snd (disk_transfer D i offset io s))) = bs_handles (fst s)"
  "bs_handles (fst (snd (partition_transfer D i p offset io s))) = bs_handles (fst s)"
  by (simp_all add: disk_transfer_def partition_transfer_def case_prod_beta)

lemma check_locks_free:
  "check_locks i po S = Ok () \<longleftrightarrow> (\<forall>(k, g) \<in> set (bs_handles S). \<not> lock_conflict i po g)"
  by (auto simp: check_locks_def list_ex_iff)

lemma lock_conflict_overlap:
  "lock_conflict i (Some p) g = overlap (PartitionH i p) g" "lock_conflict i None g = overlap (DiskH i) g"
proof -
  show "lock_conflict i (Some p) g = overlap (PartitionH i p) g" by (cases g) simp_all
  show "lock_conflict i None g = overlap (DiskH i) g" by (cases g) simp_all
qed

lemma path_handle_free:
  assumes "ahci_path_handle path flags S = Ok h"
  shows "\<forall>(k, g) \<in> set (bs_handles S). \<not> overlap h g"
proof (cases "char_position CHR ''p'' path")
  case None
  then show ?thesis using assms
    by (auto simp: ahci_path_handle_def guard_Ok check_locks_free lock_conflict_overlap split: if_split_asm)
next
  case (Some k)
  then show ?thesis using assms
    by (auto simp: ahci_path_handle_def guard_Ok check_locks_free lock_conflict_overlap split: if_split_asm)
qed

lemma ahci_call_handles:
  fixes S :: "('d, 'z) block_scheme_scheme"
  shows "bs_handles (snd (ahci_call D c S)) = bs_handles S
    \<or> (\<exists>i. bs_handles (snd (ahci_call D c S)) = bt_remove i (bs_handles S))
    \<or> (\<exists>i h. bs_handles (snd (ahci_call D c S)) = bt_insert i h (bs_handles S) \<and> (\<forall>(k, g) \<in> set (bs_handles S). \<not> overlap h g))"
proof (cases c)
  case (CallOpen path flags uid)
  show ?thesis
  proof (cases "uid = 0 \<and> (\<exists>h. ahci_path_handle (trim_slashes path) flags S = Ok h)")
    case True
    then obtain h where h: "ahci_path_handle (trim_slashes path) flags S = Ok h" by blast
    then have "bs_handles (snd (ahci_call D c S)) = bt_insert (bs_next_id S) h (bs_handles S)"
      using True by (simp add: CallOpen ahci_xopen_def bs_add_handle_def st_defs Let_def)
    then show ?thesis using path_handle_free [OF h] by blast
  qed (auto simp: CallOpen ahci_xopen_def st_defs split: res.split)
next
  case (CallFstat fd stat)
  then show ?thesis
    by (auto simp: with_buffer_def ahci_fstat_def case_prod_beta bind_of_res_handles split: option.split disk_handle.split)
next
  case (CallRead fd buf offset)
  then show ?thesis
    by (auto simp: with_buffer_def ahci_read_def case_prod_beta Let_def split: option.split disk_handle.split)
next
  case (CallWrite fd buf offset)
  then show ?thesis
    by (auto simp: with_buffer_def ahci_write_def case_prod_beta split: option.split disk_handle.split)
next
  case (CallFsize fd)
  have "bs_handles (snd (ahci_fsize D fd S)) = bs_handles S"
    by (auto simp: ahci_fsize_def case_prod_beta bind_of_res_handles split: option.split disk_handle.split)
  then show ?thesis using CallFsize by (auto simp: st_defs case_prod_beta split: res.split)
next
  case (CallClose fd)
  then show ?thesis by (auto simp: ahci_close_def bs_remove_handle_def st_defs split: option.split)
qed simp

interpretation ahci_locks: locking_scheme bs_handles "ahci_call D" for D
  by unfold_locales (rule ahci_call_handles)

interpretation ide_locks: locking_scheme bs_handles "ide_call D" for D
  by unfold_locales (unfold ide_call_eq, rule ahci_call_handles)

interpretation bcm_locks: locking_scheme bs_handles "bcm_call D" for D
  by unfold_locales (unfold bcm_call_eq, rule ahci_call_handles)

text \<open>The numbers of handles are managed as every scheme does.\<close>

interpretation bs_table: closing_table
  "\<lambda>S. \<forall>fd. map_of (bs_handles S) fd \<noteq> None \<longrightarrow> fd < bs_next_id S" "\<lambda>S. map_of (bs_handles S)" bs_add_handle bs_remove_handle
  by unfold_locales (auto simp: bs_add_handle_def bs_remove_handle_def Let_def less_Suc_eq split: if_splits)

subsection \<open>Reading and writing through a handle\<close>

text \<open>
  A disk with an image: it reads and writes whole buffers at the start of a block, as \<open>Disk\<close> asks, as long as they are
  inside the image.
\<close>

definition block_disk :: "'d disk_rw \<Rightarrow> ('d \<Rightarrow> bytes) \<Rightarrow> nat \<Rightarrow> bool" where
  "block_disk D img bs \<longleftrightarrow> 0 < bs
    \<and> (\<forall>d. \<exists>d'. disk_block_length D d = (Ok bs, d') \<and> img d' = img d)
    \<and> (\<forall>b buf d. b * bs + length buf \<le> length (img d) \<longrightarrow>
        (\<exists>d'. disk_read D b buf d = (Ok (Some (length buf)), subslice (b * bs) (length buf) (img d), d') \<and> img d' = img d))
    \<and> (\<forall>b buf d. b * bs + length buf \<le> length (img d) \<longrightarrow>
        (\<exists>d'. disk_write D b buf d = (Ok (Some (length buf)), d') \<and> img d' = blit (img d) (b * bs) buf))"

lemma block_disk_io:
  assumes D: "block_disk D img bs" and room: "b * bs + length buf \<le> length data" and d: "img d = data"
  shows "\<exists>d'. dread D b (d, buf) = (Ok (Some (length buf)), (d', subslice (b * bs) (length buf) data)) \<and> img d' = data"
    and "\<exists>d'. dwrite D b (d, buf) = (Ok (Some (length buf)), (d', buf)) \<and> img d' = blit data (b * bs) buf"
proof -
  obtain d1 where "disk_read D b buf d = (Ok (Some (length buf)), subslice (b * bs) (length buf) data, d1)" "img d1 = data"
    using D room d unfolding block_disk_def by metis
  then show "\<exists>d'. dread D b (d, buf) = (Ok (Some (length buf)), (d', subslice (b * bs) (length buf) data)) \<and> img d' = data"
    by (simp add: dread_def)
  obtain d2 where "disk_write D b buf d = (Ok (Some (length buf)), d2)" "img d2 = blit data (b * bs) buf"
    using D room d unfolding block_disk_def by metis
  then show "\<exists>d'. dwrite D b (d, buf) = (Ok (Some (length buf)), (d', buf)) \<and> img d' = blit data (b * bs) buf"
    by (simp add: dwrite_def)
qed

definition images :: "('d \<Rightarrow> bytes) \<Rightarrow> ('d, 'z) block_scheme_scheme \<Rightarrow> bytes list" where
  "images img S = map (\<lambda>w. img (dw_disk w)) (bs_disks S)"

lemma images_update:
  "images img (S\<lparr>bs_disks := (bs_disks S)[i := (bs_disks S ! i)\<lparr>dw_disk := d\<rparr>]\<rparr>) = (images img S)[i := img d]"
  by (simp add: images_def map_update)

lemma images_nth: "i < length (bs_disks S) \<Longrightarrow> images img S ! i = img (dw_disk (bs_disks S ! i))"
  by (simp add: images_def)

lemma the_partition_Ok: "the_partition i p S = Ok part \<Longrightarrow> i < length (bs_disks S)"
  by (simp add: the_partition_def split: if_split_asm)

lemma block_number:
  assumes "unat (a :: u64) + unat (b :: u64) \<le> n" "n < 2 ^ 64" "r < unat b"
  shows "unat (a + of_nat r) = unat a + r"
  using assms by (simp add: unat_plus_u64 unat_of_nat_u64)

text \<open>A handle of a partition gives its transfer the block that its offset lies in.\<close>

lemma partition_io:
  assumes D: "block_disk D img bs" and part: "the_partition i p S = Ok part"
    and fits: "(unat (part_start_lba part) + unat (part_size part)) * bs \<le> length (images img S ! i)"
      "length (images img S ! i) < 2 ^ 64"
    and rel: "unat offset div bs < unat (part_size part)"
    and io: "\<And>d. img d = images img S ! i \<Longrightarrow>
      \<exists>d'. io (unat (part_start_lba part) + unat offset div bs) (d, buf) = (Ok r, (d', buf')) \<and> img d' = new"
  shows "\<exists>S'. partition_transfer D i p offset io (S, buf) = (Ok r, (S', buf')) \<and> images img S' = (images img S)[i := new]"
proof -
  have i: "i < length (bs_disks S)" by (rule the_partition_Ok [OF part])
  have bs: "0 < bs" using D by (simp add: block_disk_def)
  obtain d where d: "disk_block_length D (dw_disk (bs_disks S ! i)) = (Ok bs, d)" "img d = images img S ! i"
    using D images_nth [OF i] unfolding block_disk_def by metis
  have "unat (part_start_lba part) + unat (part_size part) \<le> length (images img S ! i)"
    using fits(1) bs by (metis One_nat_def Suc_leI le_trans mult_le_mono2 nat_mult_1_right)
  then have abs: "unat (part_start_lba part + of_nat (unat offset div bs)) = unat (part_start_lba part) + unat offset div bs"
    by (rule block_number [OF _ fits(2) rel])
  obtain d' where "io (unat (part_start_lba part) + unat offset div bs) (d, buf) = (Ok r, (d', buf'))" "img d' = new"
    using io [OF d(2)] by (elim exE conjE) (rule that)
  then show ?thesis
    using d i bs rel part abs
    by (intro exI [of _ "S\<lparr>bs_disks := (bs_disks S)[i := (bs_disks S ! i)\<lparr>dw_disk := d'\<rparr>]\<rparr>"])
      (simp add: partition_transfer_def on_disk_def bind_m_def on_fst_def of_res_def Let_def images_update)
qed

lemma partition_refused:
  assumes D: "block_disk D img bs" and part: "the_partition i p S = Ok part"
    and "unat (part_size part) \<le> unat offset div bs"
  shows "fst (partition_transfer D i p offset io (S, buf)) = Err EOVERFLOW"
proof -
  obtain d where "disk_block_length D (dw_disk (bs_disks S ! i)) = (Ok bs, d)"
    using D unfolding block_disk_def by metis
  moreover have "0 < bs" using D by (simp add: block_disk_def)
  ultimately show ?thesis
    using the_partition_Ok [OF part] part assms(3)
    by (simp add: partition_transfer_def on_disk_def bind_m_def on_fst_def of_res_def Let_def fail_m_def)
qed


text \<open>
  Only the first block of a write is compared with the bounds of the partition. A
  write that begins in a partition and is longer than the rest of it goes on behind its end: the rest of the buffer
  is written over what follows on the disk, another partition for instance, and the call answers a success.
\<close>

theorem partition_write_escapes:
  fixes S :: "('d, 'z) block_scheme_scheme"
  assumes D: "block_disk D img bs" and h: "map_of (bs_handles S) fd = Some (PartitionH i p)"
    and part: "the_partition i p S = Ok part"
    and stop: "stop = (unat (part_start_lba part) + unat (part_size part)) * bs" "length (images img S ! i) < 2 ^ 64"
    and rel: "unat offset div bs < unat (part_size part)" "pos = (unat (part_start_lba part) + unat offset div bs) * bs"
    and long: "stop < pos + length buf" "pos + length buf \<le> length (images img S ! i)"
  shows "\<exists>S'. ahci_write D fd offset (S, buf) = (Ok (Some (length buf)), (S', buf))
    \<and> subslice stop (pos + length buf - stop) (images img S' ! i) = drop (stop - pos) buf"
proof -
  have i: "i < length (images img S)" using the_partition_Ok [OF part] by (simp add: images_def)
  have "(unat (part_start_lba part) + unat (part_size part)) * bs \<le> length (images img S ! i)" using stop(1) long by simp
  then have "\<exists>S'. partition_transfer D i p offset (dwrite D) (S, buf) = (Ok (Some (length buf)), (S', buf))
      \<and> images img S' = (images img S)[i := blit (images img S ! i) pos buf]"
    unfolding rel(2) by (rule partition_io [OF D part _ stop(2) rel(1)]) (rule block_disk_io(2) [OF D long(2) [unfolded rel(2)]])
  moreover have "pos \<le> stop" using rel stop(1) by simp
  then have "subslice stop (pos + length buf - stop) (blit (images img S ! i) pos buf) = drop (stop - pos) buf"
    using long by (simp add: blit_def subslice_def)
  ultimately show ?thesis using h i by (auto simp: ahci_write_def)
qed

subsection \<open>Paths\<close>

text \<open>The handles that a client can open, in the order of the listing.\<close>

definition disk_handles :: "'d disk_wrapper list \<Rightarrow> disk_handle list" where
  "disk_handles ws = concat (map (\<lambda>(i, w). DiskH i # (case dw_pt w of None \<Rightarrow> []
     | Some ps \<Rightarrow> map (\<lambda>p. PartitionH i (of_nat p)) [0..<length ps])) (enumerate 0 ws))"

definition small_tables :: "'d disk_wrapper list \<Rightarrow> bool" where
  "small_tables ws \<longleftrightarrow> length ws < 2 ^ 64 \<and> (\<forall>w \<in> set ws. \<forall>ps. dw_pt w = Some ps \<longrightarrow> length ps < 2 ^ 32)"

lemma disk_list_names:
  assumes "small_tables ws"
  shows "disk_list ws = concat (map (\<lambda>h. handle_name h @ [CHR 0x0A]) (disk_handles ws))"
proof -
  have names: "map (\<lambda>p. dec i @ ''p'' @ dec p @ [CHR 0x0A]) [0..<n]
      = map (\<lambda>h. handle_name h @ [CHR 0x0A]) (map (\<lambda>p. PartitionH i (of_nat p)) [0..<n])" if "n < 2 ^ 32" for i n
    using that by (auto simp: handle_name_def unat_of_nat_u32)
  have line: "dec i @ [CHR 0x0A] @ (case dw_pt w of None \<Rightarrow> []
        | Some ps \<Rightarrow> concat (map (\<lambda>p. dec i @ ''p'' @ dec p @ [CHR 0x0A]) [0..<length ps]))
      = concat (map (\<lambda>h. handle_name h @ [CHR 0x0A]) (DiskH i # (case dw_pt w of None \<Rightarrow> []
        | Some ps \<Rightarrow> map (\<lambda>p. PartitionH i (of_nat p)) [0..<length ps])))" if "w \<in> set ws" for i w
  proof (cases "dw_pt w")
    case (Some ps)
    then have "length ps < 2 ^ 32" using assms that by (simp add: small_tables_def)
    then show ?thesis unfolding Some option.case names [OF \<open>length ps < 2 ^ 32\<close>] by (simp add: handle_name_def)
  qed (simp add: handle_name_def)
  have "concat (map (\<lambda>h. handle_name h @ [CHR 0x0A]) (concat (map g es)))
      = concat (map (\<lambda>e. concat (map (\<lambda>h. handle_name h @ [CHR 0x0A]) (g e))) es)" for es and g :: "nat \<times> 'a disk_wrapper \<Rightarrow> _"
    by (induction es) auto
  then show ?thesis
    unfolding disk_list_def disk_handles_def
    by (simp only:) (rule arg_cong [where f = concat], rule map_cong [OF refl],
        use line in \<open>auto simp: in_set_enumerate_eq\<close>)
qed

lemma path_of_handle:
  assumes small: "small_tables (bs_disks S)" and h: "h \<in> set (disk_handles (bs_disks S))"
  shows "trim_slashes (handle_name h) = handle_name h"
    and "ahci_path_handle (handle_name h) flags S
      = (if \<exists>(k, g) \<in> set (bs_handles S). overlap h g then Err ENOLCK else Ok h)"
proof -
  consider (disk) i where "h = DiskH i" "i < length (bs_disks S)"
    | (part) i ps p where "h = PartitionH i (of_nat p)" "i < length (bs_disks S)" "dw_pt (bs_disks S ! i) = Some ps" "p < length ps"
    using h by (auto simp: disk_handles_def in_set_enumerate_eq split: option.splits) metis
  then have "trim_slashes (handle_name h) = handle_name h \<and> ahci_path_handle (handle_name h) flags S
      = (if \<exists>(k, g) \<in> set (bs_handles S). overlap h g then Err ENOLCK else Ok h)"
  proof cases
    case disk
    then have "i < 2 ^ 64" using small by (simp add: small_tables_def)
    then show ?thesis
      using disk split_digits(4) [OF dec_digits dec_digits dec_not_Nil, of i] trim_digits [OF dec_digits dec_not_Nil dec_digits dec_not_Nil]
      by (auto simp: handle_name_def ahci_path_handle_def check_locks_def list_ex_iff lock_conflict_overlap)
  next
    case part
    have "length ps < 2 ^ 32" "i < 2 ^ 64"
      using small part(2,3) nth_mem [OF part(2)] by (auto simp: small_tables_def)
    then have "p < 2 ^ 32" "unat (of_nat p :: u32) = p" using part(4) by (simp_all add: unat_of_nat_u32)
    then show ?thesis
      using part \<open>i < 2 ^ 64\<close> trim_digits [OF dec_digits dec_not_Nil dec_digits dec_not_Nil, of i p]
        split_digits(1) [OF dec_digits dec_digits dec_not_Nil, of i p]
        split_digits(2,3) [OF dec_digits dec_digits dec_not_Nil, of i p, where 'e = errno]
      by (auto simp: handle_name_def ahci_path_handle_def check_locks_def list_ex_iff lock_conflict_overlap)
  qed
  then show "trim_slashes (handle_name h) = handle_name h"
    and "ahci_path_handle (handle_name h) flags S
      = (if \<exists>(k, g) \<in> set (bs_handles S). overlap h g then Err ENOLCK else Ok h)" by auto
qed

text \<open>
  Disk scheme property C30. The listing of a scheme names every disk and every partition on a line of its own, and each
  name opens what it stands for: the answer is a new handle of that disk or partition, or the lock error when a handle that
  overlaps with it is open.
\<close>

theorem disk_names_open:
  fixes S :: "('d, 'z) block_scheme_scheme"
  assumes "small_tables (bs_disks S)"
  shows "disk_list (bs_disks S) = concat (map (\<lambda>h. handle_name h @ [CHR 0x0A]) (disk_handles (bs_disks S)))
    \<and> (\<forall>h \<in> set (disk_handles (bs_disks S)). ahci_xopen (handle_name h) flags 0 S =
        (if \<exists>(k, g) \<in> set (bs_handles S). overlap h g then (Err ENOLCK, S)
         else (Ok (bs_next_id S),
           S\<lparr>bs_next_id := bs_next_id S + 1, bs_handles := bt_insert (bs_next_id S) h (bs_handles S)\<rparr>)))"
  using disk_list_names [OF assms] path_of_handle [OF assms]
  by (auto simp: ahci_xopen_def bs_add_handle_def Let_def)

text \<open>
  The position of the letter that separates disk and partition is counted in characters and
  used as a position in bytes: a path with a character of two bytes in front of that letter makes the daemon panic.
\<close>

theorem non_ascii_path_panics:
  "ahci_xopen (CHR 0xC3 # CHR 0xA9 # CHR ''p'' # t) flags 0 S = (Panic, S)"
proof -
  have "\<exists>t'. dropWhile (\<lambda>c. c = CHR ''/'') (rev t @ [CHR ''p'', CHR 0xA9, CHR 0xC3]) = t' @ [CHR ''p'', CHR 0xA9, CHR 0xC3]"
    by (induction t rule: rev_induct) auto
  then obtain t' where t: "dropWhile (\<lambda>c. c = CHR ''/'') (rev t @ [CHR ''p'', CHR 0xA9, CHR 0xC3]) = t' @ [CHR ''p'', CHR 0xA9, CHR 0xC3]" ..
  have trim: "trim_slashes (CHR 0xC3 # CHR 0xA9 # CHR ''p'' # t) = CHR 0xC3 # CHR 0xA9 # CHR ''p'' # rev t'"
    using t by (simp add: trim_slashes_def)
  have "char_position CHR ''p'' (CHR 0xC3 # CHR 0xA9 # CHR ''p'' # rev t') = Some 1"
    by (simp add: char_position_def str_is_cont_def)
  moreover have "str_to 1 (CHR 0xC3 # CHR 0xA9 # CHR ''p'' # rev t') = (Panic :: (string, errno) res)"
    by (simp add: str_to_def str_boundary_def str_is_cont_def)
  ultimately show ?thesis by (simp add: ahci_xopen_def trim ahci_path_handle_def)
qed

subsection \<open>Interrupts\<close>

text \<open>
  On registers whose bits are cleared by writing ones, the interrupt handler clears the interrupts of every
  implemented port that has one and leaves the other ports alone.
\<close>

record hba_regs =
  hr_is :: u32
  hr_pi :: u32
  hr_ports :: "u32 list"

definition w1c_hba :: "hba_regs hba_ops" where
  "w1c_hba = \<lparr>hba_is = hr_is, hba_set_is = (\<lambda>v h. h\<lparr>hr_is := hr_is h AND NOT v\<rparr>), hba_pi = hr_pi,
     port_is = (\<lambda>i h. hr_ports h ! i),
     port_set_is = (\<lambda>i v h. h\<lparr>hr_ports := (hr_ports h)[i := hr_ports h ! i AND NOT v]\<rparr>)\<rparr>"

lemma w1c_hba_simps [simp]:
  "hba_is w1c_hba = hr_is" "hba_set_is w1c_hba v h = h\<lparr>hr_is := hr_is h AND NOT v\<rparr>" "hba_pi w1c_hba = hr_pi"
  "port_is w1c_hba i h = hr_ports h ! i"
  "port_set_is w1c_hba i v h = h\<lparr>hr_ports := (hr_ports h)[i := hr_ports h ! i AND NOT v]\<rparr>"
  by (simp_all add: w1c_hba_def)

lemma ack_ports_clear:
  "set is \<subseteq> {..<length (hr_ports h)} \<Longrightarrow>
    ack_ports w1c_hba m is h = h\<lparr>hr_ports := map (\<lambda>i. if i \<in> set is \<and> m AND push_bit i 1 > 0 then 0 else hr_ports h ! i)
      [0..<length (hr_ports h)]\<rparr>"
proof (induction "is" arbitrary: h)
  case Nil
  then show ?case by (simp add: ack_ports_def map_nth)
next
  case (Cons j js)
  have step: "ack_ports w1c_hba m (j # js) h = ack_ports w1c_hba m js
      (if m AND push_bit j 1 > 0 then h\<lparr>hr_ports := (hr_ports h)[j := 0]\<rparr> else h)"
    by (simp add: ack_ports_def)
  show ?case
    unfolding step using Cons.prems
    by (subst Cons.IH) (auto intro!: hba_regs.fold_congs map_cong simp: nth_list_update)
qed

lemma ahci_irq_clears:
  assumes "length (hr_ports (ah_hba S)) = hba_ports" "hr_is (ah_hba S) \<noteq> 0"
  shows "\<exists>S'. ahci_irq w1c_hba S = (True, S') \<and> hr_is (ah_hba S') = 0 \<and> bs_handles S' = bs_handles S
    \<and> (\<forall>i < hba_ports. hr_ports (ah_hba S') ! i
        = (if (hr_pi (ah_hba S) AND hr_is (ah_hba S)) AND push_bit i 1 > 0 then 0 else hr_ports (ah_hba S) ! i))"
proof -
  have "set [0..<hba_ports] \<subseteq> {..<length (hr_ports (ah_hba S))}" using assms(1) by auto
  then show ?thesis using assms by (simp add: ahci_irq_def Let_def word_gt_0 ack_ports_clear)
qed

subsection \<open>A disk with two partitions\<close>

definition image_disk :: "bytes disk_rw" where
  "image_disk = \<lparr>disk_block_length = (\<lambda>d. (Ok 2, d)), disk_size = (\<lambda>d. (length d, d)),
     disk_read = (\<lambda>b buf d. (Ok (Some (length buf)), subslice (b * 2) (length buf) d, d)),
     disk_write = (\<lambda>b buf d. (Ok (Some (length buf)), blit d (b * 2) buf))\<rparr>"

lemma image_disk_ok: "block_disk image_disk (\<lambda>d. d) 2"
  by (simp add: block_disk_def image_disk_def)

definition sample_scheme :: "bytes block_scheme" where
  "sample_scheme = \<lparr>bs_name = ''disk'', bs_disks = [\<lparr>dw_disk = map of_nat [0..<12],
       dw_pt = Some [\<lparr>part_start_lba = 1, part_size = 2\<rparr>, \<lparr>part_start_lba = 3, part_size = 2\<rparr>]\<rparr>],
     bs_handles = [(0, PartitionH 0 0)], bs_next_id = 1\<rparr>"

lemma sample_scheme_facts:
  "map_of (bs_handles sample_scheme) 0 = Some (PartitionH 0 0)"
  "the_partition 0 0 sample_scheme = Ok \<lparr>part_start_lba = 1, part_size = 2\<rparr>"
  "images (\<lambda>d. d) sample_scheme = [map of_nat [0..<12]]" "small_tables (bs_disks sample_scheme)"
  by (simp_all add: sample_scheme_def the_partition_def images_def small_tables_def)


theorem partition_write_escapes_witness:
  "\<exists>S'. ahci_write image_disk 0 2 (sample_scheme, [9, 9, 7]) = (Ok (Some 3), (S', [9, 9, 7]))
    \<and> subslice 6 1 (images (\<lambda>d. d) S' ! 0) = [7]"
  using partition_write_escapes [OF image_disk_ok sample_scheme_facts(1,2) refl _ _ refl, of 2 "[9, 9, 7]"]
  by (simp add: sample_scheme_facts(3) numeral_3_eq_3 [symmetric])

theorem disk_names_open_witness:
  "ahci_xopen ''0p1'' 0 0 sample_scheme = (Ok 1, sample_scheme\<lparr>bs_next_id := 2,
     bs_handles := [(0, PartitionH 0 0), (1, PartitionH 0 1)]\<rparr>) \<and> ahci_xopen ''0'' 0 0 sample_scheme = (Err ENOLCK, sample_scheme)"
proof -
  have h: "PartitionH 0 1 \<in> set (disk_handles (bs_disks sample_scheme))" "DiskH 0 \<in> set (disk_handles (bs_disks sample_scheme))"
    by (auto simp: disk_handles_def sample_scheme_def upt_rec)
  have n: "handle_name (PartitionH 0 1) = ''0p1''" "handle_name (DiskH 0) = ''0''"
    by code_simp+
  show ?thesis
    using disk_names_open [OF sample_scheme_facts(4), of 0] h n [symmetric]
    by (auto simp: sample_scheme_def)
qed

end
