(* ===== verification/Nvme_Scheme.thy ===== *)
theory Nvme_Scheme
  imports Disk_Scheme Nvme_Controller
begin

text \<open>
  The scheme of \<open>nvmed\<close> (\<open>scheme.rs\<close>): the namespaces of a controller, their partitions, and the calls of clients,
  over the model of the controller in \<open>Nvme_Controller\<close>. The reader through which the partition parser sees a namespace
  is here too; the parser is the parameter \<open>G\<close>.
\<close>

subsection \<open>The reader of the partition parser\<close>

record 'd nvme_device =
  nd_nvme :: "'d nvme"
  nd_offset :: u64
  nd_block_bytes :: bytes

definition nvme_seek :: "nvme_namespace \<Rightarrow> seek_from \<Rightarrow> ('d nvme_device, u64, io_error) st" where
  "nvme_seek ns from dev =
     (let size_u = ns_blocks ns * ns_block_size ns
      in if 2 ^ 63 \<le> unat size_u then (Err TooLarge, dev)
         else let s = int (unat size_u);
                  off = (case from of
                      Start new_pos \<Rightarrow> min size_u (of_nat new_pos)
                    | Current new_pos \<Rightarrow>
                        of_int (max 0 (min s (i64_wrap (i64_wrap (int (unat (nd_offset dev))) + new_pos))))
                    | End new_pos \<Rightarrow> of_int (max 0 (min (i64_wrap (s + new_pos)) s)))
              in (Ok off, dev\<lparr>nd_offset := off\<rparr>))"

text \<open>The closure \<open>read_block\<close>; \<open>polls\<close> bounds the number of times a namespace answers that it is busy.\<close>

primrec nvme_poll_block ::
  "'d nvme_dev \<Rightarrow> nat \<Rightarrow> nvme_namespace \<Rightarrow> nat \<Rightarrow> ('d nvme, errno) read_fn" where
  "nvme_poll_block D fuel ns 0 block block_bytes s = (NoFuel, block_bytes, s)"
| "nvme_poll_block D fuel ns (Suc polls) block block_bytes s =
     (case namespace_read D fuel ns (ns_id ns) (of_nat block) block_bytes s of
        (Ok (Some n), bb, s') \<Rightarrow> (if n = length bb \<and> n = unat (ns_block_size ns) then Ok () else Panic, bb, s')
      | (Ok None, bb, s') \<Rightarrow> nvme_poll_block D fuel ns polls block bb s'
      | (Err e, bb, s') \<Rightarrow> (Err e, bb, s') | (Panic, bb, s') \<Rightarrow> (Panic, bb, s') | (NoFuel, bb, s') \<Rightarrow> (NoFuel, bb, s'))"

definition nvme_read_block :: "'d nvme_dev \<Rightarrow> nat \<Rightarrow> nat \<Rightarrow> nvme_namespace \<Rightarrow> ('d nvme, errno) read_fn" where
  "nvme_read_block D fuel polls ns block block_bytes s =
     (if unat (ns_blocks ns) \<le> block then (Err EOVERFLOW, block_bytes, s)
      else nvme_poll_block D fuel ns polls block block_bytes s)"

definition nvme_device_read ::
  "'d nvme_dev \<Rightarrow> nat \<Rightarrow> nat \<Rightarrow> nvme_namespace \<Rightarrow> bytes \<Rightarrow> 'd nvme_device \<Rightarrow> (nat, errno) res \<times> bytes \<times> 'd nvme_device" where
  "nvme_device_read D fuel polls ns buf dev =
     (if 2 ^ 32 \<le> unat (ns_block_size ns) then (Panic, buf, dev)
      else case block_read (unat (nd_offset dev)) (unat (ns_block_size ns)) buf (nd_block_bytes dev)
             (nvme_read_block D fuel polls ns) (nd_nvme dev) of
        (r, buf', bb, s) \<Rightarrow> (r, buf', dev\<lparr>nd_nvme := s, nd_block_bytes := bb,
           nd_offset := (case r of Ok n \<Rightarrow> nd_offset dev + of_nat n | _ \<Rightarrow> nd_offset dev)\<rparr>))"

record nvme_disk =
  nk_inner :: nvme_namespace
  nk_pt :: "partition list option"

type_synonym 'd nvme_parser = "nvme_namespace \<Rightarrow> 'd nvme_device \<Rightarrow> (partition list option, io_error) res \<times> 'd nvme_device"

definition nvme_disk_new :: "'d nvme_parser \<Rightarrow> nvme_namespace \<Rightarrow> ('d nvme, nvme_disk, errno) st" where
  "nvme_disk_new G ns s =
     (if ns_block_size ns \<notin> {512, 4096} then (Ok \<lparr>nk_inner = ns, nk_pt = None\<rparr>, s)
      else case G ns \<lparr>nd_nvme = s, nd_offset = 0, nd_block_bytes = replicate (unat (ns_block_size ns)) 0\<rparr> of
        (Ok pt, dev) \<Rightarrow> (Ok \<lparr>nk_inner = ns, nk_pt = pt\<rparr>, nd_nvme dev)
      | (Err _, dev) \<Rightarrow> (Ok \<lparr>nk_inner = ns, nk_pt = None\<rparr>, nd_nvme dev)
      | (Panic, dev) \<Rightarrow> (Panic, nd_nvme dev) | (NoFuel, dev) \<Rightarrow> (NoFuel, nd_nvme dev))"

subsection \<open>The scheme\<close>

datatype nvme_handle = NListH bytes | NDiskH u32 | NPartitionH u32 u32

record 'd nvme_scheme =
  nvs_name :: string
  nvs_nvme :: "'d nvme"
  nvs_disks :: "(u32 \<times> nvme_disk) list"
  nvs_handles :: "(nat \<times> nvme_handle) list"
  nvs_next_id :: nat

primrec nvme_wrap :: "'d nvme_parser \<Rightarrow> (u32 \<times> nvme_namespace) list \<Rightarrow> ('d nvme, (u32 \<times> nvme_disk) list, errno) st" where
  "nvme_wrap G [] = return_m []"
| "nvme_wrap G (e # es) =
     bind_m (nvme_disk_new G (snd e)) (\<lambda>k. bind_m (nvme_wrap G es) (\<lambda>ks. return_m ((fst e, k) # ks)))"

definition nvme_scheme_new ::
  "'d nvme_parser \<Rightarrow> string \<Rightarrow> 'd nvme \<Rightarrow> (u32 \<times> nvme_namespace) list \<Rightarrow> ('d nvme_scheme, errno) res" where
  "nvme_scheme_new G name s ns = (case nvme_wrap G ns s of (r, s') \<Rightarrow> map_res (\<lambda>disks.
     \<lparr>nvs_name = name, nvs_nvme = s', nvs_disks = disks, nvs_handles = [], nvs_next_id = 0\<rparr>) r)"

fun nvme_lock_conflict :: "u32 \<Rightarrow> u32 option \<Rightarrow> nvme_handle \<Rightarrow> bool" where
  "nvme_lock_conflict disk_i part_i_opt (NDiskH i) = (disk_i = i)"
| "nvme_lock_conflict disk_i part_i_opt (NPartitionH i p) =
     (disk_i = i \<and> (case part_i_opt of Some part_i \<Rightarrow> part_i = p | None \<Rightarrow> True))"
| "nvme_lock_conflict disk_i part_i_opt (NListH _) = False"

definition nvme_check_locks :: "u32 \<Rightarrow> u32 option \<Rightarrow> 'd nvme_scheme \<Rightarrow> (unit, errno) res" where
  "nvme_check_locks disk_i part_i_opt S =
     (if list_ex (\<lambda>(_, h). nvme_lock_conflict disk_i part_i_opt h) (nvs_handles S) then Err ENOLCK else Ok ())"

definition nvme_list :: "(u32 \<times> nvme_disk) list \<Rightarrow> string" where
  "nvme_list disks = concat (map (\<lambda>(ns_num, k). dec (unat ns_num) @ [CHR 0x0A]
     @ (case nk_pt k of None \<Rightarrow> []
        | Some ps \<Rightarrow> concat (map (\<lambda>part_num. dec (unat ns_num) @ ''p'' @ dec part_num @ [CHR 0x0A]) [0..<length ps]))) disks)"

definition nvme_path_handle :: "string \<Rightarrow> u64 \<Rightarrow> 'd nvme_scheme \<Rightarrow> (nvme_handle, errno) res" where
  "nvme_path_handle path_str flags S =
     (if path_str = [] then
        if wants_list flags then Ok (NListH (str_bytes (nvme_list (nvs_disks S)))) else Err EISDIR
      else case char_position CHR ''p'' path_str of
        Some p_pos \<Rightarrow>
          bind_r (str_to p_pos path_str) (\<lambda>ns_num_str.
          if length path_str \<le> p_pos + 1 then Err ENOENT
          else bind_r (str_from (p_pos + 1) path_str) (\<lambda>part_num_str.
            case parse_unsigned (2 ^ 32) ns_num_str of None \<Rightarrow> Err ENOENT
            | Some ns_num \<Rightarrow> (case parse_unsigned (2 ^ 32) part_num_str of None \<Rightarrow> Err ENOENT
              | Some part_num \<Rightarrow>
                  (case map_of (nvs_disks S) (of_nat ns_num) of
                     Some disk \<Rightarrow>
                       (case nk_pt disk of None \<Rightarrow> Err ENOENT
                        | Some ps \<Rightarrow> if part_num < length ps then
                              bind_r (nvme_check_locks (of_nat ns_num) (Some (of_nat part_num)) S) (\<lambda>_.
                                Ok (NPartitionH (of_nat ns_num) (of_nat part_num)))
                            else Err ENOENT)
                   | None \<Rightarrow> Err ENOENT))))
      | None \<Rightarrow>
          (case parse_unsigned (2 ^ 32) path_str of None \<Rightarrow> Err ENOENT
           | Some ns_num \<Rightarrow> if map_of (nvs_disks S) (of_nat ns_num) \<noteq> None then
                 bind_r (nvme_check_locks (of_nat ns_num) None S) (\<lambda>_. Ok (NDiskH (of_nat ns_num)))
               else Err ENOENT))"

definition nvme_xopen :: "string \<Rightarrow> u64 \<Rightarrow> u32 \<Rightarrow> ('d nvme_scheme, nat, errno) st" where
  "nvme_xopen path flags uid S =
     (if uid \<noteq> 0 then (Err EACCES, S)
      else case nvme_path_handle (trim_slashes path) flags S of
        Ok h \<Rightarrow> (Ok (nvs_next_id S),
          S\<lparr>nvs_next_id := nvs_next_id S + 1, nvs_handles := bt_insert (nvs_next_id S) h (nvs_handles S)\<rparr>)
      | Err e \<Rightarrow> (Err e, S) | Panic \<Rightarrow> (Panic, S) | NoFuel \<Rightarrow> (NoFuel, S))"

definition nvme_partition :: "u32 \<Rightarrow> u32 \<Rightarrow> 'd nvme_scheme \<Rightarrow> (nvme_namespace \<times> partition, errno) res" where
  "nvme_partition disk_num part_num S = (case map_of (nvs_disks S) disk_num of
      None \<Rightarrow> Err EBADF
    | Some disk \<Rightarrow> (case nk_pt disk of None \<Rightarrow> Err EBADF
        | Some ps \<Rightarrow> if length ps \<le> unat part_num then Err EBADF else Ok (nk_inner disk, ps ! unat part_num)))"

definition nvme_fstat :: "nat \<Rightarrow> 'd nvme_scheme \<Rightarrow> disk_stat \<Rightarrow> (disk_stat, errno) res" where
  "nvme_fstat fd S stat = (case map_of (nvs_handles S) fd of
      None \<Rightarrow> Err EBADF
    | Some (NListH data) \<Rightarrow> Ok (stat\<lparr>dst_mode := ModeDir, dst_size := of_nat (length data)\<rparr>)
    | Some (NDiskH number) \<Rightarrow> (case map_of (nvs_disks S) number of
        None \<Rightarrow> Err EBADF
      | Some disk \<Rightarrow> let ns = nk_inner disk
          in if 2 ^ 32 \<le> unat (ns_block_size ns) then Panic
             else Ok (stat\<lparr>dst_mode := ModeFile, dst_blocks := ns_blocks ns, dst_blksize := ucast (ns_block_size ns),
               dst_size := ns_blocks ns * ns_block_size ns\<rparr>))
    | Some (NPartitionH disk_num part_num) \<Rightarrow> bind_r (nvme_partition disk_num part_num S) (\<lambda>(ns, part).
        if 2 ^ 32 \<le> unat (ns_block_size ns) then Panic
        else Ok (stat\<lparr>dst_mode := ModeFile, dst_size := part_size part * ns_block_size ns, dst_blocks := part_size part,
          dst_blksize := ucast (ns_block_size ns)\<rparr>)))"

definition nvme_handle_name :: "nvme_handle \<Rightarrow> string" where
  "nvme_handle_name h = (case h of NListH _ \<Rightarrow> [] | NDiskH number \<Rightarrow> dec (unat number)
     | NPartitionH i p \<Rightarrow> dec (unat i) @ ''p'' @ dec (unat p))"

definition nvme_fpath :: "nat \<Rightarrow> bytes \<Rightarrow> 'd nvme_scheme \<Rightarrow> (nat \<times> bytes, errno) res" where
  "nvme_fpath fd buf S = (case map_of (nvs_handles S) fd of
      None \<Rightarrow> Err EBADF
    | Some h \<Rightarrow> Ok (
        let (i, buf1) = copy_loop 0 (str_bytes (nvs_name S)) buf;
            (i, buf2) = (if i < length buf1 then (i + 1, buf1[i := 0x3A]) else (i, buf1))
        in copy_loop i (str_bytes (nvme_handle_name h)) buf2))"

definition on_nvme :: "('d nvme \<times> bytes, 'a, errno) st \<Rightarrow> ('d nvme_scheme \<times> bytes, 'a, errno) st" where
  "on_nvme m = (\<lambda>(S, buf). case m (nvs_nvme S, buf) of (r, (s, buf')) \<Rightarrow> (r, (S\<lparr>nvs_nvme := s\<rparr>, buf')))"

definition ns_read :: "'d nvme_dev \<Rightarrow> nat \<Rightarrow> nvme_namespace \<Rightarrow> u64 \<Rightarrow> ('d nvme \<times> bytes, nat option, errno) st" where
  "ns_read D fuel ns lba = (\<lambda>(s, buf). case namespace_read D fuel ns (ns_id ns) lba buf s of (r, buf', s') \<Rightarrow> (r, (s', buf')))"

definition ns_write :: "'d nvme_dev \<Rightarrow> nat \<Rightarrow> nvme_namespace \<Rightarrow> u64 \<Rightarrow> ('d nvme \<times> bytes, nat option, errno) st" where
  "ns_write D fuel ns lba = (\<lambda>(s, buf). case namespace_write D fuel ns (ns_id ns) lba buf s of (r, s') \<Rightarrow> (r, (s', buf)))"

text \<open>The block of a handle at an offset, given to the transfer.\<close>

definition nvme_transfer ::
  "nvme_handle \<Rightarrow> u64 \<Rightarrow> (nvme_namespace \<Rightarrow> u64 \<Rightarrow> ('d nvme \<times> bytes, nat option, errno) st)
     \<Rightarrow> ('d nvme_scheme \<times> bytes, nat option, errno) st" where
  "nvme_transfer h offset io = (\<lambda>(S, buf). case h of
      NListH _ \<Rightarrow> (Err EBADF, (S, buf))
    | NDiskH number \<Rightarrow> (case map_of (nvs_disks S) number of
        None \<Rightarrow> (Err EBADF, (S, buf))
      | Some disk \<Rightarrow> let block_size = ns_block_size (nk_inner disk)
          in if block_size = 0 then (Panic, (S, buf)) else on_nvme (io (nk_inner disk) (offset div block_size)) (S, buf))
    | NPartitionH disk_num part_num \<Rightarrow>
        bind_m (of_res (nvme_partition disk_num part_num S)) (\<lambda>(ns, part).
          if ns_block_size ns = 0 then panic_m
          else let rel_block = offset div ns_block_size ns
               in if part_size part \<le> rel_block then fail_m EOVERFLOW
                  else on_nvme (io ns (part_start_lba part + rel_block))) (S, buf))"

definition nvme_read :: "'d nvme_dev \<Rightarrow> nat \<Rightarrow> nat \<Rightarrow> u64 \<Rightarrow> ('d nvme_scheme \<times> bytes, nat option, errno) st" where
  "nvme_read D fuel fd offset = (\<lambda>(S, buf). case map_of (nvs_handles S) fd of
      None \<Rightarrow> (Err EBADF, (S, buf))
    | Some (NListH data) \<Rightarrow>
        let src = drop (unat offset) data; n = min (length src) (length buf)
        in (Ok (Some n), (S, take n src @ drop n buf))
    | Some h \<Rightarrow> nvme_transfer h offset (ns_read D fuel) (S, buf))"

definition nvme_write :: "'d nvme_dev \<Rightarrow> nat \<Rightarrow> nat \<Rightarrow> u64 \<Rightarrow> ('d nvme_scheme \<times> bytes, nat option, errno) st" where
  "nvme_write D fuel fd offset = (\<lambda>(S, buf). case map_of (nvs_handles S) fd of
      None \<Rightarrow> (Err EBADF, (S, buf))
    | Some h \<Rightarrow> nvme_transfer h offset (ns_write D fuel) (S, buf))"

definition nvme_fsize :: "nat \<Rightarrow> 'd nvme_scheme \<Rightarrow> (u64, errno) res" where
  "nvme_fsize fd S = (case map_of (nvs_handles S) fd of
      None \<Rightarrow> Err EBADF
    | Some (NListH data) \<Rightarrow> Ok (of_nat (length data))
    | Some (NDiskH number) \<Rightarrow> (case map_of (nvs_disks S) number of
        None \<Rightarrow> Err EBADF
      | Some disk \<Rightarrow> Ok (ns_blocks (nk_inner disk) * ns_block_size (nk_inner disk)))
    | Some (NPartitionH disk_num part_num) \<Rightarrow>
        map_res (\<lambda>(ns, part). part_size part * ns_block_size ns) (nvme_partition disk_num part_num S))"

definition nvme_close :: "nat \<Rightarrow> ('d nvme_scheme, nat, errno) st" where
  "nvme_close fd S = (case map_of (nvs_handles S) fd of
      None \<Rightarrow> (Err EBADF, S) | Some _ \<Rightarrow> (Ok 0, S\<lparr>nvs_handles := bt_remove fd (nvs_handles S)\<rparr>))"

fun nvme_call :: "'d nvme_dev \<Rightarrow> nat \<Rightarrow> disk_call \<Rightarrow> ('d nvme_scheme, disk_answer, errno) st" where
  "nvme_call D fuel (CallOpen path flags uid) S = bind_m (nvme_xopen path flags uid) (\<lambda>fd. return_m (Opened fd)) S"
| "nvme_call D fuel (CallFstat fd stat) S = (map_res Statted (nvme_fstat fd S stat), S)"
| "nvme_call D fuel (CallFpath fd buf) S = (map_res (\<lambda>(n, b). Named n b) (nvme_fpath fd buf S), S)"
| "nvme_call D fuel (CallRead fd buf offset) S = with_buffer (nvme_read D fuel fd offset) buf Moved S"
| "nvme_call D fuel (CallWrite fd buf offset) S = with_buffer (nvme_write D fuel fd offset) buf Moved S"
| "nvme_call D fuel (CallFsize fd) S = (map_res Sized (nvme_fsize fd S), S)"
| "nvme_call D fuel (CallClose fd) S = bind_m (nvme_close fd) (\<lambda>_. return_m Closed) S"

subsection \<open>Locks\<close>

primrec block_handle :: "nvme_handle \<Rightarrow> disk_handle" where
  "block_handle (NListH data) = ListH data"
| "block_handle (NDiskH i) = DiskH (unat i)"
| "block_handle (NPartitionH i p) = PartitionH (unat i) p"

lemma bt_values_insert: "bt_values f (bt_insert k v m) = bt_insert k (f v) (bt_values f m)"
  by (induction m) (auto simp: bt_values_def)

lemma bt_values_remove: "bt_values f (bt_remove k m) = bt_remove k (bt_values f m)"
  by (induction m) (auto simp: bt_values_def bt_remove_def)

lemma nvme_locks_free:
  "nvme_check_locks i (Some p) S = Ok () \<longleftrightarrow>
    (\<forall>(k, g) \<in> set (bt_values block_handle (nvs_handles S)). \<not> overlap (PartitionH (unat i) p) g)"
  "nvme_check_locks i None S = Ok () \<longleftrightarrow>
    (\<forall>(k, g) \<in> set (bt_values block_handle (nvs_handles S)). \<not> overlap (DiskH (unat i)) g)"
proof -
  have "nvme_lock_conflict i (Some p) g = overlap (PartitionH (unat i) p) (block_handle g)"
    "nvme_lock_conflict i None g = overlap (DiskH (unat i)) (block_handle g)" for g
    by (cases g; auto simp: word_unat_eq_iff)+
  then show "nvme_check_locks i (Some p) S = Ok () \<longleftrightarrow>
      (\<forall>(k, g) \<in> set (bt_values block_handle (nvs_handles S)). \<not> overlap (PartitionH (unat i) p) g)"
    "nvme_check_locks i None S = Ok () \<longleftrightarrow>
      (\<forall>(k, g) \<in> set (bt_values block_handle (nvs_handles S)). \<not> overlap (DiskH (unat i)) g)"
    by (auto simp: nvme_check_locks_def bt_values_def list_ex_iff case_prod_beta)
qed

lemma nvme_path_free:
  assumes "nvme_path_handle path flags S = Ok h"
  shows "\<forall>(k, g) \<in> set (bt_values block_handle (nvs_handles S)). \<not> overlap (block_handle h) g"
proof (cases "char_position CHR ''p'' path")
  case None
  then show ?thesis using assms
    by (auto simp: nvme_path_handle_def guard_Ok nvme_locks_free split: if_split_asm)
next
  case (Some k)
  then show ?thesis using assms
    by (auto simp: nvme_path_handle_def guard_Ok nvme_locks_free split: if_split_asm)
qed

lemma nvme_transfer_handles: "nvs_handles (fst (snd (nvme_transfer h offset io s))) = nvs_handles (fst s)"
proof -
  have "nvs_handles (fst (snd (on_nvme m s))) = nvs_handles (fst s)" for m :: "('a nvme \<times> bytes, nat option, errno) st"
    by (simp add: on_nvme_def case_prod_beta)
  then show ?thesis
    by (auto simp: nvme_transfer_def case_prod_beta Let_def st_defs of_res_def split: nvme_handle.split option.split res.split)
qed

lemma nvme_call_handles:
  "nvs_handles (snd (nvme_call D fuel c S)) = nvs_handles S
    \<or> (\<exists>i. nvs_handles (snd (nvme_call D fuel c S)) = bt_remove i (nvs_handles S))
    \<or> (\<exists>i h. nvs_handles (snd (nvme_call D fuel c S)) = bt_insert i h (nvs_handles S)
        \<and> (\<forall>(k, g) \<in> set (bt_values block_handle (nvs_handles S)). \<not> overlap (block_handle h) g))"
proof (cases c)
  case (CallOpen path flags uid)
  show ?thesis
  proof (cases "uid = 0 \<and> (\<exists>h. nvme_path_handle (trim_slashes path) flags S = Ok h)")
    case True
    then obtain h where h: "nvme_path_handle (trim_slashes path) flags S = Ok h" by blast
    then have "nvs_handles (snd (nvme_call D fuel c S)) = bt_insert (nvs_next_id S) h (nvs_handles S)"
      using True by (simp add: CallOpen nvme_xopen_def st_defs)
    then show ?thesis using nvme_path_free [OF h] by blast
  qed (auto simp: CallOpen nvme_xopen_def st_defs split: res.split)
next
  case (CallRead fd buf offset)
  then show ?thesis
    by (auto simp: with_buffer_def nvme_read_def case_prod_beta Let_def nvme_transfer_handles split: option.split nvme_handle.split)
next
  case (CallWrite fd buf offset)
  then show ?thesis
    by (auto simp: with_buffer_def nvme_write_def case_prod_beta nvme_transfer_handles split: option.split nvme_handle.split)
next
  case (CallClose fd)
  then show ?thesis by (auto simp: nvme_close_def st_defs split: option.split)
qed simp_all

interpretation nvme_locks: locking_scheme "\<lambda>S. bt_values block_handle (nvs_handles S)" "nvme_call D fuel" for D fuel
proof unfold_locales
  fix c and s :: "'a nvme_scheme"
  consider "nvs_handles (snd (nvme_call D fuel c s)) = nvs_handles s"
    | i where "nvs_handles (snd (nvme_call D fuel c s)) = bt_remove i (nvs_handles s)"
    | i h where "nvs_handles (snd (nvme_call D fuel c s)) = bt_insert i h (nvs_handles s)"
      "\<forall>(k, g) \<in> set (bt_values block_handle (nvs_handles s)). \<not> overlap (block_handle h) g"
    using nvme_call_handles [of D fuel c s] by blast
  then show "bt_values block_handle (nvs_handles (snd (nvme_call D fuel c s))) = bt_values block_handle (nvs_handles s)
    \<or> (\<exists>i. bt_values block_handle (nvs_handles (snd (nvme_call D fuel c s))) = bt_remove i (bt_values block_handle (nvs_handles s)))
    \<or> (\<exists>i h. bt_values block_handle (nvs_handles (snd (nvme_call D fuel c s))) = bt_insert i h (bt_values block_handle (nvs_handles s))
        \<and> (\<forall>(k, g) \<in> set (bt_values block_handle (nvs_handles s)). \<not> overlap h g))"
    by cases (auto simp: bt_values_insert bt_values_remove)
qed

text \<open>
  Disk scheme property C27. In each of the four disk daemons, from the start of the scheme and whatever
  calls clients make, no two open handles overlap: a disk that is open as a whole has no other handle, and no partition
  is open twice.
\<close>

theorem disk_locks_exclusive:
  assumes "ahci_scheme_new G D name hba ds = Ok A" "ide_scheme_new G D name chans ds = Ok I"
    and "bcm_scheme_new G D name ds = Ok B" "nvme_scheme_new P name s namespaces = Ok N"
  shows "exclusive (bs_handles (snd (run_calls (ahci_call D) cs A)))
    \<and> exclusive (bs_handles (snd (run_calls (ide_call D) cs I)))
    \<and> exclusive (bs_handles (snd (run_calls (bcm_call D) cs B)))
    \<and> exclusive (bt_values block_handle (nvs_handles (snd (run_calls (nvme_call E fuel) cs N))))"
proof -
  have "bs_handles A = []" "bs_handles I = []" "bs_handles B = []" "nvs_handles N = []"
    using assms by (auto simp: ahci_scheme_new_def ide_scheme_new_def bcm_scheme_new_def nvme_scheme_new_def split: prod.splits)
  moreover have "exclusive []" by (simp add: exclusive_def)
  ultimately show ?thesis
    using ahci_locks.run_exclusive [of A] ide_locks.run_exclusive [of I] bcm_locks.run_exclusive [of B]
      nvme_locks.run_exclusive [of N] by (simp add: bt_values_def)
qed

subsection \<open>Reading and writing\<close>

text \<open>
  A namespace that the controller serves, as the controller theory describes it: its blocks are those of the image
  and the driver is ready for a command.
\<close>

definition ns_ready :: "'d nvme_dev \<Rightarrow> ('d \<Rightarrow> bytes) \<Rightarrow> nat \<Rightarrow> nvme_namespace \<Rightarrow> 'd nvme \<Rightarrow> bool" where
  "ns_ready D img fuel ns s \<longleftrightarrow> (\<exists>L < fuel. serves D img (ns_id ns) (unat (ns_block_size ns)) L)
    \<and> 0 < unat (ns_block_size ns) \<and> unat (ns_block_size ns) dvd chunk_size
    \<and> unat (ns_block_size ns) dvd length (img (nv_dev s)) \<and> length (img (nv_dev s)) < 2 ^ 64 \<and> idle s \<and> buffers_ok s"

lemma ns_ready_read:
  assumes "ns_ready D img fuel ns s" "unat lba * unat (ns_block_size ns) + length buf \<le> length (img (nv_dev s))"
  shows "\<exists>s'. namespace_read D fuel ns (ns_id ns) lba buf s
      = (Ok (Some (length buf)), subslice (unat lba * unat (ns_block_size ns)) (length buf) (img (nv_dev s)), s')
    \<and> ns_ready D img fuel ns s' \<and> img (nv_dev s') = img (nv_dev s)"
proof -
  obtain L where L: "L < fuel" "serves D img (ns_id ns) (unat (ns_block_size ns)) L"
    using assms(1) by (auto simp: ns_ready_def)
  obtain s' where s': "namespace_read_loop D fuel ns (ns_id ns) lba buf s
      = (Ok (), subslice (unat lba * unat (ns_block_size ns)) (length buf) (img (nv_dev s)), s')"
    "idle s'" "buffers_ok s'" "img (nv_dev s') = img (nv_dev s)"
    using namespace_read_loop_ok [OF L(2,1) refl _ _ _ _ _ _ assms(2)] assms(1)
    unfolding ns_ready_def by (elim conjE exE) blast
  show ?thesis
    using s' assms(1) by (intro exI [of _ s']) (simp add: namespace_read_def ns_ready_def)
qed

lemma ns_ready_write:
  assumes "ns_ready D img fuel ns s" "unat lba * unat (ns_block_size ns) + length buf \<le> length (img (nv_dev s))"
    and "unat (ns_block_size ns) dvd length buf"
  shows "\<exists>s'. namespace_write D fuel ns (ns_id ns) lba buf s = (Ok (Some (length buf)), s')
    \<and> ns_ready D img fuel ns s' \<and> img (nv_dev s') = blit (img (nv_dev s)) (unat lba * unat (ns_block_size ns)) buf"
proof -
  obtain L where L: "L < fuel" "serves D img (ns_id ns) (unat (ns_block_size ns)) L"
    using assms(1) by (auto simp: ns_ready_def)
  obtain s' where s': "namespace_write_loop D fuel ns (ns_id ns) lba buf s = (Ok (), s')"
    "idle s'" "buffers_ok s'" "img (nv_dev s') = blit (img (nv_dev s)) (unat lba * unat (ns_block_size ns)) buf"
    using namespace_write_loop_ok [OF L(2,1) refl _ _ _ _ _ _ assms(2,3)] assms(1)
    unfolding ns_ready_def by (elim conjE exE) blast
  show ?thesis
    using s' assms by (intro exI [of _ s']) (simp add: namespace_write_def ns_ready_def bind_m_def return_m_def)
qed

text \<open>The closure \<open>read_block\<close> is a source of blocks as \<open>block_read\<close> wants it.\<close>

definition source_ready :: "'d nvme_dev \<Rightarrow> ('d \<Rightarrow> bytes) \<Rightarrow> nat \<Rightarrow> nvme_namespace \<Rightarrow> bytes \<Rightarrow> 'd nvme \<Rightarrow> bool" where
  "source_ready D img fuel ns data s \<longleftrightarrow> ns_ready D img fuel ns s \<and> img (nv_dev s) = data
    \<and> length data = unat (ns_blocks ns) * unat (ns_block_size ns)"

interpretation nvme_blocks: block_source "nvme_read_block D fuel (Suc polls) ns" "source_ready D img fuel ns data"
  data "unat (ns_block_size ns)" "unat (ns_blocks ns)" EOVERFLOW for D fuel polls ns img data
proof unfold_locales
  fix s :: "'a nvme" and b and bb :: bytes
  assume inv: "source_ready D img fuel ns data s" and b: "b < unat (ns_blocks ns)" and bb: "length bb = unat (ns_block_size ns)"
  let ?bs = "unat (ns_block_size ns)"
  have "b < 2 ^ 64" using b unsigned_less [of "ns_blocks ns", where 'a = nat] by simp
  then have u: "unat (of_nat b :: u64) = b" by (rule unat_of_nat_u64)
  have "b * ?bs + ?bs \<le> length data"
    using inv b by (metis add.commute mult_Suc mult_le_mono1 Suc_leI source_ready_def)
  then obtain s' where "namespace_read D fuel ns (ns_id ns) (of_nat b) bb s = (Ok (Some (length bb)), subslice (b * ?bs) ?bs data, s')"
    "ns_ready D img fuel ns s'" "img (nv_dev s') = data"
    using ns_ready_read [of D img fuel ns s "of_nat b" bb] inv bb u unfolding source_ready_def by auto
  then show "\<exists>s'. source_ready D img fuel ns data s'
      \<and> nvme_read_block D fuel (Suc polls) ns b bb s = (Ok (), subslice (b * ?bs) ?bs data, s')"
    using inv b bb \<open>b * ?bs + ?bs \<le> length data\<close>
    by (intro exI [of _ s']) (simp add: nvme_read_block_def source_ready_def)
qed (auto simp: source_ready_def ns_ready_def nvme_read_block_def)


lemma nvme_partition_block:
  assumes part: "nvme_partition i p S = Ok (ns, part)" and bs: "bs = unat (ns_block_size ns)" "0 < bs"
    and fits: "(unat (part_start_lba part) + unat (part_size part)) * bs \<le> n" "n < 2 ^ 64"
    and rel: "unat offset div bs < unat (part_size part)"
  obtains lba where "unat lba = unat (part_start_lba part) + unat offset div bs"
    and "nvme_transfer (NPartitionH i p) offset io (S, buf) = on_nvme (io ns lba) (S, buf)"
proof -
  have "ns_block_size ns \<noteq> 0" using bs by auto
  have d: "unat (offset div ns_block_size ns) = unat offset div bs" by (simp add: bs(1) unat_div_distrib)
  have le: "unat (part_start_lba part) + unat (part_size part) \<le> n"
    using fits(1) bs(2) by (metis One_nat_def Suc_leI le_trans mult_le_mono2 nat_mult_1_right)
  have "unat (part_start_lba part + offset div ns_block_size ns) = unat (part_start_lba part) + unat offset div bs"
    using block_number [OF le fits(2) rel] by (simp flip: d)
  moreover have "\<not> part_size part \<le> offset div ns_block_size ns" using rel d by (simp add: word_le_nat_alt)
  ultimately show ?thesis
    using part \<open>ns_block_size ns \<noteq> 0\<close>
    by (intro that [of "part_start_lba part + offset div ns_block_size ns"])
      (simp_all add: nvme_transfer_def bind_of_res Let_def)
qed


subsection \<open>A namespace with a partition\<close>

definition sample_ns :: nvme_namespace where
  "sample_ns = \<lparr>ns_id = 1, ns_blocks = 2, ns_block_size = 512\<rparr>"

definition sample_nvme_scheme :: "bytes nvme_scheme" where
  "sample_nvme_scheme = \<lparr>nvs_name = ''disk.nvme'', nvs_nvme = sample_nvme_state,
     nvs_disks = [(1, \<lparr>nk_inner = sample_ns, nk_pt = Some [\<lparr>part_start_lba = 1, part_size = 1\<rparr>]\<rparr>)],
     nvs_handles = [(0, NPartitionH 1 0)], nvs_next_id = 1\<rparr>"

lemma sample_ns_ready: "ns_ready sample_nvme id 2 sample_ns sample_nvme_state"
  using sample_serves [of 1] sample_idle sample_buffers
  by (auto simp: ns_ready_def sample_ns_def chunk_size_def sample_nvme_state_def intro!: exI [of _ 1])



theorem disk_locks_exclusive_witness:
  "exclusive (bs_handles (snd (run_calls (ahci_call image_disk) [CallOpen [] o_directory 0, CallClose 0]
     (\<lparr>bs_name = [], bs_disks = [], bs_handles = [], bs_next_id = 0, ah_hba = ()\<rparr> :: (bytes, unit) ahci_scheme))))"
proof -
  let ?A = "\<lparr>bs_name = [], bs_disks = [], bs_handles = [], bs_next_id = 0, ah_hba = ()\<rparr> :: (bytes, unit) ahci_scheme"
  let ?I = "\<lparr>bs_name = [], bs_disks = [], bs_handles = [], bs_next_id = 0, ic_chans = []\<rparr> :: (bytes, unit) ide_scheme"
  let ?G = "\<lambda>dev. (Ok None, dev)"
  have "ahci_scheme_new ?G image_disk [] () [] = Ok ?A" "ide_scheme_new ?G image_disk [] [] [] = Ok ?I"
    "bcm_scheme_new ?G image_disk [] [] = Ok \<lparr>bs_name = [], bs_disks = [], bs_handles = [], bs_next_id = 0\<rparr>"
    "nvme_scheme_new (\<lambda>_ dev. (Ok None, dev)) [] sample_nvme_state [] = Ok \<lparr>nvs_name = [], nvs_nvme = sample_nvme_state,
      nvs_disks = [], nvs_handles = [], nvs_next_id = 0\<rparr>"
    by (simp_all add: ahci_scheme_new_def ide_scheme_new_def bcm_scheme_new_def nvme_scheme_new_def return_m_def)
  from disk_locks_exclusive [OF this, of "[CallOpen [] o_directory 0, CallClose 0]"] show ?thesis by blast
qed

end
