(* ===== verification/Keymaps.thy ===== *)
theory Keymaps
  imports Rust_Prelude
begin

text \<open>
  The keyboard layouts (\<open>keymap.rs\<close> of \<open>ps2d\<close>, of which \<open>usbhidd\<close> has a copy): for every scan code the character without and
  with shift, as Unicode code points; 0 is the character of keys without one. The codes that \<open>orbclient\<close> gives to keys are a
  parameter of the drivers; a key is the name of its constant, and a table of a driver maps what its device sends to a key or,
  where the driver has a number of its own, to that number.
\<close>

subsection \<open>Layouts\<close>

definition us_table :: "(nat \<times> nat) list" where
  "us_table = [
     (0, 0), (27, 27), (49, 33), (50, 64), (51, 35), (52, 36), (53, 37), (54, 94), (55, 38), (56, 42),
     (57, 40), (48, 41), (45, 95), (61, 43), (127, 127), (9, 9), (113, 81), (119, 87), (101, 69), (114, 82),
     (116, 84), (121, 89), (117, 85), (105, 73), (111, 79), (112, 80), (91, 123), (93, 125), (10, 10),
     (0, 0), (97, 65), (115, 83), (100, 68), (102, 70), (103, 71), (104, 72), (106, 74), (107, 75),
     (108, 76), (59, 58), (39, 34), (96, 126), (0, 0), (92, 124), (122, 90), (120, 88), (99, 67), (118, 86),
     (98, 66), (110, 78), (109, 77), (44, 60), (46, 62), (47, 63), (0, 0), (0, 0), (0, 0), (32, 32)]"

definition gb_table :: "(nat \<times> nat) list" where
  "gb_table = [
     (0, 0), (27, 27), (49, 33), (50, 34), (51, 163), (52, 36), (53, 37), (54, 94), (55, 38), (56, 42),
     (57, 40), (48, 41), (45, 95), (61, 43), (127, 127), (9, 9), (113, 81), (119, 87), (101, 69), (114, 82),
     (116, 84), (121, 89), (117, 85), (105, 73), (111, 79), (112, 80), (91, 123), (93, 125), (10, 10),
     (0, 0), (97, 65), (115, 83), (100, 68), (102, 70), (103, 71), (104, 72), (106, 74), (107, 75),
     (108, 76), (59, 58), (39, 64), (96, 172), (0, 0), (35, 126), (122, 90), (120, 88), (99, 67), (118, 86),
     (98, 66), (110, 78), (109, 77), (44, 60), (46, 62), (47, 63), (0, 0), (0, 0), (0, 0), (32, 32), (0, 0),
     (0, 0), (0, 0), (0, 0), (0, 0), (0, 0), (0, 0), (0, 0), (0, 0), (0, 0), (0, 0), (0, 0), (0, 0), (0, 0),
     (0, 0), (0, 0), (0, 0), (0, 0), (0, 0), (0, 0), (0, 0), (0, 0), (0, 0), (0, 0), (0, 0), (0, 0), (0, 0),
     (0, 0), (92, 124)]"

definition dvorak_table :: "(nat \<times> nat) list" where
  "dvorak_table = [
     (0, 0), (27, 27), (49, 33), (50, 64), (51, 35), (52, 36), (53, 37), (54, 94), (55, 38), (56, 42),
     (57, 40), (48, 41), (91, 123), (93, 125), (127, 127), (9, 9), (39, 34), (44, 60), (46, 62), (112, 80),
     (121, 89), (102, 70), (103, 71), (99, 67), (114, 82), (108, 76), (47, 63), (61, 43), (10, 10), (0, 0),
     (97, 65), (111, 79), (101, 69), (117, 85), (105, 73), (100, 68), (104, 72), (116, 84), (110, 78),
     (115, 83), (45, 95), (96, 126), (0, 0), (92, 124), (59, 58), (113, 81), (106, 74), (107, 75), (120, 88),
     (98, 66), (109, 77), (119, 87), (118, 86), (122, 90), (0, 0), (0, 0), (0, 0), (32, 32)]"

definition azerty_table :: "(nat \<times> nat) list" where
  "azerty_table = [
     (0, 0), (27, 27), (38, 49), (233, 50), (34, 51), (39, 52), (40, 53), (124, 54), (232, 55), (95, 56),
     (231, 57), (224, 48), (41, 176), (61, 43), (127, 127), (9, 9), (97, 65), (122, 90), (101, 69),
     (114, 82), (116, 84), (121, 89), (117, 85), (105, 73), (111, 79), (112, 80), (94, 168), (36, 163),
     (10, 10), (0, 0), (113, 81), (115, 83), (100, 68), (102, 70), (103, 71), (104, 72), (106, 74),
     (107, 75), (108, 76), (109, 77), (249, 37), (42, 181), (0, 0), (234, 202), (119, 87), (120, 88),
     (99, 67), (118, 86), (98, 66), (110, 78), (44, 63), (59, 46), (58, 47), (33, 167), (0, 0), (0, 0),
     (0, 0), (32, 32)]"

definition bepo_table :: "(nat \<times> nat) list" where
  "bepo_table = [
     (0, 0), (27, 27), (34, 49), (171, 50), (187, 51), (40, 52), (41, 53), (64, 54), (43, 55), (45, 56),
     (47, 57), (42, 48), (61, 176), (37, 96), (127, 127), (9, 9), (98, 66), (233, 201), (112, 80), (111, 79),
     (232, 200), (94, 33), (118, 86), (100, 68), (108, 76), (106, 74), (122, 90), (119, 87), (10, 10),
     (0, 0), (97, 65), (117, 85), (105, 73), (101, 69), (44, 59), (99, 67), (116, 84), (115, 83), (114, 82),
     (110, 78), (109, 77), (231, 199), (0, 0), (234, 202), (224, 192), (121, 89), (120, 88), (46, 58),
     (107, 75), (39, 63), (113, 81), (103, 71), (104, 72), (102, 70), (0, 0), (0, 0), (0, 0), (32, 32)]"

definition it_table :: "(nat \<times> nat) list" where
  "it_table = [
     (0, 0), (27, 27), (49, 33), (50, 34), (51, 163), (52, 36), (53, 37), (54, 38), (55, 47), (56, 40),
     (57, 41), (48, 61), (63, 39), (236, 94), (127, 127), (9, 9), (113, 81), (119, 87), (101, 69), (114, 82),
     (116, 84), (121, 89), (117, 85), (105, 73), (111, 79), (112, 80), (232, 233), (43, 42), (10, 10),
     (32, 32), (97, 65), (115, 83), (100, 68), (102, 70), (103, 71), (104, 72), (106, 74), (107, 75),
     (108, 76), (242, 231), (224, 176), (249, 167), (0, 0), (60, 62), (122, 90), (120, 88), (99, 67),
     (118, 86), (98, 66), (110, 78), (109, 77), (44, 59), (46, 58), (45, 95), (0, 0), (0, 0), (0, 0),
     (32, 32)]"

definition table_char :: "(nat \<times> nat) list \<Rightarrow> u8 \<Rightarrow> bool \<Rightarrow> nat" where
  "table_char t scancode shift =
     (if unat scancode < length t then (if shift then snd (t ! unat scancode) else fst (t ! unat scancode)) else 0)"

definition us_get_char :: "u8 \<Rightarrow> bool \<Rightarrow> nat" where
  "us_get_char = table_char us_table"

definition gb_get_char :: "u8 \<Rightarrow> bool \<Rightarrow> nat" where
  "gb_get_char = table_char gb_table"

definition dvorak_get_char :: "u8 \<Rightarrow> bool \<Rightarrow> nat" where
  "dvorak_get_char = table_char dvorak_table"

definition azerty_get_char :: "u8 \<Rightarrow> bool \<Rightarrow> nat" where
  "azerty_get_char = table_char azerty_table"

definition bepo_get_char :: "u8 \<Rightarrow> bool \<Rightarrow> nat" where
  "bepo_get_char = table_char bepo_table"

definition it_get_char :: "u8 \<Rightarrow> bool \<Rightarrow> nat" where
  "it_get_char = table_char it_table"

text \<open>The layout that the argument of \<open>ps2d\<close> names, in lower case.\<close>

definition keymap_named :: "string option \<Rightarrow> u8 \<Rightarrow> bool \<Rightarrow> nat" where
  "keymap_named arg = (case arg of None \<Rightarrow> us_get_char
    | Some k \<Rightarrow> if k = ''dvorak'' then dvorak_get_char else if k = ''us'' then us_get_char
        else if k = ''gb'' then gb_get_char else if k = ''azerty'' then azerty_get_char
        else if k = ''bepo'' then bepo_get_char else if k = ''it'' then it_get_char else us_get_char)"

definition hid_get_char :: "u8 \<Rightarrow> bool \<Rightarrow> nat" where
  "hid_get_char = us_get_char"

subsection \<open>Keys and events\<close>

type_synonym orb_key = string

datatype scan = Key orb_key | Raw u8

primrec scan_code :: "(orb_key \<Rightarrow> u8) \<Rightarrow> scan \<Rightarrow> u8" where
  "scan_code kc (Key k) = kc k"
| "scan_code kc (Raw c) = c"

type_synonym i32 = "32 word"

datatype orb_event =
    KeyEvent nat u8 bool
  | MouseRelativeEvent i32 i32
  | MouseEvent i32 i32
  | ScrollEvent i32 i32
  | ButtonEvent bool bool bool

end
