(* ===== verification/Ps2_Controller.thy ===== *)
theory Ps2_Controller
  imports Rust_Prelude
begin

text \<open>
  The PS/2 controller of \<open>ps2d\<close> (\<open>input/ps2d/src/controller.rs\<close>): waiting for the controller with a bounded number of
  tries, commands with retries, and the start of keyboard and mouse.

  The ports are the parameter \<open>ps2_ports\<close>: the status byte, the data byte, and the effect of writing a byte to the data
  or to the command port, on a state \<open>'d\<close> of the devices. Reading a port may change that state as well. Messages are left out.
\<close>

subsection \<open>Ports\<close>

record 'd ps2_ports =
  pp_status :: "'d \<Rightarrow> u8 \<times> 'd"
  pp_data :: "'d \<Rightarrow> u8 \<times> 'd"
  pp_set_data :: "u8 \<Rightarrow> 'd \<Rightarrow> 'd"
  pp_set_command :: "u8 \<Rightarrow> 'd \<Rightarrow> 'd"

datatype ps2_error = CommandRetry | NoMoreTries | ReadTimeout | WriteTimeout

definition output_full :: nat where "output_full = 0"
definition input_full :: nat where "input_full = 1"
definition second_output_full :: nat where "second_output_full = 5"

datatype ps2_command = ReadConfig | WriteConfig | DisableSecond | EnableSecond | TestSecond | TestController
  | TestFirst | Diagnostic | DisableFirst | EnableFirst | WriteSecond

primrec command_code :: "ps2_command \<Rightarrow> u8" where
  "command_code ReadConfig = 0x20"
| "command_code WriteConfig = 0x60"
| "command_code DisableSecond = 0xA7"
| "command_code EnableSecond = 0xA8"
| "command_code TestSecond = 0xA9"
| "command_code TestController = 0xAA"
| "command_code TestFirst = 0xAB"
| "command_code Diagnostic = 0xAC"
| "command_code DisableFirst = 0xAD"
| "command_code EnableFirst = 0xAE"
| "command_code WriteSecond = 0xD4"

datatype keyboard_cmd = KbdEnableReporting | KbdSetDefaultsDisable | KbdSetDefaults | KbdReset

primrec keyboard_code :: "keyboard_cmd \<Rightarrow> u8" where
  "keyboard_code KbdEnableReporting = 0xF4"
| "keyboard_code KbdSetDefaultsDisable = 0xF5"
| "keyboard_code KbdSetDefaults = 0xF6"
| "keyboard_code KbdReset = 0xFF"

definition scancode_set :: u8 where "scancode_set = 0xF0"

datatype mouse_cmd = SetScaling1To1 | SetScaling2To1 | StatusRequest | GetDeviceId | MouseEnableReporting
  | MouseSetDefaultsDisable | MouseSetDefaults | MouseReset

primrec mouse_code :: "mouse_cmd \<Rightarrow> u8" where
  "mouse_code SetScaling1To1 = 0xE6"
| "mouse_code SetScaling2To1 = 0xE7"
| "mouse_code StatusRequest = 0xE9"
| "mouse_code GetDeviceId = 0xF2"
| "mouse_code MouseEnableReporting = 0xF4"
| "mouse_code MouseSetDefaultsDisable = 0xF5"
| "mouse_code MouseSetDefaults = 0xF6"
| "mouse_code MouseReset = 0xFF"

datatype mouse_cmd_data = SetResolution | SetSampleRate

primrec mouse_data_code :: "mouse_cmd_data \<Rightarrow> u8" where
  "mouse_data_code SetResolution = 0xE8"
| "mouse_data_code SetSampleRate = 0xF3"

primrec wait_read_loop :: "'d ps2_ports \<Rightarrow> nat \<Rightarrow> ('d, unit, ps2_error) st" where
  "wait_read_loop E 0 d = (Err ReadTimeout, d)"
| "wait_read_loop E (Suc timeout) d = (case pp_status E d of (s, d') \<Rightarrow>
     if bit s output_full then (Ok (), d') else wait_read_loop E timeout d')"

definition wait_read :: "'d ps2_ports \<Rightarrow> ('d, unit, ps2_error) st" where
  "wait_read E = wait_read_loop E 100000"

primrec wait_write_loop :: "'d ps2_ports \<Rightarrow> nat \<Rightarrow> ('d, unit, ps2_error) st" where
  "wait_write_loop E 0 d = (Err WriteTimeout, d)"
| "wait_write_loop E (Suc timeout) d = (case pp_status E d of (s, d') \<Rightarrow>
     if \<not> bit s input_full then (Ok (), d') else wait_write_loop E timeout d')"

definition wait_write :: "'d ps2_ports \<Rightarrow> ('d, unit, ps2_error) st" where
  "wait_write E = wait_write_loop E 100000"

primrec flush_loop :: "'d ps2_ports \<Rightarrow> nat \<Rightarrow> 'd \<Rightarrow> 'd" where
  "flush_loop E 0 d = d"
| "flush_loop E (Suc timeout) d = (case pp_status E d of (s, d') \<Rightarrow>
     flush_loop E timeout (if bit s output_full then snd (pp_data E d') else d'))"

definition flush_read :: "'d ps2_ports \<Rightarrow> ('d, unit, ps2_error) st" where
  "flush_read E d = (Ok (), flush_loop E 100 d)"

definition ps2_command :: "'d ps2_ports \<Rightarrow> ps2_command \<Rightarrow> ('d, unit, ps2_error) st" where
  "ps2_command E c = bind_m (wait_write E) (\<lambda>_ d. (Ok (), pp_set_command E (command_code c) d))"

definition ps2_read :: "'d ps2_ports \<Rightarrow> ('d, u8, ps2_error) st" where
  "ps2_read E = bind_m (wait_read E) (\<lambda>_ d. case pp_data E d of (b, d') \<Rightarrow> (Ok b, d'))"

definition ps2_write :: "'d ps2_ports \<Rightarrow> u8 \<Rightarrow> ('d, unit, ps2_error) st" where
  "ps2_write E b = bind_m (wait_write E) (\<lambda>_ d. (Ok (), pp_set_data E b d))"

primrec retry_from :: "nat \<Rightarrow> ps2_error \<Rightarrow> ('d, 'a, ps2_error) st \<Rightarrow> ('d, 'a, ps2_error) st" where
  "retry_from 0 e f = fail_m e"
| "retry_from (Suc n) e f = (\<lambda>d. case f d of
     (Err e', d') \<Rightarrow> retry_from n e' f d' | (Ok a, d') \<Rightarrow> (Ok a, d') | (Panic, d') \<Rightarrow> (Panic, d') | (NoFuel, d') \<Rightarrow> (NoFuel, d'))"

definition retry :: "nat \<Rightarrow> ('d, 'a, ps2_error) st \<Rightarrow> ('d, 'a, ps2_error) st" where
  "retry retries f = retry_from retries NoMoreTries f"

definition ps2_config :: "'d ps2_ports \<Rightarrow> ('d, u8, ps2_error) st" where
  "ps2_config E = retry 4 (bind_m (ps2_command E ReadConfig) (\<lambda>_. ps2_read E))"

definition set_config :: "'d ps2_ports \<Rightarrow> u8 \<Rightarrow> ('d, unit, ps2_error) st" where
  "set_config E config = bind_m (retry 4 (bind_m (ps2_command E WriteConfig) (\<lambda>_. bind_m (ps2_write E config) (\<lambda>_. return_m (0 :: u8)))))
     (\<lambda>_. return_m ())"

definition check_resend :: "u8 \<Rightarrow> ('d, u8, ps2_error) st" where
  "check_resend b = (if b = 0xFE then fail_m CommandRetry else return_m b)"

definition keyboard_command_inner :: "'d ps2_ports \<Rightarrow> u8 \<Rightarrow> ('d, u8, ps2_error) st" where
  "keyboard_command_inner E c = bind_m (ps2_write E c) (\<lambda>_. bind_m (ps2_read E) check_resend)"

definition keyboard_command :: "'d ps2_ports \<Rightarrow> keyboard_cmd \<Rightarrow> ('d, u8, ps2_error) st" where
  "keyboard_command E c = retry 4 (keyboard_command_inner E (keyboard_code c))"

text \<open>The result of writing the data byte is dropped.\<close>

definition ignore_m :: "('d, 'a, 'e) st \<Rightarrow> ('d, unit, 'e) st" where
  "ignore_m m d = (case m d of (Panic, d') \<Rightarrow> (Panic, d') | (NoFuel, d') \<Rightarrow> (NoFuel, d') | (_, d') \<Rightarrow> (Ok (), d'))"

definition keyboard_command_data :: "'d ps2_ports \<Rightarrow> u8 \<Rightarrow> u8 \<Rightarrow> ('d, u8, ps2_error) st" where
  "keyboard_command_data E c data = retry 4 (
     bind_m (keyboard_command_inner E c) (\<lambda>res.
     if res \<noteq> 0xFA then return_m res else bind_m (ignore_m (ps2_write E data)) (\<lambda>_. ps2_read E)))"

definition mouse_command_inner :: "'d ps2_ports \<Rightarrow> u8 \<Rightarrow> ('d, u8, ps2_error) st" where
  "mouse_command_inner E c =
     bind_m (ps2_command E WriteSecond) (\<lambda>_. bind_m (ps2_write E c) (\<lambda>_. bind_m (ps2_read E) check_resend))"

definition mouse_command :: "'d ps2_ports \<Rightarrow> mouse_cmd \<Rightarrow> ('d, u8, ps2_error) st" where
  "mouse_command E c = retry 4 (mouse_command_inner E (mouse_code c))"

definition mouse_command_data :: "'d ps2_ports \<Rightarrow> mouse_cmd_data \<Rightarrow> u8 \<Rightarrow> ('d, u8, ps2_error) st" where
  "mouse_command_data E c data = retry 4 (
     bind_m (mouse_command_inner E (mouse_data_code c)) (\<lambda>res.
     if res \<noteq> 0xFA then return_m res
     else bind_m (ps2_command E WriteSecond) (\<lambda>_. bind_m (ps2_write E data) (\<lambda>_. ps2_read E))))"

definition ps2_next :: "'d ps2_ports \<Rightarrow> 'd \<Rightarrow> (bool \<times> u8) option \<times> 'd" where
  "ps2_next E d = (case pp_status E d of (s, d1) \<Rightarrow>
     if bit s output_full then (case pp_data E d1 of (b, d2) \<Rightarrow> (Some (\<not> bit s second_output_full, b), d2))
     else (None, d1))"

subsection \<open>Start\<close>

definition init_keyboard :: "'d ps2_ports \<Rightarrow> ('d, unit, ps2_error) st" where
  "init_keyboard E =
     bind_m (ps2_command E EnableFirst) (\<lambda>_.
     bind_m (flush_read E) (\<lambda>_.
     bind_m (keyboard_command E KbdReset) (\<lambda>b.
     bind_m (if b = 0xFA then ignore_m (ps2_read E) else return_m ()) (\<lambda>_.
     bind_m (flush_read E) (\<lambda>_.
     bind_m (retry 4 (
       bind_m (flush_read E) (\<lambda>_.
       bind_m (keyboard_command E KbdSetDefaultsDisable) (\<lambda>b.
       if b \<noteq> 0xFA then fail_m CommandRetry else bind_m (flush_read E) (\<lambda>_. return_m b))))) (\<lambda>_.
     bind_m (keyboard_command_data E scancode_set 2) (\<lambda>_.
     flush_read E)))))))"

definition mouse_reset :: "'d ps2_ports \<Rightarrow> ('d, u8, ps2_error) st" where
  "mouse_reset E =
     bind_m (flush_read E) (\<lambda>_.
     bind_m (mouse_command E MouseReset) (\<lambda>b.
     if b \<noteq> 0xFA then fail_m CommandRetry
     else bind_m (ps2_read E) (\<lambda>b.
       if b \<noteq> 0xAA then fail_m CommandRetry
       else bind_m (ps2_read E) (\<lambda>b.
         if b \<noteq> 0 then fail_m CommandRetry else bind_m (flush_read E) (\<lambda>_. return_m b)))))"

text \<open>The three sample rates that turn on the extra byte; a wrong answer ends the sequence.\<close>

definition enable_extra :: "'d ps2_ports \<Rightarrow> ('d, unit, ps2_error) st" where
  "enable_extra E =
     bind_m (mouse_command_data E SetSampleRate 200) (\<lambda>a.
     if a \<noteq> 0xFA then return_m ()
     else bind_m (mouse_command_data E SetSampleRate 100) (\<lambda>b.
       if b \<noteq> 0xFA then return_m () else bind_m (mouse_command_data E SetSampleRate 80) (\<lambda>_. return_m ())))"

definition init_mouse :: "'d ps2_ports \<Rightarrow> ('d, bool, ps2_error) st" where
  "init_mouse E =
     bind_m (ps2_command E EnableSecond) (\<lambda>_.
     bind_m (flush_read E) (\<lambda>_.
     bind_m (retry 4 (mouse_reset E)) (\<lambda>_.
     bind_m (mouse_command E MouseSetDefaults) (\<lambda>_.
     bind_m (flush_read E) (\<lambda>_.
     bind_m (enable_extra E) (\<lambda>_.
     bind_m (flush_read E) (\<lambda>_.
     bind_m (mouse_command E GetDeviceId) (\<lambda>b.
     bind_m (if b = 0xFA then bind_m (ps2_read E) (\<lambda>i. return_m (i = 3)) else return_m False) (\<lambda>mouse_extra.
     bind_m (flush_read E) (\<lambda>_.
     bind_m (mouse_command_data E SetResolution 3) (\<lambda>_.
     bind_m (flush_read E) (\<lambda>_.
     bind_m (mouse_command E SetScaling1To1) (\<lambda>_.
     bind_m (flush_read E) (\<lambda>_.
     bind_m (mouse_command_data E SetSampleRate 200) (\<lambda>_.
     bind_m (flush_read E) (\<lambda>_.
     bind_m (mouse_command E StatusRequest) (\<lambda>b.
     bind_m (if b \<noteq> 0xFA then return_m ()
       else bind_m (ps2_read E) (\<lambda>_. bind_m (ps2_read E) (\<lambda>_. bind_m (ps2_read E) (\<lambda>_. return_m ())))) (\<lambda>_.
     return_m mouse_extra))))))))))))))))))"

definition cf_first_interrupt :: u8 where "cf_first_interrupt = 1"
definition cf_second_interrupt :: u8 where "cf_second_interrupt = 2"
definition cf_post_passed :: u8 where "cf_post_passed = 4"
definition cf_first_disabled :: u8 where "cf_first_disabled = 0x10"
definition cf_second_disabled :: u8 where "cf_second_disabled = 0x20"
definition cf_first_translate :: u8 where "cf_first_translate = 0x40"

definition ps2_init :: "'d ps2_ports \<Rightarrow> ('d, bool, ps2_error) st" where
  "ps2_init E =
     bind_m (flush_read E) (\<lambda>_.
     bind_m (ps2_command E DisableFirst) (\<lambda>_.
     bind_m (ps2_command E DisableSecond) (\<lambda>_.
     bind_m (flush_read E) (\<lambda>_.
     let config = cf_post_passed OR cf_first_disabled OR cf_second_disabled
     in bind_m (set_config E config) (\<lambda>_.
        bind_m (flush_read E) (\<lambda>_.
        bind_m (ps2_command E TestController) (\<lambda>_.
        bind_m (ps2_read E) (\<lambda>t.
        if t \<noteq> 0x55 then panic_m
        else bind_m (flush_read E) (\<lambda>_.
          bind_m (init_keyboard E) (\<lambda>_.
          bind_m (\<lambda>d. case init_mouse E d of
              (Ok extra, d') \<Rightarrow> (Ok (True, extra), d') | (Err _, d') \<Rightarrow> (Ok (False, False), d')
            | (Panic, d') \<Rightarrow> (Panic, d') | (NoFuel, d') \<Rightarrow> (NoFuel, d')) (\<lambda>(mouse_found, mouse_extra).
          bind_m (keyboard_command_inner E (keyboard_code KbdEnableReporting)) (\<lambda>_.
          bind_m (if mouse_found then bind_m (mouse_command_inner E (mouse_code MouseEnableReporting)) (\<lambda>_. return_m ())
            else return_m ()) (\<lambda>_.
          let config = config AND NOT cf_first_disabled OR cf_first_translate OR cf_first_interrupt;
              config = (if mouse_found then config AND NOT cf_second_disabled OR cf_second_interrupt
                else (config OR cf_second_disabled) AND NOT cf_second_interrupt)
          in bind_m (set_config E config) (\<lambda>_.
             bind_m (flush_read E) (\<lambda>_. return_m mouse_extra)))))))))))))))"

subsection \<open>A conforming machine\<close>

text \<open>
  The controller of a PC with a keyboard and, when \<open>pc_mouse\<close> is given, a mouse, with or without a wheel. What the devices
  send waits in \<open>pc_out\<close>. A byte written to the data port goes to the configuration, the mouse or the keyboard as the last command
  says; a device acknowledges every byte with \<open>FA\<close> and sends what the command asks for.
\<close>

datatype pc_target = ToKeyboard | ToMouse | ToConfig

record pc =
  pc_out :: bytes
  pc_config :: u8
  pc_target :: pc_target
  pc_mouse :: "bool option"

definition keyboard_answer :: "u8 \<Rightarrow> bytes" where
  "keyboard_answer b = (if b = 0xFF then [0xFA, 0xAA] else [0xFA])"

definition mouse_answer :: "bool \<Rightarrow> u8 \<Rightarrow> bytes" where
  "mouse_answer wheel b = (if b = 0xFF then [0xFA, 0xAA, 0] else if b = 0xF2 then [0xFA, if wheel then 3 else 0]
     else if b = 0xE9 then [0xFA, 0, 2, 200] else [0xFA])"

definition pc_data :: "u8 \<Rightarrow> pc \<Rightarrow> pc" where
  "pc_data b m = (case pc_target m of
      ToConfig \<Rightarrow> m\<lparr>pc_config := b, pc_target := ToKeyboard\<rparr>
    | ToMouse \<Rightarrow> m\<lparr>pc_out := pc_out m @ (case pc_mouse m of None \<Rightarrow> [] | Some wheel \<Rightarrow> mouse_answer wheel b),
        pc_target := ToKeyboard\<rparr>
    | ToKeyboard \<Rightarrow> m\<lparr>pc_out := pc_out m @ keyboard_answer b\<rparr>)"

definition pc_command :: "u8 \<Rightarrow> pc \<Rightarrow> pc" where
  "pc_command c m = (if c = 0x60 then m\<lparr>pc_target := ToConfig\<rparr> else if c = 0xD4 then m\<lparr>pc_target := ToMouse\<rparr>
     else if c = 0xAA then m\<lparr>pc_out := pc_out m @ [0x55]\<rparr>
     else if c = 0x20 then m\<lparr>pc_out := pc_out m @ [pc_config m]\<rparr> else m)"

definition pc_ports :: "pc ps2_ports" where
  "pc_ports = \<lparr>pp_status = (\<lambda>m. (bool_word (pc_out m \<noteq> []), m)),
     pp_data = (\<lambda>m. case pc_out m of [] \<Rightarrow> (0, m) | b # bs \<Rightarrow> (b, m\<lparr>pc_out := bs\<rparr>)),
     pp_set_data = pc_data, pp_set_command = pc_command\<rparr>"

lemma pc_write: "ps2_write pc_ports b m = (Ok (), pc_data b m)"
  and pc_ps2_command: "ps2_command pc_ports c m = (Ok (), pc_command (command_code c) m)"
proof -
  have "0 < n \<Longrightarrow> wait_write_loop pc_ports n m = (Ok (), m)" for n
    by (cases n) (simp_all add: pc_ports_def input_full_def)
  then have "wait_write pc_ports m = (Ok (), m)" by (simp add: wait_write_def)
  then show "ps2_write pc_ports b m = (Ok (), pc_data b m)" "ps2_command pc_ports c m = (Ok (), pc_command (command_code c) m)"
    by (simp_all add: ps2_write_def ps2_command_def bind_m_def) (simp_all add: pc_ports_def)
qed

lemma pc_read:
  "ps2_read pc_ports m = (case pc_out m of [] \<Rightarrow> (Err ReadTimeout, m) | b # bs \<Rightarrow> (Ok b, m\<lparr>pc_out := bs\<rparr>))"
proof (cases "pc_out m")
  case Nil
  then have "wait_read_loop pc_ports n m = (Err ReadTimeout, m)" for n
    by (induction n) (simp_all add: pc_ports_def output_full_def)
  then show ?thesis by (simp add: ps2_read_def wait_read_def bind_m_def Nil)
next
  case (Cons b bs)
  then have "0 < n \<Longrightarrow> wait_read_loop pc_ports n m = (Ok (), m)" for n
    by (cases n) (simp_all add: pc_ports_def output_full_def)
  then have "wait_read pc_ports m = (Ok (), m)" by (simp add: wait_read_def)
  then show ?thesis by (simp add: ps2_read_def bind_m_def Cons) (simp add: pc_ports_def Cons)
qed

lemma pc_flush: "length (pc_out m) \<le> 100 \<Longrightarrow> flush_read pc_ports m = (Ok (), m\<lparr>pc_out := []\<rparr>)"
proof -
  have "length (pc_out m) \<le> n \<Longrightarrow> flush_loop pc_ports n m = m\<lparr>pc_out := []\<rparr>" for n
  proof (induction n arbitrary: m)
    case (Suc n)
    then show ?case
      using Suc.IH [of "m\<lparr>pc_out := tl (pc_out m)\<rparr>"] Suc.IH [of m]
      by (cases "pc_out m") (simp_all add: pc_ports_def output_full_def)
  qed simp
  then show "length (pc_out m) \<le> 100 \<Longrightarrow> flush_read pc_ports m = (Ok (), m\<lparr>pc_out := []\<rparr>)"
    by (simp add: flush_read_def)
qed

lemma retry_4:
  "retry 4 f d = (case f d of (Err e', d') \<Rightarrow> retry_from 3 e' f d' | (Ok a, d') \<Rightarrow> (Ok a, d')
     | (Panic, d') \<Rightarrow> (Panic, d') | (NoFuel, d') \<Rightarrow> (NoFuel, d'))"
proof -
  have "(4 :: nat) = Suc 3" by simp
  show ?thesis unfolding retry_def \<open>4 = Suc 3\<close> by (simp only: retry_from.simps)
qed

lemma retry_Err: "0 < n \<Longrightarrow> f d = (Err e, d) \<Longrightarrow> retry n f d = (Err e, d)"
proof -
  have "f d = (Err e, d) \<Longrightarrow> retry_from k e f d = (Err e, d)" for k
    by (induction k) (simp_all add: fail_m_def)
  then show "0 < n \<Longrightarrow> f d = (Err e, d) \<Longrightarrow> retry n f d = (Err e, d)"
    by (cases n) (simp_all add: retry_def)
qed


lemmas pc_rules = pc_write pc_ps2_command pc_read pc_flush bind_m_def return_m_def check_resend_def

lemma pc_init_keyboard:
  assumes "pc_out m = []" "pc_target m = ToKeyboard"
  shows "init_keyboard pc_ports m = (Ok (), m)"
  using assms
  by (simp add: init_keyboard_def keyboard_command_def keyboard_command_data_def keyboard_command_inner_def retry_4 pc_rules
      pc_command_def pc_data_def keyboard_answer_def ignore_m_def scancode_set_def)


lemma pc_init_mouse:
  assumes "pc_out m = []" "pc_target m = ToKeyboard" "pc_mouse m = Some wheel"
  shows "init_mouse pc_ports m = (Ok wheel, m)"
  using assms
  by (simp add: init_mouse_def mouse_reset_def enable_extra_def mouse_command_def mouse_command_data_def mouse_command_inner_def
      retry_4 pc_rules pc_command_def pc_data_def mouse_answer_def)

lemma pc_no_mouse:
  assumes m: "pc_out m = []" "pc_target m = ToKeyboard" "pc_mouse m = None"
  shows "init_mouse pc_ports m = (Err ReadTimeout, m)"
proof -
  have same: "m\<lparr>pc_out := []\<rparr> = m" using m(1) by (cases m) simp
  have inner: "mouse_command_inner pc_ports c m = (Err ReadTimeout, m)" for c
    using m by (simp add: mouse_command_inner_def pc_rules pc_command_def pc_data_def)
  have "mouse_command pc_ports c m = (Err ReadTimeout, m)" for c
    unfolding mouse_command_def by (rule retry_Err) (simp_all add: inner)
  then have "mouse_reset pc_ports m = (Err ReadTimeout, m)"
    using m by (simp add: mouse_reset_def bind_m_def pc_flush same)
  then have "retry 4 (mouse_reset pc_ports) m = (Err ReadTimeout, m)"
    by (intro retry_Err) simp_all
  then show ?thesis
    using m by (simp add: init_mouse_def bind_m_def pc_ps2_command pc_command_def pc_flush same)
qed



end
