(* ===== verification/Ps2_Input.thy ===== *)
theory Ps2_Input
  imports Keymaps Ps2_Controller
begin

text \<open>
  The state of \<open>ps2d\<close> (\<open>input/ps2d/src/state.rs\<close>) and the pointer of a virtual machine (\<open>vm.rs\<close>): every byte of the keyboard or the
  mouse changes the state and may send events to the input daemon. The record \<open>ps2_env\<close> has what is not part of the driver: the
  layout, the codes of the keys, the call into the virtual machine monitor and the file of the input daemon, where a failed write is a panic.
\<close>

subsection \<open>State\<close>

record 'd ps2_env =
  pe_char :: "u8 \<Rightarrow> bool \<Rightarrow> nat"
  pe_code :: "orb_key \<Rightarrow> u8"
  pe_vm :: "u32 \<Rightarrow> u32 \<Rightarrow> 'd \<Rightarrow> (u32 \<times> u32 \<times> u32 \<times> u32) \<times> 'd"
  pe_write_event :: "orb_event \<Rightarrow> ('d, unit, errno) st"

record ps2d =
  pd_vmmouse :: bool
  pd_vmmouse_relative :: bool
  pd_extended :: bool
  pd_lshift :: bool
  pd_rshift :: bool
  pd_mouse_x :: i32
  pd_mouse_y :: i32
  pd_left :: bool
  pd_middle :: bool
  pd_right :: bool
  pd_packets :: bytes
  pd_packet_i :: nat
  pd_extra_packet :: bool

definition vm_magic :: u32 where "vm_magic = 0x564D5868"
definition vm_version :: u32 where "vm_version = 0x3442554A"

definition vm_enable :: "'d ps2_env \<Rightarrow> bool \<Rightarrow> 'd \<Rightarrow> bool \<times> 'd" where
  "vm_enable E relative d = (case pe_vm E 10 0 d of ((eax, ebx, _, _), d1) \<Rightarrow>
     if ebx \<noteq> vm_magic \<or> eax = 0xFFFFFFFF then (False, d1)
     else case pe_vm E 41 0x45414552 d1 of (_, d2) \<Rightarrow>
       case pe_vm E 40 0 d2 of ((status, _, _, _), d3) \<Rightarrow>
       if status AND 0xFFFF = 0 then (False, d3)
       else case pe_vm E 39 1 d3 of ((version, _, _, _), d4) \<Rightarrow>
         if version \<noteq> vm_version then (False, snd (pe_vm E 41 0xF5 d4))
         else (True, snd (pe_vm E 41 (if relative then 0x4C455252 else 0x53424152) d4)))"

text \<open>The controller and the virtual machine share the state of the machine.\<close>

definition ps2d_new :: "'d ps2_ports \<Rightarrow> 'd ps2_env \<Rightarrow> ('d, ps2d, errno) st" where
  "ps2d_new P E d = (case ps2_init P d of
      (Ok extra_packet, d1) \<Rightarrow> (case vm_enable E False d1 of (vmmouse, d2) \<Rightarrow>
        (Ok \<lparr>pd_vmmouse = vmmouse, pd_vmmouse_relative = False, pd_extended = False, pd_lshift = False, pd_rshift = False,
           pd_mouse_x = 0, pd_mouse_y = 0, pd_left = False, pd_middle = False, pd_right = False,
           pd_packets = replicate 4 0, pd_packet_i = 0, pd_extra_packet = extra_packet\<rparr>, d2))
    | (NoFuel, d1) \<Rightarrow> (NoFuel, d1) | (_, d1) \<Rightarrow> (Panic, d1))"

definition emit :: "'d ps2_env \<Rightarrow> orb_event \<Rightarrow> (ps2d \<times> 'd, unit, errno) st" where
  "emit E e = (\<lambda>(s, d). case pe_write_event E e d of (Ok _, d') \<Rightarrow> (Ok (), (s, d')) | (_, d') \<Rightarrow> (Panic, (s, d')))"

definition modify_m :: "(ps2d \<Rightarrow> ps2d) \<Rightarrow> (ps2d \<times> 'd, unit, errno) st" where
  "modify_m f = (\<lambda>(s, d). (Ok (), (f s, d)))"

subsection \<open>Keyboard\<close>

definition extended_keys :: "(u8 \<times> scan) list" where
  "extended_keys = [
     (0x20, Raw 0xa0), (0x2e, Raw 0xae), (0x30, Raw 0xb0), (0x38, Key ''K_ALT_GR''), (0x47, Key ''K_HOME''),
     (0x48, Key ''K_UP''), (0x49, Key ''K_PGUP''), (0x4b, Key ''K_LEFT''), (0x4d, Key ''K_RIGHT''), (0x4f, Key ''K_END''),
     (0x50, Key ''K_DOWN''), (0x51, Key ''K_PGDN''), (0x53, Key ''K_DEL''), (0x5b, Raw 0x5b)]"

definition plain_keys :: "(u8 \<times> scan) list" where
  "plain_keys = [
     (0x1, Key ''K_ESC''), (0x2, Key ''K_1''), (0x3, Key ''K_2''), (0x4, Key ''K_3''), (0x5, Key ''K_4''), (0x6, Key ''K_5''),
     (0x7, Key ''K_6''), (0x8, Key ''K_7''), (0x9, Key ''K_8''), (0xa, Key ''K_9''), (0xb, Key ''K_0''), (0xc, Key ''K_MINUS''),
     (0xd, Key ''K_EQUALS''), (0xe, Key ''K_BKSP''), (0xf, Key ''K_TAB''), (0x10, Key ''K_Q''), (0x11, Key ''K_W''),
     (0x12, Key ''K_E''), (0x13, Key ''K_R''), (0x14, Key ''K_T''), (0x15, Key ''K_Y''), (0x16, Key ''K_U''), (0x17, Key ''K_I''),
     (0x18, Key ''K_O''), (0x19, Key ''K_P''), (0x1a, Key ''K_BRACE_OPEN''), (0x1b, Key ''K_BRACE_CLOSE''),
     (0x1c, Key ''K_ENTER''), (0x1d, Key ''K_CTRL''), (0x1e, Key ''K_A''), (0x1f, Key ''K_S''), (0x20, Key ''K_D''),
     (0x21, Key ''K_F''), (0x22, Key ''K_G''), (0x23, Key ''K_H''), (0x24, Key ''K_J''), (0x25, Key ''K_K''), (0x26, Key ''K_L''),
     (0x27, Key ''K_SEMICOLON''), (0x28, Key ''K_QUOTE''), (0x29, Key ''K_TICK''), (0x2a, Key ''K_LEFT_SHIFT''),
     (0x2b, Key ''K_BACKSLASH''), (0x2c, Key ''K_Z''), (0x2d, Key ''K_X''), (0x2e, Key ''K_C''), (0x2f, Key ''K_V''),
     (0x30, Key ''K_B''), (0x31, Key ''K_N''), (0x32, Key ''K_M''), (0x33, Key ''K_COMMA''), (0x34, Key ''K_PERIOD''),
     (0x35, Key ''K_SLASH''), (0x36, Key ''K_RIGHT_SHIFT''), (0x38, Key ''K_ALT''), (0x39, Key ''K_SPACE''),
     (0x3a, Key ''K_CAPS''), (0x3b, Key ''K_F1''), (0x3c, Key ''K_F2''), (0x3d, Key ''K_F3''), (0x3e, Key ''K_F4''),
     (0x3f, Key ''K_F5''), (0x40, Key ''K_F6''), (0x41, Key ''K_F7''), (0x42, Key ''K_F8''), (0x43, Key ''K_F9''),
     (0x44, Key ''K_F10''), (0x47, Key ''K_NUM_7''), (0x48, Key ''K_NUM_8''), (0x49, Key ''K_NUM_9''), (0x4b, Key ''K_NUM_4''),
     (0x4c, Key ''K_NUM_5''), (0x4d, Key ''K_NUM_6''), (0x4f, Key ''K_NUM_1''), (0x50, Key ''K_NUM_2''), (0x51, Key ''K_NUM_3''),
     (0x52, Key ''K_NUM_0''), (0x57, Key ''K_F11''), (0x58, Key ''K_F12'')]"

definition lookup_scan :: "(u8 \<times> scan) list \<Rightarrow> u8 \<Rightarrow> scan" where
  "lookup_scan t c = (case map_of t c of Some k \<Rightarrow> k | None \<Rightarrow> Raw 0)"

definition handle_key :: "'d ps2_env \<Rightarrow> u8 \<Rightarrow> (ps2d \<times> 'd, unit, errno) st" where
  "handle_key E data = (\<lambda>(s, d).
     if data = 0xE0 then (Ok (), (s\<lparr>pd_extended := True\<rparr>, d))
     else let (ps2_scancode, pressed) = (if 0x80 \<le> data then (data - 0x80, False) else (data, True));
              scancode = scan_code (pe_code E) (lookup_scan (if pd_extended s then extended_keys else plain_keys) ps2_scancode);
              s1 = s\<lparr>pd_extended := False\<rparr>;
              s2 = (if scancode = pe_code E ''K_LEFT_SHIFT'' then s1\<lparr>pd_lshift := pressed\<rparr>
                else if scancode = pe_code E ''K_RIGHT_SHIFT'' then s1\<lparr>pd_rshift := pressed\<rparr> else s1)
          in if scancode \<noteq> 0
             then emit E (KeyEvent (pe_char E ps2_scancode (pd_lshift s2 \<or> pd_rshift s2)) scancode pressed) (s2, d)
             else (Ok (), (s2, d)))"

subsection \<open>Pointer of a virtual machine\<close>

definition emit_buttons :: "'d ps2_env \<Rightarrow> bool \<Rightarrow> bool \<Rightarrow> bool \<Rightarrow> (ps2d \<times> 'd, unit, errno) st" where
  "emit_buttons E left middle right = (\<lambda>(s, d).
     if left \<noteq> pd_left s \<or> middle \<noteq> pd_middle s \<or> right \<noteq> pd_right s
     then emit E (ButtonEvent left middle right) (s\<lparr>pd_left := left, pd_middle := middle, pd_right := right\<rparr>, d)
     else (Ok (), (s, d)))"

definition vm_packet :: "'d ps2_env \<Rightarrow> u32 \<Rightarrow> u32 \<Rightarrow> u32 \<Rightarrow> u32 \<Rightarrow> (ps2d \<times> 'd, unit, errno) st" where
  "vm_packet E status dx dy dz =
     bind_m (\<lambda>(s, d).
       if pd_vmmouse_relative s then
         if dx \<noteq> 0 \<or> dy \<noteq> 0 then emit E (MouseRelativeEvent dx dy) (s, d) else (Ok (), (s, d))
       else if dx \<noteq> pd_mouse_x s \<or> dy \<noteq> pd_mouse_y s
         then emit E (MouseEvent dx dy) (s\<lparr>pd_mouse_x := dx, pd_mouse_y := dy\<rparr>, d) else (Ok (), (s, d))) (\<lambda>_.
     bind_m (if dz \<noteq> 0 then emit E (ScrollEvent 0 (- dz)) else return_m ()) (\<lambda>_.
     emit_buttons E (status AND 0x20 = 0x20) (status AND 0x08 = 0x08) (status AND 0x10 = 0x10)))"

primrec vm_packets :: "nat \<Rightarrow> 'd ps2_env \<Rightarrow> (ps2d \<times> 'd, unit, errno) st" where
  "vm_packets 0 E = return_m ()"
| "vm_packets (Suc n) E = (\<lambda>(s, d). case pe_vm E 40 0 d of ((status, _, _, _), d1) \<Rightarrow>
     let queue_length = status AND 0xFFFF
     in if queue_length = 0 \<or> queue_length mod 4 \<noteq> 0 then (Ok (), (s, d1))
        else case pe_vm E 39 4 d1 of ((status, dx, dy, dz), d2) \<Rightarrow>
          bind_m (vm_packet E status dx dy dz) (\<lambda>_. vm_packets n E) (s, d2))"

subsection \<open>Mouse\<close>

definition packet_dx :: "bytes \<Rightarrow> i32" where
  "packet_dx p = ucast (p ! 1) - (if bit (p ! 0) 4 then 0x100 else 0)"

definition packet_dy :: "bytes \<Rightarrow> i32" where
  "packet_dy p = - ucast (p ! 2) + (if bit (p ! 0) 5 then 0x100 else 0)"

definition packet_dz :: "bool \<Rightarrow> bytes \<Rightarrow> i32" where
  "packet_dz extra p = (if extra
     then let scroll = p ! 3 AND 0xF; scroll = (if scroll AND 8 = 8 then scroll - 16 else scroll) in scast (- scroll)
     else 0)"

definition mouse_packet :: "'d ps2_env \<Rightarrow> bool \<Rightarrow> bytes \<Rightarrow> (ps2d \<times> 'd, unit, errno) st" where
  "mouse_packet E extra p =
     (if \<not> bit (p ! 0) 6 \<and> \<not> bit (p ! 0) 7 then
        let dx = packet_dx p; dy = packet_dy p; dz = packet_dz extra p
        in bind_m (if dx \<noteq> 0 \<or> dy \<noteq> 0 then emit E (MouseRelativeEvent dx dy) else return_m ()) (\<lambda>_.
           bind_m (if dz \<noteq> 0 then emit E (ScrollEvent 0 dz) else return_m ()) (\<lambda>_.
           emit_buttons E (bit (p ! 0) 0) (bit (p ! 0) 2) (bit (p ! 0) 1)))
      else return_m ())"

definition reset_packet :: "ps2d \<Rightarrow> ps2d" where
  "reset_packet s = s\<lparr>pd_packets := replicate 4 0, pd_packet_i := 0\<rparr>"

definition handle_mouse :: "'d ps2_env \<Rightarrow> u8 \<Rightarrow> (ps2d \<times> 'd, unit, errno) st" where
  "handle_mouse E data = (\<lambda>(s, d).
     if length (pd_packets s) \<le> pd_packet_i s then (Panic, (s, d))
     else let s1 = s\<lparr>pd_packets := (pd_packets s)[pd_packet_i s := data], pd_packet_i := pd_packet_i s + 1\<rparr>
          in if \<not> bit (pd_packets s1 ! 0) 3 then (Ok (), (reset_packet s1, d))
             else if length (pd_packets s1) \<le> pd_packet_i s1 \<or> (\<not> pd_extra_packet s1 \<and> 3 \<le> pd_packet_i s1)
             then bind_m (mouse_packet E (pd_extra_packet s1) (pd_packets s1)) (\<lambda>_. modify_m reset_packet) (s1, d)
             else (Ok (), (s1, d)))"

definition ps2d_handle :: "'d ps2_env \<Rightarrow> bool \<Rightarrow> u8 \<Rightarrow> (ps2d \<times> 'd, unit, errno) st" where
  "ps2d_handle E keyboard data = (\<lambda>(s, d).
     if keyboard then handle_key E data (s, d)
     else if pd_vmmouse s then vm_packets 256 E (s, d)
     else handle_mouse E data (s, d))"

text \<open>The bytes of an interrupt; the loop ends when the controller has no more of them.\<close>

primrec ps2d_irq :: "nat \<Rightarrow> 'd ps2_ports \<Rightarrow> 'd ps2_env \<Rightarrow> (ps2d \<times> 'd, unit, errno) st" where
  "ps2d_irq 0 P E = (\<lambda>s. (NoFuel, s))"
| "ps2d_irq (Suc fuel) P E = (\<lambda>(s, d). case ps2_next P d of
      (None, d') \<Rightarrow> (Ok (), (s, d'))
    | (Some (keyboard, data), d') \<Rightarrow> bind_m (ps2d_handle E keyboard data) (\<lambda>_. ps2d_irq fuel P E) (s, d'))"

text \<open>The bytes that the main loop reads from the file of one device.\<close>

primrec handle_all :: "'d ps2_env \<Rightarrow> bool \<Rightarrow> bytes \<Rightarrow> (ps2d \<times> 'd, unit, errno) st" where
  "handle_all E keyboard [] = return_m ()"
| "handle_all E keyboard (b # bs) = bind_m (ps2d_handle E keyboard b) (\<lambda>_. handle_all E keyboard bs)"

subsection \<open>The stream of the mouse\<close>

text \<open>What a whole stream of bytes of the mouse means: bytes before the start of a packet, which has bit 3, are skipped, and every
  packet takes the following two or three bytes. The movement is a pair of signed 9-bit numbers and the wheel a signed 4-bit number.\<close>

fun frames :: "nat \<Rightarrow> bytes \<Rightarrow> bytes list \<times> bytes" where
  "frames n [] = ([], [])"
| "frames n (b # bs) =
     (if \<not> bit b 3 then frames n bs
      else if length bs < n - 1 then ([], b # bs)
      else case frames n (drop (n - 1) bs) of (fs, rest) \<Rightarrow> ((b # take (n - 1) bs) # fs, rest))"

type_synonym buttons = "bool \<times> bool \<times> bool"

definition frame_buttons :: "buttons \<Rightarrow> bytes \<Rightarrow> buttons" where
  "frame_buttons btn f = (if bit (f ! 0) 6 \<or> bit (f ! 0) 7 then btn else (bit (f ! 0) 0, bit (f ! 0) 2, bit (f ! 0) 1))"

definition frame_events :: "bool \<Rightarrow> buttons \<Rightarrow> bytes \<Rightarrow> orb_event list" where
  "frame_events wheel btn f =
     (let mx = uint (f ! 1) - (if bit (f ! 0) 4 then 256 else 0);
          my = uint (f ! 2) - (if bit (f ! 0) 5 then 256 else 0);
          mz = (if wheel then signed_take_bit 3 (uint (f ! 3)) else 0);
          btn' = frame_buttons btn f
      in if bit (f ! 0) 6 \<or> bit (f ! 0) 7 then []
         else (if mx = 0 \<and> my = 0 then [] else [MouseRelativeEvent (word_of_int mx) (word_of_int (- my))])
           @ (if mz = 0 then [] else [ScrollEvent 0 (word_of_int (- mz))])
           @ (if btn' = btn then [] else [ButtonEvent (fst btn') (fst (snd btn')) (snd (snd btn'))]))"

fun stream_events :: "bool \<Rightarrow> buttons \<Rightarrow> bytes list \<Rightarrow> orb_event list" where
  "stream_events wheel btn [] = []"
| "stream_events wheel btn (f # fs) = frame_events wheel btn f @ stream_events wheel (frame_buttons btn f) fs"

definition logs_events :: "'d ps2_env \<Rightarrow> ('d \<Rightarrow> orb_event list) \<Rightarrow> bool" where
  "logs_events E log = (\<forall>e d. \<exists>d'. pe_write_event E e d = (Ok (), d') \<and> log d' = log d @ [e])"

definition pd_buttons :: "ps2d \<Rightarrow> buttons" where
  "pd_buttons s = (pd_left s, pd_middle s, pd_right s)"

definition frame_size :: "ps2d \<Rightarrow> nat" where
  "frame_size s = (if pd_extra_packet s then 4 else 3)"

definition mouse_after :: "ps2d \<Rightarrow> bytes \<Rightarrow> buttons \<Rightarrow> ps2d" where
  "mouse_after s rest btn = s\<lparr>pd_packets := rest @ replicate (4 - length rest) 0, pd_packet_i := length rest,
     pd_left := fst btn, pd_middle := fst (snd btn), pd_right := snd (snd btn)\<rparr>"

lemma emit_logs:
  assumes "logs_events E log"
  shows "\<exists>d'. emit E e (s, d) = (Ok (), (s, d')) \<and> log d' = log d @ [e]"
proof -
  obtain d' where "pe_write_event E e d = (Ok (), d')" "log d' = log d @ [e]"
    using assms by (auto simp: logs_events_def)
  then show ?thesis by (intro exI [of _ d']) (simp add: emit_def)
qed

lemma and_8: "(x AND 8 = 8) = bit x 3" for x :: u8
proof
  assume "x AND 8 = 8"
  then have "bit (x AND 8) 3" by simp
  then show "bit x 3" by (simp add: bit_and_iff)
next
  assume b: "bit x 3"
  have "x AND 2 ^ 3 = 2 ^ 3"
    by (rule bit_eqI) (use b in \<open>auto simp only: bit_and_iff bit_exp_iff\<close>)
  then show "x AND 8 = 8" by simp
qed

lemma wheel_value: "packet_dz True f = word_of_int (- signed_take_bit 3 (uint (f ! 3)))"
proof -
  define w where "w = f ! 3"
  define s where "s = (if (w AND 0xF) AND 8 = 8 then (w AND 0xF) - 16 else w AND 0xF)"
  define m where "m = signed_take_bit 3 (uint w)"
  have x: "w AND 0xF = take_bit 4 w" by (simp add: take_bit_eq_mask mask_numeral)
  have m1: "m = take_bit 4 (uint w) - 16 * of_bool (bit w 3)"
    by (simp add: m_def signed_take_bit_eq_take_bit_minus bit_uint_iff)
  have "take_bit 4 w = word_of_int (take_bit 4 (uint w))" by (simp add: unsigned_take_bit_eq [symmetric])
  moreover have "bit (take_bit 4 w) 3 = bit w 3" by (simp add: bit_take_bit_iff)
  ultimately have s: "s = word_of_int m" unfolding s_def and_8 x m1 by simp
  have "- 8 \<le> m" "m < 8" unfolding m_def
    using signed_take_bit_int_greater_eq_minus_exp [of 3 "uint w"] signed_take_bit_int_less_exp [of 3 "uint w"] by simp_all
  then have "signed_take_bit 7 (- m) = - m" by (intro signed_take_bit_int_eq_self) simp_all
  moreover have "- s = word_of_int (- m)" by (simp add: s)
  ultimately have "sint (- s) = - m" by (simp only: sint_sbintrunc' len_num0 len_num1 len_bit0 len_bit1) simp
  then have "scast (- s) = (word_of_int (- m) :: i32)" by (metis scast_eq)
  then show ?thesis by (simp add: packet_dz_def w_def [symmetric] s_def m_def Let_def)
qed

lemma no_wheel_value: "packet_dz False f = 0"
  by (simp add: packet_dz_def)

lemma packet_dx_frame: "packet_dx f = word_of_int (uint (f ! 1) - (if bit (f ! 0) 4 then 256 else 0))"
  by (simp add: packet_dx_def)

lemma packet_dy_frame: "packet_dy f = word_of_int (- (uint (f ! 2) - (if bit (f ! 0) 5 then 256 else 0)))"
  by (simp add: packet_dy_def)

lemma small_word_eq_0:
  assumes "\<bar>k\<bar> < 1000"
  shows "(word_of_int k :: i32) = 0 \<longleftrightarrow> k = 0"
proof -
  have "(4294967296::int) dvd k \<Longrightarrow> k = 0"
    using assms zdvd_not_zless [of "\<bar>k\<bar>" 4294967296] by auto
  then show ?thesis by (auto simp add: word_of_int_eq_0_iff)
qed

lemma byte_move_eq_0:
  fixes b :: u8
  shows "(word_of_int (uint b - (if c then 256 else 0)) :: i32) = 0 \<longleftrightarrow> uint b - (if c then 256 else 0) = 0"
    and "(word_of_int (- (uint b - (if c then 256 else 0))) :: i32) = 0 \<longleftrightarrow> uint b - (if c then 256 else 0) = 0"
proof -
  have "0 \<le> uint b" "uint b < 256" using uint_lt2p [of b] by simp_all
  then have m: "\<bar>uint b - (if c then 256 else 0)\<bar> < 1000"
    by (cases c; simp only: if_True if_False; linarith)
  show "(word_of_int (uint b - (if c then 256 else 0)) :: i32) = 0 \<longleftrightarrow> uint b - (if c then 256 else 0) = 0"
    using m by (rule small_word_eq_0)
  show "(word_of_int (- (uint b - (if c then 256 else 0))) :: i32) = 0 \<longleftrightarrow> uint b - (if c then 256 else 0) = 0"
    using small_word_eq_0 [of "- (uint b - (if c then 256 else 0))"] m by linarith
qed

lemma wheel_eq_0: "(word_of_int (- signed_take_bit 3 (k::int)) :: i32) = 0 \<longleftrightarrow> signed_take_bit 3 k = 0"
  using signed_take_bit_int_less_exp [of 3 k] signed_take_bit_int_greater_eq_minus_exp [of 3 k]
  by (subst small_word_eq_0) auto

lemma optional_emit:
  assumes "logs_events E log"
  shows "\<exists>d'. (if c then emit E e else return_m ()) (s, d) = (Ok (), (s, d')) \<and>
    log d' = log d @ (if c then [e] else [])"
  using emit_logs [OF assms, of e s d] by (cases c) (auto simp: return_m_def)

lemma emit_buttons_logs:
  assumes "logs_events E log"
  shows "\<exists>d'. emit_buttons E l m r (s, d) = (Ok (), (s\<lparr>pd_left := l, pd_middle := m, pd_right := r\<rparr>, d')) \<and>
    log d' = log d @ (if (l, m, r) = pd_buttons s then [] else [ButtonEvent l m r])"
  using emit_logs [OF assms, of "ButtonEvent l m r" "s\<lparr>pd_left := l, pd_middle := m, pd_right := r\<rparr>" d]
  by (cases s) (auto simp: emit_buttons_def pd_buttons_def)

definition set_buttons :: "buttons \<Rightarrow> ps2d \<Rightarrow> ps2d" where
  "set_buttons btn s = s\<lparr>pd_left := fst btn, pd_middle := fst (snd btn), pd_right := snd (snd btn)\<rparr>"

lemma mouse_packet_events:
  assumes log: "logs_events E log"
  shows "\<exists>d'. mouse_packet E wheel f (s, d) = (Ok (), (set_buttons (frame_buttons (pd_buttons s) f) s, d')) \<and>
    log d' = log d @ frame_events wheel (pd_buttons s) f"
proof (cases "bit (f ! 0) 6 \<or> bit (f ! 0) 7")
  case True
  then show ?thesis
    by (cases s) (auto simp: mouse_packet_def return_m_def set_buttons_def frame_buttons_def frame_events_def pd_buttons_def)
next
  case False
  define dx dy dz where "dx = packet_dx f" and "dy = packet_dy f" and "dz = packet_dz wheel f"
  obtain d1 where d1: "(if dx \<noteq> 0 \<or> dy \<noteq> 0 then emit E (MouseRelativeEvent dx dy) else return_m ()) (s, d) = (Ok (), (s, d1))"
    "log d1 = log d @ (if dx \<noteq> 0 \<or> dy \<noteq> 0 then [MouseRelativeEvent dx dy] else [])"
    using optional_emit [OF log] by blast
  obtain d2 where d2: "(if dz \<noteq> 0 then emit E (ScrollEvent 0 dz) else return_m ()) (s, d1) = (Ok (), (s, d2))"
    "log d2 = log d1 @ (if dz \<noteq> 0 then [ScrollEvent 0 dz] else [])"
    using optional_emit [OF log] by blast
  obtain d3 where d3: "emit_buttons E (bit (f ! 0) 0) (bit (f ! 0) 2) (bit (f ! 0) 1) (s, d2) =
      (Ok (), (set_buttons (bit (f ! 0) 0, bit (f ! 0) 2, bit (f ! 0) 1) s, d3))"
    "log d3 = log d2 @ (if (bit (f ! 0) 0, bit (f ! 0) 2, bit (f ! 0) 1) = pd_buttons s then []
       else [ButtonEvent (bit (f ! 0) 0) (bit (f ! 0) 2) (bit (f ! 0) 1)])"
    using emit_buttons_logs [OF log, of "bit (f ! 0) 0" "bit (f ! 0) 2" "bit (f ! 0) 1" s d2]
    unfolding set_buttons_def fst_conv snd_conv by blast
  have run: "mouse_packet E wheel f (s, d) = (Ok (), (set_buttons (frame_buttons (pd_buttons s) f) s, d3))"
    unfolding mouse_packet_def frame_buttons_def Let_def dx_def [symmetric] dy_def [symmetric] dz_def [symmetric]
      de_Morgan_disj [symmetric] if_not_P [OF False] if_P [OF False]
    by (simp only: bind_m_def d1(1) d2(1) d3(1) prod.case res.case)
  define mx my mz where "mx = uint (f ! 1) - (if bit (f ! 0) 4 then 256 else 0)"
    and "my = uint (f ! 2) - (if bit (f ! 0) 5 then 256 else 0)"
    and "mz = (if wheel then signed_take_bit 3 (uint (f ! 3)) else 0)"
  have mv: "dx = word_of_int mx" "dy = word_of_int (- my)" "dz = word_of_int (- mz)"
    unfolding dx_def dy_def dz_def mx_def my_def mz_def packet_dx_frame packet_dy_frame
    by (rule refl, rule refl, cases wheel) (simp_all only: if_True if_False wheel_value no_wheel_value minus_zero of_int_0 refl)
  have z: "dx = 0 \<longleftrightarrow> mx = 0" "dy = 0 \<longleftrightarrow> my = 0" "dz = 0 \<longleftrightarrow> mz = 0"
    unfolding mv mx_def my_def mz_def by (rule byte_move_eq_0)+ (cases wheel; simp only: if_True if_False wheel_eq_0; simp)
  have "frame_events wheel (pd_buttons s) f =
      (if mx = 0 \<and> my = 0 then [] else [MouseRelativeEvent dx dy]) @ (if mz = 0 then [] else [ScrollEvent 0 dz]) @
      (if (bit (f ! 0) 0, bit (f ! 0) 2, bit (f ! 0) 1) = pd_buttons s then []
       else [ButtonEvent (bit (f ! 0) 0) (bit (f ! 0) 2) (bit (f ! 0) 1)])"
    unfolding frame_events_def Let_def mx_def [symmetric] my_def [symmetric] mz_def [symmetric] mv [symmetric]
    using False by (simp only: frame_buttons_def if_False fst_conv snd_conv)
  then have "log d3 = log d @ frame_events wheel (pd_buttons s) f"
    unfolding d3(2) d2(2) d1(2) z by (cases "mx = 0"; cases "my = 0"; cases "mz = 0"; simp only: simp_thms if_True if_False append_assoc append_Nil append_Nil2)
  with run show ?thesis by blast
qed

lemma frame_padding:
  assumes "length f = (if wheel then 4 else 3)"
  shows "frame_events wheel btn (f @ pad) = frame_events wheel btn f" "frame_buttons btn (f @ pad) = frame_buttons btn f"
proof -
  have n: "(f @ pad) ! 0 = f ! 0" "(f @ pad) ! 1 = f ! 1" "(f @ pad) ! 2 = f ! 2" "wheel \<Longrightarrow> (f @ pad) ! 3 = f ! 3"
    using assms by (auto simp: nth_append split: if_splits)
  show "frame_events wheel btn (f @ pad) = frame_events wheel btn f" "frame_buttons btn (f @ pad) = frame_buttons btn f"
    using n(4) by (cases wheel; simp only: frame_events_def frame_buttons_def n simp_thms if_False)+
qed

text \<open>Between two bytes the state holds the beginning of a packet, which starts with bit 3, and zeros after it.\<close>

definition mouse_at :: "bytes \<Rightarrow> ps2d \<Rightarrow> bool" where
  "mouse_at r s = (pd_packets s = r @ replicate (4 - length r) 0 \<and> pd_packet_i s = length r \<and> length r < frame_size s \<and>
     (r \<noteq> [] \<longrightarrow> bit (hd r) 3) \<and> \<not> pd_vmmouse s)"

definition with_packet :: "bytes \<Rightarrow> ps2d \<Rightarrow> ps2d" where
  "with_packet r s = s\<lparr>pd_packets := r @ replicate (4 - length r) 0, pd_packet_i := length r\<rparr>"

lemma with_packet_at: "mouse_at r s \<Longrightarrow> with_packet r s = s"
  by (cases s) (simp add: mouse_at_def with_packet_def)

lemma with_packet_facts [simp]:
  "with_packet q (with_packet r s) = with_packet q s" "frame_size (with_packet r s) = frame_size s"
  "pd_buttons (with_packet r s) = pd_buttons s" "pd_vmmouse (with_packet r s) = pd_vmmouse s"
  "pd_extra_packet (with_packet r s) = pd_extra_packet s"
  by (simp_all add: with_packet_def frame_size_def pd_buttons_def)

lemma store_byte:
  assumes "mouse_at r s"
  shows "s\<lparr>pd_packets := (pd_packets s)[pd_packet_i s := b], pd_packet_i := pd_packet_i s + 1\<rparr> = with_packet (r @ [b]) s"
proof -
  have "length r < 4" using assms by (simp add: mouse_at_def frame_size_def split: if_splits)
  then obtain k where "4 - length r = Suc k" "4 - length (r @ [b]) = k" by (cases "4 - length r") auto
  then show ?thesis using assms by (simp add: mouse_at_def with_packet_def list_update_append)
qed

lemma mouse_byte_skipped:
  assumes "mouse_at [] s" and "\<not> bit b 3"
  shows "handle_mouse E b (s, d) = (Ok (), (s, d))"
  using assms store_byte [OF assms(1), of b]
  by (cases s) (simp add: handle_mouse_def mouse_at_def reset_packet_def with_packet_def)

lemma packet_start: "(r @ b # zs) ! 0 = (if r = [] then b else hd r)"
  by (cases r) simp_all

lemma mouse_byte_kept:
  assumes r: "mouse_at r s" and b: "r = [] \<Longrightarrow> bit b 3" and n: "Suc (length r) < frame_size s"
  shows "handle_mouse E b (s, d) = (Ok (), (with_packet (r @ [b]) s, d))" "mouse_at (r @ [b]) (with_packet (r @ [b]) s)"
proof -
  have "bit (if r = [] then b else hd r) 3" using r b by (simp add: mouse_at_def)
  then show "handle_mouse E b (s, d) = (Ok (), (with_packet (r @ [b]) s, d))"
    unfolding handle_mouse_def prod.case store_byte [OF r] Let_def using n r
    by (auto simp: with_packet_def packet_start mouse_at_def frame_size_def split: if_splits)
  show "mouse_at (r @ [b]) (with_packet (r @ [b]) s)"
    using r b n by (cases r) (auto simp: mouse_at_def with_packet_def frame_size_def)
qed

lemma mouse_byte_completes:
  assumes log: "logs_events E log"
    and r: "mouse_at r s" and b: "r = [] \<Longrightarrow> bit b 3" and n: "Suc (length r) = frame_size s"
  shows "\<exists>d'. handle_mouse E b (s, d) = (Ok (), (with_packet [] (set_buttons (frame_buttons (pd_buttons s) (r @ [b])) s), d')) \<and>
    log d' = log d @ frame_events (pd_extra_packet s) (pd_buttons s) (r @ [b])"
proof -
  define s1 where "s1 = with_packet (r @ [b]) s"
  define p where "p = (r @ [b]) @ replicate (4 - length (r @ [b])) 0"
  have s1: "pd_packets s1 = p" "pd_packet_i s1 = frame_size s" "pd_extra_packet s1 = pd_extra_packet s" "pd_buttons s1 = pd_buttons s"
    using n by (simp_all add: s1_def p_def with_packet_def pd_buttons_def)
  have len: "length p = 4" using n by (simp add: p_def frame_size_def split: if_splits)
  have on: "bit (p ! 0) 3" using r b by (simp add: p_def packet_start mouse_at_def)
  obtain d' where d': "mouse_packet E (pd_extra_packet s) p (s1, d) = (Ok (), (set_buttons (frame_buttons (pd_buttons s) p) s1, d'))"
    "log d' = log d @ frame_events (pd_extra_packet s) (pd_buttons s) p"
    using mouse_packet_events [OF log, of "pd_extra_packet s" p s1 d] s1(4) by auto
  have pad: "frame_events (pd_extra_packet s) (pd_buttons s) p = frame_events (pd_extra_packet s) (pd_buttons s) (r @ [b])"
    "frame_buttons (pd_buttons s) p = frame_buttons (pd_buttons s) (r @ [b])"
    unfolding p_def by (rule frame_padding, use n in \<open>simp add: frame_size_def\<close>)+
  have i: "\<not> length (pd_packets s) \<le> pd_packet_i s"
    using r by (auto simp: mouse_at_def frame_size_def split: if_splits)
  have full: "length p \<le> frame_size s \<or> (\<not> pd_extra_packet s \<and> 3 \<le> frame_size s)"
    using len by (simp add: frame_size_def)
  have "handle_mouse E b (s, d) = (Ok (), (reset_packet (set_buttons (frame_buttons (pd_buttons s) p) s1), d'))"
    unfolding handle_mouse_def prod.case store_byte [OF r] Let_def s1_def [symmetric] s1 if_not_P [OF i] if_P [OF full]
    using on by (simp add: bind_m_def d'(1) modify_m_def)
  moreover have "reset_packet (set_buttons btn s1) = with_packet [] (set_buttons btn s)" for btn
    by (cases s) (simp add: reset_packet_def set_buttons_def s1_def with_packet_def)
  ultimately show ?thesis using d'(2) by (simp only: pad) blast
qed

lemma frames_step:
  assumes "r \<noteq> [] \<Longrightarrow> bit (hd r) 3" and "r = [] \<Longrightarrow> bit b 3" and "Suc (length r) = n"
  shows "frames n (r @ b # bs) = ((r @ [b]) # fst (frames n bs), snd (frames n bs))"
  using assms by (cases r) (auto split: prod.splits)

lemma frames_short: "bit (hd r) 3 \<Longrightarrow> length r < n \<Longrightarrow> r \<noteq> [] \<Longrightarrow> frames n r = ([], r)"
  by (cases r) auto

definition stream_buttons :: "buttons \<Rightarrow> bytes list \<Rightarrow> buttons" where
  "stream_buttons = foldl frame_buttons"

lemma set_buttons_facts [simp]:
  "frame_size (set_buttons btn s) = frame_size s" "pd_buttons (set_buttons btn s) = btn"
  "pd_extra_packet (set_buttons btn s) = pd_extra_packet s" "set_buttons b2 (set_buttons btn s) = set_buttons b2 s"
  "set_buttons btn (with_packet r s) = with_packet r (set_buttons btn s)" "set_buttons (pd_buttons s) s = s"
  "pd_vmmouse (set_buttons btn s) = pd_vmmouse s"
  by (simp_all add: set_buttons_def frame_size_def pd_buttons_def with_packet_def)

lemma mouse_at_empty: "\<not> pd_vmmouse s \<Longrightarrow> mouse_at [] (with_packet [] s)"
  by (simp add: mouse_at_def with_packet_def frame_size_def)

lemma handle_mouse_byte: "\<not> pd_vmmouse s \<Longrightarrow> ps2d_handle E False b (s, d) = handle_mouse E b (s, d)"
  by (simp add: ps2d_handle_def)

lemma mouse_stream_from:
  assumes log: "logs_events E log"
  shows "mouse_at r s \<Longrightarrow>
    \<exists>d'. handle_all E False bs (s, d) =
        (Ok (), (with_packet (snd (frames (frame_size s) (r @ bs)))
           (set_buttons (stream_buttons (pd_buttons s) (fst (frames (frame_size s) (r @ bs)))) s), d')) \<and>
      log d' = log d @ stream_events (pd_extra_packet s) (pd_buttons s) (fst (frames (frame_size s) (r @ bs)))"
proof (induction bs arbitrary: r s d)
  case Nil
  have "frames (frame_size s) r = ([], r)"
    using Nil by (cases "r = []") (simp_all add: frames_short mouse_at_def)
  then show ?case using Nil by (simp add: return_m_def stream_buttons_def with_packet_at)
next
  case (Cons b bs)
  have vm: "\<not> pd_vmmouse s" using Cons.prems by (simp add: mouse_at_def)
  note run = handle_mouse_byte [OF vm]
  consider (skip) "r = []" "\<not> bit b 3" | (keep) "r = [] \<Longrightarrow> bit b 3" "Suc (length r) < frame_size s"
    | (full) "r = [] \<Longrightarrow> bit b 3" "Suc (length r) = frame_size s"
    using Cons.prems unfolding mouse_at_def by linarith
  then show ?case
  proof cases
    case skip
    then show ?thesis
      using Cons.IH [OF Cons.prems, of d] Cons.prems
      by (simp add: bind_m_def run mouse_byte_skipped)
  next
    case keep
    note step = mouse_byte_kept [OF Cons.prems keep]
    show ?thesis using Cons.IH [OF step(2), of d] by (simp add: bind_m_def run step(1))
  next
    case full
    let ?f = "r @ [b]"
    let ?t = "with_packet [] (set_buttons (frame_buttons (pd_buttons s) ?f) s)"
    obtain d1 where d1: "handle_mouse E b (s, d) = (Ok (), (?t, d1))"
      "log d1 = log d @ frame_events (pd_extra_packet s) (pd_buttons s) ?f"
      using mouse_byte_completes [OF log Cons.prems full] by blast
    have fr: "frames (frame_size s) (r @ b # bs) = (?f # fst (frames (frame_size s) bs), snd (frames (frame_size s) bs))"
      using Cons.prems full by (intro frames_step) (simp_all add: mouse_at_def)
    have "mouse_at [] ?t" using vm by (simp add: mouse_at_empty)
    from Cons.IH [OF this, of d1] show ?thesis
      by (auto simp: bind_m_def run d1 fr stream_buttons_def)
  qed
qed

text \<open>Keyboard and mouse property C33. The state machine for the bytes of the mouse is the parser of the whole stream: whatever
  bytes arrive, in however many reads, they give the events of the packets of the stream, in order, the buttons are those of the last packet
  without overflow, and the state keeps what has arrived of the last packet; bytes that cannot start a packet are skipped.\<close>

theorem mouse_stream_parsed:
  assumes "logs_events E log" and "\<not> pd_vmmouse s" and "pd_packets s = replicate 4 0" and "pd_packet_i s = 0"
  shows "\<exists>d'. handle_all E False bs (s, d) =
      (Ok (), (mouse_after s (snd (frames (frame_size s) bs))
         (stream_buttons (pd_buttons s) (fst (frames (frame_size s) bs))), d')) \<and>
    log d' = log d @ stream_events (pd_extra_packet s) (pd_buttons s) (fst (frames (frame_size s) bs))"
proof -
  have "mouse_at [] s" using assms by (simp add: mouse_at_def frame_size_def)
  moreover have "with_packet q (set_buttons btn s) = mouse_after s q btn" for q btn
    by (cases s) (simp add: with_packet_def set_buttons_def mouse_after_def)
  ultimately show ?thesis using mouse_stream_from [OF assms(1), of "[]" s bs d] by simp
qed

definition sample_env :: "orb_event list ps2_env" where
  "sample_env = \<lparr>pe_char = us_get_char,
     pe_code = (\<lambda>k. if k = ''K_LEFT_SHIFT'' then 0x2A else if k = ''K_RIGHT_SHIFT'' then 0x36 else if k = ''K_A'' then 0x1E else 0),
     pe_vm = (\<lambda>c a d. ((0, 0, 0, 0), d)), pe_write_event = (\<lambda>e d. (Ok (), d @ [e]))\<rparr>"

definition sample_ps2d :: ps2d where
  "sample_ps2d = \<lparr>pd_vmmouse = False, pd_vmmouse_relative = False, pd_extended = False, pd_lshift = False, pd_rshift = False,
     pd_mouse_x = 0, pd_mouse_y = 0, pd_left = False, pd_middle = False, pd_right = False,
     pd_packets = replicate 4 0, pd_packet_i = 0, pd_extra_packet = True\<rparr>"

lemma sample_env_logs: "logs_events sample_env (\<lambda>d. d)"
  by (simp add: logs_events_def sample_env_def)

theorem mouse_stream_parsed_witness:
  "\<exists>d'. handle_all sample_env False [0x00, 0x19, 0xFF, 0x02, 0x0F, 0x08] (sample_ps2d, []) =
      (Ok (), (mouse_after sample_ps2d [0x08] (True, False, False), d')) \<and>
    d' = [MouseRelativeEvent (- 1) (- 2), ScrollEvent 0 1, ButtonEvent True False False]"
proof -
  have f: "frames (frame_size sample_ps2d) [0x00, 0x19, 0xFF, 0x02, 0x0F, 0x08] = ([[0x19, 0xFF, 0x02, 0x0F]], [0x08])"
    by code_simp
  have b: "stream_buttons (pd_buttons sample_ps2d) [[0x19, 0xFF, 0x02, 0x0F]] = (True, False, False)" by code_simp
  have e: "stream_events (pd_extra_packet sample_ps2d) (pd_buttons sample_ps2d) [[0x19, 0xFF, 0x02, 0x0F]] =
      [MouseRelativeEvent (- 1) (- 2), ScrollEvent 0 1, ButtonEvent True False False]" by code_simp
  have p: "\<not> pd_vmmouse sample_ps2d" "pd_packets sample_ps2d = replicate 4 0" "pd_packet_i sample_ps2d = 0"
    by (simp_all add: sample_ps2d_def)
  show ?thesis
    using mouse_stream_parsed [OF sample_env_logs p, of "[0x00, 0x19, 0xFF, 0x02, 0x0F, 0x08]" "[]"]
    unfolding f fst_conv snd_conv b e append_Nil .
qed

subsection \<open>The stream of the keyboard\<close>

text \<open>A stroke is whether the prefix \<open>0xE0\<close> was before it, the code of the key and whether it is pressed.\<close>

type_synonym stroke = "bool \<times> u8 \<times> bool"

fun strokes :: "bool \<Rightarrow> bytes \<Rightarrow> stroke list" where
  "strokes ext [] = []"
| "strokes ext (b # bs) = (if b = 0xE0 then strokes True bs else (ext, take_bit 7 b, \<not> bit b 7) # strokes False bs)"

definition stroke_code :: "'d ps2_env \<Rightarrow> stroke \<Rightarrow> u8" where
  "stroke_code E k = scan_code (pe_code E) (lookup_scan (if fst k then extended_keys else plain_keys) (fst (snd k)))"

text \<open>Whether the key with a code is down after some strokes: what the last stroke of it said.\<close>

definition key_down :: "'d ps2_env \<Rightarrow> u8 \<Rightarrow> stroke list \<Rightarrow> bool" where
  "key_down E c ks = (case filter (\<lambda>k. stroke_code E k = c) (rev ks) of [] \<Rightarrow> False | k # _ \<Rightarrow> snd (snd k))"

definition shift_down :: "'d ps2_env \<Rightarrow> stroke list \<Rightarrow> bool" where
  "shift_down E ks = (key_down E (pe_code E ''K_LEFT_SHIFT'') ks \<or> key_down E (pe_code E ''K_RIGHT_SHIFT'') ks)"

definition stroke_event :: "'d ps2_env \<Rightarrow> stroke list \<Rightarrow> stroke \<Rightarrow> orb_event list" where
  "stroke_event E before k = (if stroke_code E k = 0 then []
     else [KeyEvent (pe_char E (fst (snd k)) (shift_down E (before @ [k]))) (stroke_code E k) (snd (snd k))])"

fun stroke_events :: "'d ps2_env \<Rightarrow> stroke list \<Rightarrow> stroke list \<Rightarrow> orb_event list" where
  "stroke_events E before [] = []"
| "stroke_events E before (k # ks) = stroke_event E before k @ stroke_events E (before @ [k]) ks"

definition keys_after :: "'d ps2_env \<Rightarrow> ps2d \<Rightarrow> stroke list \<Rightarrow> bool \<Rightarrow> ps2d" where
  "keys_after E s ks ext = s\<lparr>pd_extended := ext, pd_lshift := key_down E (pe_code E ''K_LEFT_SHIFT'') ks,
     pd_rshift := key_down E (pe_code E ''K_RIGHT_SHIFT'') ks\<rparr>"

lemma key_down_snoc: "key_down E c (ks @ [k]) = (if stroke_code E k = c then snd (snd k) else key_down E c ks)"
  by (simp add: key_down_def)

lemma release_code: "(0x80 \<le> b) = bit (b::u8) 7" "bit b 7 \<Longrightarrow> b - 0x80 = take_bit 7 b" "\<not> bit b 7 \<Longrightarrow> take_bit 7 b = b"
proof -
  have lt: "unat b < 256" using unsigned_less [of b] by simp
  have bit: "bit b 7 \<longleftrightarrow> 128 \<le> unat b"
  proof -
    have "bit b 7 \<longleftrightarrow> bit (unat b) 7" by (simp add: bit_unsigned_iff)
    then have "bit b 7 \<longleftrightarrow> odd (unat b div 128)" by (simp add: bit_iff_odd)
    moreover have "unat b div 128 = (if 128 \<le> unat b then 1 else 0)" using lt by auto
    ultimately show ?thesis by simp
  qed
  show "(0x80 \<le> b) = bit b 7" by (simp add: bit word_le_nat_alt)
  have tb: "unat (take_bit 7 b) = unat b mod 128" by (simp add: take_bit_eq_mod unat_mod)
  show "\<not> bit b 7 \<Longrightarrow> take_bit 7 b = b" by (simp add: word_unat_eq_iff tb bit)
  show "bit b 7 \<Longrightarrow> b - 0x80 = take_bit 7 b"
  proof -
    assume "bit b 7"
    then have h: "128 \<le> unat b" by (simp add: bit)
    then have "unat (b - 0x80) = unat b - 128" by (subst unat_sub) (simp_all add: word_le_nat_alt)
    also have "\<dots> = unat b mod 128" using h lt by (simp add: mod_if)
    finally show ?thesis by (simp add: word_unat_eq_iff tb)
  qed
qed

definition code_shifts :: "'d ps2_env \<Rightarrow> bool" where
  "code_shifts E = (pe_code E ''K_LEFT_SHIFT'' \<noteq> pe_code E ''K_RIGHT_SHIFT'')"

lemma handle_key_stroke:
  assumes log: "logs_events E log" and sh: "code_shifts E" and b: "b \<noteq> 0xE0"
  shows "\<exists>d'. handle_key E b (keys_after E s ks ext, d) =
      (Ok (), (keys_after E s (ks @ [(ext, take_bit 7 b, \<not> bit b 7)]) False, d')) \<and>
    log d' = log d @ stroke_event E ks (ext, take_bit 7 b, \<not> bit b 7)"
proof -
  define k where "k = (ext, take_bit 7 b, \<not> bit b 7)"
  define c where "c = stroke_code E k"
  let ?t = "keys_after E s (ks @ [k]) False"
  have sp: "(if 0x80 \<le> b then (b - 0x80, False) else (b, True)) = (take_bit 7 b, \<not> bit b 7)"
    using release_code [of b] by (cases "bit b 7") simp_all
  have t: "(if c = pe_code E ''K_LEFT_SHIFT'' then (keys_after E s ks ext)\<lparr>pd_extended := False, pd_lshift := \<not> bit b 7\<rparr>
      else if c = pe_code E ''K_RIGHT_SHIFT'' then (keys_after E s ks ext)\<lparr>pd_extended := False, pd_rshift := \<not> bit b 7\<rparr>
      else (keys_after E s ks ext)\<lparr>pd_extended := False\<rparr>) = ?t"
    using sh by (simp add: keys_after_def key_down_snoc code_shifts_def c_def) (simp add: k_def)
  have sd: "(pd_lshift ?t \<or> pd_rshift ?t) = shift_down E (ks @ [k])" by (simp add: keys_after_def shift_down_def)
  have c': "scan_code (pe_code E) (lookup_scan (if pd_extended (keys_after E s ks ext) then extended_keys else plain_keys) (take_bit 7 b)) = c"
    by (simp add: c_def stroke_code_def k_def keys_after_def)
  have "handle_key E b (keys_after E s ks ext, d) =
      (if c \<noteq> 0 then emit E (KeyEvent (pe_char E (take_bit 7 b) (shift_down E (ks @ [k]))) c (\<not> bit b 7)) (?t, d) else (Ok (), (?t, d)))"
    unfolding handle_key_def prod.case if_not_P [OF b] sp Let_def c' t sd ..
  moreover have "stroke_event E ks k = (if c \<noteq> 0 then [KeyEvent (pe_char E (take_bit 7 b) (shift_down E (ks @ [k]))) c (\<not> bit b 7)] else [])"
    by (simp add: stroke_event_def c_def) (simp add: k_def)
  ultimately show ?thesis
    unfolding k_def [symmetric] using emit_logs [OF log, of _ ?t d] by (cases "c = 0") auto
qed

fun pending_prefix :: "bool \<Rightarrow> bytes \<Rightarrow> bool" where
  "pending_prefix ext [] = ext"
| "pending_prefix ext (b # bs) = pending_prefix (b = 0xE0) bs"

lemma key_stream_from:
  assumes log: "logs_events E log" and sh: "code_shifts E"
  shows "\<exists>d'. handle_all E True bs (keys_after E s ks ext, d) =
      (Ok (), (keys_after E s (ks @ strokes ext bs) (pending_prefix ext bs), d')) \<and>
    log d' = log d @ stroke_events E ks (strokes ext bs)"
proof (induction bs arbitrary: ks ext d)
  case Nil
  then show ?case by (simp add: return_m_def)
next
  case (Cons b bs)
  show ?case
  proof (cases "b = 0xE0")
    case True
    have "ps2d_handle E True b (keys_after E s ks ext, d) = (Ok (), (keys_after E s ks True, d))"
      using True by (simp add: ps2d_handle_def handle_key_def keys_after_def)
    then show ?thesis using Cons.IH [of ks True d] True by (simp add: bind_m_def)
  next
    case False
    let ?k = "(ext, take_bit 7 b, \<not> bit b 7)"
    obtain d1 where d1: "handle_key E b (keys_after E s ks ext, d) = (Ok (), (keys_after E s (ks @ [?k]) False, d1))"
      "log d1 = log d @ stroke_event E ks ?k"
      using handle_key_stroke [OF log sh False] by blast
    then show ?thesis using Cons.IH [of "ks @ [?k]" False d1] False by (simp add: bind_m_def ps2d_handle_def)
  qed
qed

text \<open>Keyboard and mouse property C34. The state machine for the bytes of the keyboard is the parser of the whole stream: every
  stroke with a known key gives its event once and in order, its character is the one of the layout with shift exactly when the last stroke of
  one of the two shift keys pressed it, and the prefix \<open>0xE0\<close> applies to one stroke.\<close>

theorem key_stream_parsed:
  assumes "logs_events E log" and "pe_code E ''K_LEFT_SHIFT'' \<noteq> pe_code E ''K_RIGHT_SHIFT''"
    and "\<not> pd_lshift s" and "\<not> pd_rshift s"
  shows "\<exists>d'. handle_all E True bs (s, d) =
      (Ok (), (keys_after E s (strokes (pd_extended s) bs) (pending_prefix (pd_extended s) bs), d')) \<and>
    log d' = log d @ stroke_events E [] (strokes (pd_extended s) bs)"
proof -
  have "keys_after E s [] (pd_extended s) = s" using assms(3,4) by (cases s) (simp add: keys_after_def key_down_def)
  then show ?thesis
    using key_stream_from [OF assms(1), of bs s "[]" "pd_extended s" d] assms(2) by (simp add: code_shifts_def)
qed

theorem key_stream_parsed_witness:
  "\<exists>d'. handle_all sample_env True [0x2A, 0x1E, 0x9E, 0xAA, 0x1E, 0xE0] (sample_ps2d, []) =
      (Ok (), (sample_ps2d\<lparr>pd_extended := True\<rparr>, d')) \<and>
    d' = [KeyEvent 0 0x2A True, KeyEvent 65 0x1E True, KeyEvent 65 0x1E False, KeyEvent 0 0x2A False, KeyEvent 97 0x1E True]"
proof -
  have p: "pe_code sample_env ''K_LEFT_SHIFT'' \<noteq> pe_code sample_env ''K_RIGHT_SHIFT''" by (simp add: sample_env_def)
  have s: "\<not> pd_lshift sample_ps2d" "\<not> pd_rshift sample_ps2d" by (simp_all add: sample_ps2d_def)
  have k: "strokes (pd_extended sample_ps2d) [0x2A, 0x1E, 0x9E, 0xAA, 0x1E, 0xE0] =
      [(False, 0x2A, True), (False, 0x1E, True), (False, 0x1E, False), (False, 0x2A, False), (False, 0x1E, True)]"
    "pending_prefix (pd_extended sample_ps2d) [0x2A, 0x1E, 0x9E, 0xAA, 0x1E, 0xE0]" by code_simp+
  have a: "keys_after sample_env sample_ps2d
      [(False, 0x2A, True), (False, 0x1E, True), (False, 0x1E, False), (False, 0x2A, False), (False, 0x1E, True)] True =
      sample_ps2d\<lparr>pd_extended := True\<rparr>" by code_simp
  have e: "stroke_events sample_env []
      [(False, 0x2A, True), (False, 0x1E, True), (False, 0x1E, False), (False, 0x2A, False), (False, 0x1E, True)] =
      [KeyEvent 0 0x2A True, KeyEvent 65 0x1E True, KeyEvent 65 0x1E False, KeyEvent 0 0x2A False, KeyEvent 97 0x1E True]"
    by code_simp
  show ?thesis
    using key_stream_parsed [OF sample_env_logs p s, of "[0x2A, 0x1E, 0x9E, 0xAA, 0x1E, 0xE0]" "[]"]
    unfolding k(1) eqTrueI [OF k(2)] a e append_Nil .
qed

text \<open>The keys for the volume come with the prefix and with codes that other keys have without it; the character of their event is the
  one of that other key.\<close>

lemma volume_keys_type_letters:
  assumes "pe_char E = us_get_char" and "c \<in> {0x20, 0x2E, 0x30}" and "stroke_code E (True, c, True) \<noteq> 0"
  shows "\<exists>ch. stroke_event E [] (True, c, True) = [KeyEvent ch (c + 0x80) True] \<and> ch \<in> {100, 99, 98, 68, 67, 66}"
proof -
  have "stroke_code E (True, c, True) = c + 0x80"
    using assms(2) by (auto simp: stroke_code_def lookup_scan_def extended_keys_def)
  moreover have "us_get_char c sh \<in> {100, 99, 98, 68, 67, 66}" for sh
    using assms(2) by (cases sh) (auto simp: us_get_char_def table_char_def us_table_def)
  ultimately show ?thesis using assms by (simp add: stroke_event_def)
qed

end
