(* ===== verification/Hid_Input.thy ===== *)
theory Hid_Input
  imports Ps2_Input Xhci_Client
begin

text \<open>
  The driver of USB keyboards and mice (\<open>input/usbhidd\<close>): the requests of the HID class (\<open>reqs.rs\<close>), the choice of the interface and
  its endpoint, and the loop that turns reports into events for the input daemon (\<open>main.rs\<close>). It works on the files of \<open>Xhci_Client\<close>.
  The parser of report descriptors and reports is the crate \<open>rehid\<close>, a parameter: it gives the events of a report, and its numbers for
  usages are parameters too. A failed write to the input daemon is only logged.
\<close>

subsection \<open>Requests of the class\<close>

definition hid_concat :: "u8 \<Rightarrow> u8 \<Rightarrow> u16" where
  "hid_concat hi lo = push_bit 8 (ucast hi) OR ucast lo"

type_synonym ('h, 'u) hid_call = "('u \<times> bytes, unit, client_error) st"

definition hid_get_report :: "('h, 'u) usb_ops \<Rightarrow> u8 \<Rightarrow> u8 \<Rightarrow> u16 \<Rightarrow> ('h, 'u) hid_call" where
  "hid_get_report U report_ty report_id if_num = (\<lambda>(u, buf).
     usb_device_request U ClassReq Interface 0x1 (hid_concat report_ty report_id) if_num (DataIn (length buf)) (u, buf))"

definition hid_set_report :: "('h, 'u) usb_ops \<Rightarrow> u8 \<Rightarrow> u8 \<Rightarrow> u16 \<Rightarrow> bytes \<Rightarrow> ('h, 'u) hid_call" where
  "hid_set_report U report_ty report_id if_num buffer =
     usb_device_request U ClassReq Interface 0x9 (hid_concat report_id report_ty) if_num (DataOut buffer)"

definition one_byte_request :: "('h, 'u) usb_ops \<Rightarrow> u8 \<Rightarrow> u16 \<Rightarrow> u16 \<Rightarrow> ('u, u8, client_error) st" where
  "one_byte_request U req v if_num = (\<lambda>u. case usb_device_request U ClassReq Interface req v if_num (DataIn 1) (u, [0]) of
      (Ok _, (u', buf)) \<Rightarrow> (Ok (hd buf), u') | (Err e, (u', _)) \<Rightarrow> (Err e, u')
    | (Panic, (u', _)) \<Rightarrow> (Panic, u') | (NoFuel, (u', _)) \<Rightarrow> (NoFuel, u'))"

definition hid_get_idle :: "('h, 'u) usb_ops \<Rightarrow> u8 \<Rightarrow> u16 \<Rightarrow> ('u, u8, client_error) st" where
  "hid_get_idle U report_id if_num = one_byte_request U 0x2 (ucast report_id) if_num"

definition hid_set_idle :: "('h, 'u) usb_ops \<Rightarrow> u8 \<Rightarrow> u8 \<Rightarrow> u16 \<Rightarrow> ('h, 'u) hid_call" where
  "hid_set_idle U duration report_id if_num =
     usb_device_request U ClassReq Interface 0xA (hid_concat duration report_id) if_num NoData"

definition hid_get_protocol :: "('h, 'u) usb_ops \<Rightarrow> u16 \<Rightarrow> ('u, u8, client_error) st" where
  "hid_get_protocol U if_num = one_byte_request U 0x3 0 if_num"

definition hid_set_protocol :: "('h, 'u) usb_ops \<Rightarrow> u8 \<Rightarrow> u16 \<Rightarrow> ('h, 'u) hid_call" where
  "hid_set_protocol U protocol if_num = usb_device_request U ClassReq Interface 0xB (ucast protocol) if_num NoData"

subsection \<open>Interface and endpoint\<close>

text \<open>The searches count the endpoints that they pass; the count is the number of the endpoint.\<close>

fun hid_find_endp :: "nat \<Rightarrow> endp_desc list \<Rightarrow> (nat \<times> endp_desc) option \<times> nat" where
  "hid_find_endp n [] = (None, n)"
| "hid_find_endp n (e # es) = (if endp_ty e = InterruptEp \<and> direction_of e = DirIn then (Some (n + 1, e), n + 1)
     else hid_find_endp (n + 1) es)"

type_synonym hid_choice = "if_desc \<times> (nat \<times> endp_desc) option \<times> hid_desc"

fun hid_find_if :: "u8 \<Rightarrow> nat \<Rightarrow> if_desc list \<Rightarrow> hid_choice option \<times> nat" where
  "hid_find_if num n [] = (None, n)"
| "hid_find_if num n (i # is) = (if if_number i = num
     then case hid_find_endp n (if_endpoints i) of (ep, n') \<Rightarrow>
       (case if_hid_descs i of [] \<Rightarrow> hid_find_if num n' is | h # _ \<Rightarrow> (Some (i, ep, h), n'))
     else hid_find_if num (n + length (if_endpoints i)) is)"

fun hid_find_conf :: "u8 \<Rightarrow> nat \<Rightarrow> nat \<Rightarrow> conf_desc list \<Rightarrow> (conf_desc \<times> nat \<times> hid_choice) option" where
  "hid_find_conf num n k [] = None"
| "hid_find_conf num n k (c # cs) = (case hid_find_if num n (cd_interface_descs c) of
      (Some ch, _) \<Rightarrow> Some (c, k, ch)
    | (None, n') \<Rightarrow> hid_find_conf num n' (k + 1) cs)"

subsection \<open>Events\<close>

record hid_event =
  hev_usage_page :: u16
  hev_usage :: u16
  hev_value :: int
  hev_relative :: bool

record hid_usages =
  hu_desktop :: u16
  hu_keyboard :: u16
  hu_button :: u16
  hu_x :: u16
  hu_y :: u16
  hu_wheel :: u16

record ('u, 'p) hid_env =
  he_code :: "orb_key \<Rightarrow> u8"
  he_usages :: hid_usages
  he_parser :: "bytes \<Rightarrow> 'p option"
  he_report_bytes :: "'p \<Rightarrow> nat"
  he_handle :: "'p \<Rightarrow> bytes \<Rightarrow> hid_event list option \<times> 'p"
  he_report_desc_ty :: u8
  he_input_report :: u8
  he_write_event :: "orb_event \<Rightarrow> ('u, unit, errno) st"

definition display_event :: "('u, 'p) hid_env \<Rightarrow> orb_event \<Rightarrow> 'u \<Rightarrow> 'u" where
  "display_event E e u = snd (he_write_event E e u)"

definition usage_keys :: "(u16 \<times> scan) list" where
  "usage_keys = [
     (0x4, Key ''K_A''), (0x5, Key ''K_B''), (0x6, Key ''K_C''), (0x7, Key ''K_D''), (0x8, Key ''K_E''), (0x9, Key ''K_F''),
     (0xa, Key ''K_G''), (0xb, Key ''K_H''), (0xc, Key ''K_I''), (0xd, Key ''K_J''), (0xe, Key ''K_K''), (0xf, Key ''K_L''),
     (0x10, Key ''K_M''), (0x11, Key ''K_N''), (0x12, Key ''K_O''), (0x13, Key ''K_P''), (0x14, Key ''K_Q''), (0x15, Key ''K_R''),
     (0x16, Key ''K_S''), (0x17, Key ''K_T''), (0x18, Key ''K_U''), (0x19, Key ''K_V''), (0x1a, Key ''K_W''), (0x1b, Key ''K_X''),
     (0x1c, Key ''K_Y''), (0x1d, Key ''K_Z''), (0x1e, Key ''K_1''), (0x1f, Key ''K_2''), (0x20, Key ''K_3''), (0x21, Key ''K_4''),
     (0x22, Key ''K_5''), (0x23, Key ''K_6''), (0x24, Key ''K_7''), (0x25, Key ''K_8''), (0x26, Key ''K_9''), (0x27, Key ''K_0''),
     (0x28, Key ''K_ENTER''), (0x29, Key ''K_ESC''), (0x2a, Key ''K_BKSP''), (0x2b, Key ''K_TAB''), (0x2c, Key ''K_SPACE''),
     (0x2d, Key ''K_MINUS''), (0x2e, Key ''K_EQUALS''), (0x2f, Key ''K_BRACE_OPEN''), (0x30, Key ''K_BRACE_CLOSE''),
     (0x31, Key ''K_BACKSLASH''), (0x33, Key ''K_SEMICOLON''), (0x34, Key ''K_QUOTE''), (0x35, Key ''K_TICK''),
     (0x36, Key ''K_COMMA''), (0x37, Key ''K_PERIOD''), (0x38, Key ''K_SLASH''), (0x39, Key ''K_CAPS''), (0x3a, Key ''K_F1''),
     (0x3b, Key ''K_F2''), (0x3c, Key ''K_F3''), (0x3d, Key ''K_F4''), (0x3e, Key ''K_F5''), (0x3f, Key ''K_F6''),
     (0x40, Key ''K_F7''), (0x41, Key ''K_F8''), (0x42, Key ''K_F9''), (0x43, Key ''K_F10''), (0x44, Key ''K_F11''),
     (0x45, Key ''K_F12''), (0x4a, Key ''K_HOME''), (0x4b, Key ''K_PGUP''), (0x4c, Key ''K_DEL''), (0x4d, Key ''K_END''),
     (0x4e, Key ''K_PGDN''), (0x4f, Key ''K_RIGHT''), (0x50, Key ''K_LEFT''), (0x51, Key ''K_DOWN''), (0x52, Key ''K_UP''),
     (0x59, Key ''K_NUM_1''), (0x5a, Key ''K_NUM_2''), (0x5b, Key ''K_NUM_3''), (0x5c, Key ''K_NUM_4''), (0x5d, Key ''K_NUM_5''),
     (0x5e, Key ''K_NUM_6''), (0x5f, Key ''K_NUM_7''), (0x60, Key ''K_NUM_8''), (0x61, Key ''K_NUM_9''), (0x62, Key ''K_NUM_0''),
     (0xe0, Key ''K_CTRL''), (0xe1, Key ''K_LEFT_SHIFT''), (0xe2, Key ''K_ALT''), (0xe3, Raw 0x5b), (0xe4, Key ''K_CTRL''),
     (0xe5, Key ''K_RIGHT_SHIFT''), (0xe6, Key ''K_ALT_GR'')]"

definition hid_key_event :: "(orb_key \<Rightarrow> u8) \<Rightarrow> u16 \<Rightarrow> u16 \<Rightarrow> bool \<Rightarrow> bool option \<Rightarrow> orb_event option" where
  "hid_key_event kc usage_page usage pressed shift_opt = (if usage_page = 0x07 then
     (case map_of usage_keys usage of
        Some k \<Rightarrow> let scancode = scan_code kc k
                  in Some (KeyEvent (case shift_opt of Some shift \<Rightarrow> hid_get_char scancode shift | None \<Rightarrow> 0) scancode pressed)
      | None \<Rightarrow> None)
     else None)"

definition send_key_event :: "('u, 'p) hid_env \<Rightarrow> u16 \<Rightarrow> u16 \<Rightarrow> bool \<Rightarrow> bool option \<Rightarrow> 'u \<Rightarrow> 'u" where
  "send_key_event E usage_page usage pressed shift_opt u =
     (case hid_key_event (he_code E) usage_page usage pressed shift_opt of Some e \<Rightarrow> display_event E e u | None \<Rightarrow> u)"

record hid_state =
  hs_left_shift :: bool
  hs_right_shift :: bool
  hs_mouse_pos :: "i32 \<times> i32"
  hs_buttons :: "bool list"

record hid_report =
  hr_pos :: "i32 \<times> i32"
  hr_dx :: i32
  hr_dy :: i32
  hr_scroll :: i32
  hr_buttons :: "bool list"

definition desktop_event :: "hid_usages \<Rightarrow> hid_event \<Rightarrow> hid_report \<Rightarrow> hid_report" where
  "desktop_event H e r =
     (if hev_usage e = hu_x H then
        if hev_relative e then r\<lparr>hr_dx := hr_dx r + word_of_int (hev_value e)\<rparr>
        else r\<lparr>hr_pos := (word_of_int (hev_value e), snd (hr_pos r))\<rparr>
      else if hev_usage e = hu_y H then
        if hev_relative e then r\<lparr>hr_dy := hr_dy r + word_of_int (hev_value e)\<rparr>
        else r\<lparr>hr_pos := (fst (hr_pos r), word_of_int (hev_value e))\<rparr>
      else if hev_usage e = hu_wheel H then
        if hev_relative e then r\<lparr>hr_scroll := hr_scroll r + word_of_int (hev_value e)\<rparr> else r
      else r)"

definition keyboard_event :: "('u, 'p) hid_env \<Rightarrow> hid_event \<Rightarrow> hid_state \<times> 'u \<Rightarrow> hid_state \<times> 'u" where
  "keyboard_event E e = (\<lambda>(s, u).
     let (pressed, shift_opt) = (if hev_value e \<noteq> 0 then (True, Some (hs_left_shift s \<or> hs_right_shift s)) else (False, None));
         s1 = (if hev_usage e = 0xE1 then s\<lparr>hs_left_shift := pressed\<rparr>
           else if hev_usage e = 0xE5 then s\<lparr>hs_right_shift := pressed\<rparr> else s)
     in (s1, send_key_event E (hev_usage_page e) (hev_usage e) pressed shift_opt u))"

definition button_event :: "hid_event \<Rightarrow> hid_report \<Rightarrow> hid_report" where
  "button_event e r = (if hev_usage e > 0 \<and> unat (hev_usage e) \<le> length (hr_buttons r)
     then r\<lparr>hr_buttons := (hr_buttons r)[unat (hev_usage e) - 1 := hev_value e \<noteq> 0]\<rparr> else r)"

definition report_event :: "('u, 'p) hid_env \<Rightarrow> hid_event \<Rightarrow> hid_report \<times> hid_state \<times> 'u \<Rightarrow> hid_report \<times> hid_state \<times> 'u" where
  "report_event E e = (\<lambda>(r, su).
     if hev_usage_page e = hu_desktop (he_usages E) then (desktop_event (he_usages E) e r, su)
     else if hev_usage_page e = hu_keyboard (he_usages E) then (r, keyboard_event E e su)
     else if hev_usage_page e = hu_button (he_usages E) then (button_event e r, su)
     else (r, su))"

definition report_start :: "hid_state \<Rightarrow> hid_report" where
  "report_start s = \<lparr>hr_pos = hs_mouse_pos s, hr_dx = 0, hr_dy = 0, hr_scroll = 0, hr_buttons = hs_buttons s\<rparr>"

definition report_end :: "('u, 'p) hid_env \<Rightarrow> hid_report \<times> hid_state \<times> 'u \<Rightarrow> hid_state \<times> 'u" where
  "report_end E = (\<lambda>(r, s, u).
     let (s1, u1) = (if hr_pos r \<noteq> hs_mouse_pos s
           then (s\<lparr>hs_mouse_pos := hr_pos r\<rparr>, display_event E (MouseEvent (fst (hr_pos r) * 2) (snd (hr_pos r) * 2)) u) else (s, u));
         u2 = (if hr_dx r \<noteq> 0 \<or> hr_dy r \<noteq> 0 then display_event E (MouseRelativeEvent (hr_dx r) (hr_dy r)) u1 else u1);
         u3 = (if hr_scroll r \<noteq> 0 then display_event E (ScrollEvent 0 (hr_scroll r)) u2 else u2)
     in if hr_buttons r \<noteq> hs_buttons s1
        then (s1\<lparr>hs_buttons := hr_buttons r\<rparr>,
          display_event E (ButtonEvent (hr_buttons r ! 0) (hr_buttons r ! 2) (hr_buttons r ! 1)) u3)
        else (s1, u3))"

definition handle_report :: "('u, 'p) hid_env \<Rightarrow> hid_event list \<Rightarrow> hid_state \<times> 'u \<Rightarrow> hid_state \<times> 'u" where
  "handle_report E evs = (\<lambda>(s, u). report_end E (fold (report_event E) evs (report_start s, s, u)))"

subsection \<open>The driver\<close>

record ('h, 'p) hid_dev =
  hv_handler :: 'p
  hv_endpoint :: "'h option"
  hv_buffer :: bytes
  hv_interface :: u8
  hv_state :: hid_state

definition hid_state_new :: hid_state where
  "hid_state_new = \<lparr>hs_left_shift = False, hs_right_shift = False, hs_mouse_pos = (0, 0), hs_buttons = [False, False, False]\<rparr>"

text \<open>Every failure of \<open>main\<close> is an \<open>expect\<close>.\<close>

definition expect_m :: "('s, 'a, 'e) st \<Rightarrow> ('s, 'a, errno) st" where
  "expect_m m = (\<lambda>s. case m s of (Ok a, s') \<Rightarrow> (Ok a, s') | (NoFuel, s') \<Rightarrow> (NoFuel, s') | (_, s') \<Rightarrow> (Panic, s'))"

definition on_buffer :: "bytes \<Rightarrow> ('u \<times> bytes, unit, 'e) st \<Rightarrow> ('u, bytes, 'e) st" where
  "on_buffer buf m = (\<lambda>u. case m (u, buf) of (Ok _, (u', b)) \<Rightarrow> (Ok b, u') | (Err e, (u', _)) \<Rightarrow> (Err e, u')
     | (Panic, (u', _)) \<Rightarrow> (Panic, u') | (NoFuel, (u', _)) \<Rightarrow> (NoFuel, u'))"

definition hid_start ::
  "('u, 'p) hid_env \<Rightarrow> 'u client_env \<Rightarrow> client_handle \<Rightarrow> dev_desc \<Rightarrow> u8 \<Rightarrow> ('u, (endp_handle, 'p) hid_dev, errno) st" where
  "hid_start E C h desc interface_num = (case hid_find_conf interface_num 0 0 (dd_config_descs desc) of
      None \<Rightarrow> panic_m
    | Some (conf, conf_num, ifd, endp_opt, hid) \<Rightarrow>
        bind_m (expect_m (on_buffer [] (configure_endpoints C h
          \<lparr>cer_config_desc = of_nat conf_num, cer_interface_desc = Some interface_num,
           cer_alternate_setting = Some (if_alternate_setting ifd)\<rparr>))) (\<lambda>_.
        bind_m (expect_m (on_buffer [] (hid_set_idle (client_usb C h) 1 0 (ucast interface_num)))) (\<lambda>_.
        if hd_desc_ty hid \<noteq> he_report_desc_ty E then panic_m
        else bind_m (expect_m (on_buffer (replicate (unat (hd_desc_len hid)) 0)
            (get_descriptor C h Interface (he_report_desc_ty E) 0 (ucast interface_num)))) (\<lambda>report_desc.
        case he_parser E report_desc of
          None \<Rightarrow> panic_m
        | Some handler \<Rightarrow>
            bind_m (case endp_opt of
                Some (endp_num, _) \<Rightarrow> (\<lambda>u. case open_endpoint C h (of_nat endp_num) u of
                    (Ok ep, u') \<Rightarrow> (Ok (Some ep), u') | (Err _, u') \<Rightarrow> (Ok None, u')
                  | (Panic, u') \<Rightarrow> (Panic, u') | (NoFuel, u') \<Rightarrow> (NoFuel, u'))
              | None \<Rightarrow> return_m None) (\<lambda>endpoint_opt.
            return_m \<lparr>hv_handler = handler, hv_endpoint = endpoint_opt,
              hv_buffer = replicate (case endp_opt of Some (_, ep) \<Rightarrow> unat (ed_max_packet_size ep)
                | None \<Rightarrow> he_report_bytes E handler) 0,
              hv_interface = interface_num, hv_state = hid_state_new\<rparr>)))))"

definition hid_poll :: "('u, 'p) hid_env \<Rightarrow> 'u client_env \<Rightarrow> client_handle \<Rightarrow> (endp_handle, 'p) hid_dev
    \<Rightarrow> ('u, (endp_handle, 'p) hid_dev, errno) st" where
  "hid_poll E C h dev =
     bind_m (expect_m (on_buffer (hv_buffer dev) (case hv_endpoint dev of
         Some ep \<Rightarrow> bind_m (usb_transfer_read (client_usb C h) ep) (\<lambda>_. return_m ())
       | None \<Rightarrow> hid_get_report (client_usb C h) (he_input_report E) 0 (ucast (hv_interface dev))))) (\<lambda>buf.
     case he_handle E (hv_handler dev) buf of
       (None, _) \<Rightarrow> panic_m
     | (Some evs, handler) \<Rightarrow> (\<lambda>u. case handle_report E evs (hv_state dev, u) of
         (s, u') \<Rightarrow> (Ok (dev\<lparr>hv_handler := handler, hv_buffer := buf, hv_state := s\<rparr>), u')))"

primrec hid_polls :: "nat \<Rightarrow> ('u, 'p) hid_env \<Rightarrow> 'u client_env \<Rightarrow> client_handle \<Rightarrow> (endp_handle, 'p) hid_dev
    \<Rightarrow> ('u, (endp_handle, 'p) hid_dev, errno) st" where
  "hid_polls 0 E C h dev = return_m dev"
| "hid_polls (Suc n) E C h dev = bind_m (hid_poll E C h dev) (hid_polls n E C h)"

subsection \<open>The same key on both keyboards\<close>

lemma plain_codes: "map_of plain_keys c = Some k \<Longrightarrow> c \<noteq> 0 \<and> c \<noteq> 0x60 \<and> c < 0x80"
proof -
  assume "map_of plain_keys c = Some k"
  then have "c \<in> fst ` set plain_keys" by (force dest: map_of_SomeD)
  moreover have "list_all (\<lambda>c. c \<noteq> 0 \<and> c \<noteq> 0x60 \<and> c < 0x80) (map fst plain_keys)" by code_simp
  ultimately show ?thesis by (auto simp: list_all_iff)
qed

lemma low_code: "c < 0x80 \<Longrightarrow> take_bit 7 c = c \<and> \<not> bit c 7 \<and> c \<noteq> 0xE0"
  for c :: u8
  using release_code [of c] by (auto simp: not_le [symmetric])

lemma high_code: "c < 0x80 \<Longrightarrow> c + 0x80 \<noteq> 0xE0 \<Longrightarrow> 0x80 \<le> c + 0x80 \<and> c + 0x80 - 0x80 = c"
  for c :: u8
  by (simp add: word_le_nat_alt word_less_nat_alt unat_word_ariths)

lemma ps2_key_pressed:
  assumes log: "logs_events E log" and k: "map_of plain_keys c = Some (Key k)" and code: "pe_code E k = c"
    and sh: "c \<noteq> pe_code E ''K_LEFT_SHIFT''" "c \<noteq> pe_code E ''K_RIGHT_SHIFT''" and s: "\<not> pd_extended s"
  shows "\<exists>d'. handle_key E c (s, d) = (Ok (), (s, d')) \<and>
      log d' = log d @ [KeyEvent (pe_char E c (pd_lshift s \<or> pd_rshift s)) c True]"
    and "\<exists>d'. handle_key E (c + 0x80) (s, d) = (Ok (), (s, d')) \<and>
      log d' = log d @ [KeyEvent (pe_char E c (pd_lshift s \<or> pd_rshift s)) c False]"
proof -
  have c: "c \<noteq> 0" "c < 0x80" using plain_codes [OF k] by simp_all
  have same: "s\<lparr>pd_extended := False\<rparr> = s" using s by (cases s) simp
  have look: "scan_code (pe_code E) (lookup_scan plain_keys c) = c" by (simp add: lookup_scan_def k code)
  show "\<exists>d'. handle_key E c (s, d) = (Ok (), (s, d')) \<and>
      log d' = log d @ [KeyEvent (pe_char E c (pd_lshift s \<or> pd_rshift s)) c True]"
    using emit_logs [OF log, of "KeyEvent (pe_char E c (pd_lshift s \<or> pd_rshift s)) c True" s d] c sh s low_code [OF c(2)] look
    by (auto simp: handle_key_def same not_le [symmetric])
  have "c + 0x80 \<noteq> 0xE0"
  proof
    assume "c + 0x80 = 0xE0"
    then have "c = 0xE0 - 0x80" by (simp only: eq_diff_eq)
    then show False using plain_codes [OF k] by simp
  qed
  then show "\<exists>d'. handle_key E (c + 0x80) (s, d) = (Ok (), (s, d')) \<and>
      log d' = log d @ [KeyEvent (pe_char E c (pd_lshift s \<or> pd_rshift s)) c False]"
    using emit_logs [OF log, of "KeyEvent (pe_char E c (pd_lshift s \<or> pd_rshift s)) c False" s d] c sh s high_code [OF c(2)] look
    by (auto simp: handle_key_def same)
qed



subsection \<open>What a report means\<close>

definition axis_event :: "hid_usages \<Rightarrow> u16 \<Rightarrow> bool \<Rightarrow> hid_event \<Rightarrow> bool" where
  "axis_event H usage rel e = (hev_usage_page e = hu_desktop H \<and> hev_usage e = usage \<and> hev_relative e = rel)"

definition moved :: "hid_usages \<Rightarrow> u16 \<Rightarrow> hid_event list \<Rightarrow> i32" where
  "moved H usage evs = (\<Sum>e\<leftarrow>filter (axis_event H usage True) evs. word_of_int (hev_value e))"

definition last_such :: "(hid_event \<Rightarrow> bool) \<Rightarrow> (hid_event \<Rightarrow> 'a) \<Rightarrow> 'a \<Rightarrow> hid_event list \<Rightarrow> 'a" where
  "last_such P f a evs = (case filter P (rev evs) of [] \<Rightarrow> a | e # _ \<Rightarrow> f e)"

definition placed :: "hid_usages \<Rightarrow> u16 \<Rightarrow> i32 \<Rightarrow> hid_event list \<Rightarrow> i32" where
  "placed H usage = last_such (axis_event H usage False) (\<lambda>e. word_of_int (hev_value e))"

definition button_such :: "hid_usages \<Rightarrow> nat \<Rightarrow> hid_event \<Rightarrow> bool" where
  "button_such H i e = (hev_usage_page e = hu_button H \<and> unat (hev_usage e) = Suc i)"

definition buttons_such :: "hid_usages \<Rightarrow> bool list \<Rightarrow> hid_event list \<Rightarrow> bool list" where
  "buttons_such H bs evs = map (\<lambda>i. last_such (button_such H i) (\<lambda>e. hev_value e \<noteq> 0) (bs ! i) evs) [0..<length bs]"

definition report_summary :: "hid_usages \<Rightarrow> hid_report \<Rightarrow> hid_event list \<Rightarrow> hid_report" where
  "report_summary H r evs = \<lparr>hr_pos = (placed H (hu_x H) (fst (hr_pos r)) evs, placed H (hu_y H) (snd (hr_pos r)) evs),
     hr_dx = hr_dx r + moved H (hu_x H) evs, hr_dy = hr_dy r + moved H (hu_y H) evs,
     hr_scroll = hr_scroll r + moved H (hu_wheel H) evs, hr_buttons = buttons_such H (hr_buttons r) evs\<rparr>"

text \<open>The shift keys and the events of keys: only the events on the page of the keyboard.\<close>

definition report_keys :: "('u, 'p) hid_env \<Rightarrow> hid_event list \<Rightarrow> hid_state \<times> 'u \<Rightarrow> hid_state \<times> 'u" where
  "report_keys E evs = fold (keyboard_event E) (filter (\<lambda>e. hev_usage_page e = hu_keyboard (he_usages E)) evs)"

definition distinct_usages :: "hid_usages \<Rightarrow> bool" where
  "distinct_usages H = (distinct [hu_desktop H, hu_keyboard H, hu_button H] \<and> distinct [hu_x H, hu_y H, hu_wheel H])"

lemma last_such_Cons: "last_such P f a (e # evs) = last_such P f (if P e then f e else a) evs"
  by (cases "filter P (rev evs)") (simp_all add: last_such_def)

lemma last_such_Nil [simp]: "last_such P f a [] = a"
  by (simp add: last_such_def)

lemma moved_Cons: "moved H usage (e # evs) = (if axis_event H usage True e then word_of_int (hev_value e) else 0) + moved H usage evs"
  by (simp add: moved_def)

lemma buttons_such_Nil [simp]: "buttons_such H bs [] = bs"
  by (simp add: buttons_such_def map_nth)

definition button_press :: "hid_usages \<Rightarrow> hid_event \<Rightarrow> bool list \<Rightarrow> bool list" where
  "button_press H e bs = (if hev_usage_page e = hu_button H \<and> 0 < hev_usage e \<and> unat (hev_usage e) \<le> length bs
     then bs[unat (hev_usage e) - 1 := hev_value e \<noteq> 0] else bs)"

lemma buttons_such_Cons: "buttons_such H bs (e # evs) = buttons_such H (button_press H e bs) evs"
proof (rule nth_equalityI)
  fix i assume "i < length (buttons_such H bs (e # evs))"
  then have i: "i < length bs" by (simp add: buttons_such_def)
  have pos: "0 < hev_usage e \<longleftrightarrow> 0 < unat (hev_usage e)" by (simp add: word_less_nat_alt)
  show "buttons_such H bs (e # evs) ! i = buttons_such H (button_press H e bs) evs ! i"
    using i by (cases "unat (hev_usage e)") (auto simp: buttons_such_def last_such_Cons button_such_def button_press_def pos nth_list_update)
qed (simp add: buttons_such_def button_press_def)

lemma button_press_other: "hev_usage_page e \<noteq> hu_button H \<Longrightarrow> button_press H e bs = bs"
  by (simp add: button_press_def)

lemma desktop_summary:
  assumes "distinct_usages H" "hev_usage_page e = hu_desktop H"
  shows "report_summary H (desktop_event H e r) evs = report_summary H r (e # evs)"
  using assms
  by (auto simp: report_summary_def desktop_event_def placed_def last_such_Cons moved_Cons axis_event_def distinct_usages_def
      buttons_such_Cons button_press_other add.assoc)

lemma axis_other:
  assumes "hev_usage_page e \<noteq> hu_desktop H"
  shows "placed H usage a (e # evs) = placed H usage a evs" "moved H usage (e # evs) = moved H usage evs"
  using assms by (simp_all add: placed_def last_such_Cons moved_Cons axis_event_def)

lemma button_event_parts:
  "hr_pos (button_event e r) = hr_pos r" "hr_dx (button_event e r) = hr_dx r" "hr_dy (button_event e r) = hr_dy r"
  "hr_scroll (button_event e r) = hr_scroll r"
  "hev_usage_page e = hu_button H \<Longrightarrow> hr_buttons (button_event e r) = button_press H e (hr_buttons r)"
  by (simp_all add: button_event_def button_press_def)

lemma button_summary:
  assumes "distinct_usages H" "hev_usage_page e = hu_button H"
  shows "report_summary H (button_event e r) evs = report_summary H r (e # evs)"
proof -
  have "hev_usage_page e \<noteq> hu_desktop H" using assms by (auto simp: distinct_usages_def)
  then show ?thesis using assms(2)
    by (simp add: report_summary_def axis_other buttons_such_Cons button_event_parts)
qed

lemma other_summary:
  assumes "hev_usage_page e \<noteq> hu_desktop H" "hev_usage_page e \<noteq> hu_button H"
  shows "report_summary H r (e # evs) = report_summary H r evs"
  using assms by (simp add: report_summary_def axis_other buttons_such_Cons button_press_other)

lemma report_event_simp:
  "report_event E e (r, su) = (if hev_usage_page e = hu_desktop (he_usages E) then (desktop_event (he_usages E) e r, su)
     else if hev_usage_page e = hu_keyboard (he_usages E) then (r, keyboard_event E e su)
     else if hev_usage_page e = hu_button (he_usages E) then (button_event e r, su) else (r, su))"
  by (simp add: report_event_def)

lemma report_keys_Cons: "report_keys E (e # evs) su =
    report_keys E evs (if hev_usage_page e = hu_keyboard (he_usages E) then keyboard_event E e su else su)"
  by (simp add: report_keys_def)

lemma report_events_fold:
  assumes H: "distinct_usages (he_usages E)"
  shows "fold (report_event E) evs (r, su) = (report_summary (he_usages E) r evs, report_keys E evs su)"
proof (induction evs arbitrary: r su)
  case Nil
  then show ?case by (cases r) (simp add: report_summary_def placed_def moved_def report_keys_def)
next
  case (Cons e evs)
  let ?H = "he_usages E"
  consider "hev_usage_page e = hu_desktop ?H" | "hev_usage_page e = hu_keyboard ?H" | "hev_usage_page e = hu_button ?H"
    | "hev_usage_page e \<noteq> hu_desktop ?H" "hev_usage_page e \<noteq> hu_keyboard ?H" "hev_usage_page e \<noteq> hu_button ?H" by blast
  moreover have "hu_desktop ?H \<noteq> hu_keyboard ?H" "hu_desktop ?H \<noteq> hu_button ?H" "hu_keyboard ?H \<noteq> hu_button ?H"
    using H by (simp_all add: distinct_usages_def)
  ultimately show ?case
    by cases (simp_all add: Cons.IH report_event_simp desktop_summary [OF H] button_summary [OF H] other_summary report_keys_Cons)
qed

definition summary_events :: "hid_state \<Rightarrow> hid_report \<Rightarrow> orb_event list" where
  "summary_events s r =
     (if hr_pos r = hs_mouse_pos s then [] else [MouseEvent (fst (hr_pos r) * 2) (snd (hr_pos r) * 2)])
     @ (if hr_dx r = 0 \<and> hr_dy r = 0 then [] else [MouseRelativeEvent (hr_dx r) (hr_dy r)])
     @ (if hr_scroll r = 0 then [] else [ScrollEvent 0 (hr_scroll r)])
     @ (if hr_buttons r = hs_buttons s then [] else [ButtonEvent (hr_buttons r ! 0) (hr_buttons r ! 2) (hr_buttons r ! 1)])"

definition hid_logs :: "('u, 'p) hid_env \<Rightarrow> ('u \<Rightarrow> orb_event list) \<Rightarrow> bool" where
  "hid_logs E log = (\<forall>e u. log (snd (he_write_event E e u)) = log u @ [e])"

lemma report_end_events:
  assumes "hid_logs E log"
  shows "fst (report_end E (r, s, u)) = s\<lparr>hs_mouse_pos := hr_pos r, hs_buttons := hr_buttons r\<rparr>"
    and "log (snd (report_end E (r, s, u))) = log u @ summary_events s r"
  using assms by (cases s; simp add: report_end_def summary_events_def display_event_def hid_logs_def Let_def)+

lemma report_keys_frame:
  "hs_mouse_pos (fst (report_keys E evs (s, u))) = hs_mouse_pos s" "hs_buttons (fst (report_keys E evs (s, u))) = hs_buttons s"
proof -
  have "hs_mouse_pos (fst (fold (keyboard_event E) ks (s, u))) = hs_mouse_pos s \<and>
      hs_buttons (fst (fold (keyboard_event E) ks (s, u))) = hs_buttons s" for ks
    by (induction ks arbitrary: s u) (simp_all add: keyboard_event_def Let_def)
  then show "hs_mouse_pos (fst (report_keys E evs (s, u))) = hs_mouse_pos s" "hs_buttons (fst (report_keys E evs (s, u))) = hs_buttons s"
    by (simp_all add: report_keys_def)
qed


definition sample_hid :: "(orb_event list, unit) hid_env" where
  "sample_hid = \<lparr>he_code = (\<lambda>k. if k = ''K_A'' then 0x1E else 0),
     he_usages = \<lparr>hu_desktop = 1, hu_keyboard = 7, hu_button = 9, hu_x = 0x30, hu_y = 0x31, hu_wheel = 0x38\<rparr>,
     he_parser = Some \<circ> (\<lambda>_. ()), he_report_bytes = (\<lambda>_. 8), he_handle = (\<lambda>p _. (Some [], p)), he_report_desc_ty = 0x22,
     he_input_report = 1, he_write_event = (\<lambda>e u. (Ok (), u @ [e]))\<rparr>"

definition sample_report :: "hid_event list" where
  "sample_report = [\<lparr>hev_usage_page = 1, hev_usage = 0x30, hev_value = 3, hev_relative = True\<rparr>,
     \<lparr>hev_usage_page = 9, hev_usage = 2, hev_value = 1, hev_relative = False\<rparr>,
     \<lparr>hev_usage_page = 7, hev_usage = 4, hev_value = 1, hev_relative = False\<rparr>,
     \<lparr>hev_usage_page = 1, hev_usage = 0x30, hev_value = - 1, hev_relative = True\<rparr>]"


end
