(* ===== verification/Net_Scheme.thy ===== *)
theory Net_Scheme
  imports Scheme_Support "HOL-Library.Sublist" "HOL-Library.Multiset"
begin

text \<open>
  The scheme that all network drivers share (\<open>net/driver-network/src/lib.rs\<close>): the files of a network adapter, and the \<open>tick\<close> that
  retries the requests that wait for a packet, takes the new requests from the socket of the scheme and announces packets.
  The adapter of a driver is a record of the operations of the trait \<open>NetworkAdapter\<close>; the interface \<open>packet_queue\<close> states what the
  scheme relies on. The socket and \<open>handle_scheme_block\<close>, which decodes a request
  and calls the method it asks for, are a library of the system: parameters of the tick, with \<open>calls_methods\<close> as what it documents.
\<close>

subsection \<open>Adapters and requests\<close>

record 'a adapter =
  na_mac_address :: "'a \<Rightarrow> bytes \<times> 'a"
  na_available_for_read :: "'a \<Rightarrow> nat \<times> 'a"
  na_read_packet :: "('a \<times> bytes, nat option, errno) st"
  na_write_packet :: "bytes \<Rightarrow> ('a, nat, errno) st"

datatype net_call =
    NetOpen string u64 u32
  | NetRead nat nat u64 u32
  | NetWrite nat bytes u64 u32
  | NetFevent nat
  | NetFpath nat nat
  | NetFstat nat u16 u64
  | NetFsync nat
  | NetClose nat

datatype net_answer = NetOpened nat u8 | NetCount nat | NetBytes nat bytes | NetStat u16 u64

type_synonym net_reply = "(net_answer, errno) res"

record net_request =
  rq_id :: nat
  rq_call :: net_call

datatype net_event = CallReq net_request | SendFdReq nat | CancelReq nat | MsyncMsg | MunmapMsg | MmapMsg

record 'k socket =
  so_next_request :: "('k, net_event option, errno) st"
  so_write_response :: "nat \<Rightarrow> net_reply \<Rightarrow> ('k, unit, errno) st"
  so_post_fevent :: "nat \<Rightarrow> ('k, unit, errno) st"

subsection \<open>The scheme\<close>

datatype net_handle = NetData | NetMac

record ('a, 'k) net_scheme =
  nt_adapter :: 'a
  nt_scheme_name :: string
  nt_socket :: 'k
  nt_next_id :: nat
  nt_handles :: "(nat \<times> net_handle) list"
  nt_blocked :: "net_request list"

definition net_scheme_new :: "'a \<Rightarrow> string \<Rightarrow> 'k \<Rightarrow> (('a, 'k) net_scheme, errno) res" where
  "net_scheme_new adapter name k = (if take 7 name = ''network''
     then Ok \<lparr>nt_adapter = adapter, nt_scheme_name = name, nt_socket = k, nt_next_id = 0, nt_handles = [], nt_blocked = []\<rparr>
     else Panic)"

definition net_add_handle :: "net_handle \<Rightarrow> ('a, 'k) net_scheme \<Rightarrow> nat \<times> ('a, 'k) net_scheme" where
  "net_add_handle h S = (let fd = nt_next_id S + 1
     in (fd, S\<lparr>nt_next_id := fd, nt_handles := bt_insert fd h (nt_handles S)\<rparr>))"

definition net_remove_handle :: "nat \<Rightarrow> ('a, 'k) net_scheme \<Rightarrow> ('a, 'k) net_scheme" where
  "net_remove_handle fd S = S\<lparr>nt_handles := bt_remove fd (nt_handles S)\<rparr>"

text \<open>The flags of the new file say whether the kernel keeps a position for it.\<close>

definition fd_positioned :: u8 where "fd_positioned = 1"

definition net_xopen :: "string \<Rightarrow> u64 \<Rightarrow> u32 \<Rightarrow> (('a, 'k) net_scheme, (nat \<times> u8) option, errno) st" where
  "net_xopen path flags uid S = (if uid \<noteq> 0 then (Err EACCES, S)
     else case (if path = '''' then Some (NetData, 0) else if path = ''mac'' then Some (NetMac, fd_positioned) else None) of
       None \<Rightarrow> (Err EINVAL, S)
     | Some (h, fd_flags) \<Rightarrow> (case net_add_handle h S of (fd, S') \<Rightarrow> (Ok (Some (fd, fd_flags)), S')))"

definition o_nonblock :: u32 where "o_nonblock = 0x40000"

definition net_read :: "'a adapter \<Rightarrow> nat \<Rightarrow> u64 \<Rightarrow> u32 \<Rightarrow> (('a, 'k) net_scheme \<times> bytes, nat option, errno) st" where
  "net_read N fd offset fcntl_flags = (\<lambda>(S, buf). case map_of (nt_handles S) fd of
      None \<Rightarrow> (Err EBADF, (S, buf))
    | Some NetMac \<Rightarrow> (case na_mac_address N (nt_adapter S) of (mac, a) \<Rightarrow>
        if length mac < unat offset then (Panic, (S\<lparr>nt_adapter := a\<rparr>, buf))
        else let d = drop (unat offset) mac; i = min (length buf) (length d)
             in (Ok (Some i), (S\<lparr>nt_adapter := a\<rparr>, take i d @ drop i buf)))
    | Some NetData \<Rightarrow> (case na_read_packet N (nt_adapter S, buf) of
          (Ok (Some n), (a, buf')) \<Rightarrow> (Ok (Some n), (S\<lparr>nt_adapter := a\<rparr>, buf'))
        | (Ok None, (a, buf')) \<Rightarrow> (if fcntl_flags AND o_nonblock \<noteq> 0 then Err EWOULDBLOCK else Ok None, (S\<lparr>nt_adapter := a\<rparr>, buf'))
        | (Err e, (a, buf')) \<Rightarrow> (Err e, (S\<lparr>nt_adapter := a\<rparr>, buf'))
        | (Panic, (a, buf')) \<Rightarrow> (Panic, (S\<lparr>nt_adapter := a\<rparr>, buf'))
        | (NoFuel, (a, buf')) \<Rightarrow> (NoFuel, (S\<lparr>nt_adapter := a\<rparr>, buf'))))"

definition net_write :: "'a adapter \<Rightarrow> nat \<Rightarrow> bytes \<Rightarrow> (('a, 'k) net_scheme, nat option, errno) st" where
  "net_write N fd buf S = (case map_of (nt_handles S) fd of
      None \<Rightarrow> (Err EBADF, S)
    | Some NetMac \<Rightarrow> (Err EINVAL, S)
    | Some NetData \<Rightarrow> (case na_write_packet N buf (nt_adapter S) of (r, a) \<Rightarrow> (map_res Some r, S\<lparr>nt_adapter := a\<rparr>)))"

definition net_fevent :: "nat \<Rightarrow> (('a, 'k) net_scheme, nat option, errno) st" where
  "net_fevent fd S = (if map_of (nt_handles S) fd = None then Err EBADF else Ok (Some 0), S)"

definition net_fpath :: "nat \<Rightarrow> (('a, 'k) net_scheme \<times> bytes, nat option, errno) st" where
  "net_fpath fd = (\<lambda>(S, buf). case map_of (nt_handles S) fd of
      None \<Rightarrow> (Err EBADF, (S, buf))
    | Some h \<Rightarrow>
        let (i, buf1) = copy_loop 0 (str_bytes (nt_scheme_name S)) buf;
            (i, buf2) = (if i < length buf1 then (i + 1, buf1[i := 0x3A]) else (i, buf1));
            (i, buf3) = copy_loop i (str_bytes (case h of NetData \<Rightarrow> '''' | NetMac \<Rightarrow> ''mac'')) buf2
        in (Ok (Some i), (S, buf3)))"

definition net_fstat :: "nat \<Rightarrow> (('a, 'k) net_scheme \<times> u16 \<times> u64, nat option, errno) st" where
  "net_fstat fd = (\<lambda>(S, mode, sz). case map_of (nt_handles S) fd of
      None \<Rightarrow> (Err EBADF, (S, mode, sz))
    | Some NetData \<Rightarrow> (Ok (Some 0), (S, 0x8000 OR 0x1C0, sz))
    | Some NetMac \<Rightarrow> (Ok (Some 0), (S, 0x8000 OR 0x100, 6)))"

definition net_fsync :: "nat \<Rightarrow> (('a, 'k) net_scheme, nat option, errno) st" where
  "net_fsync fd S = (if map_of (nt_handles S) fd = None then Err EBADF else Ok (Some 0), S)"

definition net_close :: "nat \<Rightarrow> (('a, 'k) net_scheme, nat option, errno) st" where
  "net_close fd S = (if map_of (nt_handles S) fd = None then (Err EBADF, S) else (Ok (Some 0), net_remove_handle fd S))"

text \<open>What the library documents of \<open>handle_scheme_block\<close>: a request calls the method of its kind; an answer \<open>None\<close> of the method means that there is no response yet. A read
  hands back the part of the buffer that it counts.\<close>

definition answer_with :: "('s \<times> 'x, nat option, errno) st \<Rightarrow> 'x \<Rightarrow> (nat \<Rightarrow> 'x \<Rightarrow> net_answer) \<Rightarrow> ('s, net_answer option, errno) st" where
  "answer_with m x g S = (case m (S, x) of (r, (S', x')) \<Rightarrow> (map_res (map_option (\<lambda>n. g n x')) r, S'))"

definition answer_count :: "('s, nat option, errno) st \<Rightarrow> ('s, net_answer option, errno) st" where
  "answer_count m S = (case m S of (r, S') \<Rightarrow> (map_res (map_option NetCount) r, S'))"

fun net_dispatch :: "'a adapter \<Rightarrow> net_call \<Rightarrow> (('a, 'k) net_scheme, net_answer option, errno) st" where
  "net_dispatch N (NetOpen path flags uid) S = (case net_xopen path flags uid S of
     (r, S') \<Rightarrow> (map_res (map_option (\<lambda>(fd, fl). NetOpened fd fl)) r, S'))"
| "net_dispatch N (NetRead fd len offset flags) S =
     answer_with (net_read N fd offset flags) (replicate len 0) (\<lambda>n buf. NetBytes n (take n buf)) S"
| "net_dispatch N (NetWrite fd buf offset flags) S = answer_count (net_write N fd buf) S"
| "net_dispatch N (NetFevent fd) S = answer_count (net_fevent fd) S"
| "net_dispatch N (NetFpath fd len) S = answer_with (net_fpath fd) (replicate len 0) (\<lambda>n buf. NetBytes n (take n buf)) S"
| "net_dispatch N (NetFstat fd mode sz) S = answer_with (net_fstat fd) (mode, sz) (\<lambda>_ st. NetStat (fst st) (snd st)) S"
| "net_dispatch N (NetFsync fd) S = answer_count (net_fsync fd) S"
| "net_dispatch N (NetClose fd) S = answer_count (net_close fd) S"

definition call_method :: "'a adapter \<Rightarrow> net_request \<Rightarrow> (('a, 'k) net_scheme, net_reply option, errno) st" where
  "call_method N rq S = (case net_dispatch N (rq_call rq) S of
      (Ok None, S') \<Rightarrow> (Ok None, S')
    | (Ok (Some x), S') \<Rightarrow> (Ok (Some (Ok x)), S')
    | (Err e, S') \<Rightarrow> (Ok (Some (Err e)), S')
    | (Panic, S') \<Rightarrow> (Panic, S')
    | (NoFuel, S') \<Rightarrow> (NoFuel, S'))"

type_synonym ('a, 'k) block_handler = "net_request \<Rightarrow> (('a, 'k) net_scheme, net_reply option, errno) st"

definition calls_methods :: "'a adapter \<Rightarrow> ('a, 'k) block_handler \<Rightarrow> bool" where
  "calls_methods N handle_scheme_block \<longleftrightarrow> (\<forall>rq S. handle_scheme_block rq S = call_method N rq S)"

subsection \<open>The tick\<close>

definition on_socket :: "('k, 'x, errno) st \<Rightarrow> (('a, 'k) net_scheme, 'x, errno) st" where
  "on_socket m S = (case m (nt_socket S) of (r, k) \<Rightarrow> (r, S\<lparr>nt_socket := k\<rparr>))"

definition remove_at :: "nat \<Rightarrow> 'x list \<Rightarrow> 'x list" where
  "remove_at i xs = take i xs @ drop (Suc i) xs"

text \<open>Every round answers a blocked request or goes on to the next, so there are at most as many rounds as requests.\<close>

primrec retry_blocked :: "nat \<Rightarrow> ('a, 'k) block_handler \<Rightarrow> 'k socket \<Rightarrow> nat \<Rightarrow> (('a, 'k) net_scheme, unit, errno) st" where
  "retry_blocked 0 B K i S = (Ok (), S)"
| "retry_blocked (Suc n) B K i S = (if i < length (nt_blocked S)
     then bind_m (B (nt_blocked S ! i)) (\<lambda>x. case x of
         Some resp \<Rightarrow>
           bind_m (\<lambda>S. case on_socket (so_write_response K (rq_id (nt_blocked S ! i)) resp) S of
               (Err _, S') \<Rightarrow> (Panic, S') | r \<Rightarrow> r) (\<lambda>_ S.
           retry_blocked n B K i (S\<lparr>nt_blocked := remove_at i (nt_blocked S)\<rparr>))
       | None \<Rightarrow> retry_blocked n B K (Suc i)) S
     else (Ok (), S))"

definition position :: "('x \<Rightarrow> bool) \<Rightarrow> 'x list \<Rightarrow> nat option" where
  "position P xs = find (\<lambda>i. P (xs ! i)) [0..<length xs]"

definition handle_event :: "('a, 'k) block_handler \<Rightarrow> 'k socket \<Rightarrow> net_event \<Rightarrow> (('a, 'k) net_scheme, unit, errno) st" where
  "handle_event B K e = (case e of
      CallReq rq \<Rightarrow> bind_m (B rq) (\<lambda>x. case x of
          Some resp \<Rightarrow> on_socket (so_write_response K (rq_id rq) resp)
        | None \<Rightarrow> (\<lambda>S. (Ok (), S\<lparr>nt_blocked := nt_blocked S @ [rq]\<rparr>)))
    | SendFdReq rid \<Rightarrow> on_socket (so_write_response K rid (Err (Errno 95)))
    | CancelReq rid \<Rightarrow> (\<lambda>S. case position (\<lambda>rq. rq_id rq = rid) (nt_blocked S) of
          Some i \<Rightarrow> on_socket (so_write_response K (rq_id (nt_blocked S ! i)) (Err (Errno 4)))
            (S\<lparr>nt_blocked := remove_at i (nt_blocked S)\<rparr>)
        | None \<Rightarrow> (Ok (), S))
    | _ \<Rightarrow> panic_m)"

text \<open>The answer tells whether the daemon goes on; it exits when the scheme is unmounted.\<close>

primrec new_requests :: "nat \<Rightarrow> ('a, 'k) block_handler \<Rightarrow> 'k socket \<Rightarrow> (('a, 'k) net_scheme, bool, errno) st" where
  "new_requests 0 B K S = (NoFuel, S)"
| "new_requests (Suc fuel) B K S = (case on_socket (so_next_request K) S of
      (Ok (Some e), S') \<Rightarrow> bind_m (handle_event B K e) (\<lambda>_. new_requests fuel B K) S'
    | (Ok None, S') \<Rightarrow> (Ok False, S')
    | (Err e, S') \<Rightarrow> (if e = EAGAIN then (Ok True, S') else (Err e, S'))
    | (Panic, S') \<Rightarrow> (Panic, S')
    | (NoFuel, S') \<Rightarrow> (NoFuel, S'))"

primrec notify_readers :: "'k socket \<Rightarrow> nat list \<Rightarrow> (('a, 'k) net_scheme, unit, errno) st" where
  "notify_readers K [] S = (Ok (), S)"
| "notify_readers K (fd # fds) S = bind_m (on_socket (so_post_fevent K fd)) (\<lambda>_. notify_readers K fds) S"

definition tick :: "nat \<Rightarrow> 'a adapter \<Rightarrow> ('a, 'k) block_handler \<Rightarrow> 'k socket \<Rightarrow> (('a, 'k) net_scheme, bool, errno) st" where
  "tick fuel N B K = (\<lambda>S.
     bind_m (retry_blocked (length (nt_blocked S)) B K 0) (\<lambda>_.
     bind_m (new_requests fuel B K) (\<lambda>go.
     if go then \<lambda>S. case na_available_for_read N (nt_adapter S) of (n, a) \<Rightarrow>
         bind_m (if n > 0 then notify_readers K (map fst (nt_handles S)) else return_m ()) (\<lambda>_. return_m True) (S\<lparr>nt_adapter := a\<rparr>)
     else return_m False)) S)"

text \<open>The numbers of handles are managed as every scheme does.\<close>

interpretation net_table: closing_table
  "\<lambda>S. \<forall>fd. map_of (nt_handles S) fd \<noteq> None \<longrightarrow> fd \<le> nt_next_id S" "\<lambda>S. map_of (nt_handles S)" net_add_handle net_remove_handle
  by unfold_locales (auto simp: net_add_handle_def net_remove_handle_def Let_def le_Suc_eq split: if_splits)

subsection \<open>What the scheme needs of an adapter and of the socket\<close>

text \<open>
  An adapter holds packets that have arrived: a read takes the first of them, cut to the buffer, or says that there is
  none; the other operations leave them alone.
\<close>

locale packet_queue =
  fixes N :: "'a adapter" and packets :: "'a \<Rightarrow> bytes list" and good :: "'a \<Rightarrow> bool"
  assumes read_empty: "good a \<Longrightarrow> packets a = [] \<Longrightarrow>
      \<exists>a'. na_read_packet N (a, buf) = (Ok None, (a', buf)) \<and> good a' \<and> packets a' = []"
    and read_next: "good a \<Longrightarrow> packets a = p # ps \<Longrightarrow> n = min (length buf) (length p) \<Longrightarrow>
      \<exists>a'. na_read_packet N (a, buf) = (Ok (Some n), (a', take n p @ drop n buf)) \<and> good a' \<and> packets a' = ps"
    and write_keeps: "good a \<Longrightarrow> na_write_packet N b a = (r, a') \<Longrightarrow> good a' \<and> packets a' = packets a"
    and mac_keeps: "good a \<Longrightarrow> na_mac_address N a = (mac, a') \<Longrightarrow> length mac = 6 \<and> good a' \<and> packets a' = packets a"
    and available_keeps: "good a \<Longrightarrow> na_available_for_read N a = (n, a') \<Longrightarrow>
      good a' \<and> packets a' = packets a \<and> (packets a = [] \<longrightarrow> n = 0)"

text \<open>A socket that does not block: the requests that wait in it are handed out in order, and responses are accepted.\<close>

definition queue_socket :: "'k socket \<Rightarrow> ('k \<Rightarrow> net_event list) \<Rightarrow> ('k \<Rightarrow> (nat \<times> net_reply) list) \<Rightarrow> bool" where
  "queue_socket K inbox sent \<longleftrightarrow> (\<forall>k.
     (inbox k = [] \<longrightarrow> (\<exists>k'. so_next_request K k = (Err EAGAIN, k') \<and> inbox k' = [] \<and> sent k' = sent k)) \<and>
     (\<forall>e es. inbox k = e # es \<longrightarrow> (\<exists>k'. so_next_request K k = (Ok (Some e), k') \<and> inbox k' = es \<and> sent k' = sent k)) \<and>
     (\<forall>i r. \<exists>k'. so_write_response K i r k = (Ok (), k') \<and> inbox k' = inbox k \<and> sent k' = sent k @ [(i, r)]) \<and>
     (\<forall>i. \<exists>k'. so_post_fevent K i k = (Ok (), k') \<and> inbox k' = inbox k \<and> sent k' = sent k))"

text \<open>The packets that were taken are the data of some of the responses, in order, each perhaps cut to the buffer of the reader.\<close>

definition reply_data :: "(nat \<times> net_reply) list \<Rightarrow> bytes list" where
  "reply_data rs = concat (map (\<lambda>(i, r). case r of Ok (NetBytes n d) \<Rightarrow> [d] | _ \<Rightarrow> []) rs)"

definition served :: "(nat \<times> net_reply) list \<Rightarrow> bytes list \<Rightarrow> bool" where
  "served rs ps \<longleftrightarrow> (\<exists>ds. subseq ds (reply_data rs) \<and> list_all2 prefix ds ps)"

lemma served_Nil [simp]: "served rs []"
  by (auto simp: served_def intro!: exI [of _ "[]"])

lemma served_packet: "served [(i, Ok (NetBytes n (take n p)))] [p]"
  by (auto simp: served_def reply_data_def take_is_prefix intro!: exI [of _ "[take n p]"])

lemma served_append:
  assumes "served rs ps" "served rs' ps'"
  shows "served (rs @ rs') (ps @ ps')"
proof -
  obtain ds ds' where "subseq ds (reply_data rs)" "list_all2 prefix ds ps" "subseq ds' (reply_data rs')" "list_all2 prefix ds' ps'"
    using assms by (auto simp: served_def)
  then show ?thesis
    unfolding served_def by (intro exI [of _ "ds @ ds'"]) (simp add: reply_data_def list_emb_append_mono list_all2_appendI)
qed

text \<open>From one state to another: the responses that were written in between and what became of the packets.\<close>

definition progress ::
  "('a \<Rightarrow> bytes list) \<Rightarrow> ('k \<Rightarrow> (nat \<times> net_reply) list) \<Rightarrow> ('a, 'k) net_scheme \<Rightarrow> ('a, 'k) net_scheme \<Rightarrow> (nat \<times> net_reply) list \<Rightarrow> bool"
where
  "progress packets sent S S' rs \<longleftrightarrow> sent (nt_socket S') = sent (nt_socket S) @ rs \<and>
     (\<exists>ps. packets (nt_adapter S) = ps @ packets (nt_adapter S') \<and> served rs ps)"

lemma progress_refl [simp]: "progress packets sent S S []"
  by (auto simp: progress_def)

lemma progress_trans:
  assumes "progress packets sent S S1 rs" "progress packets sent S1 S2 rs'"
  shows "progress packets sent S S2 (rs @ rs')"
proof -
  obtain ps ps' where "packets (nt_adapter S) = ps @ packets (nt_adapter S1)" "served rs ps"
    "packets (nt_adapter S1) = ps' @ packets (nt_adapter S2)" "served rs' ps'" using assms by (auto simp: progress_def)
  then show ?thesis using assms unfolding progress_def
    by (intro conjI exI [of _ "ps @ ps'"]) (simp_all add: served_append)
qed

definition call_fits :: "net_call \<Rightarrow> bool" where
  "call_fits c = (case c of NetRead fd len offset flags \<Rightarrow> unat offset \<le> 6 | _ \<Rightarrow> True)"

definition writes_return :: "'a adapter \<Rightarrow> ('a \<Rightarrow> bool) \<Rightarrow> bool" where
  "writes_return N good \<longleftrightarrow> (\<forall>a b. good a \<longrightarrow> (\<exists>n. fst (na_write_packet N b a) = Ok n) \<or> (\<exists>e. fst (na_write_packet N b a) = Err e))"

definition event_fits :: "net_event \<Rightarrow> bool" where
  "event_fits e = (case e of CallReq rq \<Rightarrow> call_fits (rq_call rq) | SendFdReq i \<Rightarrow> True | CancelReq i \<Rightarrow> True | _ \<Rightarrow> False)"

definition event_ids :: "net_event list \<Rightarrow> nat list" where
  "event_ids es = concat (map (\<lambda>e. case e of CallReq rq \<Rightarrow> [rq_id rq] | SendFdReq i \<Rightarrow> [i] | _ \<Rightarrow> []) es)"

text \<open>What one call does: it is blocked only when there is no packet, and a packet that it takes is in its answer.\<close>

definition call_effect :: "bytes list \<Rightarrow> bytes list \<Rightarrow> (net_answer option, errno) res \<Rightarrow> bool" where
  "call_effect ps ps' x \<longleftrightarrow>
     (x = Ok None \<and> ps = [] \<and> ps' = []) \<or>
     (((\<exists>y. x = Ok (Some y)) \<or> (\<exists>e. x = Err e)) \<and> ps' = ps) \<or>
     (\<exists>p n. ps = p # ps' \<and> x = Ok (Some (NetBytes n (take n p))))"

lemma call_effect_same: "(\<exists>y. x = Ok (Some y)) \<or> (\<exists>e. x = Err e) \<Longrightarrow> call_effect ps ps x"
  by (auto simp: call_effect_def)

context packet_queue
begin

lemma read_effect:
  assumes good: "good (nt_adapter S)" and fits: "unat offset \<le> 6"
  shows "\<exists>x S'. net_dispatch N (NetRead fd len offset flags) S = (x, S') \<and> good (nt_adapter S') \<and>
    nt_socket S' = nt_socket S \<and> nt_blocked S' = nt_blocked S \<and> call_effect (packets (nt_adapter S)) (packets (nt_adapter S')) x"
proof -
  let ?a = "nt_adapter S" and ?buf = "replicate len (0::u8)"
  consider (bad) "map_of (nt_handles S) fd = None" | (mac) "map_of (nt_handles S) fd = Some NetMac"
    | (packet) "map_of (nt_handles S) fd = Some NetData" by (metis net_handle.exhaust option.exhaust)
  then show ?thesis
  proof cases
    case bad
    then show ?thesis using good by (simp add: answer_with_def net_read_def call_effect_same)
  next
    case mac
    obtain m a' where m: "na_mac_address N ?a = (m, a')" by fastforce
    note mac_keeps [OF good m]
    then show ?thesis using mac m fits by (simp add: answer_with_def net_read_def call_effect_same Let_def)
  next
    case packet
    show ?thesis
    proof (cases "packets ?a")
      case Nil
      obtain a' where "na_read_packet N (?a, ?buf) = (Ok None, (a', ?buf))" "good a'" "packets a' = []"
        using read_empty [OF good Nil] by blast
      then show ?thesis using packet Nil by (simp add: answer_with_def net_read_def call_effect_def)
    next
      case (Cons p ps)
      define n where "n = min (length ?buf) (length p)"
      obtain a' where "na_read_packet N (?a, ?buf) = (Ok (Some n), (a', take n p @ drop n ?buf))" "good a'" "packets a' = ps"
        using read_next [OF good Cons n_def] by blast
      then show ?thesis using packet Cons by (auto simp: answer_with_def net_read_def call_effect_def n_def)
    qed
  qed
qed

lemma write_effect:
  assumes good: "good (nt_adapter S)" and wr: "writes_return N good"
  shows "\<exists>x S'. net_dispatch N (NetWrite fd b offset flags) S = (x, S') \<and> good (nt_adapter S') \<and>
    nt_socket S' = nt_socket S \<and> nt_blocked S' = nt_blocked S \<and> call_effect (packets (nt_adapter S)) (packets (nt_adapter S')) x"
proof -
  obtain r a' where w: "na_write_packet N b (nt_adapter S) = (r, a')" by fastforce
  have "(\<exists>n. r = Ok n) \<or> (\<exists>e. r = Err e)"
    using wr good unfolding writes_return_def by (metis w fst_conv)
  then show ?thesis using write_keeps [OF good w] good w
    by (auto simp: answer_count_def net_write_def intro!: call_effect_same split: option.splits net_handle.splits)
qed

lemma dispatch_effect:
  assumes good: "good (nt_adapter S)" and wr: "writes_return N good" and fits: "call_fits c"
  shows "\<exists>x S'. net_dispatch N c S = (x, S') \<and> good (nt_adapter S') \<and>
    nt_socket S' = nt_socket S \<and> nt_blocked S' = nt_blocked S \<and> call_effect (packets (nt_adapter S)) (packets (nt_adapter S')) x"
proof (cases c)
  case (NetRead fd len offset flags)
  then show ?thesis using read_effect [OF good] fits by (simp add: call_fits_def)
next
  case (NetWrite fd b offset flags)
  then show ?thesis using write_effect [OF good wr] by blast
next
  case (NetOpen path flags uid)
  then show ?thesis using good
    by (simp add: net_xopen_def net_add_handle_def Let_def call_effect_same)
next
  case (NetFpath fd len)
  then show ?thesis using good
    by (auto simp: answer_with_def net_fpath_def Let_def case_prod_beta intro!: call_effect_same split: option.splits)
next
  case (NetFstat fd mode sz)
  then show ?thesis using good
    by (auto simp: answer_with_def net_fstat_def intro!: call_effect_same split: option.splits net_handle.splits)
qed (use good in \<open>simp_all add: answer_count_def net_fevent_def net_fsync_def net_close_def net_remove_handle_def call_effect_same\<close>)

definition answer_effect :: "('a, 'k) net_scheme \<Rightarrow> ('a, 'k) net_scheme \<Rightarrow> net_reply option \<Rightarrow> bool" where
  "answer_effect S S' x \<longleftrightarrow> good (nt_adapter S') \<and> nt_socket S' = nt_socket S \<and> nt_blocked S' = nt_blocked S \<and>
     (case x of None \<Rightarrow> packets (nt_adapter S) = [] \<and> packets (nt_adapter S') = []
      | Some r \<Rightarrow> \<exists>ps. packets (nt_adapter S) = ps @ packets (nt_adapter S') \<and> (\<forall>i. served [(i, r)] ps))"

lemma handle_effect:
  assumes "good (nt_adapter S)" "writes_return N good" "call_fits (rq_call rq)"
  shows "\<exists>x S'. call_method N rq S = (Ok x, S') \<and> answer_effect S S' x"
proof -
  obtain x S' where x: "net_dispatch N (rq_call rq) S = (x, S')" and eff: "good (nt_adapter S')"
    "nt_socket S' = nt_socket S" "nt_blocked S' = nt_blocked S" "call_effect (packets (nt_adapter S)) (packets (nt_adapter S')) x"
    using dispatch_effect [OF assms] by blast
  from eff(4) consider (none) "x = Ok None" "packets (nt_adapter S) = []" "packets (nt_adapter S') = []"
    | (ok) y where "x = Ok (Some y)" "packets (nt_adapter S') = packets (nt_adapter S)"
    | (err) e where "x = Err e" "packets (nt_adapter S') = packets (nt_adapter S)"
    | (packet) p n where "packets (nt_adapter S) = p # packets (nt_adapter S')" "x = Ok (Some (NetBytes n (take n p)))"
    unfolding call_effect_def by blast
  then show ?thesis
  proof cases
    case packet
    then have "answer_effect S S' (Some (Ok (NetBytes n (take n p))))"
      using eff(1-3) unfolding answer_effect_def by (auto intro!: exI [of _ "[p]"] served_packet)
    then show ?thesis using x packet by (simp add: call_method_def)
  qed (use x eff in \<open>auto simp: call_method_def answer_effect_def intro!: exI [of _ "[]"]\<close>)
qed

text \<open>A response written after a call is progress.\<close>

lemma respond_progress:
  assumes K: "queue_socket K inbox sent" and eff: "answer_effect S S1 (Some r)"
  shows "\<exists>k. on_socket (so_write_response K i r) S1 = (Ok (), S1\<lparr>nt_socket := k\<rparr>) \<and> inbox k = inbox (nt_socket S) \<and>
    progress packets sent S (S1\<lparr>nt_socket := k, nt_blocked := bl\<rparr>) [(i, r)]"
proof -
  obtain k where k: "so_write_response K i r (nt_socket S1) = (Ok (), k)" "inbox k = inbox (nt_socket S1)"
    "sent k = sent (nt_socket S1) @ [(i, r)]" using K unfolding queue_socket_def by blast
  obtain ps where ps: "packets (nt_adapter S) = ps @ packets (nt_adapter S1)" "\<forall>i. served [(i, r)] ps"
    and same: "nt_socket S1 = nt_socket S" using eff by (auto simp: answer_effect_def)
  show ?thesis
    using k ps same by (intro exI [of _ k]) (auto simp: on_socket_def progress_def intro!: exI [of _ ps])
qed

end

lemma mset_remove_at: "i < length xs \<Longrightarrow> mset xs = add_mset (xs ! i) (mset (remove_at i xs))"
proof -
  assume i: "i < length xs"
  have "mset xs = mset (take i xs @ xs ! i # drop (Suc i) xs)" using id_take_nth_drop [OF i] by simp
  then show ?thesis by (simp add: remove_at_def)
qed

lemma remove_at_subset: "set (remove_at i xs) \<subseteq> set xs"
  by (auto simp: remove_at_def dest: in_set_takeD in_set_dropD)

lemma position_Some: "position P xs = Some i \<Longrightarrow> i < length xs \<and> P (xs ! i)"
  by (auto simp: position_def find_Some_iff)

text \<open>The outcome of a phase of the tick: no request waits while there is a packet, and the requests that were waiting or
  came in are waiting or answered.\<close>

definition settled ::
  "('a \<Rightarrow> bytes list) \<Rightarrow> ('k \<Rightarrow> (nat \<times> net_reply) list) \<Rightarrow> nat list \<Rightarrow> ('a, 'k) net_scheme \<Rightarrow> ('a, 'k) net_scheme \<Rightarrow> (nat \<times> net_reply) list \<Rightarrow> bool"
where
  "settled packets sent new S S' rs \<longleftrightarrow> progress packets sent S S' rs \<and>
     (nt_blocked S' \<noteq> [] \<longrightarrow> packets (nt_adapter S') = []) \<and>
     mset (map rq_id (nt_blocked S')) + mset (map fst rs) = mset (map rq_id (nt_blocked S)) + mset new"

lemma settled_trans:
  assumes "settled packets sent new S S1 rs" "settled packets sent new' S1 S2 rs'"
  shows "settled packets sent (new @ new') S S2 (rs @ rs')"
proof -
  have "mset (map rq_id (nt_blocked S2)) + mset (map fst (rs @ rs')) = mset (map rq_id (nt_blocked S1)) + mset new' + mset (map fst rs)"
    using assms(2) by (simp add: settled_def union_assoc [symmetric])
  also have "\<dots> = mset (map rq_id (nt_blocked S)) + mset (new @ new')"
    using assms(1) by (simp add: settled_def ac_simps)
  finally show ?thesis using assms progress_trans [of packets sent S S1 rs S2 rs'] by (simp add: settled_def)
qed

context packet_queue
begin

lemma retry_step:
  assumes K: "queue_socket K inbox sent" and wr: "writes_return N good" and good: "good (nt_adapter S)"
    and i: "i < length (nt_blocked S)" and fits: "\<forall>rq\<in>set (nt_blocked S). call_fits (rq_call rq)"
  shows "(packets (nt_adapter S) = [] \<and> (\<exists>S1. retry_blocked (Suc n) (call_method N) K i S = retry_blocked n (call_method N) K (Suc i) S1 \<and> good (nt_adapter S1) \<and>
        nt_blocked S1 = nt_blocked S \<and> nt_socket S1 = nt_socket S \<and> packets (nt_adapter S1) = [])) \<or>
    (\<exists>S2 r. retry_blocked (Suc n) (call_method N) K i S = retry_blocked n (call_method N) K i S2 \<and> good (nt_adapter S2) \<and>
        nt_blocked S2 = remove_at i (nt_blocked S) \<and> inbox (nt_socket S2) = inbox (nt_socket S) \<and>
        progress packets sent S S2 [(rq_id (nt_blocked S ! i), r)])"
proof -
  let ?rq = "nt_blocked S ! i"
  have "call_fits (rq_call ?rq)" using fits i by simp
  then obtain x S1 where h: "call_method N ?rq S = (Ok x, S1)" and eff: "answer_effect S S1 x"
    using handle_effect [OF good wr] by blast
  have same: "nt_blocked S1 = nt_blocked S" "nt_socket S1 = nt_socket S" "good (nt_adapter S1)"
    using eff by (simp_all add: answer_effect_def)
  show ?thesis
  proof (cases x)
    case None
    have "packets (nt_adapter S) = []" "packets (nt_adapter S1) = []" using eff None by (simp_all add: answer_effect_def)
    then show ?thesis using h None same i by (intro disjI1 conjI exI [of _ S1]) (simp_all add: bind_m_def)
  next
    case (Some r)
    obtain k where k: "on_socket (so_write_response K (rq_id ?rq) r) S1 = (Ok (), S1\<lparr>nt_socket := k\<rparr>)" "inbox k = inbox (nt_socket S)"
      and pr: "progress packets sent S (S1\<lparr>nt_socket := k, nt_blocked := remove_at i (nt_blocked S)\<rparr>) [(rq_id ?rq, r)]"
      using respond_progress [OF K eff [unfolded Some]] by blast
    show ?thesis
      using h Some k pr same i
      by (intro disjI2 exI [of _ "S1\<lparr>nt_socket := k, nt_blocked := remove_at i (nt_blocked S)\<rparr>"] exI [of _ r]) (simp add: bind_m_def)
  qed
qed

lemma retry_effect:
  assumes K: "queue_socket K inbox sent" and wr: "writes_return N good"
  shows "good (nt_adapter S) \<Longrightarrow> \<forall>rq\<in>set (nt_blocked S). call_fits (rq_call rq) \<Longrightarrow> length (nt_blocked S) = n + i \<Longrightarrow>
    (i > 0 \<longrightarrow> packets (nt_adapter S) = []) \<Longrightarrow>
    \<exists>S' rs. retry_blocked n (call_method N) K i S = (Ok (), S') \<and> good (nt_adapter S') \<and> inbox (nt_socket S') = inbox (nt_socket S) \<and>
      settled packets sent [] S S' rs"
proof (induction n arbitrary: i S)
  case 0
  then show ?case by (intro exI [of _ S] exI [of _ "[]"]) (auto simp: settled_def)
next
  case (Suc n)
  have i: "i < length (nt_blocked S)" using Suc.prems(3) by simp
  from retry_step [OF K wr Suc.prems(1) i Suc.prems(2), of n] show ?case
  proof (elim disjE conjE exE)
    fix S1 assume S1: "packets (nt_adapter S) = []" "retry_blocked (Suc n) (call_method N) K i S = retry_blocked n (call_method N) K (Suc i) S1"
      "good (nt_adapter S1)" "nt_blocked S1 = nt_blocked S" "nt_socket S1 = nt_socket S" "packets (nt_adapter S1) = []"
    have "\<exists>S' rs. retry_blocked n (call_method N) K (Suc i) S1 = (Ok (), S') \<and> good (nt_adapter S') \<and> inbox (nt_socket S') = inbox (nt_socket S1) \<and>
        settled packets sent [] S1 S' rs"
      by (rule Suc.IH) (use S1 Suc.prems in simp_all)
    then show ?case using S1 by (simp add: settled_def progress_def)
  next
    fix S2 r assume S2: "retry_blocked (Suc n) (call_method N) K i S = retry_blocked n (call_method N) K i S2" "good (nt_adapter S2)"
      "nt_blocked S2 = remove_at i (nt_blocked S)" "inbox (nt_socket S2) = inbox (nt_socket S)"
      and pr: "progress packets sent S S2 [(rq_id (nt_blocked S ! i), r)]"
    have "packets (nt_adapter S2) = []" if "i > 0" using Suc.prems(4) pr that by (auto simp: progress_def)
    moreover have "\<forall>rq\<in>set (nt_blocked S2). call_fits (rq_call rq)" using Suc.prems(2) remove_at_subset S2(3) by fastforce
    moreover have "length (nt_blocked S2) = n + i" using Suc.prems(3) i S2(3) by (simp add: remove_at_def)
    ultimately have "\<exists>S' rs. retry_blocked n (call_method N) K i S2 = (Ok (), S') \<and> good (nt_adapter S') \<and> inbox (nt_socket S') = inbox (nt_socket S2) \<and>
        settled packets sent [] S2 S' rs"
      by (intro Suc.IH) (use S2 in simp_all)
    then obtain S' rs where ih: "retry_blocked n (call_method N) K i S2 = (Ok (), S')" "good (nt_adapter S')" "inbox (nt_socket S') = inbox (nt_socket S2)"
      "settled packets sent [] S2 S' rs" by (elim exE conjE) (rule that)
    have "mset (map rq_id (nt_blocked S)) = add_mset (rq_id (nt_blocked S ! i)) (mset (map rq_id (nt_blocked S2)))"
      using mset_remove_at [OF i] S2(3) by simp
    then have "settled packets sent [] S S' ((rq_id (nt_blocked S ! i), r) # rs)"
      using ih(4) progress_trans [OF pr] by (simp add: settled_def)
    then show ?case using S2 ih by (intro exI conjI) simp_all
  qed
qed

lemma event_effect:
  assumes K: "queue_socket K inbox sent" and wr: "writes_return N good" and good: "good (nt_adapter S)" and fits: "event_fits e"
    and idle: "nt_blocked S \<noteq> [] \<longrightarrow> packets (nt_adapter S) = []"
  shows "\<exists>S' rs. handle_event (call_method N) K e S = (Ok (), S') \<and> good (nt_adapter S') \<and> inbox (nt_socket S') = inbox (nt_socket S) \<and>
    settled packets sent (event_ids [e]) S S' rs"
proof (cases e)
  case (CallReq rq)
  have "call_fits (rq_call rq)" using fits CallReq by (simp add: event_fits_def)
  then obtain x S1 where h: "call_method N rq S = (Ok x, S1)" and eff: "answer_effect S S1 x"
    using handle_effect [OF good wr] by blast
  have same: "nt_blocked S1 = nt_blocked S" "nt_socket S1 = nt_socket S" "good (nt_adapter S1)"
    using eff by (simp_all add: answer_effect_def)
  show ?thesis
  proof (cases x)
    case None
    have "packets (nt_adapter S) = []" "packets (nt_adapter S1) = []" using eff None by (simp_all add: answer_effect_def)
    then show ?thesis using h None same CallReq
      by (intro exI [of _ "S1\<lparr>nt_blocked := nt_blocked S1 @ [rq]\<rparr>"] exI [of _ "[]"])
        (simp add: handle_event_def bind_m_def settled_def progress_def event_ids_def)
  next
    case (Some r)
    obtain k where k: "on_socket (so_write_response K (rq_id rq) r) S1 = (Ok (), S1\<lparr>nt_socket := k\<rparr>)" "inbox k = inbox (nt_socket S)"
      and pr: "progress packets sent S (S1\<lparr>nt_socket := k, nt_blocked := nt_blocked S1\<rparr>) [(rq_id rq, r)]"
      using respond_progress [OF K eff [unfolded Some]] by blast
    have "nt_blocked S \<noteq> [] \<longrightarrow> packets (nt_adapter S1) = []" using idle pr by (auto simp: progress_def)
    then show ?thesis using h Some k pr same CallReq
      by (intro exI [of _ "S1\<lparr>nt_socket := k\<rparr>"] exI [of _ "[(rq_id rq, r)]"])
        (simp add: handle_event_def bind_m_def settled_def progress_def event_ids_def)
  qed
next
  case (SendFdReq i)
  have "answer_effect S S (Some (Err (Errno 95)))" using good by (auto simp: answer_effect_def)
  then obtain k where k: "on_socket (so_write_response K i (Err (Errno 95))) S = (Ok (), S\<lparr>nt_socket := k\<rparr>)" "inbox k = inbox (nt_socket S)"
    and pr: "progress packets sent S (S\<lparr>nt_socket := k, nt_blocked := nt_blocked S\<rparr>) [(i, Err (Errno 95))]"
    using respond_progress [OF K] by blast
  then show ?thesis using idle good SendFdReq
    by (intro exI [of _ "S\<lparr>nt_socket := k\<rparr>"] exI [of _ "[(i, Err (Errno 95))]"])
      (simp add: handle_event_def settled_def progress_def event_ids_def)
next
  case (CancelReq c)
  show ?thesis
  proof (cases "position (\<lambda>rq. rq_id rq = c) (nt_blocked S)")
    case None
    then show ?thesis using good idle CancelReq
      by (intro exI [of _ S] exI [of _ "[]"]) (simp add: handle_event_def settled_def event_ids_def)
  next
    case (Some i)
    let ?rq = "nt_blocked S ! i" and ?bl = "remove_at i (nt_blocked S)"
    let ?S1 = "S\<lparr>nt_blocked := ?bl\<rparr>"
    have i: "i < length (nt_blocked S)" using position_Some [OF Some] by simp
    have "answer_effect ?S1 ?S1 (Some (Err (Errno 4)))" using good by (auto simp: answer_effect_def)
    then obtain k where k: "on_socket (so_write_response K (rq_id ?rq) (Err (Errno 4))) ?S1 = (Ok (), ?S1\<lparr>nt_socket := k\<rparr>)"
      "inbox k = inbox (nt_socket ?S1)"
      and pr: "progress packets sent ?S1 (?S1\<lparr>nt_socket := k, nt_blocked := ?bl\<rparr>) [(rq_id ?rq, Err (Errno 4))]"
      using respond_progress [OF K] by blast
    have "packets (nt_adapter S) = []" using idle i by auto
    then show ?thesis using k pr good CancelReq Some mset_remove_at [OF i]
      by (intro exI [of _ "S\<lparr>nt_blocked := ?bl, nt_socket := k\<rparr>"] exI [of _ "[(rq_id ?rq, Err (Errno 4))]"])
        (simp add: handle_event_def settled_def progress_def event_ids_def)
  qed
qed (use fits in \<open>simp_all add: event_fits_def\<close>)

lemma requests_effect:
  assumes K: "queue_socket K inbox sent" and wr: "writes_return N good"
  shows "good (nt_adapter S) \<Longrightarrow> inbox (nt_socket S) = es \<Longrightarrow> length es < fuel \<Longrightarrow> \<forall>e\<in>set es. event_fits e \<Longrightarrow>
    (nt_blocked S \<noteq> [] \<longrightarrow> packets (nt_adapter S) = []) \<Longrightarrow>
    \<exists>S' rs. new_requests fuel (call_method N) K S = (Ok True, S') \<and> good (nt_adapter S') \<and> settled packets sent (event_ids es) S S' rs"
proof (induction es arbitrary: S fuel)
  case Nil
  then obtain f where f: "fuel = Suc f" by (cases fuel) auto
  obtain k where k: "so_next_request K (nt_socket S) = (Err EAGAIN, k)" "sent k = sent (nt_socket S)"
    using K Nil unfolding queue_socket_def by blast
  then show ?case using Nil f
    by (intro exI [of _ "S\<lparr>nt_socket := k\<rparr>"] exI [of _ "[]"]) (simp add: on_socket_def settled_def progress_def event_ids_def)
next
  case (Cons e es)
  then obtain f where f: "fuel = Suc f" "length es < f" by (cases fuel) auto
  obtain k where k: "so_next_request K (nt_socket S) = (Ok (Some e), k)" "inbox k = es" "sent k = sent (nt_socket S)"
    using K Cons.prems(2) unfolding queue_socket_def by blast
  let ?S0 = "S\<lparr>nt_socket := k\<rparr>"
  have "\<exists>S1 rs. handle_event (call_method N) K e ?S0 = (Ok (), S1) \<and> good (nt_adapter S1) \<and> inbox (nt_socket S1) = inbox (nt_socket ?S0) \<and>
      settled packets sent (event_ids [e]) ?S0 S1 rs"
    using Cons.prems by (intro event_effect [OF K wr]) simp_all
  then obtain S1 rs where S1: "handle_event (call_method N) K e ?S0 = (Ok (), S1)" "good (nt_adapter S1)" "inbox (nt_socket S1) = es"
    and st: "settled packets sent (event_ids [e]) ?S0 S1 rs" using k by (elim exE conjE) (rule that; simp)
  have "\<exists>S' rs'. new_requests f (call_method N) K S1 = (Ok True, S') \<and> good (nt_adapter S') \<and> settled packets sent (event_ids es) S1 S' rs'"
    using S1 f(2) Cons.prems(4) st by (intro Cons.IH) (simp_all add: settled_def)
  then obtain S' rs' where S': "new_requests f (call_method N) K S1 = (Ok True, S')" "good (nt_adapter S')" "settled packets sent (event_ids es) S1 S' rs'"
    by (elim exE conjE) (rule that)
  have "settled packets sent (event_ids (e # es)) ?S0 S' (rs @ rs')"
    using settled_trans [OF st S'(3)] by (simp add: event_ids_def)
  then have "settled packets sent (event_ids (e # es)) S S' (rs @ rs')" using k by (simp add: settled_def progress_def)
  then show ?case using k S1 S' f by (intro exI [of _ S'] exI [of _ "rs @ rs'"]) (simp add: on_socket_def bind_m_def)
qed

lemma notify_effect:
  assumes K: "queue_socket K inbox sent"
  shows "\<exists>k. notify_readers K fds S = (Ok (), S\<lparr>nt_socket := k\<rparr>) \<and> sent k = sent (nt_socket S)"
proof (induction fds arbitrary: S)
  case Nil
  then show ?case by (intro exI [of _ "nt_socket S"]) simp
next
  case (Cons fd fds)
  obtain k where k: "so_post_fevent K fd (nt_socket S) = (Ok (), k)" "sent k = sent (nt_socket S)"
    using K unfolding queue_socket_def by blast
  then show ?case using Cons [of "S\<lparr>nt_socket := k\<rparr>"] by (auto simp: on_socket_def bind_m_def)
qed

lemma tick_effect:
  assumes K: "queue_socket K inbox sent" and wr: "writes_return N good" and good: "good (nt_adapter S)"
    and fits: "\<forall>rq\<in>set (nt_blocked S). call_fits (rq_call rq)" "\<forall>e\<in>set (inbox (nt_socket S)). event_fits e"
    and fuel: "length (inbox (nt_socket S)) < fuel" and calls: "calls_methods N B"
  shows "\<exists>S' rs. tick fuel N B K S = (Ok True, S') \<and> good (nt_adapter S') \<and> settled packets sent (event_ids (inbox (nt_socket S))) S S' rs"
proof -
  have B: "B = call_method N" using calls by (intro ext) (simp add: calls_methods_def)
  have "\<exists>S1 rs. retry_blocked (length (nt_blocked S)) (call_method N) K 0 S = (Ok (), S1) \<and> good (nt_adapter S1) \<and>
      inbox (nt_socket S1) = inbox (nt_socket S) \<and> settled packets sent [] S S1 rs"
    using good fits by (intro retry_effect [OF K wr]) simp_all
  then obtain S1 rs where S1: "retry_blocked (length (nt_blocked S)) (call_method N) K 0 S = (Ok (), S1)" "good (nt_adapter S1)"
    "inbox (nt_socket S1) = inbox (nt_socket S)" "settled packets sent [] S S1 rs" by (elim exE conjE) (rule that)
  have "\<exists>S2 rs'. new_requests fuel (call_method N) K S1 = (Ok True, S2) \<and> good (nt_adapter S2) \<and>
      settled packets sent (event_ids (inbox (nt_socket S))) S1 S2 rs'"
    using S1 fits fuel by (intro requests_effect [OF K wr]) (simp_all add: settled_def)
  then obtain S2 rs' where S2: "new_requests fuel (call_method N) K S1 = (Ok True, S2)" "good (nt_adapter S2)"
    "settled packets sent (event_ids (inbox (nt_socket S))) S1 S2 rs'" by (elim exE conjE) (rule that)
  obtain n a where a: "na_available_for_read N (nt_adapter S2) = (n, a)" by fastforce
  note keep = available_keeps [OF S2(2) a]
  let ?S3 = "S2\<lparr>nt_adapter := a\<rparr>"
  obtain k where k: "notify_readers K (map fst (nt_handles S2)) ?S3 = (Ok (), ?S3\<lparr>nt_socket := k\<rparr>)" "sent k = sent (nt_socket S2)"
    using notify_effect [OF K, of "map fst (nt_handles S2)" ?S3] by auto
  have st: "settled packets sent (event_ids (inbox (nt_socket S))) S S2 (rs @ rs')"
    using settled_trans [OF S1(4) S2(3)] by simp
  define S' where "S' = (if n > 0 then ?S3\<lparr>nt_socket := k\<rparr> else ?S3)"
  have "tick fuel N B K S = (Ok True, S')"
    using S1(1) S2(1) a k(1) by (simp add: B tick_def bind_m_def return_m_def S'_def)
  moreover have "settled packets sent (event_ids (inbox (nt_socket S))) S S' (rs @ rs')" "good (nt_adapter S')"
    using st keep k(2) by (simp_all add: S'_def settled_def progress_def)
  ultimately show ?thesis by (intro exI conjI)
qed

end

end
