(* ===== verification/Rx_Ring.thy ===== *)
theory Rx_Ring
  imports Net_Scheme
begin

text \<open>
  Receive rings: descriptors that the adapter fills and the driver empties, both in the order of the ring. What is pending is the run of
  filled descriptors that starts at the driver's index. The interface \<open>receive_ring\<close> extends \<open>packet_queue\<close> by the arrival of a
  packet; its theorem, that packets are read in the order of their arrival, is used for the rings of two drivers.
\<close>

subsection \<open>Runs of filled descriptors\<close>

definition rotated :: "nat \<Rightarrow> 'x list \<Rightarrow> 'x list" where
  "rotated i xs = drop i xs @ take i xs"

definition pending :: "('x \<Rightarrow> bool) \<Rightarrow> nat \<Rightarrow> 'x list \<Rightarrow> 'x list" where
  "pending ready i xs = takeWhile ready (rotated i xs)"

text \<open>No filled descriptor follows behind the run.\<close>

definition one_run :: "('x \<Rightarrow> bool) \<Rightarrow> nat \<Rightarrow> 'x list \<Rightarrow> bool" where
  "one_run ready i xs \<longleftrightarrow> (\<forall>x\<in>set (dropWhile ready (rotated i xs)). \<not> ready x)"

lemma rotated_Cons: "i < length xs \<Longrightarrow> rotated i xs = xs ! i # drop (Suc i) xs @ take i xs"
  by (simp add: rotated_def Cons_nth_drop_Suc [symmetric])

lemma rotated_length [simp]: "length (rotated i xs) = length xs"
  by (cases "i \<le> length xs") (simp_all add: rotated_def)

lemma ring_mod: "i < n \<Longrightarrow> k < n \<Longrightarrow> (i + k) mod n = (if i + k < n then i + k else i + k - n)"
  for n :: nat
  by (cases "i + k < n") (simp_all add: le_mod_geq)

lemma rotated_nth: "i < length xs \<Longrightarrow> k < length xs \<Longrightarrow> rotated i xs ! k = xs ! ((i + k) mod length xs)"
  by (cases "i + k < length xs") (auto simp: rotated_def nth_append ring_mod add.commute)

lemma rotated_next: "i < length xs \<Longrightarrow> rotated (Suc i mod length xs) (xs[i := y]) = drop (Suc i) xs @ take i xs @ [y]"
proof -
  assume i: "i < length xs"
  show ?thesis
  proof (cases "Suc i = length xs")
    case True
    have "xs[i := y] = take i xs @ y # drop (Suc i) xs" using i by (rule upd_conv_take_nth_drop)
    then show ?thesis using True by (simp add: rotated_def)
  next
    case False
    then have "Suc i < length xs" using i by simp
    then show ?thesis using i by (simp add: rotated_def take_Suc_conv_app_nth)
  qed
qed

lemma pending_none: "i < length xs \<Longrightarrow> \<not> ready (xs ! i) \<Longrightarrow> pending ready i xs = []"
  by (simp add: pending_def rotated_Cons)

lemma pending_some: "i < length xs \<Longrightarrow> ready (xs ! i) \<Longrightarrow> pending ready i xs = xs ! i # tl (pending ready i xs)"
  by (simp add: pending_def rotated_Cons)

lemma pending_ready: "i < length xs \<Longrightarrow> pending ready i xs = [] \<longleftrightarrow> \<not> ready (xs ! i)"
  by (simp add: pending_def rotated_Cons)

lemma pending_consume:
  assumes "i < length xs" and "ready (xs ! i)" and "\<not> ready y"
  shows "pending ready (Suc i mod length xs) (xs[i := y]) = tl (pending ready i xs)"
  using assms by (simp add: pending_def rotated_next rotated_Cons takeWhile_tail flip: append_assoc)

lemma one_run_consume:
  assumes "i < length xs" and "ready (xs ! i)" and "\<not> ready y" and "one_run ready i xs"
  shows "one_run ready (Suc i mod length xs) (xs[i := y])"
proof -
  let ?ys = "drop (Suc i) xs @ take i xs"
  have "dropWhile ready (zs @ [y]) = dropWhile ready zs @ [y]" for zs
    using assms(3) by (induction zs) auto
  moreover have "rotated (Suc i mod length xs) (xs[i := y]) = ?ys @ [y]" using assms(1) by (simp add: rotated_next)
  moreover have "dropWhile ready (rotated i xs) = dropWhile ready ?ys" using assms(1,2) by (simp add: rotated_Cons)
  ultimately have "dropWhile ready (rotated (Suc i mod length xs) (xs[i := y])) = dropWhile ready (rotated i xs) @ [y]"
    by (simp only:)
  then show ?thesis using assms(3,4) unfolding one_run_def by simp
qed

lemma rotated_update:
  "i < length xs \<Longrightarrow> k < length xs \<Longrightarrow> rotated i (xs[(i + k) mod length xs := y]) = (rotated i xs)[k := y]"
proof (rule nth_equalityI)
  fix j assume i: "i < length xs" and k: "k < length xs" and "j < length (rotated i (xs[(i + k) mod length xs := y]))"
  then have j: "j < length xs" by simp
  have "(i + k) mod length xs = (i + j) mod length xs \<longleftrightarrow> k = j"
    using i j k by (auto simp: ring_mod)
  moreover have "(i + j) mod length xs < length xs" using i by (intro mod_less_divisor) linarith
  ultimately show "rotated i (xs[(i + k) mod length xs := y]) ! j = (rotated i xs)[k := y] ! j"
    using i j k by (auto simp: rotated_nth nth_list_update)
qed simp

lemma run_fill:
  assumes run: "\<forall>x\<in>set (dropWhile P zs). \<not> P x" and k: "length (takeWhile P zs) < length zs" and y: "P y"
  shows "takeWhile P (zs[length (takeWhile P zs) := y]) = takeWhile P zs @ [y]"
    and "\<forall>x\<in>set (dropWhile P (zs[length (takeWhile P zs) := y])). \<not> P x"
proof -
  have "dropWhile P zs \<noteq> []"
  proof
    assume "dropWhile P zs = []"
    then have "takeWhile P zs = zs" using takeWhile_dropWhile_id [of P zs] by (simp only: append_Nil2)
    then show False using k by (simp only: less_irrefl)
  qed
  then obtain u us where d: "dropWhile P zs = u # us" by (cases "dropWhile P zs") auto
  have z: "zs = takeWhile P zs @ u # us" using takeWhile_dropWhile_id [of P zs] d by simp
  have e: "zs[length (takeWhile P zs) := y] = takeWhile P zs @ y # us"
    by (subst z, subst list_update_append) simp
  have us: "\<forall>x\<in>set us. \<not> P x" using run d by simp
  then have "takeWhile P us = []" "dropWhile P us = us" by (cases us; simp)+
  then show "takeWhile P (zs[length (takeWhile P zs) := y]) = takeWhile P zs @ [y]"
    "\<forall>x\<in>set (dropWhile P (zs[length (takeWhile P zs) := y])). \<not> P x"
    using us y set_takeWhileD [of _ P zs] unfolding e by (auto simp: takeWhile_append dropWhile_append)
qed

lemma pending_fill:
  assumes "i < length xs" "one_run ready i xs" "length (pending ready i xs) < length xs" "ready y"
  shows "pending ready i (xs[(i + length (pending ready i xs)) mod length xs := y]) = pending ready i xs @ [y]"
    and "one_run ready i (xs[(i + length (pending ready i xs)) mod length xs := y])"
proof -
  let ?z = "rotated i xs"
  have k: "length (takeWhile ready ?z) < length xs" using assms(3) unfolding pending_def .
  have u: "rotated i (xs[(i + length (takeWhile ready ?z)) mod length xs := y]) = ?z[length (takeWhile ready ?z) := y]"
    by (rule rotated_update [OF assms(1) k])
  have "length (takeWhile ready ?z) < length ?z" using k by simp
  note fill = run_fill [OF assms(2) [unfolded one_run_def] this assms(4)]
  show "pending ready i (xs[(i + length (pending ready i xs)) mod length xs := y]) = pending ready i xs @ [y]"
    unfolding pending_def u by (rule fill(1))
  show "one_run ready i (xs[(i + length (pending ready i xs)) mod length xs := y])"
    unfolding pending_def one_run_def u by (rule fill(2))
qed

subsection \<open>Packets in the order of their arrival\<close>

datatype ring_step = Arrive bytes | ReadPacket bytes

fun ring_run :: "'a adapter \<Rightarrow> (bytes \<Rightarrow> 'a \<Rightarrow> 'a) \<Rightarrow> ring_step list \<Rightarrow> 'a \<Rightarrow> bytes option list \<times> 'a" where
  "ring_run N deliver [] a = ([], a)"
| "ring_run N deliver (Arrive p # ss) a = ring_run N deliver ss (deliver p a)"
| "ring_run N deliver (ReadPacket buf # ss) a = (case na_read_packet N (a, buf) of (r, (a', buf')) \<Rightarrow>
     case ring_run N deliver ss a' of (out, a'') \<Rightarrow>
       ((case r of Ok (Some n) \<Rightarrow> Some (take n buf') | _ \<Rightarrow> None) # out, a''))"

text \<open>What a queue of packets answers, if it never holds more than a ring has room for.\<close>

fun queue_run :: "ring_step list \<Rightarrow> bytes list \<Rightarrow> bytes option list \<times> bytes list" where
  "queue_run [] ps = ([], ps)"
| "queue_run (Arrive p # ss) ps = queue_run ss (ps @ [p])"
| "queue_run (ReadPacket buf # ss) [] = (None # fst (queue_run ss []), snd (queue_run ss []))"
| "queue_run (ReadPacket buf # ss) (p # ps) = (Some (take (length buf) p) # fst (queue_run ss ps), snd (queue_run ss ps))"

fun queue_fits :: "nat \<Rightarrow> nat \<Rightarrow> ring_step list \<Rightarrow> nat \<Rightarrow> bool" where
  "queue_fits room mtu [] n = True"
| "queue_fits room mtu (Arrive p # ss) n = (n < room \<and> length p \<le> mtu \<and> queue_fits room mtu ss (Suc n))"
| "queue_fits room mtu (ReadPacket buf # ss) n = queue_fits room mtu ss (n - 1)"

locale receive_ring = packet_queue N packets good
  for N :: "'a adapter" and packets :: "'a \<Rightarrow> bytes list" and good :: "'a \<Rightarrow> bool" +
  fixes deliver :: "bytes \<Rightarrow> 'a \<Rightarrow> 'a" and room :: nat and mtu :: nat
  assumes arrive: "good a \<Longrightarrow> length (packets a) < room \<Longrightarrow> length p \<le> mtu \<Longrightarrow>
    good (deliver p a) \<and> packets (deliver p a) = packets a @ [p]"
begin

lemma ring_in_order:
  "good a \<Longrightarrow> queue_fits room mtu ss (length (packets a)) \<Longrightarrow>
    fst (ring_run N deliver ss a) = fst (queue_run ss (packets a)) \<and>
    good (snd (ring_run N deliver ss a)) \<and> packets (snd (ring_run N deliver ss a)) = snd (queue_run ss (packets a))"
proof (induction ss arbitrary: a)
  case (Cons s ss)
  show ?case
  proof (cases s)
    case (Arrive p)
    then have "good (deliver p a)" "packets (deliver p a) = packets a @ [p]"
      using arrive Cons.prems by simp_all
    then show ?thesis using Cons.IH [of "deliver p a"] Cons.prems Arrive by simp
  next
    case (ReadPacket buf)
    show ?thesis
    proof (cases "packets a")
      case Nil
      obtain a' where a': "na_read_packet N (a, buf) = (Ok None, (a', buf))" "good a'" "packets a' = []"
        using read_empty [OF Cons.prems(1) Nil] by blast
      then show ?thesis using Cons.IH [of a'] Cons.prems ReadPacket Nil by (simp add: case_prod_beta)
    next
      case p: (Cons p ps)
      define n where "n = min (length buf) (length p)"
      obtain a' where a': "na_read_packet N (a, buf) = (Ok (Some n), (a', take n p @ drop n buf))" "good a'" "packets a' = ps"
        using read_next [OF Cons.prems(1) p n_def] by blast
      have "take n (take n p @ drop n buf) = take (length buf) p" by (simp add: n_def min_def)
      then show ?thesis using Cons.IH [of a'] Cons.prems ReadPacket p a' by (simp add: case_prod_beta)
    qed
  qed
qed simp

end

end
