(* ===== verification/E1000.thy ===== *)
theory E1000
  imports Rx_Ring
begin

text \<open>
  The driver of the Intel 8254x network adapters (\<open>net/e1000d/src/device.rs\<close>): its rings of receive and transmit descriptors, the
  operations of \<open>NetworkAdapter\<close> and the start of the adapter. The registers are a parameter, and so is what the driver
  finds in a transmit descriptor when it looks whether the adapter is done with it; descriptors and buffers are memory of the driver. That
  memory is freed when a start fails is left out.
\<close>

subsection \<open>State\<close>

record i8_rd =
  i8_rd_buffer :: u64
  i8_rd_length :: u16
  i8_rd_checksum :: u16
  i8_rd_status :: u8
  i8_rd_error :: u8
  i8_rd_special :: u16

record i8_td =
  i8_td_buffer :: u64
  i8_td_length :: u16
  i8_td_cso :: u8
  i8_td_command :: u8
  i8_td_status :: u8
  i8_td_css :: u8
  i8_td_special :: u16

record 'd intel8254x =
  i8_regs :: 'd
  i8_mac_address :: bytes
  i8_receive_buffer :: "bytes list"
  i8_receive_ring :: "i8_rd list"
  i8_receive_index :: nat
  i8_transmit_buffer :: "bytes list"
  i8_transmit_ring :: "i8_td list"
  i8_transmit_ring_free :: nat
  i8_transmit_index :: nat
  i8_transmit_clean_index :: nat

record 'd i8_ops =
  i8_load :: "u32 \<Rightarrow> 'd \<Rightarrow> u32 \<times> 'd"
  i8_store :: "u32 \<Rightarrow> u32 \<Rightarrow> 'd \<Rightarrow> 'd"
  i8_look :: "i8_td \<Rightarrow> 'd \<Rightarrow> i8_td \<times> 'd"
  i8_alloc :: "nat \<Rightarrow> ('d, u64, errno) st"

definition wrap_ring :: "nat \<Rightarrow> nat \<Rightarrow> nat" where
  "wrap_ring i ring_size = (i + 1) AND (ring_size - 1)"

definition i8_read_reg :: "'d i8_ops \<Rightarrow> u32 \<Rightarrow> 'd intel8254x \<Rightarrow> u32 \<times> 'd intel8254x" where
  "i8_read_reg H reg a = (case i8_load H reg (i8_regs a) of (v, d) \<Rightarrow> (v, a\<lparr>i8_regs := d\<rparr>))"

definition i8_write_reg :: "'d i8_ops \<Rightarrow> u32 \<Rightarrow> u32 \<Rightarrow> 'd intel8254x \<Rightarrow> 'd intel8254x" where
  "i8_write_reg H reg v a = snd (i8_read_reg H reg (a\<lparr>i8_regs := i8_store H reg v (i8_regs a)\<rparr>))"

subsection \<open>Packets\<close>

definition i8_mac :: "'d intel8254x \<Rightarrow> bytes \<times> 'd intel8254x" where
  "i8_mac a = (i8_mac_address a, a)"

definition rd_done :: "i8_rd \<Rightarrow> bool" where
  "rd_done r = (i8_rd_status r AND 1 = 1)"

definition i8_available_for_read :: "'d intel8254x \<Rightarrow> nat \<times> 'd intel8254x" where
  "i8_available_for_read a = (let desc = i8_receive_ring a ! i8_receive_index a
     in (if rd_done desc then unat (i8_rd_length desc) else 0, a))"

definition i8_read_packet :: "'d i8_ops \<Rightarrow> ('d intel8254x \<times> bytes, nat option, errno) st" where
  "i8_read_packet H = (\<lambda>(a, buf).
     let i = i8_receive_index a; desc = i8_receive_ring a ! i
     in if rd_done desc then
          let a1 = a\<lparr>i8_receive_ring := (i8_receive_ring a)[i := desc\<lparr>i8_rd_status := 0\<rparr>]\<rparr>
          in if length (i8_receive_buffer a ! i) < unat (i8_rd_length desc) then (Panic, (a1, buf))
             else let data = take (unat (i8_rd_length desc)) (i8_receive_buffer a ! i); n = min (length buf) (length data);
                      a2 = i8_write_reg H 0x2818 (of_nat i) a1
                  in (Ok (Some n), (a2\<lparr>i8_receive_index := wrap_ring i (length (i8_receive_ring a2))\<rparr>, take n data @ drop n buf))
        else (Ok None, (a, buf)))"

text \<open>While all descriptors are in use the driver looks at the oldest one until the adapter has set its status, and then takes back all
  that are done.\<close>

primrec i8_clean :: "nat \<Rightarrow> 'd i8_ops \<Rightarrow> ('d intel8254x, unit, errno) st" where
  "i8_clean 0 H a = (NoFuel, a)"
| "i8_clean (Suc fuel) H a = (case i8_look H (i8_transmit_ring a ! i8_transmit_clean_index a) (i8_regs a) of (desc, d) \<Rightarrow>
     let a1 = a\<lparr>i8_transmit_ring := (i8_transmit_ring a)[i8_transmit_clean_index a := desc], i8_regs := d\<rparr>;
         full = length (i8_transmit_ring a1)
     in if i8_td_status desc \<noteq> 0 then
          let a2 = a1\<lparr>i8_transmit_clean_index := wrap_ring (i8_transmit_clean_index a1) full,
                       i8_transmit_ring_free := i8_transmit_ring_free a1 + 1\<rparr>
          in if i8_transmit_ring_free a2 \<ge> full then (Ok (), a2) else i8_clean fuel H a2
        else if i8_transmit_ring_free a1 > 0 then (Ok (), a1)
        else if i8_transmit_ring_free a1 \<ge> full then (Ok (), a1)
        else i8_clean fuel H a1)"

definition i8_write_packet :: "nat \<Rightarrow> 'd i8_ops \<Rightarrow> bytes \<Rightarrow> ('d intel8254x, nat, errno) st" where
  "i8_write_packet fuel H buf =
     bind_m (\<lambda>a. if i8_transmit_ring_free a = 0 then i8_clean fuel H a else (Ok (), a)) (\<lambda>_ a.
     let i = i8_transmit_index a;
         room = length (i8_transmit_buffer a ! i);
         n = min (length buf) room;
         desc = (i8_transmit_ring a ! i)\<lparr>i8_td_cso := 0, i8_td_command := 1 OR 2 OR 8, i8_td_status := 0, i8_td_css := 0,
           i8_td_special := 0, i8_td_length := of_nat (min (length buf) (room - 1))\<rparr>;
         a1 = a\<lparr>i8_transmit_buffer := (i8_transmit_buffer a)[i := take n buf @ drop n (i8_transmit_buffer a ! i)],
           i8_transmit_ring := (i8_transmit_ring a)[i := desc],
           i8_transmit_index := wrap_ring i (length (i8_transmit_ring a)),
           i8_transmit_ring_free := i8_transmit_ring_free a - 1\<rparr>
     in (Ok n, i8_write_reg H 0x3818 (of_nat (i8_transmit_index a1)) a1))"

definition e1000_adapter :: "nat \<Rightarrow> 'd i8_ops \<Rightarrow> 'd intel8254x adapter" where
  "e1000_adapter fuel H = \<lparr>na_mac_address = i8_mac, na_available_for_read = i8_available_for_read,
     na_read_packet = i8_read_packet H, na_write_packet = i8_write_packet fuel H\<rparr>"

subsection \<open>Start\<close>

definition i8_flag :: "'d i8_ops \<Rightarrow> u32 \<Rightarrow> u32 \<Rightarrow> bool \<Rightarrow> 'd intel8254x \<Rightarrow> 'd intel8254x" where
  "i8_flag H reg flag v a = (case i8_read_reg H reg a of (w, a1) \<Rightarrow>
     i8_write_reg H reg (if v then w OR flag else w AND NOT flag) a1)"

primrec i8_wait :: "nat \<Rightarrow> 'd i8_ops \<Rightarrow> u32 \<Rightarrow> (u32 \<Rightarrow> bool) \<Rightarrow> ('d intel8254x, unit, errno) st" where
  "i8_wait 0 H reg busy a = (NoFuel, a)"
| "i8_wait (Suc fuel) H reg busy a = (case i8_read_reg H reg a of (v, a1) \<Rightarrow>
     if busy v then i8_wait fuel H reg busy (snd (i8_read_reg H reg a1)) else (Ok (), a1))"

definition u32_bytes_le :: "u32 \<Rightarrow> bytes" where
  "u32_bytes_le w = [ucast w, ucast (drop_bit 8 w), ucast (drop_bit 16 w), ucast (drop_bit 24 w)]"

definition i8_init :: "nat \<Rightarrow> 'd i8_ops \<Rightarrow> u64 list \<Rightarrow> u64 \<Rightarrow> u64 list \<Rightarrow> u64 \<Rightarrow> ('d intel8254x, unit, errno) st" where
  "i8_init fuel H rx_phys rx_ring_phys tx_phys tx_ring_phys a =
     bind_m (i8_wait fuel H 0x00 (\<lambda>v. v AND 0x4000000 = 0x4000000)) (\<lambda>_ a.
     let a = i8_flag H 0x00 (0x20 OR 0x40) True a;
         a = i8_flag H 0x00 (0x8 OR 0x80000000 OR 0x80) False a;
         a = i8_write_reg H 0x2C 0 a;
         a = i8_write_reg H 0x28 0 a;
         a = i8_write_reg H 0x30 0 a;
         a = i8_write_reg H 0x170 0 a;
         a = i8_flag H 0x00 0x40000000 False a;
         (mac_low, a) = i8_read_reg H 0x5400 a;
         (mac_high, a) = i8_read_reg H 0x5404 a;
         a = a\<lparr>i8_mac_address := u32_bytes_le mac_low @ take 2 (u32_bytes_le mac_high)\<rparr>;
         a = a\<lparr>i8_receive_ring := map2 (\<lambda>r p. r\<lparr>i8_rd_buffer := p\<rparr>) (i8_receive_ring a) rx_phys\<rparr>;
         a = i8_write_reg H 0x2804 (ucast (drop_bit 32 rx_ring_phys)) a;
         a = i8_write_reg H 0x2800 (ucast rx_ring_phys) a;
         a = i8_write_reg H 0x2808 (of_nat (length (i8_receive_ring a) * 16)) a;
         a = i8_write_reg H 0x2810 0 a;
         a = i8_write_reg H 0x2818 (of_nat (length (i8_receive_ring a)) - 1) a;
         a = a\<lparr>i8_transmit_ring := map2 (\<lambda>t p. t\<lparr>i8_td_buffer := p\<rparr>) (i8_transmit_ring a) tx_phys\<rparr>;
         a = i8_write_reg H 0x3804 (ucast (drop_bit 32 tx_ring_phys)) a;
         a = i8_write_reg H 0x3800 (ucast tx_ring_phys) a;
         a = i8_write_reg H 0x3808 (of_nat (length (i8_transmit_ring a) * 16)) a;
         a = i8_write_reg H 0x3810 0 a;
         a = i8_write_reg H 0x3818 0 a;
         a = i8_write_reg H 0xD0 (0x80 OR 0x40 OR 0x10 OR 0x8) a;
         a = i8_flag H 0x100 0x2 True a;
         a = i8_flag H 0x100 0x8 True a;
         a = i8_flag H 0x100 0x20 True a;
         a = i8_flag H 0x100 (0x40 OR 0x80) False a;
         a = i8_flag H 0x100 0x8000 True a;
         a = i8_flag H 0x100 0x10000 True a;
         a = i8_flag H 0x100 0x20000 False a;
         a = i8_flag H 0x100 0x2000000 True a;
         a = i8_flag H 0x100 0x4000000 True a;
         a = i8_flag H 0x400 0x2 True a;
         a = i8_flag H 0x400 0x8 True a
     in bind_m (i8_wait fuel H 0x08 (\<lambda>v. v AND 2 \<noteq> 2)) (\<lambda>_ a. (Ok (), snd (i8_read_reg H 0x08 a))) a)
     (i8_flag H 0x00 0x4000000 True a)"

definition i8_dma_array :: "'d i8_ops \<Rightarrow> nat \<Rightarrow> nat \<Rightarrow> ('d, u64 list, errno) st" where
  "i8_dma_array H n sz = repeat_m n (i8_alloc H sz)"

definition i8_new :: "nat \<Rightarrow> 'd i8_ops \<Rightarrow> 'd \<Rightarrow> ('d intel8254x, errno) res \<times> 'd" where
  "i8_new fuel H d = bind_m (i8_dma_array H 16 16384) (\<lambda>rx_phys. bind_m (i8_alloc H 256) (\<lambda>rx_ring_phys.
     bind_m (i8_dma_array H 16 16384) (\<lambda>tx_phys. bind_m (i8_alloc H 256) (\<lambda>tx_ring_phys d.
     let a = \<lparr>i8_regs = d, i8_mac_address = replicate 6 0, i8_receive_buffer = replicate 16 (replicate 16384 0),
           i8_receive_ring = replicate 16 \<lparr>i8_rd_buffer = 0, i8_rd_length = 0, i8_rd_checksum = 0, i8_rd_status = 0, i8_rd_error = 0,
             i8_rd_special = 0\<rparr>,
           i8_receive_index = 0, i8_transmit_buffer = replicate 16 (replicate 16384 0),
           i8_transmit_ring = replicate 16 \<lparr>i8_td_buffer = 0, i8_td_length = 0, i8_td_cso = 0, i8_td_command = 0, i8_td_status = 0,
             i8_td_css = 0, i8_td_special = 0\<rparr>,
           i8_transmit_ring_free = 16, i8_transmit_index = 0, i8_transmit_clean_index = 0\<rparr>
     in case i8_init fuel H rx_phys rx_ring_phys tx_phys tx_ring_phys a of
          (Ok _, a') \<Rightarrow> (Ok a', i8_regs a') | (Err e, a') \<Rightarrow> (Err e, i8_regs a')
        | (Panic, a') \<Rightarrow> (Panic, i8_regs a') | (NoFuel, a') \<Rightarrow> (NoFuel, i8_regs a'))))) d"

definition i8_irq :: "'d i8_ops \<Rightarrow> 'd intel8254x \<Rightarrow> bool \<times> 'd intel8254x" where
  "i8_irq H a = (case i8_read_reg H 0xC0 a of (icr, a') \<Rightarrow> (icr \<noteq> 0, a'))"

subsection \<open>The receive ring is a queue of packets\<close>

definition i8_slots :: "'d intel8254x \<Rightarrow> (i8_rd \<times> bytes) list" where
  "i8_slots a = zip (i8_receive_ring a) (i8_receive_buffer a)"

definition slot_done :: "i8_rd \<times> bytes \<Rightarrow> bool" where
  "slot_done s = rd_done (fst s)"

definition slot_packet :: "i8_rd \<times> bytes \<Rightarrow> bytes" where
  "slot_packet s = take (unat (i8_rd_length (fst s))) (snd s)"

definition i8_packets :: "'d intel8254x \<Rightarrow> bytes list" where
  "i8_packets a = map slot_packet (pending slot_done (i8_receive_index a) (i8_slots a))"

definition i8_good :: "'d intel8254x \<Rightarrow> bool" where
  "i8_good a \<longleftrightarrow> length (i8_receive_ring a) = 16 \<and> length (i8_receive_buffer a) = 16 \<and> i8_receive_index a < 16 \<and>
     length (i8_mac_address a) = 6 \<and> (\<forall>b\<in>set (i8_receive_buffer a). length b = 16384) \<and>
     (\<forall>r\<in>set (i8_receive_ring a). unat (i8_rd_length r) \<le> 16384) \<and>
     one_run slot_done (i8_receive_index a) (i8_slots a) \<and>
     length (i8_transmit_ring a) = 16 \<and> i8_transmit_clean_index a < 16 \<and> i8_transmit_ring_free a \<le> 16"

text \<open>The arrival of a packet: the adapter writes it to the first free buffer behind the pending ones and marks its descriptor
  as done and as the end of a packet. It owns all descriptors but the one before the driver's index.\<close>

definition i8_deliver :: "bytes \<Rightarrow> 'd intel8254x \<Rightarrow> 'd intel8254x" where
  "i8_deliver p a = (let j = (i8_receive_index a + length (i8_packets a)) mod 16
     in a\<lparr>i8_receive_ring := (i8_receive_ring a)[j := (i8_receive_ring a ! j)\<lparr>i8_rd_length := of_nat (length p), i8_rd_status := 3\<rparr>],
          i8_receive_buffer := (i8_receive_buffer a)[j := p @ drop (length p) (i8_receive_buffer a ! j)]\<rparr>)"

lemma wrap_ring_16: "wrap_ring i 16 = Suc i mod 16"
  using take_bit_eq_mask [of 4 "Suc i"] by (simp add: wrap_ring_def take_bit_eq_mod mask_numeral)

lemma i8_regs_only [simp]:
  "i8_receive_ring (i8_write_reg H reg v a) = i8_receive_ring a" "i8_receive_buffer (i8_write_reg H reg v a) = i8_receive_buffer a"
  "i8_receive_index (i8_write_reg H reg v a) = i8_receive_index a" "i8_mac_address (i8_write_reg H reg v a) = i8_mac_address a"
  "i8_transmit_ring (i8_write_reg H reg v a) = i8_transmit_ring a" "i8_transmit_ring_free (i8_write_reg H reg v a) = i8_transmit_ring_free a"
  "i8_transmit_clean_index (i8_write_reg H reg v a) = i8_transmit_clean_index a"
  by (simp_all add: i8_write_reg_def i8_read_reg_def split: prod.split)

lemma i8_slots_length: "i8_good a \<Longrightarrow> length (i8_slots a) = 16"
  by (simp add: i8_good_def i8_slots_def)

lemma i8_slot:
  assumes "i8_good a"
  shows "i8_slots a ! i8_receive_index a = (i8_receive_ring a ! i8_receive_index a, i8_receive_buffer a ! i8_receive_index a)"
    and "length (i8_receive_buffer a ! i8_receive_index a) = 16384"
    and "unat (i8_rd_length (i8_receive_ring a ! i8_receive_index a)) \<le> 16384"
  using assms by (simp_all add: i8_good_def i8_slots_def)

lemma i8_same_packets:
  assumes "i8_receive_ring a' = i8_receive_ring a" "i8_receive_buffer a' = i8_receive_buffer a"
    "i8_receive_index a' = i8_receive_index a" "i8_mac_address a' = i8_mac_address a"
    "length (i8_transmit_ring a') = 16" "i8_transmit_clean_index a' < 16" "i8_transmit_ring_free a' \<le> 16"
  shows "i8_good a \<Longrightarrow> i8_good a'" "i8_packets a' = i8_packets a"
  using assms by (simp_all add: i8_good_def i8_packets_def i8_slots_def)

lemma i8_read_none:
  assumes "i8_good a" "i8_packets a = []"
  shows "i8_read_packet H (a, buf) = (Ok None, (a, buf))" "fst (i8_available_for_read a) = 0"
proof -
  have "\<not> rd_done (i8_receive_ring a ! i8_receive_index a)"
    using assms i8_slots_length [OF assms(1)] i8_slot [OF assms(1)] pending_ready [of "i8_receive_index a" "i8_slots a" slot_done]
    by (simp add: i8_packets_def slot_done_def i8_good_def)
  then show "i8_read_packet H (a, buf) = (Ok None, (a, buf))" "fst (i8_available_for_read a) = 0"
    by (simp_all add: i8_read_packet_def i8_available_for_read_def Let_def)
qed

lemma i8_read_some:
  assumes good: "i8_good a" and p: "i8_packets a = p # ps" and n: "n = min (length buf) (length p)"
  shows "\<exists>a'. i8_read_packet H (a, buf) = (Ok (Some n), (a', take n p @ drop n buf)) \<and> i8_good a' \<and> i8_packets a' = ps"
proof -
  define i where "i = i8_receive_index a"
  define xs where "xs = i8_slots a"
  define d where "d = i8_receive_ring a ! i"
  define y where "y = (d\<lparr>i8_rd_status := 0\<rparr>, i8_receive_buffer a ! i)"
  have i: "i < length xs" "length xs = 16" using good i8_slots_length [OF good] by (simp_all add: i_def xs_def i8_good_def)
  have xi: "xs ! i = (d, i8_receive_buffer a ! i)" using i8_slot(1) [OF good] by (simp add: xs_def i_def d_def)
  have filled: "slot_done (xs ! i)"
    using p pending_ready [OF i(1), of slot_done] by (auto simp: i8_packets_def xs_def [symmetric] i_def [symmetric])
  have y: "\<not> slot_done y" by (simp add: y_def slot_done_def rd_done_def)
  have pp: "p = take (unat (i8_rd_length d)) (i8_receive_buffer a ! i)"
    using p pending_some [OF i(1), of slot_done] filled
    by (auto simp: i8_packets_def xs_def [symmetric] i_def [symmetric] xi slot_packet_def)
  have ps: "ps = map slot_packet (tl (pending slot_done i xs))"
    using p by (auto simp: i8_packets_def xs_def [symmetric] i_def [symmetric] map_tl)
  let ?a1 = "a\<lparr>i8_receive_ring := (i8_receive_ring a)[i := d\<lparr>i8_rd_status := 0\<rparr>]\<rparr>"
  let ?a' = "(i8_write_reg H 0x2818 (of_nat i) ?a1)\<lparr>i8_receive_index := Suc i mod 16\<rparr>"
  have len: "length (i8_receive_buffer a ! i) = 16384" "unat (i8_rd_length d) \<le> 16384" "length (i8_receive_ring a) = 16"
    using i8_slot [OF good] good by (simp_all add: i_def d_def i8_good_def)
  have "rd_done d" using filled xi by (simp add: slot_done_def)
  then have run: "i8_read_packet H (a, buf) = (Ok (Some n), (?a', take n p @ drop n buf))"
    using len by (simp add: i8_read_packet_def Let_def i_def [symmetric] d_def [symmetric] wrap_ring_16 pp n)
  have sl: "i8_slots ?a' = xs[i := y]"
    by (simp add: i8_slots_def xs_def y_def zip_update [symmetric])
  have "one_run slot_done (Suc i mod 16) (xs[i := y])"
    using one_run_consume [of i xs slot_done y] i filled y good by (simp add: i8_good_def xs_def i_def)
  then have g: "i8_good ?a'" using good sl i len(2)
    by (auto simp: i8_good_def d_def dest!: set_update_subset_insert [THEN subsetD])
  have "i8_packets ?a' = ps"
    using pending_consume [of i xs slot_done y] i filled y by (simp add: i8_packets_def sl ps)
  with run g show ?thesis by blast
qed

definition same_receiver :: "'d intel8254x \<Rightarrow> 'd intel8254x \<Rightarrow> bool" where
  "same_receiver a a' \<longleftrightarrow> i8_receive_ring a' = i8_receive_ring a \<and> i8_receive_buffer a' = i8_receive_buffer a \<and>
     i8_receive_index a' = i8_receive_index a \<and> i8_mac_address a' = i8_mac_address a"

definition tx_good :: "'d intel8254x \<Rightarrow> bool" where
  "tx_good a \<longleftrightarrow> length (i8_transmit_ring a) = 16 \<and> i8_transmit_clean_index a < 16 \<and> i8_transmit_ring_free a \<le> 16"

lemma i8_good_tx: "i8_good a \<Longrightarrow> tx_good a"
  by (simp add: i8_good_def tx_good_def)

text \<open>One look at the oldest descriptor.\<close>

lemma i8_clean_step:
  assumes tx: "tx_good a" "i8_transmit_ring_free a < 16"
    and l: "i8_look H (i8_transmit_ring a ! i8_transmit_clean_index a) (i8_regs a) = (desc, d)"
  obtains a1 where "same_receiver a a1" "tx_good a1" "i8_regs a1 = d"
    "i8_transmit_ring_free a1 = (if i8_td_status desc \<noteq> 0 then i8_transmit_ring_free a + 1 else i8_transmit_ring_free a)"
    "i8_clean (Suc fuel) H a = (if (if i8_td_status desc \<noteq> 0 then 16 \<le> i8_transmit_ring_free a1 else 0 < i8_transmit_ring_free a1)
       then (Ok (), a1) else i8_clean fuel H a1)"
proof -
  define a0 where "a0 = a\<lparr>i8_transmit_ring := (i8_transmit_ring a)[i8_transmit_clean_index a := desc], i8_regs := d\<rparr>"
  define a1 where "a1 = (if i8_td_status desc \<noteq> 0 then a0\<lparr>i8_transmit_clean_index := Suc (i8_transmit_clean_index a0) mod 16,
    i8_transmit_ring_free := i8_transmit_ring_free a0 + 1\<rparr> else a0)"
  show ?thesis
    by (rule that [of a1])
      (use tx l in \<open>simp_all add: a1_def a0_def same_receiver_def tx_good_def wrap_ring_16 Let_def\<close>)
qed

lemma i8_clean_frame:
  "tx_good a \<Longrightarrow> i8_transmit_ring_free a < 16 \<Longrightarrow> i8_clean fuel H a = (r, a') \<Longrightarrow> same_receiver a a' \<and> tx_good a'"
proof (induction fuel arbitrary: a)
  case 0
  then show ?case by (simp add: same_receiver_def)
next
  case (Suc fuel)
  obtain desc d where l: "i8_look H (i8_transmit_ring a ! i8_transmit_clean_index a) (i8_regs a) = (desc, d)" by fastforce
  obtain a1 where a1: "same_receiver a a1" "tx_good a1"
    "i8_transmit_ring_free a1 = (if i8_td_status desc \<noteq> 0 then i8_transmit_ring_free a + 1 else i8_transmit_ring_free a)"
    "i8_clean (Suc fuel) H a = (if (if i8_td_status desc \<noteq> 0 then 16 \<le> i8_transmit_ring_free a1 else 0 < i8_transmit_ring_free a1)
       then (Ok (), a1) else i8_clean fuel H a1)"
    using i8_clean_step [OF Suc.prems(1,2) l] by metis
  have "same_receiver a1 a' \<and> tx_good a'" if "i8_clean fuel H a1 = (r, a')" "i8_transmit_ring_free a1 < 16"
    by (rule Suc.IH [OF a1(2) that(2,1)])
  then show ?case using a1 Suc.prems by (auto simp: same_receiver_def split: if_splits)
qed

lemma i8_write_frame:
  assumes "tx_good a" "i8_write_packet fuel H b a = (r, a')"
  shows "same_receiver a a' \<and> tx_good a'"
proof -
  show ?thesis
  proof (cases "i8_transmit_ring_free a = 0")
    case True
    obtain q a1 where c: "i8_clean fuel H a = (q, a1)" by fastforce
    then show ?thesis using assms True i8_clean_frame [OF assms(1) _ c]
      by (cases q) (auto simp: i8_write_packet_def bind_m_def Let_def same_receiver_def tx_good_def)
  next
    case False
    then show ?thesis using assms by (auto simp: i8_write_packet_def bind_m_def Let_def same_receiver_def tx_good_def)
  qed
qed

text \<open>An adapter that is done with a descriptor at the latest when the driver has looked at it \<open>B\<close> times more.\<close>

definition i8_completes :: "'d i8_ops \<Rightarrow> nat \<Rightarrow> bool" where
  "i8_completes H B \<longleftrightarrow> (\<exists>m. \<forall>td d. m d \<le> B \<and> (i8_td_status (fst (i8_look H td d)) \<noteq> 0 \<or> m (snd (i8_look H td d)) < m d))"

lemma i8_clean_returns:
  assumes m: "\<And>td d. i8_td_status (fst (i8_look H td d)) \<noteq> 0 \<or> m (snd (i8_look H td d)) < (m d :: nat)"
  shows "tx_good a \<Longrightarrow> i8_transmit_ring_free a < 16 \<Longrightarrow>
    (if i8_transmit_ring_free a = 0 then m (i8_regs a) else 0) + (16 - i8_transmit_ring_free a) < fuel \<Longrightarrow>
    \<exists>a'. i8_clean fuel H a = (Ok (), a')"
proof (induction fuel arbitrary: a)
  case (Suc fuel)
  obtain desc d where l: "i8_look H (i8_transmit_ring a ! i8_transmit_clean_index a) (i8_regs a) = (desc, d)" by fastforce
  have md: "i8_td_status desc \<noteq> 0 \<or> m d < m (i8_regs a)"
    using m [of "i8_transmit_ring a ! i8_transmit_clean_index a" "i8_regs a"] l by simp
  obtain a1 where a1: "tx_good a1" "i8_regs a1 = d"
    "i8_transmit_ring_free a1 = (if i8_td_status desc \<noteq> 0 then i8_transmit_ring_free a + 1 else i8_transmit_ring_free a)"
    "i8_clean (Suc fuel) H a = (if (if i8_td_status desc \<noteq> 0 then 16 \<le> i8_transmit_ring_free a1 else 0 < i8_transmit_ring_free a1)
       then (Ok (), a1) else i8_clean fuel H a1)"
    using i8_clean_step [OF Suc.prems(1,2) l] by metis
  then show ?case using Suc.IH [OF a1(1)] Suc.prems md by (auto split: if_splits)
qed simp

lemma i8_writes_return:
  assumes c: "i8_completes H B" and fuel: "B + 16 < fuel"
  shows "writes_return (e1000_adapter fuel H) i8_good"
proof -
  obtain m where m: "\<And>td d. i8_td_status (fst (i8_look H td d)) \<noteq> 0 \<or> m (snd (i8_look H td d)) < (m d :: nat)" "\<And>d. m d \<le> B"
    using c by (auto simp: i8_completes_def)
  have "\<exists>n. fst (i8_write_packet fuel H b a) = Ok n" if good: "i8_good a" for a b
  proof (cases "i8_transmit_ring_free a = 0")
    case True
    have "\<exists>a'. i8_clean fuel H a = (Ok (), a')"
      using i8_clean_returns [OF m(1) i8_good_tx [OF good], where fuel = fuel] m(2) [of "i8_regs a"] fuel True by simp
    then show ?thesis using True by (auto simp: i8_write_packet_def bind_m_def Let_def)
  qed (simp add: i8_write_packet_def bind_m_def Let_def)
  then show ?thesis by (simp add: writes_return_def e1000_adapter_def)
qed

lemma i8_deliver_effect:
  assumes good: "i8_good a" and room: "length (i8_packets a) < 15" and p: "length p \<le> 16384"
  shows "i8_good (i8_deliver p a) \<and> i8_packets (i8_deliver p a) = i8_packets a @ [p]"
proof -
  define i where "i = i8_receive_index a"
  define xs where "xs = i8_slots a"
  define k where "k = length (pending slot_done i xs)"
  define j where "j = (i + k) mod 16"
  define y where "y = ((i8_receive_ring a ! j)\<lparr>i8_rd_length := of_nat (length p), i8_rd_status := 3\<rparr>, p @ drop (length p) (i8_receive_buffer a ! j))"
  have i: "i < length xs" "length xs = 16" using good i8_slots_length [OF good] by (simp_all add: i_def xs_def i8_good_def)
  have k: "k = length (i8_packets a)" "k < 16" using room by (simp_all add: k_def i8_packets_def xs_def i_def)
  have j: "j < 16" by (simp add: j_def)
  have y: "slot_done y" by (simp add: y_def slot_done_def rd_done_def)
  have run: "one_run slot_done i xs" using good by (simp add: i8_good_def xs_def i_def)
  note fill = pending_fill [OF i(1) run _ y, folded k_def, unfolded i(2), OF k(2), folded j_def]
  have bj: "length (i8_receive_buffer a ! j) = 16384" using good j by (simp add: i8_good_def)
  have lp: "unat (of_nat (length p) :: u16) = length p" using p by (simp add: unat_of_nat take_bit_eq_mod)
  have sl: "i8_slots (i8_deliver p a) = xs[j := y]"
    by (simp add: i8_slots_def i8_deliver_def xs_def y_def zip_update [symmetric] j_def k i_def Let_def)
  have "i8_receive_index (i8_deliver p a) = i" by (simp add: i8_deliver_def i_def Let_def)
  then have "i8_packets (i8_deliver p a) = i8_packets a @ [slot_packet y]"
    using fill(1) by (simp add: i8_packets_def sl xs_def i_def)
  moreover have "slot_packet y = p" by (simp add: slot_packet_def y_def lp)
  moreover have "i8_good (i8_deliver p a)"
    unfolding i8_good_def sl using good fill(2) bj p lp
    by (auto simp: i8_good_def i8_deliver_def Let_def i_def dest!: set_update_subset_insert [THEN subsetD])
  ultimately show ?thesis by simp
qed

interpretation e1000_ring: receive_ring "e1000_adapter fuel H" i8_packets i8_good i8_deliver 15 16384 for fuel H
proof unfold_locales
  fix a :: "'a intel8254x" and buf
  assume "i8_good a" "i8_packets a = []"
  then show "\<exists>a'. na_read_packet (e1000_adapter fuel H) (a, buf) = (Ok None, (a', buf)) \<and> i8_good a' \<and> i8_packets a' = []"
    by (simp add: e1000_adapter_def i8_read_none)
next
  fix a :: "'a intel8254x" and p ps n and buf :: bytes
  assume "i8_good a" "i8_packets a = p # ps" "n = min (length buf) (length p)"
  then show "\<exists>a'. na_read_packet (e1000_adapter fuel H) (a, buf) = (Ok (Some n), (a', take n p @ drop n buf)) \<and>
      i8_good a' \<and> i8_packets a' = ps"
    using i8_read_some [of a p ps n buf H] by (simp add: e1000_adapter_def)
next
  fix a :: "'a intel8254x" and b r a'
  assume "i8_good a" "na_write_packet (e1000_adapter fuel H) b a = (r, a')"
  then show "i8_good a' \<and> i8_packets a' = i8_packets a"
    using i8_write_frame [OF i8_good_tx, of a fuel H b r a'] i8_same_packets [of a' a]
    by (simp add: e1000_adapter_def same_receiver_def tx_good_def)
next
  fix a :: "'a intel8254x" and mac a'
  assume "i8_good a" "na_mac_address (e1000_adapter fuel H) a = (mac, a')"
  then show "length mac = 6 \<and> i8_good a' \<and> i8_packets a' = i8_packets a"
    by (auto simp: e1000_adapter_def i8_mac_def i8_good_def)
next
  fix a :: "'a intel8254x" and n a'
  assume "i8_good a" "na_available_for_read (e1000_adapter fuel H) a = (n, a')"
  then show "i8_good a' \<and> i8_packets a' = i8_packets a \<and> (i8_packets a = [] \<longrightarrow> n = 0)"
    using i8_read_none(2) [of a] by (auto simp: e1000_adapter_def i8_available_for_read_def Let_def)
next
  fix a :: "'a intel8254x" and p :: bytes
  assume "i8_good a" "length (i8_packets a) < 15" "length p \<le> 16384"
  then show "i8_good (i8_deliver p a) \<and> i8_packets (i8_deliver p a) = i8_packets a @ [p]" by (rule i8_deliver_effect)
qed

subsection \<open>The driver under the network scheme\<close>


definition sample_regs :: "unit i8_ops" where
  "sample_regs = \<lparr>i8_load = (\<lambda>r d. (0, d)), i8_store = (\<lambda>r v d. d), i8_look = (\<lambda>td d. (td\<lparr>i8_td_status := 1\<rparr>, d)),
     i8_alloc = (\<lambda>n d. (Ok 0, d))\<rparr>"

definition sample_nic :: "unit intel8254x" where
  "sample_nic = \<lparr>i8_regs = (), i8_mac_address = [2, 0, 0, 0, 0, 1], i8_receive_buffer = replicate 16 (replicate 16384 0),
     i8_receive_ring = replicate 16 \<lparr>i8_rd_buffer = 0, i8_rd_length = 0, i8_rd_checksum = 0, i8_rd_status = 0, i8_rd_error = 0,
       i8_rd_special = 0\<rparr>,
     i8_receive_index = 15, i8_transmit_buffer = replicate 16 (replicate 16384 0),
     i8_transmit_ring = replicate 16 \<lparr>i8_td_buffer = 0, i8_td_length = 0, i8_td_cso = 0, i8_td_command = 0, i8_td_status = 0,
       i8_td_css = 0, i8_td_special = 0\<rparr>,
     i8_transmit_ring_free = 16, i8_transmit_index = 0, i8_transmit_clean_index = 0\<rparr>"

lemma sample_nic_good: "i8_good sample_nic" "i8_packets sample_nic = []"
proof -
  have s: "slot_done x = False" if "x \<in> set (rotated 15 (i8_slots sample_nic))" for x
    using that by (auto simp: rotated_def i8_slots_def sample_nic_def slot_done_def rd_done_def zip_replicate)
  have "takeWhile slot_done (rotated 15 (i8_slots sample_nic)) = []"
    using s by (cases "rotated 15 (i8_slots sample_nic)") auto
  then show "i8_packets sample_nic = []" by (simp add: i8_packets_def pending_def) (simp add: sample_nic_def)
  have "one_run slot_done 15 (i8_slots sample_nic)" using s set_dropWhileD by (fastforce simp: one_run_def)
  then show "i8_good sample_nic" by (simp add: i8_good_def) (simp add: sample_nic_def)
qed



definition sample_socket :: "(net_event list \<times> (nat \<times> net_reply) list) socket" where
  "sample_socket = \<lparr>so_next_request = (\<lambda>(es, rs). case es of [] \<Rightarrow> (Err EAGAIN, ([], rs)) | e # es' \<Rightarrow> (Ok (Some e), (es', rs))),
     so_write_response = (\<lambda>i r (es, rs). (Ok (), (es, rs @ [(i, r)]))), so_post_fevent = (\<lambda>i k. (Ok (), k))\<rparr>"

definition sample_net :: "(unit intel8254x, net_event list \<times> (nat \<times> net_reply) list) net_scheme" where
  "sample_net = \<lparr>nt_adapter = i8_deliver [1, 2] sample_nic, nt_scheme_name = ''network.sample'',
     nt_socket = ([CallReq \<lparr>rq_id = 8, rq_call = NetRead 1 9 0 0\<rparr>], []), nt_next_id = 1, nt_handles = [(1, NetData)],
     nt_blocked = [\<lparr>rq_id = 7, rq_call = NetRead 1 9 0 0\<rparr>]\<rparr>"


end
