(* ===== verification/Rtl8168.thy ===== *)
theory Rtl8168
  imports Rx_Ring
begin

text \<open>
  The driver of the Realtek 8168 network adapters (\<open>net/rtl8168d/src/device.rs\<close>): rings of descriptors with a bit that says who owns
  them, the operations of \<open>NetworkAdapter\<close> and the start of the adapter. The registers are a parameter, and so is what the driver
  finds in a transmit descriptor while it waits for it. Receive and transmit descriptors have the same layout. The
  high priority buffer is only announced to the adapter, so its contents are left out, as is the freeing of memory when a start fails.
\<close>

subsection \<open>State\<close>

record rtl_desc =
  rt_ctrl :: u32
  rt_vlan :: u32
  rt_buffer_low :: u32
  rt_buffer_high :: u32

datatype rtl_reg =
    RtMac nat | RtTnpds nat | RtThpds nat | RtCmd | RtTppoll | RtImr | RtIsr | RtTcr | RtRcr | RtCmd9346 | RtTimerInt
  | RtRms | RtRdsar nat | RtMtps

record 'd rtl8168 =
  rt_regs :: 'd
  rt_receive_buffer :: "bytes list"
  rt_receive_ring :: "rtl_desc list"
  rt_receive_i :: nat
  rt_transmit_buffer :: "bytes list"
  rt_transmit_ring :: "rtl_desc list"
  rt_transmit_i :: nat
  rt_transmit_ring_h :: "rtl_desc list"
  rt_mac_address :: bytes

record 'd rtl_ops =
  rt_load :: "rtl_reg \<Rightarrow> 'd \<Rightarrow> u32 \<times> 'd"
  rt_store :: "rtl_reg \<Rightarrow> u32 \<Rightarrow> 'd \<Rightarrow> 'd"
  rt_look :: "rtl_desc \<Rightarrow> 'd \<Rightarrow> rtl_desc \<times> 'd"
  rt_alloc :: "nat \<Rightarrow> ('d, u64, errno) st"

definition rt_own :: u32 where "rt_own = 0x80000000"
definition rt_eor :: u32 where "rt_eor = 0x40000000"
definition rt_fs :: u32 where "rt_fs = 0x20000000"
definition rt_ls :: u32 where "rt_ls = 0x10000000"

text \<open>\<open>readf\<close> and \<open>writef\<close> of the trait \<open>Io\<close>.\<close>

definition has_flags :: "u32 \<Rightarrow> u32 \<Rightarrow> bool" where
  "has_flags v f = (v AND f = f)"

definition put_flags :: "u32 \<Rightarrow> u32 \<Rightarrow> bool \<Rightarrow> u32" where
  "put_flags v f on = (if on then v OR f else v AND NOT f)"

definition rt_read :: "'d rtl_ops \<Rightarrow> rtl_reg \<Rightarrow> 'd rtl8168 \<Rightarrow> u32 \<times> 'd rtl8168" where
  "rt_read H reg a = (case rt_load H reg (rt_regs a) of (v, d) \<Rightarrow> (v, a\<lparr>rt_regs := d\<rparr>))"

definition rt_write :: "'d rtl_ops \<Rightarrow> rtl_reg \<Rightarrow> u32 \<Rightarrow> 'd rtl8168 \<Rightarrow> 'd rtl8168" where
  "rt_write H reg v a = a\<lparr>rt_regs := rt_store H reg v (rt_regs a)\<rparr>"

definition rt_writef :: "'d rtl_ops \<Rightarrow> rtl_reg \<Rightarrow> u32 \<Rightarrow> bool \<Rightarrow> 'd rtl8168 \<Rightarrow> 'd rtl8168" where
  "rt_writef H reg f on a = (case rt_read H reg a of (v, a1) \<Rightarrow> rt_write H reg (put_flags v f on) a1)"

text \<open>Wait until the flags of a register are no longer set.\<close>

primrec rt_wait :: "nat \<Rightarrow> 'd rtl_ops \<Rightarrow> rtl_reg \<Rightarrow> u32 \<Rightarrow> ('d rtl8168, unit, errno) st" where
  "rt_wait 0 H reg f a = (NoFuel, a)"
| "rt_wait (Suc fuel) H reg f a = (case rt_read H reg a of (v, a1) \<Rightarrow>
     if has_flags v f then rt_wait fuel H reg f a1 else (Ok (), a1))"

subsection \<open>Packets\<close>

definition rt_mac :: "'d rtl8168 \<Rightarrow> bytes \<times> 'd rtl8168" where
  "rt_mac a = (rt_mac_address a, a)"

definition rt_next_read :: "'d rtl8168 \<Rightarrow> nat" where
  "rt_next_read a = (let i = (if rt_receive_i a \<ge> length (rt_receive_ring a) then 0 else rt_receive_i a); rd = rt_receive_ring a ! i
     in if \<not> has_flags (rt_ctrl rd) rt_own then unat (rt_ctrl rd AND 0x3FFF) else 0)"

definition rt_available_for_read :: "'d rtl8168 \<Rightarrow> nat \<times> 'd rtl8168" where
  "rt_available_for_read a = (rt_next_read a, a)"

definition rt_read_packet :: "('d rtl8168 \<times> bytes, nat option, errno) st" where
  "rt_read_packet = (\<lambda>(a, buf).
     let i = (if rt_receive_i a \<ge> length (rt_receive_ring a) then 0 else rt_receive_i a);
         a1 = a\<lparr>rt_receive_i := i\<rparr>;
         rd = rt_receive_ring a ! i
     in if \<not> has_flags (rt_ctrl rd) rt_own then
          let data = rt_receive_buffer a ! i; n = min (length buf) (unat (rt_ctrl rd AND 0x3FFF))
          in if length data < n then (Panic, (a1, data @ drop (length data) buf))
             else (Ok (Some n), (a1\<lparr>rt_receive_ring := (rt_receive_ring a)
                 [i := rd\<lparr>rt_ctrl := rt_own OR (rt_ctrl rd AND rt_eor) OR of_nat (length data)\<rparr>],
               rt_receive_i := i + 1\<rparr>, take n data @ drop n buf))
        else (Ok None, (a1, buf)))"

primrec rt_write_packet :: "nat \<Rightarrow> 'd rtl_ops \<Rightarrow> bytes \<Rightarrow> ('d rtl8168, nat, errno) st" where
  "rt_write_packet 0 H buf a = (NoFuel, a)"
| "rt_write_packet (Suc fuel) H buf a =
     (let i = (if rt_transmit_i a \<ge> length (rt_transmit_ring a) then 0 else rt_transmit_i a)
      in case rt_look H (rt_transmit_ring a ! i) (rt_regs a) of (td, d) \<Rightarrow>
      let a1 = a\<lparr>rt_transmit_i := i, rt_transmit_ring := (rt_transmit_ring a)[i := td], rt_regs := d\<rparr>;
          data = rt_transmit_buffer a ! i
      in if \<not> has_flags (rt_ctrl td) rt_own then
           if length data < length buf then (Err (Errno 90), a1)
           else let n = length buf;
                    a2 = a1\<lparr>rt_transmit_buffer := (rt_transmit_buffer a)[i := buf @ drop n data],
                      rt_transmit_ring := (rt_transmit_ring a1)
                        [i := td\<lparr>rt_ctrl := rt_own OR (rt_ctrl td AND rt_eor) OR rt_fs OR rt_ls OR of_nat n\<rparr>]\<rparr>
                in bind_m (rt_wait fuel H RtTppoll 0x40) (\<lambda>_ a. (Ok n, a\<lparr>rt_transmit_i := rt_transmit_i a + 1\<rparr>))
                     (rt_writef H RtTppoll 0x40 True a2)
         else rt_write_packet fuel H buf a1)"

definition rtl8168_adapter :: "nat \<Rightarrow> 'd rtl_ops \<Rightarrow> 'd rtl8168 adapter" where
  "rtl8168_adapter fuel H = \<lparr>na_mac_address = rt_mac, na_available_for_read = rt_available_for_read,
     na_read_packet = rt_read_packet, na_write_packet = rt_write_packet fuel H\<rparr>"

subsection \<open>Start\<close>

definition rt_irq :: "'d rtl_ops \<Rightarrow> 'd rtl8168 \<Rightarrow> bool \<times> 'd rtl8168" where
  "rt_irq H a = (case rt_read H RtIsr a of (isr, a1) \<Rightarrow> case rt_read H RtImr (rt_write H RtIsr isr a1) of (imr, a2) \<Rightarrow>
     (isr AND imr \<noteq> 0, a2))"

definition rt_le_bytes :: "u32 \<Rightarrow> bytes" where
  "rt_le_bytes w = [ucast w, ucast (drop_bit 8 w), ucast (drop_bit 16 w), ucast (drop_bit 24 w)]"

definition rt_set_buffer :: "rtl_desc \<Rightarrow> u64 \<Rightarrow> rtl_desc" where
  "rt_set_buffer r p = r\<lparr>rt_buffer_low := ucast p, rt_buffer_high := ucast (drop_bit 32 p)\<rparr>"

definition mark_last :: "rtl_desc list \<Rightarrow> rtl_desc list" where
  "mark_last rs = (if rs = [] then [] else rs[length rs - 1 := (last rs)\<lparr>rt_ctrl := put_flags (rt_ctrl (last rs)) rt_eor True\<rparr>])"

definition rt_init ::
  "nat \<Rightarrow> 'd rtl_ops \<Rightarrow> u64 list \<Rightarrow> u64 \<Rightarrow> u64 list \<Rightarrow> u64 \<Rightarrow> u64 list \<Rightarrow> u64 \<Rightarrow> ('d rtl8168, unit, errno) st" where
  "rt_init fuel H rx_phys rx_ring tx_phys tx_ring txh_phys txh_ring a =
     (let (mac_low, a) = rt_read H (RtMac 0) a;
          (mac_high, a) = rt_read H (RtMac 1) a;
          a = a\<lparr>rt_mac_address := rt_le_bytes mac_low @ take 2 (rt_le_bytes mac_high)\<rparr>
      in bind_m (rt_wait fuel H RtCmd 0x10) (\<lambda>_ a.
      let a = a\<lparr>rt_receive_ring := mark_last (map2 (\<lambda>(rd, data) p. (rt_set_buffer rd p)\<lparr>rt_ctrl := rt_own OR of_nat (length data)\<rparr>)
            (zip (rt_receive_ring a) (rt_receive_buffer a)) rx_phys)\<rparr>;
          a = a\<lparr>rt_transmit_ring := mark_last (map2 rt_set_buffer (rt_transmit_ring a) tx_phys)\<rparr>;
          a = a\<lparr>rt_transmit_ring_h := mark_last (map2 rt_set_buffer (rt_transmit_ring_h a) txh_phys)\<rparr>;
          a = rt_write H RtCmd9346 (0x80 OR 0x40) a;
          a = rt_writef H RtCmd (0x8 OR 0x4) True a;
          a = rt_write H RtRms 0x1FF8 a;
          a = rt_write H RtMtps 0x3B a;
          a = rt_write H (RtTnpds 0) (ucast tx_ring) a;
          a = rt_write H (RtTnpds 1) (ucast (drop_bit 32 tx_ring)) a;
          a = rt_write H (RtThpds 0) (ucast txh_ring) a;
          a = rt_write H (RtThpds 1) (ucast (drop_bit 32 txh_ring)) a;
          a = rt_write H (RtRdsar 0) (ucast rx_ring) a;
          a = rt_write H (RtRdsar 1) (ucast (drop_bit 32 rx_ring)) a;
          a = rt_write H RtTimerInt 0 a;
          (isr, a) = rt_read H RtIsr a;
          a = rt_write H RtIsr isr a;
          a = rt_write H RtImr 0xC0FF a;
          a = rt_write H RtTcr 0x3000700 a;
          a = rt_write H RtRcr 0xE70E a;
          a = rt_write H RtCmd9346 0 a
      in (Ok (), a)) (rt_writef H RtCmd 0x10 True a))"

definition rt_new :: "nat \<Rightarrow> 'd rtl_ops \<Rightarrow> 'd \<Rightarrow> ('d rtl8168, errno) res \<times> 'd" where
  "rt_new fuel H d = bind_m (repeat_m 64 (rt_alloc H 0x1FF8)) (\<lambda>rx_phys. bind_m (rt_alloc H 1024) (\<lambda>rx_ring.
     bind_m (repeat_m 16 (rt_alloc H 7552)) (\<lambda>tx_phys. bind_m (rt_alloc H 256) (\<lambda>tx_ring.
     bind_m (repeat_m 1 (rt_alloc H 7552)) (\<lambda>txh_phys. bind_m (rt_alloc H 16) (\<lambda>txh_ring d.
     let z = \<lparr>rt_ctrl = 0, rt_vlan = 0, rt_buffer_low = 0, rt_buffer_high = 0\<rparr>;
         a = \<lparr>rt_regs = d, rt_receive_buffer = replicate 64 (replicate 0x1FF8 0), rt_receive_ring = replicate 64 z, rt_receive_i = 0,
           rt_transmit_buffer = replicate 16 (replicate 7552 0), rt_transmit_ring = replicate 16 z, rt_transmit_i = 0,
           rt_transmit_ring_h = [z], rt_mac_address = replicate 6 0\<rparr>
     in case rt_init fuel H rx_phys rx_ring tx_phys tx_ring txh_phys txh_ring a of
          (Ok _, a') \<Rightarrow> (Ok a', rt_regs a') | (Err e, a') \<Rightarrow> (Err e, rt_regs a')
        | (Panic, a') \<Rightarrow> (Panic, rt_regs a') | (NoFuel, a') \<Rightarrow> (NoFuel, rt_regs a'))))))) d"

subsection \<open>The receive ring is a queue of packets\<close>

definition rt_index :: "'d rtl8168 \<Rightarrow> nat" where
  "rt_index a = (if rt_receive_i a \<ge> length (rt_receive_ring a) then 0 else rt_receive_i a)"

definition rt_slots :: "'d rtl8168 \<Rightarrow> (rtl_desc \<times> bytes) list" where
  "rt_slots a = zip (rt_receive_ring a) (rt_receive_buffer a)"

definition rt_filled :: "rtl_desc \<times> bytes \<Rightarrow> bool" where
  "rt_filled s = (\<not> has_flags (rt_ctrl (fst s)) rt_own)"

definition rt_length :: "rtl_desc \<Rightarrow> nat" where
  "rt_length r = unat (rt_ctrl r AND 0x3FFF)"

definition rt_slot_packet :: "rtl_desc \<times> bytes \<Rightarrow> bytes" where
  "rt_slot_packet s = take (rt_length (fst s)) (snd s)"

definition rt_packets :: "'d rtl8168 \<Rightarrow> bytes list" where
  "rt_packets a = map rt_slot_packet (pending rt_filled (rt_index a) (rt_slots a))"

definition rt_good :: "'d rtl8168 \<Rightarrow> bool" where
  "rt_good a \<longleftrightarrow> length (rt_receive_ring a) = 64 \<and> length (rt_receive_buffer a) = 64 \<and> length (rt_mac_address a) = 6 \<and>
     (\<forall>b\<in>set (rt_receive_buffer a). length b = 0x1FF8) \<and> (\<forall>r\<in>set (rt_receive_ring a). rt_length r \<le> 0x1FF8) \<and>
     one_run rt_filled (rt_index a) (rt_slots a)"

text \<open>The arrival of a packet: the adapter writes it to the first buffer that it owns, keeps the mark of the last descriptor and
  gives the descriptor to the driver.\<close>

definition rt_deliver :: "bytes \<Rightarrow> 'd rtl8168 \<Rightarrow> 'd rtl8168" where
  "rt_deliver p a = (let j = (rt_index a + length (rt_packets a)) mod 64; r = rt_receive_ring a ! j
     in a\<lparr>rt_receive_ring := (rt_receive_ring a)[j := r\<lparr>rt_ctrl := (rt_ctrl r AND rt_eor) OR rt_fs OR rt_ls OR of_nat (length p)\<rparr>],
          rt_receive_buffer := (rt_receive_buffer a)[j := p @ drop (length p) (rt_receive_buffer a ! j)]\<rparr>)"

lemma own_bit: "has_flags v rt_own = bit v 31"
proof
  assume "has_flags v rt_own"
  then have "v AND 2 ^ 31 = 2 ^ 31" by (simp add: has_flags_def rt_own_def)
  then have "bit (v AND 2 ^ 31) 31" by (simp only: bit_exp_iff) simp
  then show "bit v 31" by (simp only: bit_and_iff)
next
  assume b: "bit v 31"
  have "v AND 2 ^ 31 = 2 ^ 31" by (rule bit_eqI) (use b in \<open>auto simp only: bit_and_iff bit_exp_iff\<close>)
  then show "has_flags v rt_own" by (simp add: has_flags_def rt_own_def)
qed

lemma flag_powers: "rt_own = 2 ^ 31" "rt_eor = 2 ^ 30" "rt_fs = 2 ^ 29" "rt_ls = 2 ^ 28"
  by (simp_all add: rt_own_def rt_eor_def rt_fs_def rt_ls_def)

lemma small_bits: "n < 2 ^ 14 \<Longrightarrow> bit (of_nat n :: u32) k \<Longrightarrow> k < 14"
proof (rule ccontr)
  assume n: "n < 2 ^ 14" and b: "bit (of_nat n :: u32) k" and "\<not> k < 14"
  then have "take_bit 14 n = n" "14 \<le> k" by (simp_all add: take_bit_nat_eq_self)
  then have "\<not> bit n k" by (metis bit_take_bit_iff not_less)
  with b show False by (simp add: bit_of_nat_iff bit_simps)
qed

lemma low_14: "v AND 0x3FFF = take_bit 14 v" for v :: u32
  by (simp add: take_bit_eq_mask mask_numeral)

lemma given_back: "has_flags (rt_own OR x OR y) rt_own"
  unfolding own_bit unfolding flag_powers by (simp only: bit_or_iff bit_exp_iff) simp

lemma given_back_length: "n < 2 ^ 14 \<Longrightarrow> unat ((rt_own OR (c AND rt_eor) OR of_nat n) AND 0x3FFF) = n"
proof -
  assume n: "n < 2 ^ 14"
  have "(rt_own OR (c AND rt_eor) OR of_nat n) AND 0x3FFF = (of_nat n :: u32)"
    unfolding low_14 flag_powers
    by (rule bit_eqI) (use small_bits [OF n] in \<open>auto simp: bit_take_bit_iff bit_or_iff bit_and_iff bit_exp_iff\<close>)
  then show ?thesis using n by (simp add: unat_of_nat take_bit_eq_mod)
qed

lemma arrived_desc:
  assumes n: "n < 2 ^ 14"
  shows "\<not> has_flags ((c AND rt_eor) OR rt_fs OR rt_ls OR of_nat n) rt_own"
    and "unat (((c AND rt_eor) OR rt_fs OR rt_ls OR of_nat n) AND 0x3FFF) = n"
proof -
  show "\<not> has_flags ((c AND rt_eor) OR rt_fs OR rt_ls OR of_nat n) rt_own"
    unfolding own_bit unfolding flag_powers using small_bits [OF n, of 31] by (simp only: bit_or_iff bit_and_iff bit_exp_iff) auto
  have "((c AND rt_eor) OR rt_fs OR rt_ls OR of_nat n) AND 0x3FFF = (of_nat n :: u32)"
    unfolding low_14 flag_powers
    by (rule bit_eqI) (use small_bits [OF n] in \<open>auto simp: bit_take_bit_iff bit_or_iff bit_and_iff bit_exp_iff\<close>)
  then show "unat (((c AND rt_eor) OR rt_fs OR rt_ls OR of_nat n) AND 0x3FFF) = n"
    using n by (simp add: unat_of_nat take_bit_eq_mod)
qed

lemma rt_same_packets:
  assumes "rt_receive_ring a' = rt_receive_ring a" "rt_receive_buffer a' = rt_receive_buffer a"
    "rt_index a' = rt_index a" "rt_mac_address a' = rt_mac_address a"
  shows "rt_good a' = rt_good a" "rt_packets a' = rt_packets a"
  using assms by (simp_all add: rt_good_def rt_packets_def rt_slots_def)

lemma rt_slot:
  assumes "rt_good a"
  shows "rt_index a < 64" "length (rt_slots a) = 64"
    and "rt_slots a ! rt_index a = (rt_receive_ring a ! rt_index a, rt_receive_buffer a ! rt_index a)"
    and "length (rt_receive_buffer a ! rt_index a) = 0x1FF8" and "rt_length (rt_receive_ring a ! rt_index a) \<le> 0x1FF8"
proof -
  show i: "rt_index a < 64" using assms by (simp add: rt_index_def rt_good_def)
  then show "length (rt_slots a) = 64"
    "rt_slots a ! rt_index a = (rt_receive_ring a ! rt_index a, rt_receive_buffer a ! rt_index a)"
    "length (rt_receive_buffer a ! rt_index a) = 0x1FF8" "rt_length (rt_receive_ring a ! rt_index a) \<le> 0x1FF8"
    using assms by (simp_all add: rt_good_def rt_slots_def)
qed

lemma rt_next_index: "rt_good a \<Longrightarrow> i < 64 \<Longrightarrow> rt_receive_i a' = Suc i \<Longrightarrow> length (rt_receive_ring a') = 64 \<Longrightarrow> rt_index a' = Suc i mod 64"
  by (cases "i = 63") (simp_all add: rt_index_def)

lemma rt_read_none:
  assumes "rt_good a" "rt_packets a = []"
  shows "\<exists>a'. rt_read_packet (a, buf) = (Ok None, (a', buf)) \<and> rt_good a' \<and> rt_packets a' = []" "rt_next_read a = 0"
proof -
  have own: "has_flags (rt_ctrl (rt_receive_ring a ! rt_index a)) rt_own"
    using assms rt_slot [OF assms(1)] pending_ready [of "rt_index a" "rt_slots a" rt_filled]
    by (simp add: rt_packets_def rt_filled_def)
  let ?a' = "a\<lparr>rt_receive_i := rt_index a\<rparr>"
  have "rt_index ?a' = rt_index a" using rt_slot(1) [OF assms(1)] assms(1) by (simp add: rt_index_def rt_good_def)
  then have "rt_good ?a' \<and> rt_packets ?a' = []" using rt_same_packets [of ?a' a] assms by simp
  moreover have "rt_read_packet (a, buf) = (Ok None, (?a', buf))"
    using own by (simp add: rt_read_packet_def Let_def flip: rt_index_def)
  ultimately show "\<exists>a'. rt_read_packet (a, buf) = (Ok None, (a', buf)) \<and> rt_good a' \<and> rt_packets a' = []" by blast
  show "rt_next_read a = 0" using own by (simp add: rt_next_read_def Let_def flip: rt_index_def)
qed

lemma rt_read_some:
  assumes good: "rt_good a" and p: "rt_packets a = p # ps" and n: "n = min (length buf) (length p)"
  shows "\<exists>a'. rt_read_packet (a, buf) = (Ok (Some n), (a', take n p @ drop n buf)) \<and> rt_good a' \<and> rt_packets a' = ps"
proof -
  define i where "i = rt_index a"
  define xs where "xs = rt_slots a"
  define d where "d = rt_receive_ring a ! i"
  define d' where "d' = d\<lparr>rt_ctrl := rt_own OR (rt_ctrl d AND rt_eor) OR of_nat 0x1FF8\<rparr>"
  define y where "y = (d', rt_receive_buffer a ! i)"
  note slot = rt_slot [OF good, folded i_def xs_def]
  have i: "i < length xs" using slot(1,2) by simp
  have xi: "xs ! i = (d, rt_receive_buffer a ! i)" using slot(3) by (simp add: d_def)
  have filled: "rt_filled (xs ! i)"
    using p pending_ready [OF i, of rt_filled] by (auto simp: rt_packets_def xs_def [symmetric] i_def [symmetric])
  have y: "\<not> rt_filled y" by (simp add: y_def d'_def rt_filled_def given_back)
  have pp: "p = take (rt_length d) (rt_receive_buffer a ! i)"
    using p pending_some [OF i, of rt_filled] filled
    by (auto simp: rt_packets_def xs_def [symmetric] i_def [symmetric] xi rt_slot_packet_def)
  have ps: "ps = map rt_slot_packet (tl (pending rt_filled i xs))"
    using p by (auto simp: rt_packets_def xs_def [symmetric] i_def [symmetric] map_tl)
  let ?a' = "a\<lparr>rt_receive_i := Suc i, rt_receive_ring := (rt_receive_ring a)[i := d']\<rparr>"
  have len: "length (rt_receive_buffer a ! i) = 0x1FF8" "rt_length d \<le> 0x1FF8" "length (rt_receive_ring a) = 64"
    using slot good by (simp_all add: d_def rt_good_def)
  have n': "n = min (length buf) (rt_length d)" using len by (simp add: n pp min_def)
  have "take n (rt_receive_buffer a ! i) = take n p" using n' by (simp add: pp min_def)
  then have run: "rt_read_packet (a, buf) = (Ok (Some n), (?a', take n p @ drop n buf))"
    using filled xi len n'
    by (simp add: rt_read_packet_def Let_def rt_filled_def rt_length_def d'_def flip: rt_index_def i_def d_def)
  have idx: "rt_index ?a' = Suc i mod 64" using slot(1) len(3) by (intro rt_next_index [OF good]) simp_all
  have sl: "rt_slots ?a' = xs[i := y]" by (simp add: rt_slots_def xs_def y_def zip_update [symmetric])
  have "one_run rt_filled (Suc i mod 64) (xs[i := y])"
    using one_run_consume [of i xs rt_filled y] i slot(2) filled y good by (simp add: rt_good_def xs_def i_def)
  moreover have "rt_length d' \<le> 0x1FF8" unfolding rt_length_def d'_def using given_back_length [of "0x1FF8" "rt_ctrl d"] by simp
  ultimately have g: "rt_good ?a'" unfolding rt_good_def idx sl using good
    by (auto simp: rt_good_def dest!: set_update_subset_insert [THEN subsetD])
  have "rt_packets ?a' = ps"
    unfolding rt_packets_def idx sl ps using pending_consume [of i xs rt_filled y] i slot(2) filled y by simp
  with run g show ?thesis by blast
qed

lemma rt_deliver_effect:
  assumes good: "rt_good a" and room: "length (rt_packets a) < 64" and p: "length p \<le> 0x1FF8"
  shows "rt_good (rt_deliver p a) \<and> rt_packets (rt_deliver p a) = rt_packets a @ [p]"
proof -
  define i where "i = rt_index a"
  define xs where "xs = rt_slots a"
  define k where "k = length (pending rt_filled i xs)"
  define j where "j = (i + k) mod 64"
  define r where "r = (rt_receive_ring a ! j)
    \<lparr>rt_ctrl := (rt_ctrl (rt_receive_ring a ! j) AND rt_eor) OR rt_fs OR rt_ls OR of_nat (length p)\<rparr>"
  define y where "y = (r, p @ drop (length p) (rt_receive_buffer a ! j))"
  note slot = rt_slot [OF good, folded i_def xs_def]
  have i: "i < length xs" using slot(1,2) by simp
  have k: "k = length (rt_packets a)" "k < 64" using room by (simp_all add: k_def rt_packets_def xs_def i_def)
  have j: "j < 64" by (simp add: j_def)
  have n: "length p < 2 ^ 14" using p by simp
  have y: "rt_filled y" and ly: "rt_length r = length p"
    using arrived_desc [OF n] by (simp_all add: y_def r_def rt_filled_def rt_length_def)
  have run: "one_run rt_filled i xs" using good by (simp add: rt_good_def xs_def i_def)
  note fill = pending_fill [OF i run _ y, folded k_def, unfolded slot(2), OF k(2), folded j_def]
  have bj: "length (rt_receive_buffer a ! j) = 0x1FF8" using good j by (simp add: rt_good_def)
  have dl: "rt_deliver p a = a\<lparr>rt_receive_ring := (rt_receive_ring a)[j := r], rt_receive_buffer := (rt_receive_buffer a)[j := snd y]\<rparr>"
    by (simp add: rt_deliver_def j_def k i_def Let_def r_def y_def)
  have sl: "rt_slots (rt_deliver p a) = xs[j := y]" by (simp add: dl rt_slots_def xs_def y_def zip_update [symmetric])
  have idx: "rt_index (rt_deliver p a) = i" by (simp add: dl rt_index_def i_def)
  have "rt_packets (rt_deliver p a) = rt_packets a @ [rt_slot_packet y]"
    unfolding rt_packets_def sl idx using fill(1) by (simp add: xs_def i_def)
  moreover have "rt_slot_packet y = p" by (simp add: rt_slot_packet_def y_def ly)
  moreover have "rt_good (rt_deliver p a)"
    unfolding rt_good_def sl idx using good fill(2) bj p ly
    by (auto simp: rt_good_def dl y_def dest!: set_update_subset_insert [THEN subsetD])
  ultimately show ?thesis by simp
qed

definition same_rx :: "'d rtl8168 \<Rightarrow> 'd rtl8168 \<Rightarrow> bool" where
  "same_rx a a' \<longleftrightarrow> rt_receive_ring a' = rt_receive_ring a \<and> rt_receive_buffer a' = rt_receive_buffer a \<and>
     rt_receive_i a' = rt_receive_i a \<and> rt_mac_address a' = rt_mac_address a"

lemma rt_wait_frame: "rt_wait fuel H reg f a = (r, a') \<Longrightarrow> same_rx a a'"
proof (induction fuel arbitrary: a)
  case (Suc fuel)
  then show ?case by (fastforce simp: same_rx_def rt_read_def split: prod.splits if_splits)
qed (simp add: same_rx_def)

lemma rt_write_frame: "rt_write_packet fuel H b a = (r, a') \<Longrightarrow> same_rx a a'"
proof (induction fuel arbitrary: a)
  case (Suc fuel)
  define i where "i = (if rt_transmit_i a \<ge> length (rt_transmit_ring a) then 0 else rt_transmit_i a)"
  obtain td d where l: "rt_look H (rt_transmit_ring a ! i) (rt_regs a) = (td, d)" by fastforce
  define a1 where "a1 = a\<lparr>rt_transmit_i := i, rt_transmit_ring := (rt_transmit_ring a)[i := td], rt_regs := d\<rparr>"
  have a1: "same_rx a a1" by (simp add: a1_def same_rx_def)
  define n where "n = length b"
  define a2 where "a2 = rt_writef H RtTppoll 0x40 True (a1\<lparr>rt_transmit_buffer := (rt_transmit_buffer a)[i := b @ drop n (rt_transmit_buffer a ! i)],
    rt_transmit_ring := (rt_transmit_ring a1)[i := td\<lparr>rt_ctrl := rt_own OR (rt_ctrl td AND rt_eor) OR rt_fs OR rt_ls OR of_nat n\<rparr>]\<rparr>)"
  have a2: "same_rx a a2" using a1
    by (simp add: a2_def rt_writef_def rt_read_def rt_write_def same_rx_def split: prod.split)
  have step: "rt_write_packet (Suc fuel) H b a = (if \<not> has_flags (rt_ctrl td) rt_own then
      if length (rt_transmit_buffer a ! i) < n then (Err (Errno 90), a1)
      else bind_m (rt_wait fuel H RtTppoll 0x40) (\<lambda>_ a. (Ok n, a\<lparr>rt_transmit_i := rt_transmit_i a + 1\<rparr>)) a2
    else rt_write_packet fuel H b a1)"
    using l by (simp add: Let_def a1_def a2_def n_def i_def [symmetric])
  obtain q a3 where w: "rt_wait fuel H RtTppoll 0x40 a2 = (q, a3)" by fastforce
  note a3 = rt_wait_frame [OF w]
  have "same_rx a1 a'" if "rt_write_packet fuel H b a1 = (r, a')" by (rule Suc.IH [OF that])
  then show ?case using Suc.prems a1 a2 a3 w unfolding step
    by (cases q) (auto simp: bind_m_def same_rx_def split: if_splits)
qed (simp add: same_rx_def)

interpretation rtl8168_ring: receive_ring "rtl8168_adapter fuel H" rt_packets rt_good rt_deliver 64 "0x1FF8" for fuel H
proof unfold_locales
  fix a :: "'a rtl8168" and buf
  assume "rt_good a" "rt_packets a = []"
  then show "\<exists>a'. na_read_packet (rtl8168_adapter fuel H) (a, buf) = (Ok None, (a', buf)) \<and> rt_good a' \<and> rt_packets a' = []"
    using rt_read_none(1) [of a buf] by (simp add: rtl8168_adapter_def)
next
  fix a :: "'a rtl8168" and p ps n and buf :: bytes
  assume "rt_good a" "rt_packets a = p # ps" "n = min (length buf) (length p)"
  then show "\<exists>a'. na_read_packet (rtl8168_adapter fuel H) (a, buf) = (Ok (Some n), (a', take n p @ drop n buf)) \<and>
      rt_good a' \<and> rt_packets a' = ps"
    using rt_read_some [of a p ps n buf] by (simp add: rtl8168_adapter_def)
next
  fix a :: "'a rtl8168" and b r a'
  assume "rt_good a" "na_write_packet (rtl8168_adapter fuel H) b a = (r, a')"
  then show "rt_good a' \<and> rt_packets a' = rt_packets a"
    using rt_write_frame [of fuel H b a r a'] rt_same_packets [of a' a] by (simp add: rtl8168_adapter_def same_rx_def rt_index_def)
next
  fix a :: "'a rtl8168" and mac a'
  assume "rt_good a" "na_mac_address (rtl8168_adapter fuel H) a = (mac, a')"
  then show "length mac = 6 \<and> rt_good a' \<and> rt_packets a' = rt_packets a"
    by (auto simp: rtl8168_adapter_def rt_mac_def rt_good_def)
next
  fix a :: "'a rtl8168" and n a'
  assume "rt_good a" "na_available_for_read (rtl8168_adapter fuel H) a = (n, a')"
  then show "rt_good a' \<and> rt_packets a' = rt_packets a \<and> (rt_packets a = [] \<longrightarrow> n = 0)"
    using rt_read_none(2) [of a] by (auto simp: rtl8168_adapter_def rt_available_for_read_def)
next
  fix a :: "'a rtl8168" and p :: bytes
  assume "rt_good a" "length (rt_packets a) < 64" "length p \<le> 0x1FF8"
  then show "rt_good (rt_deliver p a) \<and> rt_packets (rt_deliver p a) = rt_packets a @ [p]" by (rule rt_deliver_effect)
qed


definition sample_rtl_regs :: "unit rtl_ops" where
  "sample_rtl_regs = \<lparr>rt_load = (\<lambda>r d. (0, d)), rt_store = (\<lambda>r v d. d), rt_look = (\<lambda>td d. (td, d)), rt_alloc = (\<lambda>n d. (Ok 0, d))\<rparr>"

definition sample_rtl :: "unit rtl8168" where
  "sample_rtl = \<lparr>rt_regs = (), rt_receive_buffer = replicate 64 (replicate 0x1FF8 0),
     rt_receive_ring = replicate 64 \<lparr>rt_ctrl = 0x80001FF8, rt_vlan = 0, rt_buffer_low = 0, rt_buffer_high = 0\<rparr>, rt_receive_i = 63,
     rt_transmit_buffer = [], rt_transmit_ring = [], rt_transmit_i = 0, rt_transmit_ring_h = [], rt_mac_address = [2, 0, 0, 0, 0, 1]\<rparr>"

lemma sample_rtl_good: "rt_good sample_rtl" "rt_packets sample_rtl = []"
proof -
  have i: "rt_index sample_rtl = 63" by (simp add: rt_index_def sample_rtl_def)
  have s: "rt_filled x = False" if "x \<in> set (rotated 63 (rt_slots sample_rtl))" for x
    using that by (auto simp: rotated_def rt_slots_def sample_rtl_def rt_filled_def has_flags_def rt_own_def zip_replicate)
  have "takeWhile rt_filled (rotated 63 (rt_slots sample_rtl)) = []"
    using s by (cases "rotated 63 (rt_slots sample_rtl)") auto
  then show "rt_packets sample_rtl = []" by (simp add: rt_packets_def pending_def i)
  have "one_run rt_filled 63 (rt_slots sample_rtl)" using s set_dropWhileD by (fastforce simp: one_run_def)
  then show "rt_good sample_rtl" by (simp add: rt_good_def i) (simp add: sample_rtl_def rt_length_def)
qed


end
