(* ===== verification/Spec2Isabelle.thy ===== *)
theory Spec2Isabelle
  imports Block_IO Dma_Mem Xhci_Trb Xhci_Ring Xhci_Context Nvme_Queues Nvme_Controller
    Scsi_Cmds Xhci_Client Bot_Transport Scsi_Disk Usb_Stack Virtio_Transport Nvme_Scheme
    Hid_Input E1000 Rtl8168
begin

text \<open>
  A verification development of the Redox OS drivers.

  \<^bold>\<open>The program.\<close> The repository holds the drivers of Redox OS, one daemon per kind of device. A driver talks to its device through
  registers and through memory that both can reach (rings of descriptors, contexts, buffers), and to its clients through a scheme: the
  kernel turns their calls on files into requests that the daemon answers. Drivers build on each other through files: the USB disk driver
  and the USB keyboard driver use the client library of the USB host controller daemon, and all network drivers share one scheme.

  \<^bold>\<open>How the code is modelled.\<close> \<open>Rust_Prelude\<close> has the vocabulary. Fallible code answers a value of \<open>('a, 'e) res\<close>: \<open>Ok\<close>, \<open>Err\<close>,
  \<open>Panic\<close> for every panic, failed assertion, \<open>unwrap\<close> and index out of range, and \<open>NoFuel\<close> for a loop that needs more rounds than it is
  given. Code with effects is \<open>('s, 'a, 'e) st\<close>, a function from a state to a result and a state, and \<open>bind_m\<close> is the question mark.
  Structures are records and enums are datatypes with the names of the source; machine integers are words, and where the code adds
  without a check the sum wraps, as in a release build. What is not part of the repository (the kernel, devices, third-party crates) is a
  record of operations that the definitions take as an argument; what a theorem needs of it is a named hypothesis of the theorem, such
  as \<open>block_disk\<close>, \<open>queue_socket\<close> or \<open>i8_completes\<close>, and every witness instantiates it.

  \<^bold>\<open>Memory and blocks.\<close>
  \<^item> \<open>Dma_Mem\<close>: \<open>common/src/dma.rs\<close> and \<open>sgl.rs\<close>; the chunks of a scatter-gather list partition the buffer.
  \<^item> \<open>Block_IO\<close>: \<open>storage/driver-block/src/lib.rs\<close>; the reader of the partition parser reads the bytes of the disk at every offset. Its
    interface \<open>block_source\<close> is interpreted for the disks of this crate and for NVMe namespaces.
  \<^item> \<open>Ring_Cursor\<close> is the interface of all rings with a cursor that wraps and a bit that flips; it is interpreted for the xHCI and the
    NVMe rings. \<open>Handle_Table\<close> is the interface of the tables of open files, interpreted
    for the schemes of xHCI, the USB disk, the three disk daemons and the network. \<open>Scheme_Support\<close> and \<open>Rust_Fmt\<close>
    have ordered maps, paths and decimal numbers.

  \<^bold>\<open>USB.\<close>
  \<^item> \<open>Xhci_Trb\<close>, \<open>Xhci_Ring\<close>, \<open>Xhci_Context\<close>: \<open>trb.rs\<close>, \<open>ring.rs\<close>, \<open>event.rs\<close>, \<open>context.rs\<close> of \<open>xhcid/src/xhci\<close>; blocks decode to what their
    builders were given, and a ring with its lazily written link block refines a queue.
  \<^item> \<open>Xhci_Reactor\<close>: \<open>irq_reactor.rs\<close>; an event reaches the future that waits for it, and no future is served twice.
  \<^item> \<open>Xhci_State\<close>, \<open>Xhci_Transfers\<close>, \<open>Xhci_Descriptors\<close>, \<open>Xhci_Configure\<close>, \<open>Xhci_Scheme\<close>: \<open>mod.rs\<close>, \<open>scheme.rs\<close>, \<open>usb/\<close>: transfers, the
    parser of configurations and when its loop ends, endpoint contexts, and the files of the daemon.
  \<^item> \<open>Xhci_Client\<close>: \<open>driver_interface.rs\<close>, the client library, with the interface \<open>usb_pipe\<close> of class drivers. \<open>Usb_Stack\<close> puts client,
    daemon, rings and reactor together: a read through the library gives the bytes that the device stored.
  \<^item> \<open>Bot_Transport\<close>, \<open>Scsi_Cmds\<close>, \<open>Scsi_Disk\<close>: \<open>storage/usbscsid\<close>; a command reaches every device that follows the bulk-only protocol
    as a well-formed wrapper, its status is the one of the command, and reading a disk gives its blocks.

  \<^bold>\<open>Disks.\<close>
  \<^item> \<open>Nvme_Queues\<close>, \<open>Nvme_Controller\<close>, \<open>Nvme_Scheme\<close>: \<open>storage/nvmed\<close>; completions are taken in order and once across the turns of the
    phase tag, transfers of any length move the bytes of the namespace, and so do handles of partitions.
  \<^item> \<open>Disk_Scheme\<close>: \<open>scheme.rs\<close> of \<open>ahcid\<close>, \<open>ided\<close> and \<open>bcm2835-sdhcid\<close>, over a disk that is a parameter; the three answer alike, names
    open what they list, and partitions are placed where their table says. The interface \<open>locking_scheme\<close> gives the exclusion of
    overlapping handles for these three and for NVMe.
  \<^item> \<open>Virtio_Queue\<close>, \<open>Virtio_Transport\<close>: \<open>virtio-core\<close>; whatever the device writes, every descriptor is free or in one request, and a
    request on an idle queue completes.

  \<^bold>\<open>Input.\<close>
  \<^item> \<open>Ps2_Controller\<close>: \<open>input/ps2d/src/controller.rs\<close>; the start succeeds on every PC, whatever is left in the buffer.
  \<^item> \<open>Keymaps\<close>, \<open>Ps2_Input\<close>: \<open>keymap.rs\<close>, \<open>state.rs\<close>, \<open>vm.rs\<close>; the state machines for the bytes of keyboard and mouse are equal to parsers of
    the whole stream.
  \<^item> \<open>Hid_Input\<close>: \<open>input/usbhidd\<close>; both keyboard drivers send the same event for the same key, and a report is summarised as it should be.

  \<^bold>\<open>Network.\<close>
  \<^item> \<open>Net_Scheme\<close>: \<open>net/driver-network/src/lib.rs\<close>; its interface \<open>packet_queue\<close> is what the scheme needs of an adapter, and the lemmas about
    the tick are proved in it. \<open>Rx_Ring\<close> extends it to \<open>receive_ring\<close> by the arrival of packets.
  \<^item> \<open>E1000\<close>, \<open>Rtl8168\<close>: \<open>device.rs\<close> of \<open>net/e1000d\<close> and \<open>net/rtl8168d\<close>, which interpret these interfaces; packets are read in the order of
    their arrival, and a tick answers or keeps every request exactly once.

  \<^bold>\<open>Bounds and fuel.\<close> Loops over data are structural recursion. Loops that wait for a device take fuel, and the theorems say how much is
  enough: for NVMe and the Intel network adapter the number of looks after which the device has answered plus the entries of the ring, for
  the tick one more than the requests in the socket, for the parser of descriptors the number of bytes. The waits of the PS/2 controller
  are bounded in the code. Counters of handles are natural numbers; the code would wrap after \<open>2 ^ 64\<close> opens.

  \<^bold>\<open>Not modelled.\<close>
  \<^item> Start-up code of the daemons, threads, event loops and the enumeration of devices (\<open>main.rs\<close> files, \<open>pcid\<close>, \<open>hwd\<close>,
    \<open>xhcid/src/xhci/device_enumerator.rs\<close>): sequences of system calls with no state of their own.
  \<^item> The register programming of \<open>ahcid\<close>, \<open>ided\<close>, \<open>bcm2835-sdhcid\<close>, of the sound and graphics drivers and of the network adapters other
    than the two above: its correctness is that of the device it programs, of which the repository has no description.
  \<^item> \<open>acpid\<close> and \<open>amlserde\<close>, which hand tables to a third-party interpreter.
  \<^item> \<open>inputd\<close>, \<open>vboxd\<close> and the consoles, which have not been translated.
  \<^item> The asynchronous build of \<open>nvmed\<close> and its identification commands, the streams of chunks of the USB client library, the daemons
    over \<open>virtio-core\<close>.
  \<^item> \<open>common/src/io\<close> and the log: volatile accesses and output. Messages that code prints are left out everywhere.
\<close>

end
